(* ===== verification/Prelude.thy ===== *)
theory Prelude
  imports Main "HOL-Library.AList"
begin

text \<open>
  What the components share: the type of Go maps and the operations the sources use on
  them, the type of rendered messages, insertion sort as \<^verbatim>\<open>sort.Strings\<close> and
  \<^verbatim>\<open>sort.Ints\<close> use it, and the lemma collections of the development.

  A Go map is an association list with distinct keys. \<open>mget\<close> is \<^verbatim>\<open>m[k]\<close> with its
  presence bit, \<open>mput\<close> is \<^verbatim>\<open>m[k] = v\<close>, \<open>mdel\<close> is \<^verbatim>\<open>delete(m, k)\<close>. Go leaves the
  order of a range loop over a map open; a definition that ranges over a map takes the
  order of the list, and where that could matter the components prove that it does not.
\<close>

named_theorems gomap_simps \<open>lookup after an update or a delete of a Go map\<close>
named_theorems word_simps \<open>the string a constant of the contract stands for\<close>
named_theorems fold_laws \<open>what one step of a loop adds to its accumulator\<close>

section \<open>Go maps\<close>

type_synonym 'v gomap = "(string \<times> 'v) list"

definition mget :: "'v gomap \<Rightarrow> string \<Rightarrow> 'v option" where
  "mget m k = map_of m k"

definition mput :: "string \<Rightarrow> 'v \<Rightarrow> 'v gomap \<Rightarrow> 'v gomap" where
  "mput k v m = AList.update k v m"

definition mdel :: "string \<Rightarrow> 'v gomap \<Rightarrow> 'v gomap" where
  "mdel k m = AList.delete k m"

definition mhas :: "'v gomap \<Rightarrow> string \<Rightarrow> bool" where
  "mhas m k = (mget m k \<noteq> None)"

definition mkeys :: "'v gomap \<Rightarrow> string list" where
  "mkeys m = map fst m"

definition wf_map :: "'v gomap \<Rightarrow> bool" where
  "wf_map m = distinct (map fst m)"

lemma mget_empty [gomap_simps, simp]: "mget [] k = None"
  by (simp add: mget_def)

lemma mget_put [gomap_simps]: "mget (mput k v m) j = (if j = k then Some v else mget m j)"
  by (simp add: mget_def mput_def update_conv')

lemma mget_del [gomap_simps]: "mget (mdel k m) j = (if j = k then None else mget m j)"
  by (simp add: mget_def mdel_def delete_conv')

lemma mget_Cons [gomap_simps]: "mget ((a, b) # m) k = (if k = a then Some b else mget m k)"
  by (simp add: mget_def)

lemma wf_map_empty [simp]: "wf_map []"
  by (simp add: wf_map_def)

lemma wf_map_put [simp, intro]: "wf_map m \<Longrightarrow> wf_map (mput k v m)"
  by (simp add: wf_map_def mput_def distinct_update)

lemma wf_map_del [simp, intro]: "wf_map m \<Longrightarrow> wf_map (mdel k m)"
  by (simp add: wf_map_def mdel_def distinct_delete)

lemma set_mkeys: "set (mkeys m) = {k. mhas m k}"
  by (auto simp: mkeys_def mhas_def mget_def map_of_eq_None_iff)

lemma mhas_iff_key: "mhas m k \<longleftrightarrow> k \<in> set (mkeys m)"
  by (simp add: set_mkeys)

lemma mget_Some_in: "mget m k = Some v \<Longrightarrow> (k, v) \<in> set m"
  by (simp add: mget_def map_of_SomeD)

lemma mget_in_wf: "wf_map m \<Longrightarrow> (k, v) \<in> set m \<Longrightarrow> mget m k = Some v"
  by (simp add: mget_def wf_map_def)

lemma mhas_put: "mhas (mput k v m) j \<longleftrightarrow> j = k \<or> mhas m j"
  by (simp add: mhas_def mget_put)

lemma mhas_del: "mhas (mdel k m) j \<longleftrightarrow> j \<noteq> k \<and> mhas m j"
  by (simp add: mhas_def mget_del)

lemma mhas_empty [simp]: "\<not> mhas [] k"
  by (simp add: mhas_def)

lemmas mhas_simps = mhas_put mhas_del mhas_empty

section \<open>Sets of names as Go maps to bool\<close>

text \<open>
  \<^verbatim>\<open>map[string]bool\<close> is only ever written with \<^verbatim>\<open>true\<close> in the modelled code, so reading
  \<^verbatim>\<open>m[k]\<close> (false when absent) is membership.
\<close>

type_synonym nameset = "bool gomap"

definition flagged :: "nameset \<Rightarrow> string \<Rightarrow> bool" where
  "flagged m k = (mget m k = Some True)"

lemma flagged_put [gomap_simps]: "flagged (mput k b m) j = (if j = k then b else flagged m j)"
  by (simp add: flagged_def mget_put)

lemma flagged_del [gomap_simps]: "flagged (mdel k m) j = (j \<noteq> k \<and> flagged m j)"
  by (simp add: flagged_def mget_del)

lemma flagged_empty [gomap_simps, simp]: "\<not> flagged [] k"
  by (simp add: flagged_def)

lemma flagged_mhas: "flagged m k \<Longrightarrow> mhas m k"
  by (simp add: flagged_def mhas_def)

section \<open>Loops that collect\<close>

lemma filter_Nil_iff: "filter P xs = [] \<longleftrightarrow> (\<forall>x \<in> set xs. \<not> P x)"
  by (simp add: filter_empty_conv)

lemma concat_map_single: "concat (map (\<lambda>x. [f x]) xs) = map f xs"
  by (induction xs) auto

lemma foldr_append_concat: "foldr (\<lambda>x acc. f x @ acc) xs [] = concat (map f xs)"
  by (induction xs) auto

lemma foldl_append_concat: "foldl (\<lambda>acc x. acc @ f x) ys xs = ys @ concat (map f xs)"
  by (induction xs arbitrary: ys) auto

section \<open>Loop invariants\<close>

text \<open>
  A loop is a fold of its body over what it ranges over. What the body keeps, the loop
  keeps, and what the body does not look at, the loop does not change.
\<close>

locale loop_invariant =
  fixes step :: "'x \<Rightarrow> 's \<Rightarrow> 's" and inv :: "'s \<Rightarrow> bool"
  assumes step_inv: "inv s \<Longrightarrow> inv (step x s)"
begin

lemma fold_inv: "inv s \<Longrightarrow> inv (fold step xs s)"
  by (induction xs arbitrary: s) (auto intro: step_inv)

end

locale loop_view =
  fixes step :: "'x \<Rightarrow> 's \<Rightarrow> 's" and view :: "'s \<Rightarrow> 'v"
  assumes step_view: "view s = view t \<Longrightarrow> view (step x s) = view (step x t)"
begin

lemma fold_view: "view s = view t \<Longrightarrow> view (fold step xs s) = view (fold step xs t)"
proof (induction xs arbitrary: s t)
  case (Cons x xs)
  show ?case unfolding fold_simps by (rule Cons.IH[OF step_view[OF Cons.prems]])
qed simp

end

section \<open>Folds that bound what they fold\<close>

text \<open>
  The contract of a running maximum or minimum over the values for which it is meant:
  the accumulator stays such a value and bounds everything read so far.
\<close>

locale bounding_fold =
  fixes step :: "'a \<Rightarrow> 'a \<Rightarrow> 'a" and ok :: "'a \<Rightarrow> bool" and le :: "'a \<Rightarrow> 'a \<Rightarrow> bool"
  assumes step_ok: "ok a \<Longrightarrow> ok b \<Longrightarrow> ok (step a b)"
    and step_old: "ok a \<Longrightarrow> ok b \<Longrightarrow> le a (step a b)"
    and step_new: "ok a \<Longrightarrow> ok b \<Longrightarrow> le b (step a b)"
    and le_refl: "ok a \<Longrightarrow> le a a"
    and le_trans: "ok a \<Longrightarrow> ok b \<Longrightarrow> ok c \<Longrightarrow> le a b \<Longrightarrow> le b c \<Longrightarrow> le a c"
begin

lemma foldl_bound:
  "ok a \<Longrightarrow> list_all ok xs \<Longrightarrow> ok (foldl step a xs) \<and> list_all (\<lambda>x. le x (foldl step a xs)) (a # xs)"
proof (induction xs arbitrary: a)
  case Nil
  then show ?case using le_refl by simp
next
  case (Cons x xs)
  then have x: "ok x" "ok (step a x)" using step_ok by auto
  have ih: "ok (foldl step (step a x) xs)" "le (step a x) (foldl step (step a x) xs)"
    "list_all (\<lambda>y. le y (foldl step (step a x) xs)) xs"
    using Cons.IH[OF x(2)] Cons.prems(2) by simp_all
  have "le a (foldl step (step a x) xs)" "le x (foldl step (step a x) xs)"
    using le_trans[OF _ x(2) ih(1) _ ih(2)] step_old[OF Cons.prems(1) x(1)] step_new[OF Cons.prems(1) x(1)]
      Cons.prems(1) x(1) by blast+
  then show ?case using ih by simp
qed

end

end
