(* ===== verification/Go_Float.thy ===== *)
theory Go_Float
  imports Prelude Complex_Main "HOL-Library.Log_Nat"
begin

text \<open>
  The part of Go's \<^verbatim>\<open>float64\<close> the sources compute with: the values, rounding to nearest
  even, comparison, addition, \<^verbatim>\<open>strconv.ParseFloat(s, 64)\<close> and
  \<^verbatim>\<open>strconv.FormatFloat(x, 'f', -1, 64)\<close>.

  A finite double is the rational number it denotes; \<open>is_f64\<close> says which rationals are
  doubles. Zero has two values, \<open>Fin 0\<close> and \<open>NegZero\<close>, which compare equal and print
  differently. \<open>ParseFloat\<close> answers \<open>None\<close> where the library returns an error, a syntax
  error and a range error alike: no caller in the sources tells them apart or reads the
  number returned beside an error.
\<close>

section \<open>Values\<close>

datatype float64 = NaN | PosInf | NegInf | NegZero | Fin rat

fun fval :: "float64 \<Rightarrow> rat" where
  "fval (Fin q) = q"
| "fval _ = 0"

fun IsNaN :: "float64 \<Rightarrow> bool" where
  "IsNaN NaN = True"
| "IsNaN _ = False"

fun IsInf :: "float64 \<Rightarrow> bool" where
  "IsInf PosInf = True"
| "IsInf NegInf = True"
| "IsInf _ = False"

definition is_finite :: "float64 \<Rightarrow> bool" where
  "is_finite x = (\<not> IsNaN x \<and> \<not> IsInf x)"

text \<open>\<^verbatim>\<open><\<close>, \<^verbatim>\<open><=\<close> and \<^verbatim>\<open>==\<close> on doubles: every comparison with a NaN is false.\<close>

fun flt :: "float64 \<Rightarrow> float64 \<Rightarrow> bool" where
  "flt NaN _ = False"
| "flt _ NaN = False"
| "flt NegInf y = (y \<noteq> NegInf)"
| "flt x NegInf = False"
| "flt PosInf _ = False"
| "flt x PosInf = True"
| "flt x y = (fval x < fval y)"

definition feq :: "float64 \<Rightarrow> float64 \<Rightarrow> bool" where
  "feq x y = (\<not> IsNaN x \<and> \<not> IsNaN y \<and>
     (if IsInf x \<or> IsInf y then x = y else fval x = fval y))"

definition fle :: "float64 \<Rightarrow> float64 \<Rightarrow> bool" where
  "fle x y = (flt x y \<or> feq x y)"

section \<open>Rounding to nearest, ties to even\<close>

definition round_even :: "rat \<Rightarrow> int" where
  "round_even q = (let f = \<lfloor>q\<rfloor>; d = q - of_int f in
     if d < 1/2 then f else if 1/2 < d then f + 1 else if even f then f else f + 1)"

text \<open>\<open>ilog b q\<close> is the integer \<open>k\<close> with \<open>b ^ k \<le> q < b ^ (k + 1)\<close>, for positive \<open>q\<close>.\<close>

definition ilog :: "nat \<Rightarrow> rat \<Rightarrow> int" where
  "ilog b q = (case quotient_of q of (n, d) \<Rightarrow>
     (let k = int (floorlog b (nat n)) - int (floorlog b (nat d)) in
      if of_nat b powi k \<le> q then k else k - 1))"

text \<open>
  A positive double is \<open>m * 2 ^ e\<close> with a 53-bit \<open>m\<close> and \<open>-1074 \<le> e \<le> 971\<close>; the rounding
  of a positive rational picks the exponent of its binade (or the subnormal one) and rounds
  the quotient.
\<close>

definition f64_exp :: "rat \<Rightarrow> int" where
  "f64_exp q = max (-1074) (ilog 2 q - 52)"

definition round_mag :: "rat \<Rightarrow> rat" where
  "round_mag q = of_int (round_even (q / 2 powi f64_exp q)) * 2 powi f64_exp q"

definition round_f64 :: "rat \<Rightarrow> float64" where
  "round_f64 q =
     (if q = 0 then Fin 0
      else (let r = round_mag \<bar>q\<bar> in
        if 2 ^ 1024 \<le> r then (if q < 0 then NegInf else PosInf)
        else if q < 0 then (if r = 0 then NegZero else Fin (- r)) else Fin r))"

section \<open>Addition\<close>

fun fadd :: "float64 \<Rightarrow> float64 \<Rightarrow> float64" where
  "fadd NaN _ = NaN"
| "fadd _ NaN = NaN"
| "fadd PosInf NegInf = NaN"
| "fadd NegInf PosInf = NaN"
| "fadd PosInf _ = PosInf"
| "fadd _ PosInf = PosInf"
| "fadd NegInf _ = NegInf"
| "fadd _ NegInf = NegInf"
| "fadd NegZero NegZero = NegZero"
| "fadd NegZero y = y"
| "fadd x NegZero = x"
| "fadd (Fin p) (Fin q) = round_f64 (p + q)"

section \<open>strconv.ParseFloat\<close>

definition is_digit :: "char \<Rightarrow> bool" where
  "is_digit c = (48 \<le> (of_char c :: int) \<and> (of_char c :: int) \<le> 57)"

definition lower_ascii :: "char \<Rightarrow> char" where
  "lower_ascii c = (if 65 \<le> (of_char c :: int) \<and> (of_char c :: int) \<le> 90
     then char_of ((of_char c :: int) + 32) else c)"

definition is_hexletter :: "char \<Rightarrow> bool" where
  "is_hexletter c = (97 \<le> (of_char (lower_ascii c) :: int) \<and> (of_char (lower_ascii c) :: int) \<le> 102)"

definition digit_val :: "char \<Rightarrow> nat" where
  "digit_val c = (if is_digit c then of_char c - 48 else of_char (lower_ascii c) - 87)"

text \<open>The words \<^verbatim>\<open>special\<close> accepts: a signed infinity and an unsigned nan, in any case.\<close>

definition special_float :: "string \<Rightarrow> float64 option" where
  "special_float s = (let l = map lower_ascii s in
     if l \<in> set [''inf'', ''infinity'', ''+inf'', ''+infinity''] then Some PosInf
     else if l \<in> set [''-inf'', ''-infinity''] then Some NegInf
     else if l = ''nan'' then Some NaN
     else None)"

text \<open>
  The loop over the digits: underscores are skipped and noted, the first dot is noted, a
  second dot or any other character ends it. \<open>mant\<close> is the number the digits spell,
  \<open>frac\<close> how many of them stand after the dot.
\<close>

record scan =
  sawdot :: bool
  sawdigits :: bool
  underscores :: bool
  mant :: nat
  frac :: nat

definition scan0 :: scan where
  "scan0 = \<lparr>sawdot = False, sawdigits = False, underscores = False, mant = 0, frac = 0\<rparr>"

fun scan_digits :: "nat \<Rightarrow> string \<Rightarrow> scan \<Rightarrow> scan \<times> string" where
  "scan_digits base [] st = (st, [])"
| "scan_digits base (c # cs) st =
     (if c = CHR ''_'' then scan_digits base cs (st\<lparr>underscores := True\<rparr>)
      else if c = CHR ''.'' then
        (if sawdot st then (st, c # cs) else scan_digits base cs (st\<lparr>sawdot := True\<rparr>))
      else if is_digit c \<or> (base = 16 \<and> is_hexletter c) then
        scan_digits base cs (st\<lparr>sawdigits := True, mant := mant st * base + digit_val c,
          frac := (if sawdot st then Suc (frac st) else frac st)\<rparr>)
      else (st, c # cs))"

text \<open>The digits of the exponent; the library stops adding them at 10000.\<close>

fun scan_exp :: "string \<Rightarrow> nat \<Rightarrow> bool \<Rightarrow> nat \<times> bool \<times> string" where
  "scan_exp [] e u = (e, u, [])"
| "scan_exp (c # cs) e u =
     (if c = CHR ''_'' then scan_exp cs e True
      else if is_digit c then scan_exp cs (if e < 10000 then e * 10 + digit_val c else e) u
      else (e, u, c # cs))"

definition read_exp :: "string \<Rightarrow> bool \<Rightarrow> (int \<times> bool \<times> string) option" where
  "read_exp cs u =
     (let (neg, ds) = (case cs of
         c # r \<Rightarrow> if c = CHR ''+'' then (False, r) else if c = CHR ''-'' then (True, r) else (False, cs)
       | [] \<Rightarrow> (False, []))
      in case ds of [] \<Rightarrow> None
        | d # _ \<Rightarrow> if is_digit d then
            (case scan_exp ds 0 u of (e, u', r) \<Rightarrow> Some (if neg then - int e else int e, u', r))
          else None)"

text \<open>\<^verbatim>\<open>underscoreOK\<close>: an underscore stands between digits or after a base prefix.\<close>

datatype uclass = Start | Digit | Under | Other

fun under_scan :: "bool \<Rightarrow> string \<Rightarrow> uclass \<Rightarrow> bool" where
  "under_scan hex [] i = (i \<noteq> Under)"
| "under_scan hex (c # cs) i =
     (if is_digit c \<or> (hex \<and> is_hexletter c) then under_scan hex cs Digit
      else if c = CHR ''_'' then (i = Digit \<and> under_scan hex cs Under)
      else i \<noteq> Under \<and> under_scan hex cs Other)"

definition strip_sign :: "string \<Rightarrow> bool \<times> string" where
  "strip_sign s = (case s of
     c # r \<Rightarrow> if c = CHR ''-'' then (True, r) else if c = CHR ''+'' then (False, r) else (False, s)
   | [] \<Rightarrow> (False, []))"

definition underscore_ok :: "string \<Rightarrow> bool" where
  "underscore_ok s = (let u = snd (strip_sign s) in
     case u of
       z # p # r \<Rightarrow> if z = CHR ''0'' \<and> lower_ascii p \<in> set ''box''
           then under_scan (lower_ascii p = CHR ''x'') r Digit else under_scan False u Start
     | _ \<Rightarrow> under_scan False u Start)"

text \<open>
  \<^verbatim>\<open>readFloat\<close> and the conversion together. The whole string must be consumed. A
  hexadecimal mantissa needs its \<^verbatim>\<open>p\<close> exponent, and that exponent is a power of two. A
  number too large for a double is a range error.
\<close>

definition read_number :: "nat \<Rightarrow> string \<Rightarrow> (nat \<times> int \<times> bool) option" where
  "read_number base ds =
     (case scan_digits base ds scan0 of (st, rest) \<Rightarrow>
       if \<not> sawdigits st then None
       else (case rest of
         [] \<Rightarrow> if base = 16 then None else Some (mant st, - int (frac st), underscores st)
       | c # r \<Rightarrow>
           if lower_ascii c = (if base = 16 then CHR ''p'' else CHR ''e'') then
             (case read_exp r (underscores st) of
                Some (e, u, []) \<Rightarrow>
                  Some (mant st, e - (if base = 16 then 4 else 1) * int (frac st), u)
              | _ \<Rightarrow> None)
           else None))"

definition base_of :: "string \<Rightarrow> nat \<times> string" where
  "base_of s = (case s of
     z # x # y # r \<Rightarrow> if z = CHR ''0'' \<and> lower_ascii x = CHR ''x'' then (16, y # r) else (10, s)
   | _ \<Rightarrow> (10, s))"

definition scale :: "nat \<Rightarrow> nat \<Rightarrow> int \<Rightarrow> rat" where
  "scale base m e = of_nat m * (if base = 16 then 2 else 10) powi e"

definition signed_round :: "bool \<Rightarrow> rat \<Rightarrow> float64 option" where
  "signed_round neg q =
     (if q = 0 then Some (if neg then NegZero else Fin 0)
      else (let x = round_f64 (if neg then - q else q) in if IsInf x then None else Some x))"

definition ParseFloat :: "string \<Rightarrow> float64 option" where
  "ParseFloat s = (case special_float s of Some x \<Rightarrow> Some x | None \<Rightarrow>
     (let (neg, u) = strip_sign s; (base, ds) = base_of u in
      case read_number base ds of
        None \<Rightarrow> None
      | Some (m, e, us) \<Rightarrow> if us \<and> \<not> underscore_ok s then None
          else signed_round neg (scale base m e)))"

section \<open>Rounding: exact on doubles, and always a double\<close>

lemma powi_nat_diff: "(b::rat) > 0 \<Longrightarrow> b powi (int m - int n) = b ^ m / b ^ n"
  by (simp add: power_int_diff)

lemma ilog_bounds:
  assumes "0 < q" and b: "1 < b"
  shows "of_nat b powi ilog b q \<le> q" and "q < of_nat b powi (ilog b q + 1)"
proof -
  obtain n d where nd: "quotient_of q = (n, d)" by fastforce
  have q: "q = of_int n / of_int d" and d: "0 < d"
    using nd quotient_of_div quotient_of_denom_pos by blast+
  have n: "0 < n" using assms(1) q d by (simp add: zero_less_divide_iff)
  define B :: rat where "B = of_nat b"
  have B1: "1 < B" using b by (simp add: B_def)
  then have B0: "B \<noteq> 0" and Bpos: "0 < B" by auto
  define L where "L = floorlog b (nat n)"
  define M where "M = floorlog b (nat d)"
  define k where "k = int L - int M"
  have posL: "0 < L" and posM: "0 < M"
    using n d b by (simp_all add: L_def M_def floorlog_def)
  have "b ^ (L - 1) \<le> nat n" "nat n < b ^ L"
    using floorlog_bounds[of "nat n" b] n b by (auto simp: L_def)
  then have nL: "B ^ (L - 1) \<le> of_int n" "of_int n < B ^ L"
    using n by (simp_all add: B_def flip: of_nat_power)
  have "b ^ (M - 1) \<le> nat d" "nat d < b ^ M"
    using floorlog_bounds[of "nat d" b] d b by (auto simp: M_def)
  then have dM: "B ^ (M - 1) \<le> of_int d" "of_int d < B ^ M"
    using d by (simp_all add: B_def flip: of_nat_power)
  have up: "q < B powi (k + 1)"
  proof -
    have "q \<le> of_int n / B ^ (M - 1)"
      unfolding q using dM(1) n d Bpos by (intro divide_left_mono) auto
    also have "\<dots> < B ^ L / B ^ (M - 1)"
      using nL(2) Bpos by (intro divide_strict_right_mono) auto
    also have "\<dots> = B powi (k + 1)"
      using posM Bpos by (simp add: powi_nat_diff[symmetric] k_def algebra_simps of_nat_diff)
    finally show ?thesis .
  qed
  have low: "B powi (k - 1) \<le> q"
  proof -
    have "B powi (k - 1) = B ^ (L - 1) / B ^ M"
      using posL Bpos by (simp add: powi_nat_diff[symmetric] k_def algebra_simps of_nat_diff)
    also have "\<dots> \<le> of_int n / B ^ M"
      using nL(1) Bpos by (intro divide_right_mono) auto
    also have "\<dots> \<le> q"
      unfolding q using dM(2) n d Bpos by (intro divide_left_mono) auto
    finally show ?thesis .
  qed
  have il: "ilog b q = (if B powi k \<le> q then k else k - 1)"
    by (simp add: ilog_def nd B_def k_def L_def M_def Let_def)
  show "of_nat b powi ilog b q \<le> q" and "q < of_nat b powi (ilog b q + 1)"
    using up low by (auto simp: il B_def[symmetric] split: if_splits)
qed

lemma ilog_unique:
  assumes "0 < q" and "1 < b" and "of_nat b powi k \<le> q" and "q < of_nat b powi (k + 1)"
  shows "ilog b q = k"
proof (rule ccontr)
  assume "ilog b q \<noteq> k"
  then consider "ilog b q + 1 \<le> k" | "k + 1 \<le> ilog b q" by linarith
  then show False
  proof cases
    case 1
    then have "(of_nat b :: rat) powi (ilog b q + 1) \<le> of_nat b powi k"
      using assms(2) by (intro power_int_increasing) auto
    then show False using ilog_bounds(2)[OF assms(1,2)] assms(3) by linarith
  next
    case 2
    then have "(of_nat b :: rat) powi (k + 1) \<le> of_nat b powi ilog b q"
      using assms(2) by (intro power_int_increasing) auto
    then show False using ilog_bounds(1)[OF assms(1,2)] assms(4) by linarith
  qed
qed

lemma round_even_int [simp]: "round_even (of_int n) = n"
  by (simp add: round_even_def)

lemma round_even_ge: "of_int n \<le> q \<Longrightarrow> n \<le> round_even q"
  unfolding round_even_def Let_def using le_floor_iff[of n q] by auto

lemma round_even_le: "q \<le> of_int n \<Longrightarrow> round_even q \<le> n"
proof -
  assume q: "q \<le> of_int n"
  show ?thesis
  proof (cases "\<lfloor>q\<rfloor> = n")
    case True
    then have "q = of_int n" using q by (metis of_int_floor_le order_antisym)
    then show ?thesis by simp
  next
    case False
    then have "\<lfloor>q\<rfloor> + 1 \<le> n" using floor_mono[OF q] by simp
    then show ?thesis by (auto simp: round_even_def Let_def)
  qed
qed

definition is_f64 :: "rat \<Rightarrow> bool" where
  "is_f64 r = (\<exists>m e. \<bar>r\<bar> = of_nat m * 2 powi e \<and> m < 2 ^ 53 \<and> - 1074 \<le> e \<and> e \<le> 971)"

lemma f64_exp_le:
  assumes "r = of_nat m * 2 powi e" and "0 < r" and "m < 2 ^ 53" and "- 1074 \<le> e"
  shows "f64_exp r \<le> e"
proof -
  have "(2::rat) powi ilog 2 r \<le> r" using ilog_bounds(1)[of r 2] assms(2) by simp
  also have "r < 2 ^ 53 * 2 powi e"
  proof -
    have "(of_nat m :: rat) < 2 ^ 53" using assms(3) by (metis of_nat_less_iff of_nat_numeral of_nat_power)
    then show ?thesis unfolding assms(1) by (intro mult_strict_right_mono) auto
  qed
  also have "\<dots> = 2 powi (53 + e)" by (simp add: power_int_add)
  finally have "ilog 2 r < 53 + e"
    by (metis linorder_not_less order_less_imp_le power_int_increasing one_le_numeral)
  then show ?thesis using assms(4) by (simp add: f64_exp_def)
qed

lemma grid_int: "k \<le> e \<Longrightarrow> of_nat m * 2 powi e / 2 powi k = (of_int (int m * 2 ^ nat (e - k)) :: rat)"
proof -
  assume "k \<le> e"
  then have "(2::rat) ^ nat (e - k) = 2 powi (e - k)" by (simp add: power_int_def)
  also have "\<dots> = 2 powi e / 2 powi k" by (simp add: power_int_diff)
  finally show ?thesis by simp
qed

lemma round_mag_exact:
  assumes "r = of_nat m * 2 powi e" and "0 < r" and "m < 2 ^ 53" and "- 1074 \<le> e"
  shows "round_mag r = r"
proof -
  let ?k = "f64_exp r"
  have le: "?k \<le> e" using f64_exp_le[OF assms] .
  have q: "r / 2 powi ?k = of_int (int m * 2 ^ nat (e - ?k))" using grid_int[OF le] assms(1) by simp
  have "round_even (r / 2 powi ?k) = int m * 2 ^ nat (e - ?k)" unfolding q by (rule round_even_int)
  then have "round_mag r = (r / 2 powi ?k) * 2 powi ?k" unfolding round_mag_def using q by simp
  then show ?thesis by simp
qed

lemma is_f64_bound:
  assumes "is_f64 r" shows "\<bar>r\<bar> < 2 ^ 1024"
proof -
  obtain m e where r: "\<bar>r\<bar> = of_nat m * 2 powi e" and m: "m < 2 ^ 53" and e: "e \<le> 971"
    using assms unfolding is_f64_def by blast
  have m': "(of_nat m :: rat) < 2 ^ 53" using m by (metis of_nat_less_iff of_nat_numeral of_nat_power)
  have "\<bar>r\<bar> < 2 ^ 53 * 2 powi e" unfolding r using m' by (intro mult_strict_right_mono) auto
  also have "\<dots> \<le> 2 ^ 53 * 2 powi 971" using e by (intro mult_left_mono power_int_increasing) auto
  also have "\<dots> = (2::rat) ^ 1024" by (simp flip: power_add)
  finally show ?thesis .
qed

lemma round_f64_exact: "is_f64 r \<Longrightarrow> round_f64 r = Fin r"
proof (cases "r = 0")
  case False
  assume f: "is_f64 r"
  then obtain m e where "\<bar>r\<bar> = of_nat m * 2 powi e" "m < 2 ^ 53" "- 1074 \<le> e"
    unfolding is_f64_def by blast
  then have "round_mag \<bar>r\<bar> = \<bar>r\<bar>" using False by (intro round_mag_exact) auto
  then show ?thesis using False is_f64_bound[OF f] by (auto simp: round_f64_def Let_def)
qed (simp add: round_f64_def)

lemma is_f64_int: "\<bar>n\<bar> < 2 ^ 53 \<Longrightarrow> is_f64 (of_int n)"
  unfolding is_f64_def by (intro exI[of _ "nat \<bar>n\<bar>"] exI[of _ 0]) auto

lemma is_f64_numeral: "(numeral w :: int) < 2 ^ 53 \<Longrightarrow> is_f64 (numeral w)"
  using is_f64_int[of "numeral w"] by simp

lemma is_f64_0 [simp]: "is_f64 0" and is_f64_1 [simp]: "is_f64 1"
  using is_f64_int[of 0] is_f64_int[of 1] by simp_all

lemma is_f64_minus [simp]: "is_f64 (- r) = is_f64 r"
  by (simp add: is_f64_def)

lemma round_f64_numeral [simp]: "(numeral w :: int) < 2 ^ 53 \<Longrightarrow> round_f64 (numeral w) = Fin (numeral w)"
  by (rule round_f64_exact) (rule is_f64_numeral)

text \<open>Every rounding is a double: the mantissa that comes out has at most 53 bits.\<close>

lemma round_even_nonneg: "0 \<le> q \<Longrightarrow> 0 \<le> round_even q"
  using round_even_ge[of 0 q] by simp

lemma round_mag_f64:
  assumes q: "0 < q" and small: "round_mag q < 2 ^ 1024"
  shows "is_f64 (round_mag q)" and "0 \<le> round_mag q"
proof -
  define k where "k = f64_exp q"
  define M where "M = round_even (q / 2 powi k)"
  have M0: "0 \<le> M" unfolding M_def using q by (intro round_even_nonneg) simp
  have rm: "round_mag q = of_int M * 2 powi k" by (simp add: round_mag_def M_def k_def)
  show "0 \<le> round_mag q" using M0 by (simp add: rm)
  have "q < 2 powi (ilog 2 q + 1)" using ilog_bounds(2)[of q 2] q by simp
  also have "\<dots> \<le> 2 powi (k + 53)" by (intro power_int_increasing) (auto simp: k_def f64_exp_def)
  also have "\<dots> = 2 ^ 53 * 2 powi k" by (simp add: power_int_add)
  finally have "q / 2 powi k \<le> of_int (2 ^ 53)" by (simp add: divide_simps)
  then have Mle: "M \<le> 2 ^ 53" unfolding M_def by (rule round_even_le)
  have k1074: "- 1074 \<le> k" by (simp add: k_def f64_exp_def)
  have kle: "k \<le> 971" if "M \<noteq> 0"
  proof (rule ccontr)
    assume "\<not> k \<le> 971"
    then have k: "972 \<le> k" and kil: "k = ilog 2 q - 52" by (auto simp: k_def f64_exp_def)
    have "2 powi ilog 2 q \<le> q" using ilog_bounds(1)[of q 2] q by simp
    then have "of_int (2 ^ 52) \<le> q / 2 powi k"
      by (simp add: kil power_int_diff divide_simps)
    then have "2 ^ 52 \<le> M" unfolding M_def by (rule round_even_ge)
    then have M52: "(of_int (2 ^ 52) :: rat) \<le> of_int M" by (subst of_int_le_iff)
    have "(2::rat) powi 972 \<le> 2 powi k" using k by (intro power_int_increasing) simp_all
    then have "of_int (2 ^ 52) * (2::rat) powi 972 \<le> of_int M * 2 powi k"
      using M52 by (intro mult_mono) auto
    then have "of_int (2 ^ 52) * (2::rat) powi 972 < 2 ^ 1024" using small unfolding rm by (rule order_le_less_trans)
    then show False by simp
  qed
  consider "M = 0" | "M \<noteq> 0" "M < 2 ^ 53" | "M = 2 ^ 53" using Mle order_le_less by blast
  then show "is_f64 (round_mag q)"
  proof cases
    case 1 then show ?thesis by (simp add: rm)
  next
    case 2
    have "nat M < 2 ^ 53" using 2(2) M0 by (simp add: nat_less_iff)
    moreover have "\<bar>of_int M * 2 powi k\<bar> = of_nat (nat M) * (2::rat) powi k"
      using M0 by (simp add: abs_mult)
    ultimately show ?thesis unfolding is_f64_def rm using kle[OF 2(1)] k1074 by blast
  next
    case 3
    have "k + 1 \<le> 971"
    proof (rule ccontr)
      assume "\<not> k + 1 \<le> 971"
      then have "k = 971" using kle 3 by simp
      then show False using small 3 by (simp add: rm flip: power_add)
    qed
    moreover have "\<bar>of_int M * 2 powi k\<bar> = of_nat (2 ^ 52) * (2::rat) powi (k + 1)"
      using 3 by (simp add: abs_mult power_int_add)
    moreover have "(2::nat) ^ 52 < 2 ^ 53" by simp
    ultimately show ?thesis unfolding is_f64_def rm using k1074 by (metis add.commute zle_add1_eq_le add_increasing zero_le_one)
  qed
qed

definition valid_f64 :: "float64 \<Rightarrow> bool" where
  "valid_f64 x = is_f64 (fval x)"

lemma round_f64_valid: "valid_f64 (round_f64 q)"
  unfolding valid_f64_def round_f64_def Let_def using round_mag_f64(1)[of "\<bar>q\<bar>"] by auto


lemma ilog_mono_exp: "0 < q \<Longrightarrow> 2 powi k \<le> q \<Longrightarrow> k \<le> ilog 2 q"
proof (rule ccontr)
  assume q: "0 < q" "2 powi k \<le> q" and "\<not> k \<le> ilog 2 q"
  then have "(2::rat) powi (ilog 2 q + 1) \<le> 2 powi k" by (intro power_int_increasing) auto
  then show False using ilog_bounds(2)[of q 2] q by simp
qed

lemma round_mag_ge:
  assumes r: "is_f64 r" "0 < r" and le: "r \<le> q"
  shows "r \<le> round_mag q"
proof -
  obtain m e where me: "r = of_nat m * 2 powi e" "m < 2 ^ 53" "- 1074 \<le> e"
    using r unfolding is_f64_def by auto
  define k where "k = f64_exp q"
  have q: "0 < q" using r le by simp
  show ?thesis
  proof (cases "k \<le> e")
    case True
    have "of_int (int m * 2 ^ nat (e - k)) = r / 2 powi k"
      using grid_int[OF True, of m] by (simp only: me(1))
    also have "\<dots> \<le> q / 2 powi k" using le by (intro divide_right_mono) auto
    finally have "int m * 2 ^ nat (e - k) \<le> round_even (q / 2 powi k)" by (rule round_even_ge)
    then have "(of_int (int m * 2 ^ nat (e - k)) :: rat) * 2 powi k \<le> round_mag q"
      unfolding round_mag_def k_def[symmetric] by (intro mult_right_mono) (simp_all only: of_int_le_iff, simp)
    then show ?thesis
      using \<open>of_int (int m * 2 ^ nat (e - k)) = r / 2 powi k\<close> by simp
  next
    case False
    then have kil: "k = ilog 2 q - 52" and ek: "e + 53 \<le> ilog 2 q"
      using me(3) by (auto simp: k_def f64_exp_def)
    have "2 powi ilog 2 q \<le> q" using ilog_bounds(1)[of q 2] q by simp
    then have "of_int (2 ^ 52) \<le> q / 2 powi k" by (simp add: kil power_int_diff divide_simps)
    then have "2 ^ 52 \<le> round_even (q / 2 powi k)" by (rule round_even_ge)
    then have "(of_int (2 ^ 52) :: rat) * 2 powi k \<le> round_mag q"
      unfolding round_mag_def k_def[symmetric] by (intro mult_right_mono) (simp_all only: of_int_le_iff, simp)
    moreover have "(of_int (2 ^ 52) :: rat) * 2 powi k = 2 powi ilog 2 q"
      by (simp add: kil power_int_diff)
    moreover have "r \<le> 2 powi ilog 2 q"
    proof -
      have "(of_nat m :: rat) \<le> 2 ^ 53" using me(2) by (metis of_nat_le_iff of_nat_numeral of_nat_power less_imp_le)
      then have "r \<le> 2 ^ 53 * 2 powi e" unfolding me(1) by (intro mult_right_mono) auto
      also have "\<dots> = 2 powi (e + 53)" by (simp add: power_int_add)
      also have "\<dots> \<le> 2 powi ilog 2 q" using ek by (intro power_int_increasing) auto
      finally show ?thesis .
    qed
    ultimately show ?thesis by linarith
  qed
qed

lemma fadd_ge:
  assumes "is_f64 p" "0 \<le> p" "0 \<le> q"
  shows "fadd (Fin p) (Fin q) = PosInf \<or> (\<exists>s. fadd (Fin p) (Fin q) = Fin s \<and> p \<le> s)"
proof (cases "p + q = 0")
  case False
  then have pos: "0 < p + q" using assms by linarith
  show ?thesis
  proof (cases "p = 0")
    case True
    then show ?thesis using round_mag_f64(2)[of q] pos
      by (auto simp: round_f64_def Let_def)
  next
    case False
    then have "p \<le> round_mag (p + q)" using assms by (intro round_mag_ge) auto
    then show ?thesis using pos by (auto simp: round_f64_def Let_def)
  qed
qed (use assms in \<open>auto simp: round_f64_def\<close>)

section \<open>strconv.FormatFloat with verb f and precision -1\<close>

definition digit_char :: "nat \<Rightarrow> char" where
  "digit_char d = char_of (48 + d)"

fun show_nat :: "nat \<Rightarrow> string" where
  "show_nat n = (if n < 10 then [digit_char n] else show_nat (n div 10) @ [digit_char (n mod 10)])"

declare show_nat.simps [simp del]

fun frac_digits :: "nat \<Rightarrow> nat \<Rightarrow> string" where
  "frac_digits 0 n = []"
| "frac_digits (Suc j) n = frac_digits j (n div 10) @ [digit_char (n mod 10)]"

definition fmt_dec :: "nat \<Rightarrow> int \<Rightarrow> string" where
  "fmt_dec D k = (if 0 \<le> k then show_nat (D * 10 ^ nat k)
     else show_nat (D div 10 ^ nat (- k)) @ ''.'' @ frac_digits (nat (- k)) (D mod 10 ^ nat (- k)))"

definition reads_back :: "rat \<Rightarrow> nat \<Rightarrow> int \<Rightarrow> bool" where
  "reads_back q D k = (round_f64 (of_nat D * 10 powi k) = Fin q)"

text \<open>
  The shortest digits that read back as the same double: with \<open>n\<close> significant digits the
  candidates are the decimals next below and next above, and the nearer one is taken when
  both read back. Seventeen digits are always enough for a double; the last line, the exact
  expansion, is there to make the definition total.
\<close>

definition shortest_cand :: "rat \<Rightarrow> nat \<Rightarrow> (nat \<times> int) option" where
  "shortest_cand q n = (let k = ilog 10 q + 1 - int n; lo = nat \<lfloor>q / 10 powi k\<rfloor>;
       d = q / 10 powi k - of_nat lo in
     if reads_back q lo k \<and> (\<not> reads_back q (lo + 1) k \<or> d < 1/2 \<or> d = 1/2 \<and> even lo) then Some (lo, k)
     else if reads_back q (lo + 1) k then Some (lo + 1, k) else None)"

definition exact_places :: nat where
  "exact_places = 1074"

fun shortest :: "rat \<Rightarrow> nat list \<Rightarrow> nat \<times> int" where
  "shortest q [] = (nat \<lfloor>q * 10 ^ exact_places\<rfloor>, - int exact_places)"
| "shortest q (n # ns) = (case shortest_cand q n of Some r \<Rightarrow> r | None \<Rightarrow> shortest q ns)"

definition FormatFloat :: "float64 \<Rightarrow> string" where
  "FormatFloat x = (case x of
     NaN \<Rightarrow> ''NaN'' | PosInf \<Rightarrow> ''+Inf'' | NegInf \<Rightarrow> ''-Inf'' | NegZero \<Rightarrow> ''-0''
   | Fin q \<Rightarrow> if q = 0 then ''0''
       else (case shortest \<bar>q\<bar> [1..<18] of (D, k) \<Rightarrow> (if q < 0 then ''-'' else []) @ fmt_dec D k))"



subsection \<open>Reading the digits that were printed\<close>

definition dval :: "nat \<Rightarrow> string \<Rightarrow> nat" where
  "dval a s = foldl (\<lambda>a c. a * 10 + digit_val c) a s"

lemma dval_append: "dval a (s @ t) = dval (dval a s) t"
  by (simp add: dval_def)

lemma of_digit_char: "d < 10 \<Longrightarrow> (of_char (digit_char d) :: nat) = 48 + d"
  by (simp add: digit_char_def)

lemma of_digit_char_int: "d < 10 \<Longrightarrow> (of_char (digit_char d) :: int) = 48 + int d"
  using of_digit_char[of d] by (metis of_nat_add of_nat_numeral of_nat_of_char)

lemma is_digit_char [simp]: "d < 10 \<Longrightarrow> is_digit (digit_char d)"
  by (simp add: is_digit_def of_digit_char_int)

lemma digit_val_char [simp]: "d < 10 \<Longrightarrow> digit_val (digit_char d) = d"
  by (simp add: digit_val_def of_digit_char)

lemma digit_not_punct: "is_digit c \<Longrightarrow> c \<noteq> CHR ''_'' \<and> c \<noteq> CHR ''.'' \<and> c \<noteq> CHR ''-'' \<and> c \<noteq> CHR ''+''"
  by (auto simp: is_digit_def)

lemma lower_digit: "is_digit c \<Longrightarrow> lower_ascii c = c"
  by (auto simp: is_digit_def lower_ascii_def)

lemma scan_digits_run:
  "list_all is_digit ds \<Longrightarrow> scan_digits 10 (ds @ rest) st =
     scan_digits 10 rest (st\<lparr>sawdigits := sawdigits st \<or> ds \<noteq> [], mant := dval (mant st) ds,
       frac := (if sawdot st then frac st + length ds else frac st)\<rparr>)"
proof (induction ds arbitrary: st)
  case Nil
  then show ?case by (simp add: dval_def)
next
  case (Cons d ds)
  then show ?case using digit_not_punct[of d] by (simp add: dval_def)
qed

lemma show_nat_digits: "list_all is_digit (show_nat n)" "show_nat n \<noteq> []"
  by (induction n rule: show_nat.induct) (subst show_nat.simps, simp)+

lemma dval_show_nat: "dval 0 (show_nat n) = n"
proof (induction n rule: show_nat.induct)
  case (1 n)
  show ?case
  proof (cases "n < 10")
    case True
    then show ?thesis by (subst show_nat.simps) (simp add: dval_def)
  next
    case False
    then have "dval 0 (show_nat n) = dval (dval 0 (show_nat (n div 10))) [digit_char (n mod 10)]"
      by (subst show_nat.simps) (simp add: dval_append)
    also have "\<dots> = (n div 10) * 10 + n mod 10"
      using False 1 by (simp add: dval_def)
    finally show ?thesis by simp
  qed
qed

lemma frac_digits_digits: "list_all is_digit (frac_digits j n)" "length (frac_digits j n) = j"
  by (induction j arbitrary: n) auto

lemma dval_frac_digits: "n < 10 ^ j \<Longrightarrow> dval a (frac_digits j n) = a * 10 ^ j + n"
proof (induction j arbitrary: n)
  case 0
  then show ?case by (simp add: dval_def)
next
  case (Suc j)
  have "n div 10 < 10 ^ j" using Suc.prems by (simp add: less_mult_imp_div_less mult.commute)
  then have "dval a (frac_digits j (n div 10)) = a * 10 ^ j + n div 10" by (rule Suc.IH)
  then show ?case by (simp add: dval_append) (simp add: dval_def algebra_simps)
qed

lemma read_number_nat: "read_number 10 (show_nat a) = Some (a, 0, False)"
  using scan_digits_run[OF show_nat_digits(1)[of a], of "[]" scan0]
  by (simp add: read_number_def scan0_def show_nat_digits dval_show_nat)

lemma read_number_frac:
  assumes "b < 10 ^ j"
  shows "read_number 10 (show_nat a @ ''.'' @ frac_digits j b) = Some (a * 10 ^ j + b, - int j, False)"
proof -
  have "scan_digits 10 (show_nat a @ ''.'' @ frac_digits j b) scan0 =
    (\<lparr>sawdot = True, sawdigits = True, underscores = False, mant = a * 10 ^ j + b, frac = j\<rparr>, [])"
    using scan_digits_run[OF frac_digits_digits(1)[of j b], of "[]"]
    by (simp add: scan_digits_run[OF show_nat_digits(1)] scan0_def show_nat_digits dval_show_nat
        dval_frac_digits[OF assms] frac_digits_digits)
  then show ?thesis by (simp add: read_number_def)
qed

lemma read_number_fmt_dec:
  "\<exists>m e. read_number 10 (fmt_dec D k) = Some (m, e, False) \<and> scale 10 m e = of_nat D * 10 powi k"
proof (cases "0 \<le> k")
  case True
  then show ?thesis by (auto simp: fmt_dec_def read_number_nat scale_def power_int_def)
next
  case False
  define j where "j = nat (- k)"
  have k: "k = - int j" using False by (simp add: j_def)
  have "read_number 10 (fmt_dec D k) = Some (D, - int j, False)"
    using False read_number_frac[of "D mod 10 ^ j" j "D div 10 ^ j"] div_mult_mod_eq[of D "10 ^ j"]
    by (simp add: fmt_dec_def j_def)
  then show ?thesis by (simp add: scale_def k)
qed

text \<open>A printed number starts with a digit and holds only digits and a dot.\<close>

lemma fmt_dec_shape:
  "\<exists>c s. fmt_dec D k = c # s \<and> is_digit c \<and> list_all (\<lambda>x. is_digit x \<or> x = CHR ''.'') s"
proof -
  have all: "list_all (\<lambda>x. is_digit x \<or> x = CHR ''.'') (fmt_dec D k)"
    using show_nat_digits(1) frac_digits_digits(1) by (auto simp: fmt_dec_def list_all_iff)
  obtain n u where f: "fmt_dec D k = show_nat n @ u" unfolding fmt_dec_def by (metis append_Nil2)
  obtain c s where n: "show_nat n = c # s" using show_nat_digits(2) by (meson neq_Nil_conv)
  then have "is_digit c" using show_nat_digits(1)[of n] by simp
  then show ?thesis using f n all by auto
qed

lemma base_of_fmt_dec: "base_of (fmt_dec D k) = (10, fmt_dec D k)"
proof -
  obtain c s where s: "fmt_dec D k = c # s" "list_all (\<lambda>x. is_digit x \<or> x = CHR ''.'') s"
    using fmt_dec_shape by blast
  have x: "lower_ascii y \<noteq> CHR ''x''" if "is_digit y \<or> y = CHR ''.''" for y
    using that by (auto simp: lower_digit is_digit_def lower_ascii_def)
  show ?thesis
  proof (cases s)
    case (Cons a s')
    then show ?thesis using s x[of a] by (cases s') (simp_all add: base_of_def)
  qed (simp add: s base_of_def)
qed

lemma strip_sign_fmt_dec: "strip_sign (fmt_dec D k) = (False, fmt_dec D k)"
  using fmt_dec_shape[of D k] by (auto simp: strip_sign_def dest: digit_not_punct)

lemma special_fmt_dec: "special_float ((if neg then ''-'' else []) @ fmt_dec D k) = None"
proof -
  obtain c s where s: "fmt_dec D k = c # s" and c: "is_digit c" using fmt_dec_shape by blast
  have "lower_ascii c = c" "c \<noteq> CHR ''i''" "c \<noteq> CHR ''n''" "c \<noteq> CHR ''+''" "c \<noteq> CHR ''-''"
    using c by (auto simp: lower_digit is_digit_def)
  moreover have "lower_ascii CHR ''-'' = CHR ''-''" by (simp add: lower_ascii_def)
  ultimately show ?thesis by (simp add: special_float_def s Let_def)
qed

lemma ParseFloat_fmt_dec:
  "ParseFloat ((if neg then ''-'' else []) @ fmt_dec D k) = signed_round neg (of_nat D * 10 powi k)"
proof -
  have st: "strip_sign ((if neg then ''-'' else []) @ fmt_dec D k) = (neg, fmt_dec D k)"
    by (cases neg) (simp_all add: strip_sign_fmt_dec, simp add: strip_sign_def)
  obtain m e where "read_number 10 (fmt_dec D k) = Some (m, e, False)" "scale 10 m e = of_nat D * 10 powi k"
    using read_number_fmt_dec by blast
  then show ?thesis
    unfolding ParseFloat_def special_fmt_dec st by (simp add: base_of_fmt_dec)
qed

subsection \<open>The shortest digits read back\<close>

lemma exact_expansion:
  assumes "is_f64 q" "0 < q"
  shows "of_nat (nat \<lfloor>q * 10 ^ exact_places\<rfloor>) * 10 powi (- int exact_places) = q"
proof -
  obtain m e where q: "q = of_nat m * 2 powi e" and e: "- int exact_places \<le> e"
    using assms unfolding is_f64_def exact_places_def by auto
  define p where "p = exact_places"
  have "q * 10 ^ p = (q / 2 powi (- int p)) * 5 ^ p"
    by (simp add: power_int_minus power_mult_distrib[symmetric] divide_inverse)
  also have "q / 2 powi (- int p) = of_int (int m * 2 ^ nat (e + int p))"
    using grid_int[OF e] unfolding q p_def by simp
  finally have i: "q * 10 ^ p = of_int (int m * 2 ^ nat (e + int p) * 5 ^ p)" by simp
  have "of_nat (nat \<lfloor>q * 10 ^ p\<rfloor>) = q * 10 ^ p" unfolding i floor_of_int by simp
  then show ?thesis unfolding p_def[symmetric] by (simp add: power_int_minus)
qed

lemma shortest_reads_back:
  assumes "is_f64 q" "0 < q" "shortest q ns = (D, k)"
  shows "round_f64 (of_nat D * 10 powi k) = Fin q"
  using assms(3)
proof (induction ns)
  case Nil
  then show ?case using exact_expansion[OF assms(1,2)] round_f64_exact[OF assms(1)] by auto
next
  case (Cons n ns)
  then show ?case
    by (auto simp: shortest_cand_def Let_def reads_back_def split: option.splits if_splits)
qed

lemma round_f64_minus: "q \<noteq> 0 \<Longrightarrow> round_f64 (- q) = (case round_f64 q of
    NaN \<Rightarrow> NaN | PosInf \<Rightarrow> NegInf | NegInf \<Rightarrow> PosInf
  | NegZero \<Rightarrow> Fin 0 | Fin r \<Rightarrow> if r = 0 then NegZero else Fin (- r))"
  by (auto simp: round_f64_def Let_def)

lemma fmt_dec_zero: "fmt_dec 0 0 = ''0''"
  by code_simp

lemma special_words:
  "special_float ''NaN'' = Some NaN" "special_float ''+Inf'' = Some PosInf"
  "special_float ''-Inf'' = Some NegInf"
  by code_simp+

lemma ParseFloat_FormatFloat_lemma:
  assumes "valid_f64 x"
  shows "ParseFloat (FormatFloat x) = Some x"
proof (cases x)
  case (Fin q)
  show ?thesis
  proof (cases "q = 0")
    case True
    then show ?thesis using ParseFloat_fmt_dec[of False 0 0] Fin
      by (simp add: FormatFloat_def fmt_dec_zero signed_round_def)
  next
    case False
    obtain D k where s: "shortest \<bar>q\<bar> [1..<18] = (D, k)" by fastforce
    have f: "is_f64 \<bar>q\<bar>" using assms Fin by (simp add: valid_f64_def is_f64_def)
    then have r: "round_f64 (of_nat D * 10 powi k) = Fin \<bar>q\<bar>"
      using shortest_reads_back[OF f _ s] False by simp
    moreover have "round_f64 0 = Fin 0" by (simp add: round_f64_def)
    ultimately have nz: "of_nat D * (10::rat) powi k \<noteq> 0" using False by force
    have "ParseFloat (FormatFloat x) = signed_round (q < 0) (of_nat D * 10 powi k)"
      using ParseFloat_fmt_dec[of "q < 0" D k] False Fin s by (simp add: FormatFloat_def)
    also have "\<dots> = Some (Fin q)"
      using r nz False round_f64_minus[OF nz] by (auto simp: signed_round_def Let_def)
    finally show ?thesis using Fin by simp
  qed
next
  case NegZero
  then show ?thesis using ParseFloat_fmt_dec[of True 0 0]
    by (simp add: FormatFloat_def fmt_dec_zero signed_round_def)
qed (simp_all add: FormatFloat_def ParseFloat_def special_words)

text \<open>Whole numbers below \<open>2 ^ 53\<close> are read exactly.\<close>

lemma ParseFloat_nat:
  assumes "s = show_nat n" "n < 2 ^ 53"
  shows "ParseFloat s = Some (Fin (of_nat n))"
proof -
  have "is_f64 (of_nat n)" using is_f64_int[of "int n"] assms(2) by simp
  then have "round_f64 (of_nat n) = Fin (of_nat n)" by (rule round_f64_exact)
  then show ?thesis using ParseFloat_fmt_dec[of False n 0] assms(1)
    by (simp add: fmt_dec_def signed_round_def)
qed

subsection \<open>What ParseFloat returns\<close>

lemma ParseFloat_valid_lemma: "ParseFloat s = Some x \<Longrightarrow> valid_f64 x"
proof -
  have z: "valid_f64 NegZero" "valid_f64 (Fin 0)" "valid_f64 NaN" "valid_f64 PosInf" "valid_f64 NegInf"
    by (simp_all add: valid_f64_def)
  have sr: "signed_round neg q = Some x \<Longrightarrow> valid_f64 x" for neg q
    using round_f64_valid z by (auto simp: signed_round_def Let_def split: if_splits)
  have sp: "special_float s = Some x \<Longrightarrow> valid_f64 x"
    using z by (auto simp: special_float_def Let_def split: if_splits)
  show "ParseFloat s = Some x \<Longrightarrow> valid_f64 x"
    using sr sp by (auto simp: ParseFloat_def Let_def split: option.splits prod.splits if_splits)
qed

lemma FormatFloat_reads: "ParseFloat s = Some x \<Longrightarrow> ParseFloat (FormatFloat x) = Some x"
  by (rule ParseFloat_FormatFloat_lemma) (rule ParseFloat_valid_lemma)

section \<open>Order on finite values\<close>

lemma finite_cases: "is_finite x \<longleftrightarrow> x = NegZero \<or> (\<exists>q. x = Fin q)"
  by (cases x) (auto simp: is_finite_def)

lemma flt_fval: "is_finite x \<Longrightarrow> is_finite y \<Longrightarrow> flt x y = (fval x < fval y)"
  by (auto simp: finite_cases)

lemma feq_fval: "is_finite x \<Longrightarrow> is_finite y \<Longrightarrow> feq x y = (fval x = fval y)"
  by (auto simp: finite_cases feq_def)

lemma fle_fval: "is_finite x \<Longrightarrow> is_finite y \<Longrightarrow> fle x y = (fval x \<le> fval y)"
  by (auto simp: fle_def flt_fval feq_fval)

lemmas float_order = flt_fval feq_fval fle_fval

lemma is_finite_Fin [simp]: "is_finite (Fin q)" and is_finite_NegZero [simp]: "is_finite NegZero"
  by (simp_all add: is_finite_def)

end
