(* ===== verification/Go_Strings.thy ===== *)
theory Go_Strings
  imports Prelude "HOL-Library.Char_ord" "HOL-Library.List_Lexorder" "HOL-Library.Sublist" "HOL-Library.Multiset" Go_Float
begin

text \<open>
  What the sources use of Go's \<^verbatim>\<open>strings\<close>, \<^verbatim>\<open>sort\<close> and \<^verbatim>\<open>regexp\<close> packages. A Go string is a
  list of bytes. White space is Unicode's, recognised by its UTF-8 encodings. Case
  mapping is that of the ASCII letters; other bytes are left as they are.
\<close>

section \<open>White space\<close>

definition byte :: "int \<Rightarrow> char" where
  "byte n = char_of n"

definition space_runes :: "string list" where
  "space_runes =
     map (\<lambda>n. [byte n]) [32, 10, 9, 13, 11, 12] @
     map (map byte) [[194, 133], [194, 160], [225, 154, 128]] @
     map (\<lambda>n. map byte [226, 128, n]) [128, 129, 130, 131, 132, 133, 134, 135, 136, 137, 138, 168, 169, 175] @
     map (map byte) [[226, 129, 159], [227, 128, 128]]"

definition leads :: "string \<Rightarrow> string \<Rightarrow> bool" where
  "leads s w = (w \<noteq> [] \<and> take (length w) s = w)"

function strip_words :: "string list \<Rightarrow> string \<Rightarrow> string" where
  "strip_words ws s = (case find (leads s) ws of
     None \<Rightarrow> s | Some w \<Rightarrow> strip_words ws (drop (length w) s))"
  by pat_completeness auto
termination
proof (relation "measure (\<lambda>(ws, s). length s)", simp)
  fix ws s w
  assume "find (leads s) ws = Some w"
  then have "w \<noteq> []" "take (length w) s = w" by (auto simp: find_Some_iff leads_def)
  then have "s \<noteq> []" by auto
  then show "((ws, drop (length w) s), (ws, s)) \<in> measure (\<lambda>(ws, s). length s)"
    using \<open>w \<noteq> []\<close> by simp
qed

declare strip_words.simps [simp del]

definition TrimLeftSpace :: "string \<Rightarrow> string" where
  "TrimLeftSpace s = strip_words space_runes s"

definition TrimSpace :: "string \<Rightarrow> string" where
  "TrimSpace s = rev (strip_words (map rev space_runes) (rev (TrimLeftSpace s)))"

definition TrimRightCR :: "string \<Rightarrow> string" where
  "TrimRightCR s = rev (dropWhile (\<lambda>c. c = byte 13) (rev s))"

text \<open>\<^verbatim>\<open>strings.Fields\<close>: the maximal runs of bytes that are not white space.\<close>

fun fields_aux :: "nat \<Rightarrow> string \<Rightarrow> string \<Rightarrow> string list" where
  "fields_aux 0 s w = (if w = [] then [] else [rev w])"
| "fields_aux (Suc n) s w = (case s of
     [] \<Rightarrow> if w = [] then [] else [rev w]
   | c # r \<Rightarrow> (case find (leads s) space_runes of
        Some x \<Rightarrow> (if w = [] then [] else [rev w]) @ fields_aux n (drop (length x) s) []
      | None \<Rightarrow> fields_aux n r (c # w)))"

definition Fields :: "string \<Rightarrow> string list" where
  "Fields s = fields_aux (Suc (length s)) s []"

section \<open>Splitting, searching\<close>

fun split_on :: "char \<Rightarrow> string \<Rightarrow> string list" where
  "split_on c [] = [[]]"
| "split_on c (x # xs) = (if x = c then [] # split_on c xs
     else (case split_on c xs of l # ls \<Rightarrow> (x # l) # ls | [] \<Rightarrow> [[x]]))"

lemma split_on_not_Nil [simp]: "split_on c s \<noteq> []"
  by (induction s) (auto split: list.splits)

text \<open>\<open>cut_at c s\<close> is the text before and after the first \<open>c\<close>, as \<^verbatim>\<open>strings.Index\<close> finds it.\<close>

fun cut_at :: "char \<Rightarrow> string \<Rightarrow> (string \<times> string) option" where
  "cut_at c [] = None"
| "cut_at c (x # xs) = (if x = c then Some ([], xs)
     else map_option (\<lambda>(a, b). (x # a, b)) (cut_at c xs))"

lemma cut_at_Some: "cut_at c s = Some (a, b) \<Longrightarrow> s = a @ c # b \<and> c \<notin> set a"
  by (induction s arbitrary: a) (auto split: if_splits)

lemma cut_at_None: "cut_at c s = None \<longleftrightarrow> c \<notin> set s"
  by (induction s) (auto split: if_splits)

lemma cut_at_append: "c \<notin> set a \<Longrightarrow> cut_at c (a @ c # b) = Some (a, b)"
  by (induction a) auto

definition HasPrefix :: "string \<Rightarrow> string \<Rightarrow> bool" where
  "HasPrefix s p = prefix p s"

definition HasSuffix :: "string \<Rightarrow> string \<Rightarrow> bool" where
  "HasSuffix s p = suffix p s"

definition TrimPrefix :: "string \<Rightarrow> string \<Rightarrow> string" where
  "TrimPrefix s p = (if HasPrefix s p then drop (length p) s else s)"

definition TrimSuffix :: "string \<Rightarrow> string \<Rightarrow> string" where
  "TrimSuffix s p = (if HasSuffix s p then take (length s - length p) s else s)"

definition ContainsAny :: "string \<Rightarrow> string \<Rightarrow> bool" where
  "ContainsAny s chars = (\<exists>c \<in> set s. c \<in> set chars)"

text \<open>\<^verbatim>\<open>strings.FieldsFunc\<close> for a predicate on bytes: the non-empty runs between separators.\<close>

fun fields_on :: "(char \<Rightarrow> bool) \<Rightarrow> string \<Rightarrow> string \<Rightarrow> string list" where
  "fields_on P [] w = (if w = [] then [] else [rev w])"
| "fields_on P (c # s) w =
     (if P c then (if w = [] then [] else [rev w]) @ fields_on P s [] else fields_on P s (c # w))"

definition FieldsFunc :: "(char \<Rightarrow> bool) \<Rightarrow> string \<Rightarrow> string list" where
  "FieldsFunc P s = fields_on P s []"

fun Join :: "string list \<Rightarrow> string \<Rightarrow> string" where
  "Join [] sep = []"
| "Join [x] sep = x"
| "Join (x # y # xs) sep = x @ sep @ Join (y # xs) sep"

section \<open>Letters and case\<close>

definition is_lower :: "char \<Rightarrow> bool" where
  "is_lower c = (97 \<le> (of_char c :: int) \<and> (of_char c :: int) \<le> 122)"

definition is_upper :: "char \<Rightarrow> bool" where
  "is_upper c = (65 \<le> (of_char c :: int) \<and> (of_char c :: int) \<le> 90)"

definition upper_ascii :: "char \<Rightarrow> char" where
  "upper_ascii c = (if is_lower c then char_of ((of_char c :: int) - 32) else c)"

definition ToLower :: "string \<Rightarrow> string" where
  "ToLower s = map lower_ascii s"

definition ToUpper :: "string \<Rightarrow> string" where
  "ToUpper s = map upper_ascii s"

definition EqualFold :: "string \<Rightarrow> string \<Rightarrow> bool" where
  "EqualFold s t = (map lower_ascii s = map lower_ascii t)"

definition is_word_char :: "char \<Rightarrow> bool" where
  "is_word_char c = (is_lower c \<or> is_upper c \<or> is_digit c \<or> c = CHR ''_'')"

section \<open>Sorting\<close>

text \<open>\<^verbatim>\<open>sort.Strings\<close> orders by bytes, \<^verbatim>\<open>strconv.Itoa\<close> prints a decimal.\<close>

definition sort_strings :: "string list \<Rightarrow> string list" where
  "sort_strings xs = sort xs"

definition Itoa :: "int \<Rightarrow> string" where
  "Itoa n = (if n < 0 then CHR ''-'' # show_nat (nat (- n)) else show_nat (nat n))"

lemma set_sort_strings [simp]: "set (sort_strings xs) = set xs"
  by (simp add: sort_strings_def)

lemma sorted_sort_strings [simp]: "sorted (sort_strings xs)"
  by (simp add: sort_strings_def)

lemma sort_strings_perm: "mset xs = mset ys \<Longrightarrow> sort_strings xs = sort_strings ys"
  unfolding sort_strings_def by (metis mset_sort properties_for_sort sorted_sort)

section \<open>Lines\<close>

definition unlines :: "string list \<Rightarrow> string" where
  "unlines ls = Join ls [byte 10]"

lemma split_on_append: "c \<notin> set a \<Longrightarrow> split_on c (a @ c # b) = a # split_on c b"
  by (induction a) auto

lemma split_on_plain: "c \<notin> set a \<Longrightarrow> split_on c a = [a]"
  by (induction a) auto

lemma split_on_Join: "ls \<noteq> [] \<Longrightarrow> list_all (\<lambda>l. c \<notin> set l) ls \<Longrightarrow> split_on c (Join ls [c]) = ls"
  by (induction ls "[c]" rule: Join.induct) (auto simp: split_on_append split_on_plain)

lemma split_unlines: "ls \<noteq> [] \<Longrightarrow> list_all (\<lambda>l. byte 10 \<notin> set l) ls \<Longrightarrow> split_on (byte 10) (unlines ls) = ls"
  by (simp add: unlines_def split_on_Join)

lemma Join_split: "Join (split_on c s) [c] = s"
proof (induction s)
  case (Cons x xs)
  then show ?case by (cases "split_on c xs"; cases "tl (split_on c xs)") (auto split: list.splits)
qed simp

lemma fields_on_clean: "list_all (\<lambda>c. \<not> P c) w \<Longrightarrow> list_all (list_all (\<lambda>c. \<not> P c)) (fields_on P s w)"
  by (induction P s w rule: fields_on.induct) auto

lemma FieldsFunc_clean: "list_all (list_all (\<lambda>c. \<not> P c)) (FieldsFunc P s)"
  by (simp add: FieldsFunc_def fields_on_clean)

lemma strip_words_plain: "find (leads s) ws = None \<Longrightarrow> strip_words ws s = s"
  by (simp add: strip_words.simps)

text \<open>Trimming leaves a string alone whose first and last bytes are printable ASCII.\<close>

definition graphic :: "char \<Rightarrow> bool" where
  "graphic c = (33 \<le> (of_char c :: int) \<and> (of_char c :: int) \<le> 126)"

lemma space_runes_ends: "list_all (\<lambda>w. w \<noteq> [] \<and> \<not> graphic (hd w) \<and> \<not> graphic (last w)) space_runes"
  by code_simp

lemma not_led: "s = [] \<or> P (hd s) \<Longrightarrow> list_all (\<lambda>w. w \<noteq> [] \<and> \<not> P (hd w)) ws \<Longrightarrow> find (leads s) ws = None"
  by (cases s) (auto simp: find_None_iff list_all_iff leads_def take_Cons' hd_take dest!: arg_cong[of _ _ hd])

lemma TrimSpace_graphic:
  assumes "s = [] \<or> graphic (hd s) \<and> graphic (last s)"
  shows "TrimSpace s = s"
proof -
  have "find (leads s) space_runes = None"
    by (rule not_led[where P = graphic]) (use assms space_runes_ends in \<open>auto simp: list_all_iff\<close>)
  moreover have "find (leads (rev s)) (map rev space_runes) = None"
    by (rule not_led[where P = graphic]) (use assms space_runes_ends in \<open>auto simp: list_all_iff hd_rev\<close>)
  ultimately show ?thesis by (simp add: TrimSpace_def TrimLeftSpace_def strip_words_plain)
qed

section \<open>Quoting\<close>

text \<open>
  The verb \<^verbatim>\<open>%q\<close>: escapes of the ASCII range; a byte outside it stands for itself, as a
  printable rune does.
\<close>

definition quote_char :: "char \<Rightarrow> string" where
  "quote_char c = (let n = (of_char c :: int) in
     if n = 34 then [byte 92, byte 34] else if n = 92 then [byte 92, byte 92]
     else if n = 7 then byte 92 # ''a'' else if n = 8 then byte 92 # ''b'' else if n = 12 then byte 92 # ''f''
     else if n = 10 then byte 92 # ''n'' else if n = 13 then byte 92 # ''r'' else if n = 9 then byte 92 # ''t''
     else if n = 11 then byte 92 # ''v''
     else if n < 32 \<or> n = 127 then byte 92 # CHR ''x'' # map (\<lambda>d. byte (if d < 10 then 48 + d else 87 + d)) [n div 16, n mod 16]
     else [c])"

definition Quote :: "string \<Rightarrow> string" where
  "Quote s = [byte 34] @ concat (map quote_char s) @ [byte 34]"

definition em_dash :: string where
  "em_dash = map byte [226, 128, 148]"

end
