(* ===== verification/Contract.thy ===== *)
theory Contract
  imports Go_Strings
begin

text \<open>
  The words of \<^verbatim>\<open>pkg/contract\<close>: \<^verbatim>\<open>verdictwords.go\<close> (causes, violation kinds, phases) and
  \<^verbatim>\<open>vocabulary.go\<close> (test kinds, comparisons, applicabilities, thresholds, reserved
  environment variables). Each word is a named string in the source and the world is open:
  a value this version does not know decodes and is carried. The datatypes have one
  constructor per constant and one for every other string.
\<close>

section \<open>verdictwords.go\<close>

datatype Cause = CauseMeasurement | CauseEvidence | CauseAuthoring

datatype ViolationKind =
    KindUnsatisfied | KindNotReported | KindNonNumeric | KindNonFinite
  | KindContradictory | KindUnmeasurableRequired
  | KindThresholdValueNonNumeric | KindThresholdValueNonFinite
  | OtherViolationKind string

definition ViolationKinds :: "ViolationKind list" where
  "ViolationKinds = [KindUnsatisfied, KindNotReported, KindNonNumeric, KindNonFinite,
     KindContradictory, KindUnmeasurableRequired,
     KindThresholdValueNonNumeric, KindThresholdValueNonFinite]"

datatype Phase =
    PhasePending | PhaseRunning | PhasePassed | PhaseFailed | PhaseError | PhaseSkipped | PhaseCancelled

fun kind_cause :: "ViolationKind \<Rightarrow> Cause" where
  "kind_cause KindUnsatisfied = CauseMeasurement"
| "kind_cause KindThresholdValueNonNumeric = CauseAuthoring"
| "kind_cause KindThresholdValueNonFinite = CauseAuthoring"
| "kind_cause _ = CauseEvidence"

section \<open>vocabulary.go\<close>

datatype TestKind =
    KindGPUBurn | KindComputeSmoke | KindDCGMDiag | KindXPUDiag | KindThermalSoak | KindNCCL
  | KindIBWriteBW | KindGPUDirect | KindTCPBaseline | KindMemoryBW | KindDiskIO | KindFabricSoak
  | KindFingerprintProbe | KindHostHealth | KindClockProbe | KindMemoryStress
  | KindMemoryRetention | KindGemmSweep | KindPowerSwing | KindCPUBench | KindCustom
  | OtherTestKind string

fun kind_string :: "TestKind \<Rightarrow> string" where
  "kind_string KindGPUBurn = ''gpu-burn''"
| "kind_string KindComputeSmoke = ''compute-smoke''"
| "kind_string KindDCGMDiag = ''dcgm-diag''"
| "kind_string KindXPUDiag = ''xpu-diag''"
| "kind_string KindThermalSoak = ''thermal-soak''"
| "kind_string KindNCCL = ''nccl''"
| "kind_string KindIBWriteBW = ''ib-write-bw''"
| "kind_string KindGPUDirect = ''gpudirect-rdma''"
| "kind_string KindTCPBaseline = ''tcp-baseline''"
| "kind_string KindMemoryBW = ''memory-bw''"
| "kind_string KindDiskIO = ''disk-io''"
| "kind_string KindFabricSoak = ''fabric-soak''"
| "kind_string KindFingerprintProbe = ''fingerprint-probe''"
| "kind_string KindHostHealth = ''host-health''"
| "kind_string KindClockProbe = ''clockprobe''"
| "kind_string KindMemoryStress = ''memory-stress''"
| "kind_string KindMemoryRetention = ''memory-retention''"
| "kind_string KindGemmSweep = ''gemm-sweep''"
| "kind_string KindPowerSwing = ''power-swing''"
| "kind_string KindCPUBench = ''cpu-bench''"
| "kind_string KindCustom = ''custom''"
| "kind_string (OtherTestKind s) = s"

definition BuiltInKinds :: "TestKind list" where
  "BuiltInKinds = [KindGPUBurn, KindComputeSmoke, KindGemmSweep, KindDCGMDiag, KindXPUDiag,
     KindThermalSoak, KindPowerSwing, KindNCCL, KindIBWriteBW, KindGPUDirect, KindTCPBaseline,
     KindMemoryBW, KindDiskIO, KindFabricSoak, KindFingerprintProbe, KindHostHealth,
     KindClockProbe, KindMemoryStress, KindMemoryRetention, KindCPUBench]"

definition IsBuiltIn :: "TestKind \<Rightarrow> bool" where
  "IsBuiltIn k = (k \<in> set BuiltInKinds)"

definition BurstOnly :: "TestKind \<Rightarrow> bool" where
  "BurstOnly k = (k = KindComputeSmoke \<or> k = KindFingerprintProbe)"

definition sustainedLoadKinds :: "TestKind list" where
  "sustainedLoadKinds = [KindThermalSoak, KindGPUBurn, KindPowerSwing, KindClockProbe,
     KindFabricSoak, KindMemoryStress, KindCPUBench, KindDCGMDiag, KindXPUDiag]"

definition DrivesSustainedLoad :: "TestKind \<Rightarrow> bool" where
  "DrivesSustainedLoad k = (k \<in> set sustainedLoadKinds)"

datatype Comparison = GTE | LTE | EQ | NEQ | OtherComparison string

datatype Applicability = Required | RequiredIfMeasurable | OtherApplicability string

record Threshold =
  th_metric :: string
  th_comparison :: Comparison
  th_value :: string
  th_applicability :: Applicability

definition ReservedEnv :: "string list" where
  "ReservedEnv = [''BURNIN_DURATION_SECONDS'', ''BURNIN_ATTEMPT'', ''BURNIN_ROLE'',
     ''BURNIN_PEER_HOST'', ''BURNIN_PEER_NODE'', ''BURNIN_RANK'', ''BURNIN_NRANKS'',
     ''BURNIN_ROOT_HOST'', ''BURNIN_ROOT_NODE'', ''BURNIN_RESOURCE_LIMITS'']"

section \<open>Lemmas\<close>

lemma kind_cause_measurement: "kind_cause k = CauseMeasurement \<longleftrightarrow> k = KindUnsatisfied"
  by (cases k) auto

lemma kind_cause_authoring:
  "kind_cause k = CauseAuthoring \<longleftrightarrow> k \<in> {KindThresholdValueNonNumeric, KindThresholdValueNonFinite}"
  by (cases k) auto

lemma burst_not_sustained: "BurstOnly k \<Longrightarrow> \<not> DrivesSustainedLoad k"
  by (auto simp: BurstOnly_def DrivesSustainedLoad_def sustainedLoadKinds_def)

lemma sustained_built_in: "DrivesSustainedLoad k \<Longrightarrow> IsBuiltIn k"
  by (auto simp: DrivesSustainedLoad_def sustainedLoadKinds_def IsBuiltIn_def BuiltInKinds_def)

end
