(* ===== verification/Registry.thy ===== *)
theory Registry
  imports Contract
begin

text \<open>
  The metric registry of \<^verbatim>\<open>pkg/contract/metrics.go\<close>: units and the suffix grammar, how a
  metric's windows aggregate and how its ranks combine, what may decide acceptance, and
  the table of the registered metrics. The table is the source's, entry for entry and
  in the source's order, with the prose of its descriptions left out.
\<close>

section \<open>Units\<close>

datatype Unit =
    UnitGigabitsPerSecond | UnitGigabytesPerSecond | UnitMegabytesPerSecond | UnitMicroseconds
  | UnitMilliseconds | UnitSeconds | UnitCelsius | UnitWatts | UnitPercent | UnitTeraflops
  | UnitGigaflops | UnitMegahertz | UnitGigabytes | UnitNone

fun unit_suffix :: "Unit \<Rightarrow> string" where
  "unit_suffix UnitGigabitsPerSecond = ''Gbps''"
| "unit_suffix UnitGigabytesPerSecond = ''GBs''"
| "unit_suffix UnitMegabytesPerSecond = ''MBs''"
| "unit_suffix UnitMicroseconds = ''Us''"
| "unit_suffix UnitMilliseconds = ''Ms''"
| "unit_suffix UnitSeconds = ''S''"
| "unit_suffix UnitCelsius = ''C''"
| "unit_suffix UnitWatts = ''W''"
| "unit_suffix UnitPercent = ''Pct''"
| "unit_suffix UnitTeraflops = ''Tflops''"
| "unit_suffix UnitGigaflops = ''Gflops''"
| "unit_suffix UnitMegahertz = ''MHz''"
| "unit_suffix UnitGigabytes = ''GB''"
| "unit_suffix UnitNone = []"

definition UnitSuffixes :: "Unit list" where
  "UnitSuffixes = [UnitGigabitsPerSecond, UnitGigabytesPerSecond, UnitMegabytesPerSecond,
     UnitGigabytes, UnitTeraflops, UnitGigaflops, UnitMegahertz, UnitMicroseconds,
     UnitMilliseconds, UnitPercent, UnitCelsius, UnitWatts, UnitSeconds]"

section \<open>The classifications\<close>

datatype ThresholdUse = ThresholdUseUnspecified | ThresholdUseAcceptance | ThresholdUseEvidence

datatype Aggregation = AggUnspecified | AggSum | AggMin | AggMax | AggLast

datatype Combination =
  CombineUnclassified | CombineCollective | CombineSum | CombineMax | CombineMin

record Metric =
  metric_name :: string
  metric_unit :: Unit
  metric_use :: ThresholdUse
  metric_aggregation :: Aggregation
  metric_combination :: Combination
  metric_may_be_unmeasurable :: bool

definition metric ::
  "string \<Rightarrow> Unit \<Rightarrow> Aggregation \<Rightarrow> Combination \<Rightarrow> ThresholdUse \<Rightarrow> bool \<Rightarrow> Metric" where
  "metric n u a c t b = \<lparr>metric_name = n, metric_unit = u, metric_use = t,
     metric_aggregation = a, metric_combination = c, metric_may_be_unmeasurable = b\<rparr>"

section \<open>The table\<close>

definition registry_01 :: "Metric list" where
  "registry_01 = [
     metric ''bandwidthGbps'' UnitGigabitsPerSecond AggMin CombineMin ThresholdUseAcceptance False,
     metric ''tcpThroughputGbps'' UnitGigabitsPerSecond AggMin CombineMin ThresholdUseAcceptance False,
     metric ''minBandwidthGbps'' UnitGigabitsPerSecond AggMin CombineMin ThresholdUseAcceptance False,
     metric ''meanBandwidthGbps'' UnitGigabitsPerSecond AggLast CombineUnclassified ThresholdUseEvidence False,
     metric ''p1BandwidthGbps'' UnitGigabitsPerSecond AggMin CombineUnclassified ThresholdUseAcceptance False,
     metric ''bandwidthStdDevGbps'' UnitGigabitsPerSecond AggMax CombineUnclassified ThresholdUseEvidence False,
     metric ''peakBandwidthGbps'' UnitGigabitsPerSecond AggMin CombineUnclassified ThresholdUseAcceptance False,
     metric ''busBandwidthGBs'' UnitGigabytesPerSecond AggMin CombineCollective ThresholdUseAcceptance False,
     metric ''algBandwidthGBs'' UnitGigabytesPerSecond AggMin CombineCollective ThresholdUseAcceptance False,
     metric ''ranks'' UnitNone AggLast CombineUnclassified ThresholdUseEvidence False,
     metric ''hostToDeviceBandwidthGBs'' UnitGigabytesPerSecond AggMin CombineUnclassified ThresholdUseAcceptance False,
     metric ''deviceToHostBandwidthGBs'' UnitGigabytesPerSecond AggMin CombineUnclassified ThresholdUseAcceptance False,
     metric ''peerReadBandwidthGBs'' UnitGigabytesPerSecond AggMin CombineUnclassified ThresholdUseAcceptance True,
     metric ''peerReadBandwidthMaxGBs'' UnitGigabytesPerSecond AggMax CombineUnclassified ThresholdUseEvidence False,
     metric ''peerWriteBandwidthGBs'' UnitGigabytesPerSecond AggMin CombineUnclassified ThresholdUseAcceptance True,
     metric ''peerWriteBandwidthMaxGBs'' UnitGigabytesPerSecond AggMax CombineUnclassified ThresholdUseEvidence False,
     metric ''deviceToDeviceBandwidthGBs'' UnitGigabytesPerSecond AggMin CombineUnclassified ThresholdUseAcceptance False,
     metric ''memoryBandwidthGBs'' UnitGigabytesPerSecond AggMin CombineMin ThresholdUseAcceptance False,
     metric ''readBandwidthMBs'' UnitMegabytesPerSecond AggMin CombineUnclassified ThresholdUseAcceptance False,
     metric ''writeBandwidthMBs'' UnitMegabytesPerSecond AggMin CombineUnclassified ThresholdUseAcceptance False]"

definition registry_02 :: "Metric list" where
  "registry_02 = [
     metric ''latencyUs'' UnitMicroseconds AggMax CombineMax ThresholdUseAcceptance False,
     metric ''minLatencyUs'' UnitMicroseconds AggMin CombineUnclassified ThresholdUseEvidence False,
     metric ''maxLatencyUs'' UnitMicroseconds AggMax CombineMax ThresholdUseEvidence False,
     metric ''p99LatencyUs'' UnitMicroseconds AggMax CombineMax ThresholdUseAcceptance False,
     metric ''tcpRttUs'' UnitMicroseconds AggMax CombineMax ThresholdUseAcceptance False,
     metric ''messageRateMpps'' UnitNone AggMin CombineUnclassified ThresholdUseAcceptance False,
     metric ''ioLatencyUs'' UnitMicroseconds AggMax CombineMax ThresholdUseAcceptance False,
     metric ''elapsedS'' UnitSeconds AggSum CombineMax ThresholdUseAcceptance False,
     metric ''durationRequestedS'' UnitSeconds AggLast CombineUnclassified ThresholdUseEvidence False,
     metric ''warmupS'' UnitSeconds AggLast CombineUnclassified ThresholdUseEvidence False,
     metric ''sampleWindowS'' UnitSeconds AggLast CombineUnclassified ThresholdUseEvidence False,
     metric ''gpuTempC'' UnitCelsius AggMax CombineMax ThresholdUseAcceptance False,
     metric ''meanTempUnderLoadC'' UnitCelsius AggMax CombineMax ThresholdUseAcceptance False,
     metric ''tempAtMinClockC'' UnitCelsius AggLast CombineUnclassified ThresholdUseEvidence False,
     metric ''thermalTempThresholdC'' UnitCelsius AggLast CombineUnclassified ThresholdUseEvidence False,
     metric ''powerDrawW'' UnitWatts AggMax CombineMax ThresholdUseAcceptance False,
     metric ''meanPowerW'' UnitWatts AggMax CombineUnclassified ThresholdUseAcceptance False,
     metric ''enforcedPowerLimitW'' UnitWatts AggMin CombineUnclassified ThresholdUseAcceptance False,
     metric ''defaultPowerLimitW'' UnitWatts AggLast CombineUnclassified ThresholdUseEvidence False,
     metric ''powerLimitRatioPct'' UnitPercent AggMin CombineUnclassified ThresholdUseAcceptance False,
     metric ''sustainedClockPct'' UnitPercent AggMin CombineUnclassified ThresholdUseAcceptance False,
     metric ''smClockMHz'' UnitMegahertz AggMin CombineUnclassified ThresholdUseAcceptance False]"

definition registry_03 :: "Metric list" where
  "registry_03 = [
     metric ''memClockMHz'' UnitMegahertz AggMin CombineUnclassified ThresholdUseAcceptance False,
     metric ''ratedBoostClockMHz'' UnitMegahertz AggLast CombineUnclassified ThresholdUseEvidence False,
     metric ''ratedMemClockMHz'' UnitMegahertz AggLast CombineUnclassified ThresholdUseEvidence False,
     metric ''minSmClockPct'' UnitPercent AggMin CombineUnclassified ThresholdUseAcceptance False,
     metric ''maxSmClockPct'' UnitPercent AggMax CombineUnclassified ThresholdUseEvidence False,
     metric ''memClockPct'' UnitPercent AggMin CombineUnclassified ThresholdUseEvidence False,
     metric ''clockFloorPct'' UnitPercent AggLast CombineUnclassified ThresholdUseEvidence False,
     metric ''thermalClockFloorPct'' UnitPercent AggLast CombineUnclassified ThresholdUseEvidence False,
     metric ''clockFloorAppliedPct'' UnitPercent AggMin CombineUnclassified ThresholdUseEvidence False,
     metric ''gpuUtilizationPct'' UnitPercent AggMax CombineUnclassified ThresholdUseEvidence False,
     metric ''memUtilizationPct'' UnitPercent AggMax CombineUnclassified ThresholdUseEvidence False,
     metric ''throughputTflops'' UnitTeraflops AggLast CombineUnclassified ThresholdUseEvidence False,
     metric ''sustainedThroughputTflops'' UnitTeraflops AggMin CombineUnclassified ThresholdUseAcceptance False,
     metric ''sustainedFmaThroughputTflops'' UnitTeraflops AggMin CombineUnclassified ThresholdUseAcceptance False,
     metric ''peakFmaThroughputTflops'' UnitTeraflops AggMax CombineUnclassified ThresholdUseEvidence False,
     metric ''throughputConsistencyPct'' UnitPercent AggMin CombineUnclassified ThresholdUseAcceptance False,
     metric ''achievedTflops'' UnitTeraflops AggMin CombineUnclassified ThresholdUseAcceptance False,
     metric ''maxRelativeError'' UnitNone AggMax CombineUnclassified ThresholdUseAcceptance False,
     metric ''gemmPrecision'' UnitNone AggLast CombineUnclassified ThresholdUseEvidence False]"

definition registry_04 :: "Metric list" where
  "registry_04 = [
     metric ''gemmShape'' UnitNone AggLast CombineUnclassified ThresholdUseEvidence False,
     metric ''maxAbsError'' UnitNone AggMax CombineUnclassified ThresholdUseEvidence False,
     metric ''maxAbsRef'' UnitNone AggMax CombineUnclassified ThresholdUseEvidence False,
     metric ''totalKernelMs'' UnitMilliseconds AggSum CombineUnclassified ThresholdUseEvidence False,
     metric ''nonfiniteCount'' UnitNone AggSum CombineSum ThresholdUseAcceptance False,
     metric ''miscompares'' UnitNone AggSum CombineSum ThresholdUseAcceptance False,
     metric ''sdcDetections'' UnitNone AggSum CombineSum ThresholdUseAcceptance False,
     metric ''eccErrors'' UnitNone AggLast CombineSum ThresholdUseAcceptance False,
     metric ''memoryErrors'' UnitNone AggSum CombineSum ThresholdUseAcceptance False,
     metric ''retentionBitFlips'' UnitNone AggSum CombineSum ThresholdUseAcceptance False,
     metric ''retentionBytesFlipped'' UnitNone AggSum CombineSum ThresholdUseAcceptance False,
     metric ''retentionPatternsCompleted'' UnitNone AggLast CombineUnclassified ThresholdUseEvidence False,
     metric ''retentionFirstFlipOffset'' UnitNone AggLast CombineUnclassified ThresholdUseEvidence False,
     metric ''retentionFirstFlipPattern'' UnitNone AggLast CombineUnclassified ThresholdUseEvidence False,
     metric ''retentionMemoryLocked'' UnitNone AggLast CombineUnclassified ThresholdUseEvidence False]"

definition registry_05 :: "Metric list" where
  "registry_05 = [
     metric ''xidEvents'' UnitNone AggSum CombineSum ThresholdUseAcceptance False,
     metric ''lastXidCode'' UnitNone AggLast CombineUnclassified ThresholdUseEvidence False,
     metric ''remappedRows'' UnitNone AggLast CombineSum ThresholdUseAcceptance False,
     metric ''pcieReplayErrors'' UnitNone AggSum CombineSum ThresholdUseAcceptance False,
     metric ''tcpRetransmits'' UnitNone AggSum CombineSum ThresholdUseAcceptance False,
     metric ''acceleratorCount'' UnitNone AggLast CombineUnclassified ThresholdUseAcceptance False,
     metric ''ioErrors'' UnitNone AggSum CombineSum ThresholdUseAcceptance False,
     metric ''nicLinkDownEvents'' UnitNone AggSum CombineSum ThresholdUseAcceptance False,
     metric ''soakIterations'' UnitNone AggSum CombineUnclassified ThresholdUseEvidence False,
     metric ''soakFailedIterations'' UnitNone AggSum CombineSum ThresholdUseAcceptance False,
     metric ''soakConnectFailures'' UnitNone AggSum CombineSum ThresholdUseAcceptance False,
     metric ''soakConnectRetries'' UnitNone AggSum CombineUnclassified ThresholdUseEvidence False,
     metric ''soakServerRestarts'' UnitNone AggSum CombineUnclassified ThresholdUseEvidence False,
     metric ''linkErrorEvents'' UnitNone AggSum CombineSum ThresholdUseAcceptance False,
     metric ''throttleEvents'' UnitNone AggSum CombineSum ThresholdUseAcceptance False,
     metric ''throttledSamples'' UnitNone AggSum CombineUnclassified ThresholdUseAcceptance False,
     metric ''throttleReasonsMask'' UnitNone AggMax CombineUnclassified ThresholdUseEvidence False]"

definition registry_06 :: "Metric list" where
  "registry_06 = [
     metric ''unsupportedReads'' UnitNone AggMax CombineUnclassified ThresholdUseEvidence False,
     metric ''deviceCount'' UnitNone AggLast CombineUnclassified ThresholdUseAcceptance False,
     metric ''devicesVisible'' UnitNone AggLast CombineUnclassified ThresholdUseEvidence False,
     metric ''deviceWindowS'' UnitSeconds AggLast CombineUnclassified ThresholdUseEvidence False,
     metric ''worstDeviceIndex'' UnitNone AggLast CombineUnclassified ThresholdUseEvidence False,
     metric ''worstDevicePciBusId'' UnitNone AggLast CombineUnclassified ThresholdUseEvidence False,
     metric ''deviceHomogeneous'' UnitNone AggLast CombineUnclassified ThresholdUseEvidence False,
     metric ''deviceConcurrency'' UnitNone AggLast CombineUnclassified ThresholdUseEvidence False,
     metric ''sustainedClockSpreadPct'' UnitPercent AggMax CombineUnclassified ThresholdUseAcceptance True,
     metric ''gemmThroughputSpreadPct'' UnitPercent AggMax CombineUnclassified ThresholdUseAcceptance True,
     metric ''fmaThroughputSpreadPct'' UnitPercent AggMax CombineUnclassified ThresholdUseAcceptance True,
     metric ''hostToDeviceBandwidthSpreadPct'' UnitPercent AggMax CombineUnclassified ThresholdUseAcceptance True,
     metric ''diagTestsFailed'' UnitNone AggSum CombineUnclassified ThresholdUseAcceptance False,
     metric ''testsWarned'' UnitNone AggSum CombineUnclassified ThresholdUseAcceptance False,
     metric ''iterationsCompleted'' UnitNone AggSum CombineUnclassified ThresholdUseAcceptance False,
     metric ''samplesTaken'' UnitNone AggSum CombineUnclassified ThresholdUseEvidence False,
     metric ''loadLaunches'' UnitNone AggSum CombineUnclassified ThresholdUseEvidence False,
     metric ''loadThreads'' UnitNone AggLast CombineUnclassified ThresholdUseEvidence False,
     metric ''loadItersPerLaunch'' UnitNone AggLast CombineUnclassified ThresholdUseEvidence False]"

definition registry_07 :: "Metric list" where
  "registry_07 = [
     metric ''tcpTestInterface'' UnitNone AggLast CombineUnclassified ThresholdUseEvidence False,
     metric ''tcpMgmtInterface'' UnitNone AggLast CombineUnclassified ThresholdUseEvidence False,
     metric ''pciAddresses'' UnitNone AggLast CombineUnclassified ThresholdUseEvidence False,
     metric ''pciVendorIds'' UnitNone AggLast CombineUnclassified ThresholdUseEvidence False,
     metric ''pciDeviceIds'' UnitNone AggLast CombineUnclassified ThresholdUseEvidence False,
     metric ''acceleratorVendors'' UnitNone AggLast CombineUnclassified ThresholdUseEvidence False,
     metric ''acceleratorDrivers'' UnitNone AggLast CombineUnclassified ThresholdUseEvidence False,
     metric ''diskIoPath'' UnitNone AggLast CombineUnclassified ThresholdUseEvidence False,
     metric ''gpuName'' UnitNone AggLast CombineUnclassified ThresholdUseEvidence False,
     metric ''computeCap'' UnitNone AggLast CombineUnclassified ThresholdUseEvidence False,
     metric ''pciBusId'' UnitNone AggLast CombineUnclassified ThresholdUseEvidence False,
     metric ''driverVersion'' UnitNone AggLast CombineUnclassified ThresholdUseEvidence False,
     metric ''builtCudaArch'' UnitNone AggLast CombineUnclassified ThresholdUseEvidence False,
     metric ''migMode'' UnitNone AggLast CombineUnclassified ThresholdUseEvidence False,
     metric ''nvmlUnsupported'' UnitNone AggLast CombineUnclassified ThresholdUseEvidence False,
     metric ''configWarnings'' UnitNone AggLast CombineUnclassified ThresholdUseEvidence False,
     metric ''throttleReasons'' UnitNone AggLast CombineUnclassified ThresholdUseEvidence False,
     metric ''throttleClassification'' UnitNone AggLast CombineUnclassified ThresholdUseEvidence False,
     metric ''ncclTransport'' UnitNone AggLast CombineUnclassified ThresholdUseEvidence False,
     metric ''pdWedgeSuspected'' UnitNone AggLast CombineUnclassified ThresholdUseEvidence False,
     metric ''idleClockLockSuspected'' UnitNone AggLast CombineUnclassified ThresholdUseEvidence False,
     metric ''gfxTarget'' UnitNone AggLast CombineUnclassified ThresholdUseEvidence False,
     metric ''clockFloorBasis'' UnitNone AggLast CombineUnclassified ThresholdUseEvidence False]"

definition registry_08 :: "Metric list" where
  "registry_08 = [
     metric ''swingTransitions'' UnitNone AggSum CombineUnclassified ThresholdUseEvidence False,
     metric ''swingWorstPostRampClockPct'' UnitPercent AggMin CombineUnclassified ThresholdUseEvidence False,
     metric ''swingPeakRampPowerW'' UnitWatts AggMax CombineUnclassified ThresholdUseEvidence False,
     metric ''swingNewThrottleEvents'' UnitNone AggSum CombineUnclassified ThresholdUseEvidence False,
     metric ''swingNewThrottleReasons'' UnitNone AggLast CombineUnclassified ThresholdUseEvidence False,
     metric ''fabricCountersSaturated'' UnitNone AggMax CombineUnclassified ThresholdUseAcceptance False,
     metric ''fabricSaturatedCounters'' UnitNone AggLast CombineUnclassified ThresholdUseEvidence False,
     metric ''fabricCounterStatus'' UnitNone AggLast CombineUnclassified ThresholdUseEvidence False,
     metric ''eccMode'' UnitNone AggLast CombineUnclassified ThresholdUseEvidence False,
     metric ''eccSource'' UnitNone AggLast CombineUnclassified ThresholdUseEvidence False,
     metric ''eccVendorConflict'' UnitNone AggLast CombineUnclassified ThresholdUseEvidence False,
     metric ''amdRasUnreadableFiles'' UnitNone AggLast CombineUnclassified ThresholdUseEvidence False,
     metric ''xidSource'' UnitNone AggLast CombineUnclassified ThresholdUseEvidence False,
     metric ''xidSourceDetail'' UnitNone AggLast CombineUnclassified ThresholdUseEvidence False,
     metric ''xidLogDropped'' UnitNone AggLast CombineUnclassified ThresholdUseEvidence False,
     metric ''xidWindowsWatched'' UnitNone AggSum CombineSum ThresholdUseAcceptance False]"

definition registry_09 :: "Metric list" where
  "registry_09 = [
     metric ''xidPreexisting'' UnitNone AggLast CombineMax ThresholdUseAcceptance False,
     metric ''kernelFatalErrors'' UnitNone AggSum CombineSum ThresholdUseAcceptance False,
     metric ''kernelFatalErrorsPreexisting'' UnitNone AggLast CombineMax ThresholdUseAcceptance False,
     metric ''cpuCount'' UnitNone AggLast CombineUnclassified ThresholdUseAcceptance False,
     metric ''performanceCoreCount'' UnitNone AggLast CombineUnclassified ThresholdUseAcceptance False,
     metric ''memoryTotalGB'' UnitGigabytes AggLast CombineUnclassified ThresholdUseAcceptance False,
     metric ''nvmeCount'' UnitNone AggLast CombineUnclassified ThresholdUseAcceptance False,
     metric ''nvmeTotalCapacityGB'' UnitGigabytes AggLast CombineUnclassified ThresholdUseAcceptance False,
     metric ''nvmeModels'' UnitNone AggLast CombineUnclassified ThresholdUseEvidence False,
     metric ''nvmePciAddresses'' UnitNone AggLast CombineUnclassified ThresholdUseEvidence False,
     metric ''smClockSteadyStateDeltaPct'' UnitPercent AggLast CombineUnclassified ThresholdUseEvidence False,
     metric ''fmaSingleCoreGflops'' UnitGigaflops AggMin CombineUnclassified ThresholdUseAcceptance False,
     metric ''fmaAllCoreGflops'' UnitGigaflops AggMin CombineUnclassified ThresholdUseAcceptance False,
     metric ''hostStreamCopyGBs'' UnitGigabytesPerSecond AggMin CombineUnclassified ThresholdUseAcceptance False,
     metric ''hostStreamScaleGBs'' UnitGigabytesPerSecond AggMin CombineUnclassified ThresholdUseAcceptance False,
     metric ''hostStreamAddGBs'' UnitGigabytesPerSecond AggMin CombineUnclassified ThresholdUseAcceptance False,
     metric ''hostStreamTriadGBs'' UnitGigabytesPerSecond AggMin CombineUnclassified ThresholdUseAcceptance False,
     metric ''cpuBenchThreads'' UnitNone AggLast CombineUnclassified ThresholdUseEvidence False,
     metric ''cpuBenchPerfCore'' UnitNone AggLast CombineUnclassified ThresholdUseEvidence False,
     metric ''streamArrayBytes'' UnitNone AggLast CombineUnclassified ThresholdUseEvidence False,
     metric ''streamArrayBasis'' UnitNone AggLast CombineUnclassified ThresholdUseEvidence False]"

definition registry_10 :: "Metric list" where
  "registry_10 = [
     metric ''streamStatus'' UnitNone AggLast CombineUnclassified ThresholdUseEvidence False,
     metric ''managedMemoryBandwidthGBs'' UnitGigabytesPerSecond AggMin CombineUnclassified ThresholdUseAcceptance True,
     metric ''managedTriadStatus'' UnitNone AggLast CombineUnclassified ThresholdUseEvidence False,
     metric ''randReadIops'' UnitNone AggMin CombineUnclassified ThresholdUseAcceptance False,
     metric ''randReadP99LatencyUs'' UnitMicroseconds AggMax CombineUnclassified ThresholdUseAcceptance False,
     metric ''randReadQueueDepth'' UnitNone AggLast CombineUnclassified ThresholdUseEvidence False,
     metric ''bandwidthSteadyStateDeltaPct'' UnitPercent AggLast CombineUnclassified ThresholdUseEvidence False,
     metric ''nvmeSerialDigests'' UnitNone AggLast CombineUnclassified ThresholdUseEvidence False,
     metric ''nodeReady'' UnitNone AggLast CombineUnclassified ThresholdUseEvidence False,
     metric ''hostHealthVersion'' UnitNone AggLast CombineUnclassified ThresholdUseEvidence False,
     metric ''hostHealthStage'' UnitNone AggLast CombineUnclassified ThresholdUseEvidence False,
     metric ''hostHealthPanic'' UnitNone AggLast CombineUnclassified ThresholdUseEvidence False]"

definition registry :: "Metric list" where
  "registry = concat [registry_01, registry_02, registry_03, registry_04, registry_05, registry_06, registry_07, registry_08, registry_09, registry_10]"

section \<open>Reading the table\<close>

definition Lookup :: "string \<Rightarrow> Metric option" where
  "Lookup name = find (\<lambda>m. metric_name m = name) registry"

definition AggregationFor :: "string \<Rightarrow> Aggregation" where
  "AggregationFor name = (case Lookup name of Some m \<Rightarrow> metric_aggregation m | None \<Rightarrow> AggLast)"

definition CombinationFor :: "string \<Rightarrow> Combination" where
  "CombinationFor name =
     (case Lookup name of Some m \<Rightarrow> metric_combination m | None \<Rightarrow> CombineUnclassified)"

definition metric_safe :: "Metric \<Rightarrow> bool" where
  "metric_safe m = (metric_use m = ThresholdUseAcceptance)"

definition SafeToThresholdOn :: "string \<Rightarrow> bool" where
  "SafeToThresholdOn name = (case Lookup name of None \<Rightarrow> True | Some m \<Rightarrow> metric_safe m)"

definition MayBeUnmeasurable :: "string \<Rightarrow> bool" where
  "MayBeUnmeasurable name = (case Lookup name of None \<Rightarrow> False | Some m \<Rightarrow> metric_may_be_unmeasurable m)"

definition SpreadMetrics :: "string list" where
  "SpreadMetrics = [''sustainedClockSpreadPct'', ''gemmThroughputSpreadPct'',
     ''fmaThroughputSpreadPct'', ''hostToDeviceBandwidthSpreadPct'']"

definition IsSpreadMetric :: "string \<Rightarrow> bool" where
  "IsSpreadMetric name = (name \<in> set SpreadMetrics)"

definition Registered :: "string list" where
  "Registered = sort_strings (map metric_name registry)"

definition UnitOf :: "string \<Rightarrow> Unit" where
  "UnitOf name =
     (case find (\<lambda>u. HasSuffix name (unit_suffix u) \<and> length (unit_suffix u) < length name) UnitSuffixes of
        Some u \<Rightarrow> u | None \<Rightarrow> UnitNone)"

section \<open>The name grammar\<close>

datatype NameError =
    NameEmpty
  | NameNotLowerCamel string
  | NameNotAlnum string char
  | NameUnitMismatch string Unit Unit

definition is_alnum :: "char \<Rightarrow> bool" where
  "is_alnum c = (is_lower c \<or> is_upper c \<or> is_digit c)"

text \<open>\<open>None\<close> is the nil error.\<close>

definition ValidateMetricName :: "string \<Rightarrow> NameError option" where
  "ValidateMetricName name = (case name of
     [] \<Rightarrow> Some NameEmpty
   | c # _ \<Rightarrow>
       if \<not> is_lower c then Some (NameNotLowerCamel name)
       else (case find (\<lambda>r. \<not> is_alnum r) name of
         Some r \<Rightarrow> Some (NameNotAlnum name r)
       | None \<Rightarrow> (case Lookup name of
           Some m \<Rightarrow> if UnitOf name \<noteq> metric_unit m
             then Some (NameUnitMismatch name (metric_unit m) (UnitOf name)) else None
         | None \<Rightarrow> None)))"

definition valid_name :: "string \<Rightarrow> bool" where
  "valid_name name = (ValidateMetricName name = None)"

text \<open>
  \<^verbatim>\<open>ValidateMetrics\<close> reports every offending name; the source sorts their messages and
  joins them, the model keeps the errors in the order of the map.
\<close>

definition ValidateMetrics :: "string gomap \<Rightarrow> NameError list" where
  "ValidateMetrics metrics = concat (map (\<lambda>name. case ValidateMetricName name of
     Some e \<Rightarrow> [e] | None \<Rightarrow> []) (mkeys metrics))"

section \<open>The table is consistent\<close>

definition entry_ok :: "Metric \<Rightarrow> bool" where
  "entry_ok m = (metric_name m \<noteq> [] \<and> is_lower (hd (metric_name m)) \<and> list_all is_alnum (metric_name m) \<and>
     UnitOf (metric_name m) = metric_unit m \<and> metric_use m \<noteq> ThresholdUseUnspecified \<and>
     metric_aggregation m \<noteq> AggUnspecified \<and>
     (metric_may_be_unmeasurable m \<longrightarrow> metric_use m = ThresholdUseAcceptance))"

lemma registry_entries: "list_all entry_ok registry"
  by code_simp

lemma Lookup_Some: "Lookup name = Some m \<Longrightarrow> m \<in> set registry \<and> metric_name m = name"
  by (auto simp: Lookup_def find_Some_iff)

lemma Lookup_entry_ok: "Lookup name = Some m \<Longrightarrow> entry_ok m"
  using Lookup_Some registry_entries by (auto simp: list_all_iff)

lemma Lookup_None: "Lookup name = None \<longleftrightarrow> name \<notin> metric_name ` set registry"
  by (auto simp: Lookup_def find_None_iff)

lemma Registered_Lookup: "name \<in> set Registered \<longleftrightarrow> Lookup name \<noteq> None"
  by (auto simp: Registered_def Lookup_None)

lemma AggregationFor_specified: "AggregationFor name \<noteq> AggUnspecified"
  by (auto simp: AggregationFor_def entry_ok_def dest: Lookup_entry_ok split: option.splits)

text \<open>
  The grammar on its own: a name that starts with a lower-case letter and is alphanumeric
  throughout. A registered name always satisfies it and carries its registered unit, so
  validation never refuses a name this project owns.
\<close>

definition grammatical :: "string \<Rightarrow> bool" where
  "grammatical name = (name \<noteq> [] \<and> is_lower (hd name) \<and> list_all is_alnum name)"

lemma valid_name_iff: "valid_name name \<longleftrightarrow> grammatical name"
proof -
  have reg: "UnitOf name = metric_unit m" if "Lookup name = Some m" for m
    using Lookup_entry_ok[OF that] Lookup_Some[OF that] by (auto simp: entry_ok_def)
  have f: "find (\<lambda>r. \<not> is_alnum r) name = None \<longleftrightarrow> list_all is_alnum name"
    by (auto simp: find_None_iff list_all_iff)
  show ?thesis
  proof (cases "find (\<lambda>r. \<not> is_alnum r) name")
    case None
    then show ?thesis using f reg
      by (cases name) (auto simp: valid_name_def ValidateMetricName_def grammatical_def split: option.splits)
  next
    case (Some r)
    then have "\<not> list_all is_alnum name" using f by auto
    then show ?thesis using Some
      by (cases name) (auto simp: valid_name_def ValidateMetricName_def grammatical_def)
  qed
qed

lemma registered_valid: "Lookup name \<noteq> None \<Longrightarrow> valid_name name"
  using Lookup_entry_ok Lookup_Some by (fastforce simp: valid_name_iff grammatical_def entry_ok_def)

lemma UnitOf_suffix:
  assumes "UnitOf name \<noteq> UnitNone"
  shows "HasSuffix name (unit_suffix (UnitOf name))"
proof -
  define P where "P = (\<lambda>u. HasSuffix name (unit_suffix u) \<and> length (unit_suffix u) < length name)"
  have U: "UnitOf name = (case find P UnitSuffixes of Some u \<Rightarrow> u | None \<Rightarrow> UnitNone)"
    by (simp add: UnitOf_def P_def)
  then obtain u where u: "find P UnitSuffixes = Some u" using assms by (cases "find P UnitSuffixes") auto
  then have "P u" by (auto simp: find_Some_iff)
  then show ?thesis using U u by (simp add: P_def)
qed

lemma ValidateMetrics_Nil: "ValidateMetrics ms = [] \<longleftrightarrow> (\<forall>k \<in> set (mkeys ms). valid_name k)"
  by (auto simp: ValidateMetrics_def valid_name_def split: option.splits)

end
