(* ===== verification/Verdict.thy ===== *)
theory Verdict
  imports Registry
begin

text \<open>
  \<^verbatim>\<open>pkg/verdict/verdict.go\<close>: a test's thresholds applied to what one execution reported. The
  loop of \<open>Evaluate\<close> is modelled with its accumulators and the position at which the first
  violation was found. Below it, \<open>gate\<close> says what one threshold means on its own, and the
  refinement lemma \<open>Evaluate_spec\<close> says that the loop computes exactly that, threshold by
  threshold.

  A rendered message is kept as the call that renders it: the format and its arguments.
\<close>

section \<open>Messages\<close>

datatype msg =
    Text string
  | Sprintf string "arg list"
  | Cat msg msg
  | Trimmed msg
  | JoinMsg "msg list" string
and arg = AStr string | AInt int | AFloat float64 | AMsg msg

fun comparison_string :: "Comparison \<Rightarrow> string" where
  "comparison_string GTE = ''GreaterThanOrEqual''"
| "comparison_string LTE = ''LessThanOrEqual''"
| "comparison_string EQ = ''Equal''"
| "comparison_string NEQ = ''NotEqual''"
| "comparison_string (OtherComparison s) = s"

fun applicability_string :: "Applicability \<Rightarrow> string" where
  "applicability_string Required = ''Required''"
| "applicability_string RequiredIfMeasurable = ''RequiredIfMeasurable''"
| "applicability_string (OtherApplicability s) = s"

section \<open>The outcome\<close>

definition ReasonUnmeasurable :: string where
  "ReasonUnmeasurable = ''unmeasurable on this hardware''"

record NotEvaluated =
  ne_metric :: string
  ne_reason :: string

record Violation =
  v_index :: nat
  v_metric :: string
  v_cause :: Cause
  v_kind :: ViolationKind
  v_reason :: msg

record AppliedGate =
  ag_index :: nat
  ag_metric :: string
  ag_comparison :: Comparison
  ag_value :: string

record Outcome =
  out_passed :: bool
  out_message :: msg
  out_not_evaluated :: "NotEvaluated list"
  out_violations :: "Violation list"
  out_applied :: "AppliedGate list"

section \<open>Evaluate\<close>

text \<open>\<^verbatim>\<open>compare\<close>: no tolerance; an unknown comparison fails closed.\<close>

fun compare_f :: "float64 \<Rightarrow> Comparison \<Rightarrow> float64 \<Rightarrow> bool" where
  "compare_f got GTE want = fle want got"
| "compare_f got LTE want = fle got want"
| "compare_f got EQ want = feq got want"
| "compare_f got NEQ want = (\<not> feq got want)"
| "compare_f got (OtherComparison _) want = False"

definition applicabilityOf :: "Threshold \<Rightarrow> Applicability" where
  "applicabilityOf th = (if th_applicability th = RequiredIfMeasurable then RequiredIfMeasurable else Required)"

record eval_state =
  es_violations :: "Violation list"
  es_applied :: "AppliedGate list"
  es_not_evaluated :: "NotEvaluated list"
  es_at_first :: "nat option"

definition fail_gate :: "nat \<Rightarrow> Threshold \<Rightarrow> ViolationKind \<Rightarrow> msg \<Rightarrow> eval_state \<Rightarrow> eval_state" where
  "fail_gate i th kind reason st = st\<lparr>
     es_at_first := (if es_violations st = [] then Some (length (es_not_evaluated st)) else es_at_first st),
     es_violations := es_violations st @
       [\<lparr>v_index = i, v_metric = th_metric th, v_cause = kind_cause kind, v_kind = kind, v_reason = reason\<rparr>]\<rparr>"

text \<open>One pass of the loop, in the order of the source's guards.\<close>

definition eval_one ::
  "string gomap \<Rightarrow> nameset \<Rightarrow> nat \<Rightarrow> Threshold \<Rightarrow> eval_state \<Rightarrow> eval_state" where
  "eval_one metrics unmeasurable i th st =
     (let m = th_metric th; reported = mget metrics m in
      if flagged unmeasurable m then
        (case reported of
           Some raw \<Rightarrow> fail_gate i th KindContradictory
             (Sprintf ''metric %q was reported as %q AND declared unmeasurable; the runner's output is self-contradictory'' [AStr m, AStr raw]) st
         | None \<Rightarrow>
             if th_applicability th = RequiredIfMeasurable then
               st\<lparr>es_not_evaluated := es_not_evaluated st @ [\<lparr>ne_metric = m, ne_reason = ReasonUnmeasurable\<rparr>]\<rparr>
             else fail_gate i th KindUnmeasurableRequired
               (Sprintf ''metric %q is %s and this threshold is %s; set applicability=RequiredIfMeasurable if the gate should be skipped where the hardware cannot measure it''
                 [AStr m, AStr ReasonUnmeasurable, AStr (applicability_string (applicabilityOf th))]) st)
      else (case reported of
         None \<Rightarrow> fail_gate i th KindNotReported (Sprintf ''metric %q was not reported by the runner'' [AStr m]) st
       | Some raw \<Rightarrow> (case ParseFloat raw of
           None \<Rightarrow> fail_gate i th KindNonNumeric (Sprintf ''metric %q=%q is not numeric'' [AStr m, AStr raw]) st
         | Some got \<Rightarrow>
             if IsNaN got \<or> IsInf got then
               fail_gate i th KindNonFinite (Sprintf ''metric %q=%q is not a finite measurement'' [AStr m, AStr raw]) st
             else (case ParseFloat (th_value th) of
               None \<Rightarrow> fail_gate i th KindThresholdValueNonNumeric
                 (Sprintf ''threshold value %q for %q is not numeric'' [AStr (th_value th), AStr m]) st
             | Some want \<Rightarrow>
                 if IsNaN want \<or> IsInf want then
                   fail_gate i th KindThresholdValueNonFinite
                     (Sprintf ''threshold value %q for %q is not a finite number'' [AStr (th_value th), AStr m]) st
                 else if \<not> compare_f got (th_comparison th) want then
                   fail_gate i th KindUnsatisfied (Sprintf ''%s: got %g, need %s %g''
                     [AStr m, AFloat got, AStr (comparison_string (th_comparison th)), AFloat want]) st
                 else st\<lparr>es_applied := es_applied st @
                   [\<lparr>ag_index = i, ag_metric = m, ag_comparison = th_comparison th, ag_value = th_value th\<rparr>]\<rparr>))))"

fun eval_loop ::
  "string gomap \<Rightarrow> nameset \<Rightarrow> nat \<Rightarrow> Threshold list \<Rightarrow> eval_state \<Rightarrow> eval_state" where
  "eval_loop metrics unmeasurable i [] st = st"
| "eval_loop metrics unmeasurable i (th # ths) st =
     eval_loop metrics unmeasurable (Suc i) ths (eval_one metrics unmeasurable i th st)"

definition eval_init :: eval_state where
  "eval_init = \<lparr>es_violations = [], es_applied = [], es_not_evaluated = [], es_at_first = None\<rparr>"

definition Evaluate :: "string gomap \<Rightarrow> nameset \<Rightarrow> Threshold list \<Rightarrow> Outcome" where
  "Evaluate metrics unmeasurable thresholds =
     (let st = eval_loop metrics unmeasurable 0 thresholds eval_init in
      case es_violations st of
        [] \<Rightarrow> \<lparr>out_passed = True, out_message = Text [], out_not_evaluated = es_not_evaluated st,
               out_violations = [], out_applied = es_applied st\<rparr>
      | v # _ \<Rightarrow> \<lparr>out_passed = False, out_message = v_reason v,
               out_not_evaluated = (case es_at_first st of
                  Some n \<Rightarrow> take n (es_not_evaluated st) | None \<Rightarrow> []),
               out_violations = es_violations st, out_applied = es_applied st\<rparr>)"

section \<open>Rendering an outcome\<close>

definition NotEvaluatedMessage :: "Outcome \<Rightarrow> msg" where
  "NotEvaluatedMessage o1 = (if out_not_evaluated o1 = [] then Text []
     else Cat (Text ''not evaluated: '') (JoinMsg
       (map (\<lambda>ne. Sprintf ''%s is %s'' [AStr (ne_metric ne), AStr (ne_reason ne)]) (out_not_evaluated o1)) ''; ''))"

definition maxNamedViolations :: nat where
  "maxNamedViolations = 4"

fun causeWord :: "Cause \<Rightarrow> string" where
  "causeWord CauseMeasurement = ''hardware''"
| "causeWord CauseAuthoring = ''profile error''"
| "causeWord CauseEvidence = ''not measured''"

definition ViolationSummary :: "Outcome \<Rightarrow> msg" where
  "ViolationSummary o1 = (if length (out_violations o1) < 2 then Text []
     else (let rest = tl (out_violations o1);
               named = (if length rest > maxNamedViolations then take maxNamedViolations rest else rest);
               parts = map (\<lambda>v. Sprintf ''%s (%s)'' [AStr (v_metric v), AStr (causeWord (v_cause v))]) named;
               elided = length rest - length named;
               parts' = (if elided > 0 then parts @ [Sprintf ''and %d more'' [AInt (int elided)]] else parts);
               gates = (if length rest = 1 then ''gate'' else ''gates'')
           in Sprintf ''and %d more %s failed: %s''
                [AInt (int (length rest)), AStr gates, AMsg (JoinMsg parts' '', '')]))"

section \<open>What one gate means\<close>

text \<open>
  \<open>finite_reading s\<close> is the number a string denotes when it denotes a finite one. A gate is
  satisfied by a finite reading that clears a finite bound, waived when the runner declared
  the metric unmeasurable, did not report it, and the author asked for the relaxation, and
  violated in every other case.
\<close>

definition finite_reading :: "string \<Rightarrow> float64 option" where
  "finite_reading s = (case ParseFloat s of Some x \<Rightarrow> if is_finite x then Some x else None | None \<Rightarrow> None)"

definition satisfied :: "string gomap \<Rightarrow> nameset \<Rightarrow> Threshold \<Rightarrow> bool" where
  "satisfied metrics unmeasurable th = (\<not> flagged unmeasurable (th_metric th) \<and>
     (case mget metrics (th_metric th) of None \<Rightarrow> False
      | Some raw \<Rightarrow> (case (finite_reading raw, finite_reading (th_value th)) of
          (Some got, Some want) \<Rightarrow> compare_f got (th_comparison th) want
        | _ \<Rightarrow> False)))"

definition waived :: "string gomap \<Rightarrow> nameset \<Rightarrow> Threshold \<Rightarrow> bool" where
  "waived metrics unmeasurable th = (flagged unmeasurable (th_metric th) \<and>
     mget metrics (th_metric th) = None \<and> th_applicability th = RequiredIfMeasurable)"

definition violated :: "string gomap \<Rightarrow> nameset \<Rightarrow> Threshold \<Rightarrow> bool" where
  "violated metrics unmeasurable th =
     (\<not> satisfied metrics unmeasurable th \<and> \<not> waived metrics unmeasurable th)"

text \<open>A violation by the hardware: a finite reading that was held against a finite bound.\<close>

definition falls_short :: "string gomap \<Rightarrow> nameset \<Rightarrow> Threshold \<Rightarrow> bool" where
  "falls_short metrics unmeasurable th = (\<not> flagged unmeasurable (th_metric th) \<and>
     (case mget metrics (th_metric th) of None \<Rightarrow> False
      | Some raw \<Rightarrow> (case (finite_reading raw, finite_reading (th_value th)) of
          (Some got, Some want) \<Rightarrow> \<not> compare_f got (th_comparison th) want
        | _ \<Rightarrow> False)))"

definition gate_of :: "nat \<Rightarrow> Threshold \<Rightarrow> AppliedGate" where
  "gate_of i th = \<lparr>ag_index = i, ag_metric = th_metric th, ag_comparison = th_comparison th, ag_value = th_value th\<rparr>"

definition waiver_of :: "Threshold \<Rightarrow> NotEvaluated" where
  "waiver_of th = \<lparr>ne_metric = th_metric th, ne_reason = ReasonUnmeasurable\<rparr>"

lemma finite_reading_simps:
  "ParseFloat s = None \<Longrightarrow> finite_reading s = None"
  "ParseFloat s = Some x \<Longrightarrow> finite_reading s = (if \<not> IsNaN x \<and> \<not> IsInf x then Some x else None)"
  by (simp_all add: finite_reading_def is_finite_def)

lemma finite_reading_Some: "finite_reading s = Some x \<Longrightarrow> ParseFloat s = Some x \<and> is_finite x"
  by (auto simp: finite_reading_def split: option.splits if_splits)

lemmas gate_defs = satisfied_def waived_def violated_def falls_short_def

lemma eval_one_satisfied:
  "satisfied m u th \<Longrightarrow> eval_one m u i th st = st\<lparr>es_applied := es_applied st @ [gate_of i th]\<rparr>"
  by (auto simp: satisfied_def eval_one_def Let_def gate_of_def finite_reading_def is_finite_def
      split: option.splits if_splits)

lemma eval_one_waived:
  "waived m u th \<Longrightarrow> eval_one m u i th st = st\<lparr>es_not_evaluated := es_not_evaluated st @ [waiver_of th]\<rparr>"
  by (simp add: waived_def eval_one_def waiver_of_def)

lemma eval_one_violated:
  assumes "violated m u th"
  shows "\<exists>k r. eval_one m u i th st = fail_gate i th k r st \<and>
    (kind_cause k = CauseMeasurement \<longleftrightarrow> falls_short m u th) \<and>
    (kind_cause k = CauseAuthoring \<longrightarrow> finite_reading (th_value th) = None)"
proof (cases "flagged u (th_metric th)")
  case True
  then show ?thesis using assms
    by (cases "mget m (th_metric th)") (auto simp: gate_defs eval_one_def Let_def)
next
  case unfl: False
  show ?thesis
  proof (cases "mget m (th_metric th)")
    case None
    then show ?thesis using unfl by (auto simp: gate_defs eval_one_def Let_def)
  next
    case (Some raw)
    show ?thesis
      using assms unfl Some
      by (cases "ParseFloat raw"; cases "ParseFloat (th_value th)")
        (auto simp: gate_defs eval_one_def Let_def finite_reading_def is_finite_def split: if_splits)
  qed
qed

lemma gate_trichotomy:
  "satisfied m u th \<or> waived m u th \<or> violated m u th"
  "satisfied m u th \<Longrightarrow> \<not> waived m u th \<and> \<not> violated m u th"
  "waived m u th \<Longrightarrow> \<not> violated m u th"
  by (auto simp: gate_defs)

section \<open>The loop computes it\<close>

abbreviation applied_gates :: "string gomap \<Rightarrow> nameset \<Rightarrow> nat \<Rightarrow> Threshold list \<Rightarrow> AppliedGate list" where
  "applied_gates m u i ths \<equiv>
     map (\<lambda>(j, th). gate_of j th) (filter (\<lambda>(j, th). satisfied m u th) (enumerate i ths))"

abbreviation violated_at :: "string gomap \<Rightarrow> nameset \<Rightarrow> nat \<Rightarrow> Threshold list \<Rightarrow> (nat \<times> Threshold) list" where
  "violated_at m u i ths \<equiv> filter (\<lambda>(j, th). violated m u th) (enumerate i ths)"

abbreviation waivers_before :: "string gomap \<Rightarrow> nameset \<Rightarrow> Threshold list \<Rightarrow> Threshold list" where
  "waivers_before m u ths \<equiv> filter (waived m u) (takeWhile (\<lambda>th. \<not> violated m u th) ths)"

definition reports :: "string gomap \<Rightarrow> nameset \<Rightarrow> Violation \<Rightarrow> nat \<times> Threshold \<Rightarrow> bool" where
  "reports m u v it = (v_index v = fst it \<and> v_metric v = th_metric (snd it) \<and>
     v_cause v = kind_cause (v_kind v) \<and> (v_cause v = CauseMeasurement \<longleftrightarrow> falls_short m u (snd it)) \<and>
     (v_cause v = CauseAuthoring \<longrightarrow> finite_reading (th_value (snd it)) = None))"

lemma fail_gate_violations [simp]: "es_violations (fail_gate i th k r st) \<noteq> []"
  by (simp add: fail_gate_def)

lemma eval_loop_spec:
  "\<exists>vs. eval_loop m u i ths st = st\<lparr>
      es_violations := es_violations st @ vs,
      es_applied := es_applied st @ applied_gates m u i ths,
      es_not_evaluated := es_not_evaluated st @ map waiver_of (filter (waived m u) ths),
      es_at_first := (if es_violations st = [] \<and> vs \<noteq> []
        then Some (length (es_not_evaluated st) + length (waivers_before m u ths)) else es_at_first st)\<rparr>
    \<and> list_all2 (reports m u) vs (violated_at m u i ths)"
proof (induction ths arbitrary: i st)
  case Nil
  then show ?case by simp
next
  case (Cons th ths)
  consider "satisfied m u th" | "waived m u th" | "violated m u th" using gate_trichotomy(1) by blast
  then show ?case
  proof cases
    case 1
    then show ?thesis
      using Cons.IH[of "Suc i" "st\<lparr>es_applied := es_applied st @ [gate_of i th]\<rparr>"] gate_trichotomy(2)[OF 1]
      by (simp add: eval_one_satisfied cong: if_cong split del: if_split)
  next
    case 2
    then have "\<not> satisfied m u th" "\<not> violated m u th" using gate_trichotomy(2,3) by blast+
    then show ?thesis
      using Cons.IH[of "Suc i" "st\<lparr>es_not_evaluated := es_not_evaluated st @ [waiver_of th]\<rparr>"] 2
      by (simp add: eval_one_waived cong: if_cong split del: if_split)
  next
    case 3
    then obtain k r where e: "eval_one m u i th st = fail_gate i th k r st"
      and k: "kind_cause k = CauseMeasurement \<longleftrightarrow> falls_short m u th"
        "kind_cause k = CauseAuthoring \<longrightarrow> finite_reading (th_value th) = None"
      using eval_one_violated by blast
    define v where "v = \<lparr>v_index = i, v_metric = th_metric th, v_cause = kind_cause k, v_kind = k, v_reason = r\<rparr>"
    have "reports m u v (i, th)" using k by (simp add: reports_def v_def)
    moreover have "\<not> satisfied m u th" "\<not> waived m u th" using 3 by (auto simp: violated_def)
    moreover obtain vs where
      vs: "list_all2 (reports m u) vs (violated_at m u (Suc i) ths)"
      and l: "eval_loop m u (Suc i) ths (fail_gate i th k r st) = (fail_gate i th k r st)\<lparr>
        es_violations := es_violations (fail_gate i th k r st) @ vs,
        es_applied := es_applied (fail_gate i th k r st) @ applied_gates m u (Suc i) ths,
        es_not_evaluated := es_not_evaluated (fail_gate i th k r st) @ map waiver_of (filter (waived m u) ths),
        es_at_first := es_at_first (fail_gate i th k r st)\<rparr>"
      using Cons.IH[of "Suc i" "fail_gate i th k r st"] by (auto simp: fail_gate_violations)
    ultimately show ?thesis using 3 e
      by (intro exI[of _ "v # vs"]) (simp add: fail_gate_def v_def)
  qed
qed

lemma violated_at_Nil: "violated_at m u i ths = [] \<longleftrightarrow> (\<forall>th \<in> set ths. \<not> violated m u th)"
  by (induction ths arbitrary: i) auto

text \<open>The same for the outcome: the abstract reading of every field of \<open>Evaluate\<close>'s result.\<close>

lemma Evaluate_spec:
  fixes m u ths
  defines "o1 \<equiv> Evaluate m u ths"
  shows "out_applied o1 = applied_gates m u 0 ths"
    and "list_all2 (reports m u) (out_violations o1) (violated_at m u 0 ths)"
    and "out_not_evaluated o1 = map waiver_of (waivers_before m u ths)"
    and "out_passed o1 \<longleftrightarrow> out_violations o1 = []"
    and "out_message o1 = (case out_violations o1 of [] \<Rightarrow> Text [] | v # _ \<Rightarrow> v_reason v)"
proof -
  obtain vs where st: "eval_loop m u 0 ths eval_init = \<lparr>es_violations = vs,
        es_applied = applied_gates m u 0 ths,
        es_not_evaluated = map waiver_of (filter (waived m u) ths),
        es_at_first = (if vs \<noteq> [] then Some (length (waivers_before m u ths)) else None)\<rparr>"
    and vs: "list_all2 (reports m u) vs (violated_at m u 0 ths)"
    using eval_loop_spec[of m u 0 ths eval_init] by (auto simp: eval_init_def)
  have pre: "take (length (waivers_before m u ths)) (filter (waived m u) ths) = waivers_before m u ths"
    by (induction ths) auto
  have all: "vs = [] \<Longrightarrow> waivers_before m u ths = filter (waived m u) ths"
    using vs violated_at_Nil[of m u 0 ths] by (auto intro: arg_cong[of _ _ "filter (waived m u)"] simp: takeWhile_eq_all_conv)
  show "out_applied o1 = applied_gates m u 0 ths"
    and "list_all2 (reports m u) (out_violations o1) (violated_at m u 0 ths)"
    and "out_not_evaluated o1 = map waiver_of (waivers_before m u ths)"
    and "out_passed o1 \<longleftrightarrow> out_violations o1 = []"
    and "out_message o1 = (case out_violations o1 of [] \<Rightarrow> Text [] | v # _ \<Rightarrow> v_reason v)"
    using vs all pre by (auto simp: o1_def Evaluate_def Let_def st take_map split: list.splits)
qed

lemma Evaluate_passed_iff: "out_passed (Evaluate m u ths) \<longleftrightarrow> (\<forall>th \<in> set ths. \<not> violated m u th)"
  using Evaluate_spec(2,4)[of m u ths] violated_at_Nil[of m u 0 ths] by (auto simp: list_all2_conv_all_nth)

lemma reports_index: "list_all2 (reports m u) vs its \<Longrightarrow> map v_index vs = map fst its"
  by (induction rule: list_all2_induct) (auto simp: reports_def)

section \<open>Gates are a conjunction\<close>

text \<open>
  What a caller of the evaluator relies on: the verdict over a list of gates is the
  conjunction of the verdicts of the gates.
\<close>

locale conjunctive_gates =
  fixes judge :: "'e \<Rightarrow> 't list \<Rightarrow> bool"
    and holds :: "'e \<Rightarrow> 't \<Rightarrow> bool"
  assumes judge_iff: "judge e ts \<longleftrightarrow> (\<forall>t \<in> set ts. holds e t)"
begin

lemma judge_Nil: "judge e []"
  by (simp add: judge_iff)

lemma judge_append: "judge e (ts @ ts') \<longleftrightarrow> judge e ts \<and> judge e ts'"
  by (auto simp: judge_iff)

lemma judge_mono: "set ts' \<subseteq> set ts \<Longrightarrow> judge e ts \<Longrightarrow> judge e ts'"
  by (auto simp: judge_iff)

lemma judge_order: "set ts = set ts' \<Longrightarrow> judge e ts = judge e ts'"
  by (auto simp: judge_iff)

end

interpretation evaluator: conjunctive_gates
  "\<lambda>(m, u) ths. out_passed (Evaluate m u ths)" "\<lambda>(m, u) th. \<not> violated m u th"
  by unfold_locales (auto simp: Evaluate_passed_iff)

section \<open>Properties\<close>

lemma violated_at_index: "(i, th) \<in> set (violated_at m u k ths) \<Longrightarrow> k \<le> i \<and> i < k + length ths \<and> th = ths ! (i - k) \<and> violated m u th"
  by (auto simp: in_set_enumerate_eq)

lemma violation_at:
  assumes "v \<in> set (out_violations (Evaluate m u ths))"
  shows "v_index v < length ths" "v_metric v = th_metric (ths ! v_index v)"
    "violated m u (ths ! v_index v)" "v_cause v = kind_cause (v_kind v)"
    "v_cause v = CauseMeasurement \<longleftrightarrow> falls_short m u (ths ! v_index v)"
    "v_cause v = CauseAuthoring \<Longrightarrow> finite_reading (th_value (ths ! v_index v)) = None"
proof -
  obtain it where it: "it \<in> set (violated_at m u 0 ths)" "reports m u v it"
    using Evaluate_spec(2)[of m u ths] assms by (metis list_all2_conv_all_nth in_set_conv_nth)
  moreover obtain i th where "it = (i, th)" by (cases it)
  ultimately show "v_index v < length ths" "v_metric v = th_metric (ths ! v_index v)"
    "violated m u (ths ! v_index v)" "v_cause v = kind_cause (v_kind v)"
    "v_cause v = CauseMeasurement \<longleftrightarrow> falls_short m u (ths ! v_index v)"
    "v_cause v = CauseAuthoring \<Longrightarrow> finite_reading (th_value (ths ! v_index v)) = None"
    using violated_at_index[of i th m u 0 ths] by (auto simp: reports_def)
qed

text \<open>
  C3. The evaluator refines the meaning of the gates: it passes exactly when no gate is
  violated on its own; the applied gates are the satisfied ones, in order, at their
  positions; the violations stand at the positions of the violated gates, in order; the
  waivers it reports are those met before the first violation; and the message is the
  reason of the first violation.
\<close>

theorem Evaluate_refines:
  "(out_passed (Evaluate m u ths) \<longleftrightarrow> list_all (\<lambda>th. \<not> violated m u th) ths) \<and>
   out_applied (Evaluate m u ths) =
     map (\<lambda>(j, th). gate_of j th) (filter (\<lambda>(j, th). satisfied m u th) (enumerate 0 ths)) \<and>
   map v_index (out_violations (Evaluate m u ths)) =
     map fst (filter (\<lambda>(j, th). violated m u th) (enumerate 0 ths)) \<and>
   out_not_evaluated (Evaluate m u ths) =
     map waiver_of (filter (waived m u) (takeWhile (\<lambda>th. \<not> violated m u th) ths)) \<and>
   out_message (Evaluate m u ths) =
     (case out_violations (Evaluate m u ths) of [] \<Rightarrow> Text [] | v # _ \<Rightarrow> v_reason v)"
  using Evaluate_spec[of m u ths] Evaluate_passed_iff[of m u ths] reports_index[OF Evaluate_spec(2)[of m u ths]]
  by (simp add: list_all_iff)

text \<open>
  C12. Fail-closed. If any gate of the list has no finite reading to be held against (the
  metric is absent, is not a number, or is NaN or infinite), and the gate is not one the
  author relaxed for a metric the runner declared unmeasurable, the evaluation fails.
\<close>

theorem Evaluate_fails_closed:
  assumes "th \<in> set ths"
    and "case mget m (th_metric th) of None \<Rightarrow> True | Some raw \<Rightarrow> finite_reading raw = None"
    and "\<not> waived m u th"
  shows "\<not> out_passed (Evaluate m u ths)"
proof -
  have "violated m u th" using assms(2,3) by (auto simp: violated_def satisfied_def split: option.splits)
  then show ?thesis using assms(1) Evaluate_passed_iff by blast
qed

theorem Evaluate_fails_closed_witness:
  "\<not> out_passed (Evaluate [] [] [\<lparr>th_metric = ''eccErrors'', th_comparison = LTE, th_value = ''0'', th_applicability = RequiredIfMeasurable\<rparr>])"
  by (rule Evaluate_fails_closed[where th = "\<lparr>th_metric = ''eccErrors'', th_comparison = LTE, th_value = ''0'', th_applicability = RequiredIfMeasurable\<rparr>"])
    (simp_all add: waived_def)

text \<open>
  A violation is attributed to the hardware (cause Measurement) exactly when a finite
  reading was held against a finite bound and fell short of it; every violation names the
  position and the metric of a violated gate of the list.
\<close>

theorem Evaluate_blames_hardware_only_for_measurements:
  assumes "v \<in> set (out_violations (Evaluate m u ths))"
  shows "v_index v < length ths \<and> v_metric v = th_metric (ths ! v_index v) \<and>
    violated m u (ths ! v_index v) \<and>
    (v_cause v = CauseMeasurement \<longleftrightarrow> falls_short m u (ths ! v_index v))"
  using violation_at[OF assms] by blast

theorem Evaluate_blames_hardware_only_for_measurements_witness:
  "let ths = [\<lparr>th_metric = ''busBandwidthGBs'', th_comparison = GTE, th_value = ''350'', th_applicability = Required\<rparr>];
       v = hd (out_violations (Evaluate [] [] ths))
   in v_metric v = ''busBandwidthGBs'' \<and> v_cause v \<noteq> CauseMeasurement"
proof -
  let ?ths = "[\<lparr>th_metric = ''busBandwidthGBs'', th_comparison = GTE, th_value = ''350'', th_applicability = Required\<rparr>]"
  have v: "hd (out_violations (Evaluate [] [] ?ths)) \<in> set (out_violations (Evaluate [] [] ?ths))"
    by (simp add: Evaluate_def eval_init_def eval_one_def fail_gate_def Let_def)
  show ?thesis
    using Evaluate_blames_hardware_only_for_measurements[OF v] by (simp add: falls_short_def Let_def)
qed

text \<open>
  Adding gates never turns a failure into a pass, and the order of the gates never
  changes the verdict: a list of gates passes when every gate of another list that
  passes contains it.
\<close>

theorem Evaluate_monotone:
  assumes "set ths' \<subseteq> set ths" and "out_passed (Evaluate m u ths)"
  shows "out_passed (Evaluate m u ths')"
  using evaluator.judge_mono[of ths' ths "(m, u)"] assms by simp

theorem Evaluate_monotone_witness: "out_passed (Evaluate [] [(''eccErrors'', True)] [])"
  by (rule Evaluate_monotone[of "[]"
      "[\<lparr>th_metric = ''eccErrors'', th_comparison = LTE, th_value = ''0'', th_applicability = RequiredIfMeasurable\<rparr>]"])
    (simp_all add: Evaluate_passed_iff violated_def waived_def flagged_def mget_def)

end
