(* ===== verification/Api_Types.thy ===== *)
theory Api_Types
  imports Verdict
begin

text \<open>
  The custom resources of \<^verbatim>\<open>api/v1alpha1\<close>: tests, profiles and runs. A pointer field is an
  option, a 32- or 64-bit integer field an integer, a \<^verbatim>\<open>metav1.Time\<close> a number of
  nanoseconds, a message the \<open>msg\<close> that renders it. A nil slice and an empty one are both
  \<open>[]\<close>, except in a variant, where the code tells them apart. Of a Kubernetes object
  embedded in a field the records keep what the modelled operations read: the limits of the
  resource requirements, each quantity as it prints; the name and value of an environment
  variable; a probe, which is only passed on, as an opaque text.
\<close>

section \<open>burnintest\_types.go\<close>

datatype TestScope = ScopeNode | ScopePair | ScopeGroup | ScopeUnset | OtherScope string

datatype Capability = CapabilitySYSLOG | OtherCapability string

record SoakSpec =
  sk_segment_seconds :: int
  sk_abort_early :: "bool option"

record KEnvVar =
  ke_name :: string
  ke_value :: string

record VendorImage =
  vi_vendor :: string
  vi_image :: string

record HostPathMount =
  hp_path :: string
  hp_mount_path :: string
  hp_read_only :: "bool option"
  hp_type :: "string option"

record PrepareStep =
  ps_image :: string
  ps_copy_from :: string
  ps_mount_path :: string

record RunnerSpec =
  rs_image :: string
  rs_images_by_vendor :: "VendorImage list"
  rs_command :: "string list"
  rs_args :: "string list"
  rs_env :: "KEnvVar list"
  rs_privileged :: bool
  rs_run_as_user :: "int option"
  rs_capabilities :: "Capability list"
  rs_supplemental_groups :: "int list"
  rs_priority_class_name :: string
  rs_host_paths :: "HostPathMount list"
  rs_prepare :: "PrepareStep list"
  rs_readiness_probe :: "string option"

text \<open>\<^verbatim>\<open>&RunnerSpec{}\<close>.\<close>

definition empty_runner :: RunnerSpec where
  "empty_runner = \<lparr>rs_image = [], rs_images_by_vendor = [], rs_command = [], rs_args = [], rs_env = [],
     rs_privileged = False, rs_run_as_user = None, rs_capabilities = [], rs_supplemental_groups = [],
     rs_priority_class_name = [], rs_host_paths = [], rs_prepare = [], rs_readiness_probe = None\<rparr>"

record BurnInTestSpec =
  ts_kind :: TestKind
  ts_scope :: TestScope
  ts_duration_seconds :: int
  ts_repeat_count :: "int option"
  ts_checkpoint_interval_seconds :: "int option"
  ts_soak :: "SoakSpec option"
  ts_runner :: "RunnerSpec option"
  ts_thresholds :: "Threshold list"
  ts_resource_limits :: "string gomap"
  ts_host_network :: bool

section \<open>burninprofile\_types.go\<close>

text \<open>A variant's slices are options: nil leaves the parent's, empty replaces it.\<close>

record TestVariant =
  tv_name :: string
  tv_axes :: "string gomap"
  tv_duration_seconds :: "int option"
  tv_args :: "string list option"
  tv_env :: "KEnvVar list option"
  tv_thresholds :: "Threshold list option"
  tv_repeat_count :: "int option"

record ProfileTest =
  pt_test_ref :: string
  pt_inline :: "BurnInTestSpec option"
  pt_required :: "bool option"
  pt_variants :: "TestVariant list"

record BurnInProfileSpec =
  pf_tests :: "ProfileTest list"
  pf_fail_fast :: bool
  pf_sinks :: "string list"

record Toleration =
  to_key :: string
  to_operator :: string
  to_value :: string
  to_effect :: string

record TargetSelector =
  tg_node_names :: "string list"
  tg_node_selector :: "string gomap"
  tg_tolerations :: "Toleration list"

section \<open>burninrun\_types.go\<close>

datatype RunPhase =
    RunPending | RunRunning | RunPassed | RunFailed | RunError | RunSkipped | RunCancelled
  | RunUnset | OtherRunPhase string

fun IsTerminal :: "RunPhase \<Rightarrow> bool" where
  "IsTerminal RunPassed = True"
| "IsTerminal RunFailed = True"
| "IsTerminal RunError = True"
| "IsTerminal RunSkipped = True"
| "IsTerminal RunCancelled = True"
| "IsTerminal _ = False"

datatype CancelPolicy = CancelGraceful | CancelImmediate | OtherCancelPolicy string

record BurnInRunSpec =
  sp_profile_ref :: string
  sp_target :: TargetSelector
  sp_max_concurrent_nodes :: "int option"
  sp_force :: "bool option"
  sp_retry_on_error_limit :: "int option"
  sp_deadline_seconds :: "int option"
  sp_suspend :: "bool option"
  sp_baseline :: "bool option"
  sp_cancel :: "bool option"
  sp_cancel_policy :: CancelPolicy
  sp_cancel_reason :: string
  sp_ttl_seconds_after_finished :: "int option"

datatype AttemptTrigger = AttemptInitial | AttemptRepeat | AttemptSegment | AttemptErrorRetry

type_synonym timestamp = int

record TestAttempt =
  at_attempt :: int
  at_trigger :: AttemptTrigger
  at_node :: string
  at_pod_name :: string
  at_phase :: RunPhase
  at_exit_code :: "int option"
  at_started_at :: "timestamp option"
  at_finished_at :: "timestamp option"
  at_last_checkpoint_at :: "timestamp option"
  at_metrics :: "string gomap"
  at_message :: msg

record ArtifactRef =
  ar_name :: string
  ar_media_type :: string
  ar_size_bytes :: int
  ar_digest :: string
  ar_config_map :: string
  ar_key :: string
  ar_dropped :: string

record TestResult =
  tr_name :: string
  tr_kind :: "TestKind option"
  tr_scope :: TestScope
  tr_phase :: RunPhase
  tr_nodes :: "string list"
  tr_started_at :: "timestamp option"
  tr_finished_at :: "timestamp option"
  tr_last_checkpoint_at :: "timestamp option"
  tr_metrics :: "string gomap"
  tr_message :: msg
  tr_violations :: "Violation list"
  tr_not_evaluated :: "NotEvaluated list"
  tr_applied :: "AppliedGate list"
  tr_unmeasurable :: "string list"
  tr_artifacts :: "ArtifactRef list"
  tr_variant_axes :: "string gomap"
  tr_repeats_required :: int
  tr_repeats_completed :: int
  tr_error_retries :: int
  tr_segments_required :: int
  tr_segments_completed :: int
  tr_segment_seconds :: int
  tr_aggregated_metrics :: "string gomap"
  tr_truncated_attempts :: int
  tr_attempts :: "TestAttempt list"

text \<open>A synthetic result has no kind.\<close>

definition IsSynthetic :: "TestResult \<Rightarrow> bool" where
  "IsSynthetic r = (tr_kind r = None)"

record Condition =
  cd_type :: string
  cd_status :: bool
  cd_reason :: string
  cd_message :: msg

record BurnInRunStatus =
  st_phase :: RunPhase
  st_fingerprint :: "string gomap"
  st_started_at :: "timestamp option"
  st_finished_at :: "timestamp option"
  st_results :: "TestResult list"
  st_passed :: int
  st_failed :: int
  st_errored :: int
  st_skipped :: int
  st_cordoned_nodes :: "string list"
  st_prior_unschedulable :: nameset
  st_sink_status :: "string gomap"
  st_conditions :: "Condition list"

text \<open>
  Of the object's metadata, \<open>run_finalizer\<close> is the presence of the cordon-cleanup finalizer and
  \<open>run_pinned\<close> the targets of the plan pinned in its annotations, when there is one; the
  encoding of the plan is that of the theory of pinned plans. \<open>run_cancelling\<close> is the annotation that
  records an observed cancel (empty when absent), \<open>run_pending_delivery\<close> the one that records a terminal
  envelope still to deliver, and \<open>run_deleted\<close> the presence of a deletion time.
\<close>

record BurnInRun =
  run_namespace :: string
  run_name :: string
  run_uid :: string
  run_creation :: timestamp
  run_finalizer :: bool
  run_cancelling :: string
  run_pending_delivery :: "RunPhase option"
  run_deleted :: bool
  run_pinned :: "string list option"
  run_spec :: BurnInRunSpec
  run_status :: BurnInRunStatus

section \<open>Defaults of the optional fields (internal/controller/plan.go)\<close>

definition repeatsRequired :: "BurnInTestSpec \<Rightarrow> int" where
  "repeatsRequired spec = (case ts_repeat_count spec of None \<Rightarrow> 1 | Some n \<Rightarrow> if n < 1 then 1 else n)"

text \<open>Durations are in nanoseconds, as \<^verbatim>\<open>time.Duration\<close> is.\<close>

definition second :: int where
  "second = 1000000000"

definition checkpointInterval :: "BurnInTestSpec \<Rightarrow> int" where
  "checkpointInterval spec = (case ts_checkpoint_interval_seconds spec of
     None \<Rightarrow> 0 | Some n \<Rightarrow> if n \<le> 0 then 0 else n * second)"

definition maxConcurrentNodes :: "BurnInRun \<Rightarrow> int" where
  "maxConcurrentNodes run = (case sp_max_concurrent_nodes (run_spec run) of
     None \<Rightarrow> 1 | Some n \<Rightarrow> if n < 1 then 1 else n)"

definition retryOnErrorLimit :: "BurnInRun \<Rightarrow> int" where
  "retryOnErrorLimit run = (case sp_retry_on_error_limit (run_spec run) of
     None \<Rightarrow> 0 | Some n \<Rightarrow> if n < 0 then 0 else n)"

definition runDeadline :: "BurnInRun \<Rightarrow> int" where
  "runDeadline run = (case sp_deadline_seconds (run_spec run) of
     None \<Rightarrow> 0 | Some n \<Rightarrow> if n \<le> 0 then 0 else n * second)"

definition isBaseline :: "BurnInRun \<Rightarrow> bool" where
  "isBaseline run = (sp_baseline (run_spec run) = Some True)"

definition suspended :: "BurnInRun \<Rightarrow> bool" where
  "suspended run = (sp_suspend (run_spec run) = Some True)"

definition cancelRequested :: "BurnInRun \<Rightarrow> bool" where
  "cancelRequested run = (sp_cancel (run_spec run) = Some True)"

lemma repeatsRequired_pos: "1 \<le> repeatsRequired spec"
  by (simp add: repeatsRequired_def split: option.splits)

lemma maxConcurrentNodes_pos: "1 \<le> maxConcurrentNodes run"
  by (simp add: maxConcurrentNodes_def split: option.splits)

lemma retryOnErrorLimit_nonneg: "0 \<le> retryOnErrorLimit run"
  by (simp add: retryOnErrorLimit_def split: option.splits)

end
