(* ===== verification/Plan_Expand.thy ===== *)
theory Plan_Expand
  imports Api_Types
begin

text \<open>
  \<^verbatim>\<open>pkg/plan/plan.go\<close>: a profile entry turned into the executions a dispatcher runs, one per
  variant, and the refusals of plans that would measure the wrong thing. A refusal is a
  constructor of \<open>PlanError\<close> with the arguments of its message; \<open>None\<close> is the nil error.
\<close>

record PlanTest =
  pl_name :: string
  pl_required :: bool
  pl_spec :: BurnInTestSpec
  pl_axes :: "string gomap"
  pl_parent :: string

definition CopyAxes :: "string gomap \<Rightarrow> string gomap" where
  "CopyAxes axes = fold (\<lambda>(k, v) out. mput k v out) axes []"

section \<open>ExpandVariants\<close>

text \<open>The overlays of one variant on a copy of the parent's spec, in the order of the source.\<close>

definition with_runner :: "TestVariant \<Rightarrow> BurnInTestSpec \<Rightarrow> BurnInTestSpec" where
  "with_runner v cell =
     (if (tv_args v \<noteq> None \<or> tv_env v \<noteq> None) \<and> ts_runner cell = None
      then cell\<lparr>ts_runner := Some empty_runner\<rparr> else cell)"

definition overlay_runner :: "TestVariant \<Rightarrow> BurnInTestSpec \<Rightarrow> BurnInTestSpec" where
  "overlay_runner v spec =
     (let cell = with_runner v spec;
          cell = (case tv_args v of None \<Rightarrow> cell
            | Some xs \<Rightarrow> cell\<lparr>ts_runner := map_option (\<lambda>r. r\<lparr>rs_args := xs\<rparr>) (ts_runner cell)\<rparr>)
      in case tv_env v of None \<Rightarrow> cell
         | Some es \<Rightarrow> cell\<lparr>ts_runner := map_option (\<lambda>r. r\<lparr>rs_env := es\<rparr>) (ts_runner cell)\<rparr>)"

definition overlay :: "TestVariant \<Rightarrow> BurnInTestSpec \<Rightarrow> BurnInTestSpec" where
  "overlay v spec =
     (let cell = (case tv_duration_seconds v of None \<Rightarrow> spec | Some d \<Rightarrow> spec\<lparr>ts_duration_seconds := d\<rparr>);
          cell = overlay_runner v cell;
          cell = (case tv_repeat_count v of None \<Rightarrow> cell | Some n \<Rightarrow> cell\<lparr>ts_repeat_count := Some n\<rparr>)
      in case tv_thresholds v of None \<Rightarrow> cell | Some ts \<Rightarrow> cell\<lparr>ts_thresholds := ts\<rparr>)"

definition ExpandVariants :: "string \<Rightarrow> BurnInTestSpec \<Rightarrow> bool \<Rightarrow> TestVariant list \<Rightarrow> PlanTest list" where
  "ExpandVariants name spec required variants =
     (let spec = (if ts_scope spec = ScopeUnset then spec\<lparr>ts_scope := ScopeNode\<rparr> else spec) in
      if variants = [] then
        [\<lparr>pl_name = name, pl_required = required, pl_spec = spec, pl_axes = [], pl_parent = []\<rparr>]
      else map (\<lambda>v. \<lparr>pl_name = name @ ''-'' @ tv_name v, pl_required = required, pl_spec = overlay v spec,
             pl_axes = CopyAxes (tv_axes v), pl_parent = name\<rparr>) variants)"

section \<open>Axes\<close>

record PlanEnvVar =
  ev_name :: string
  ev_value :: string

definition VariantEnvName :: "string \<Rightarrow> string" where
  "VariantEnvName axis = ''BURNIN_VARIANT_'' @ ToUpper axis"

fun axis_tail_ok :: "string \<Rightarrow> bool" where
  "axis_tail_ok [] = True"
| "axis_tail_ok (c # cs) = ((is_lower c \<or> is_upper c \<or> c = CHR ''_'' \<or> is_digit c) \<and> axis_tail_ok cs)"

definition EnvSafeAxis :: "string \<Rightarrow> bool" where
  "EnvSafeAxis name = (case name of [] \<Rightarrow> False
     | c # cs \<Rightarrow> (is_lower c \<or> is_upper c \<or> c = CHR ''_'') \<and> axis_tail_ok cs)"

definition axis_value :: "string gomap \<Rightarrow> string \<Rightarrow> string" where
  "axis_value axes k = (case mget axes k of Some v \<Rightarrow> v | None \<Rightarrow> [])"

definition VariantEnv :: "string gomap \<Rightarrow> PlanEnvVar list" where
  "VariantEnv axes = map (\<lambda>k. \<lparr>ev_name = VariantEnvName k, ev_value = axis_value axes k\<rparr>)
     (sort_strings (filter EnvSafeAxis (mkeys axes)))"

definition SortedAxisKeys :: "string gomap \<Rightarrow> string list" where
  "SortedAxisKeys axes = sort_strings (mkeys axes)"

section \<open>Refusals\<close>

datatype PlanError =
    UnreachableAxis string string
  | CapabilitiesWithoutRoot "string list"
  | ReservedEnvOverride "(string \<times> string) list"
  | UnsatisfiableThresholds "(string \<times> nat) list"
  | GatedBaseline "(string \<times> nat) list"
  | DuplicateTest string
  | GroupTooFewTargets string nat
  | GroupDuplicateNode string string
  | GroupImageNotCapable string TestKind
  | GroupExceedsCap string nat int
  | PairNeedsTwoTargets string nat
  | PairSameNode string string
  | PairExceedsCap string int
  | HostMountEmptyPath string string string
  | HostMountRelativePath string string string
  | HostMountDuplicate string string
  | SoakBurstOnly string TestKind
  | SoakSegmentTooShort string int
  | SoakNoDuration string
  | SoakSegmentTooLong string int int
  | SoakWithRepeats string int

definition RefuseUnreachableAxes :: "PlanTest list \<Rightarrow> PlanError option" where
  "RefuseUnreachableAxes tests =
     map_option (\<lambda>(n, k). UnreachableAxis n k)
       (find (\<lambda>(n, k). \<not> EnvSafeAxis k)
         (concat (map (\<lambda>t. map (\<lambda>k. (pl_name t, k)) (SortedAxisKeys (pl_axes t))) tests)))"

definition capabilities_without_root :: "PlanTest \<Rightarrow> bool" where
  "capabilities_without_root t = (case ts_runner (pl_spec t) of None \<Rightarrow> False
     | Some r \<Rightarrow> rs_capabilities r \<noteq> [] \<and> rs_run_as_user r \<noteq> Some 0)"

definition RefuseCapabilitiesWithoutRunAsUserZero :: "PlanTest list \<Rightarrow> PlanError option" where
  "RefuseCapabilitiesWithoutRunAsUserZero tests =
     (let bad = map pl_name (filter capabilities_without_root tests) in
      if bad = [] then None else Some (CapabilitiesWithoutRoot bad))"

section \<open>Expansion\<close>

lemma mget_fold_put:
  "wf_map m \<Longrightarrow> mget (fold (\<lambda>(k, v) out. mput k v out) m out) k = (case mget m k of Some v \<Rightarrow> Some v | None \<Rightarrow> mget out k)"
proof (induction m arbitrary: out)
  case (Cons kv m)
  obtain j v where kv: "kv = (j, v)" by (cases kv)
  have n: "mget m j = None" and wf: "wf_map m"
    using Cons.prems by (auto simp: kv wf_map_def mget_def map_of_eq_None_iff)
  show ?case using Cons.IH[OF wf, of "mput j v out"] n by (auto simp: kv mget_Cons mget_put split: option.splits)
qed simp

lemma CopyAxes_same: "wf_map axes \<Longrightarrow> mget (CopyAxes axes) k = mget axes k"
  by (simp add: CopyAxes_def mget_fold_put split: option.splits)

lemma CopyAxes_wf: "wf_map (CopyAxes axes)"
proof -
  have "wf_map out \<Longrightarrow> wf_map (fold (\<lambda>(k, v) out. mput k v out) axes out)" for out
    by (induction axes arbitrary: out) auto
  then show ?thesis by (simp add: CopyAxes_def)
qed

lemma CopyAxes_keys: "wf_map axes \<Longrightarrow> set (mkeys (CopyAxes axes)) = set (mkeys axes)"
  by (simp add: set_mkeys mhas_def CopyAxes_same)

lemma overlay_runner_other:
  "ts_kind (overlay_runner v s) = ts_kind s" "ts_scope (overlay_runner v s) = ts_scope s"
  "ts_duration_seconds (overlay_runner v s) = ts_duration_seconds s" "ts_soak (overlay_runner v s) = ts_soak s"
  "ts_repeat_count (overlay_runner v s) = ts_repeat_count s" "ts_thresholds (overlay_runner v s) = ts_thresholds s"
  "ts_host_network (overlay_runner v s) = ts_host_network s"
  "ts_checkpoint_interval_seconds (overlay_runner v s) = ts_checkpoint_interval_seconds s"
  by (auto simp: overlay_runner_def with_runner_def Let_def split: option.splits)

lemma overlay_runner_runner:
  "ts_runner (overlay_runner v s) = (case (tv_args v, tv_env v, ts_runner s) of
      (None, None, r) \<Rightarrow> r
    | (a, e, r) \<Rightarrow> (let r0 = (case r of Some x \<Rightarrow> x | None \<Rightarrow> empty_runner);
                        r1 = (case a of Some xs \<Rightarrow> r0\<lparr>rs_args := xs\<rparr> | None \<Rightarrow> r0)
        in Some (case e of Some es \<Rightarrow> r1\<lparr>rs_env := es\<rparr> | None \<Rightarrow> r1)))"
  by (auto simp: overlay_runner_def with_runner_def Let_def split: option.splits)

text \<open>What one cell is: each overlaid field is the variant's when it sets it, the parent's otherwise.\<close>

lemma overlay_fields:
  "ts_kind (overlay v s) = ts_kind s"
  "ts_scope (overlay v s) = ts_scope s"
  "ts_soak (overlay v s) = ts_soak s"
  "ts_host_network (overlay v s) = ts_host_network s"
  "ts_checkpoint_interval_seconds (overlay v s) = ts_checkpoint_interval_seconds s"
  "ts_duration_seconds (overlay v s) = (case tv_duration_seconds v of Some d \<Rightarrow> d | None \<Rightarrow> ts_duration_seconds s)"
  "ts_repeat_count (overlay v s) = (case tv_repeat_count v of Some n \<Rightarrow> Some n | None \<Rightarrow> ts_repeat_count s)"
  "ts_thresholds (overlay v s) = (case tv_thresholds v of Some ts \<Rightarrow> ts | None \<Rightarrow> ts_thresholds s)"
  by (auto simp: overlay_def Let_def overlay_runner_other split: option.splits)

lemma VariantEnv_names:
  "map ev_name (VariantEnv axes) = map VariantEnvName (sort_strings (filter EnvSafeAxis (mkeys axes)))"
  by (simp add: VariantEnv_def)

lemma SortedAxisKeys_set: "set (SortedAxisKeys axes) = set (mkeys axes)"
  by (simp add: SortedAxisKeys_def)

lemma RefuseUnreachableAxes_None:
  "RefuseUnreachableAxes tests = None \<longleftrightarrow> list_all (\<lambda>t. list_all EnvSafeAxis (mkeys (pl_axes t))) tests"
  by (auto simp: RefuseUnreachableAxes_def find_None_iff list_all_iff SortedAxisKeys_set)

section \<open>Properties\<close>

text \<open>
  Expansion gives one execution per variant, in order, each a function of the parent
  and of its own variant alone: nothing of one cell reaches another. A cell's name is
  the parent's and the variant's, it records its parent and its axes, its kind and
  scope are the parent's (an unset scope is Node), and each field a variant may set is
  the variant's when it sets it and the parent's otherwise; thresholds are replaced,
  never merged.
\<close>

theorem ExpandVariants_cells_are_independent:
  assumes "i < length variants" and "wf_map (tv_axes (variants ! i))"
  shows "length (ExpandVariants name spec required variants) = length variants \<and>
    (let c = ExpandVariants name spec required variants ! i; v = variants ! i in
      ExpandVariants name spec required [v] = [c] \<and>
      pl_name c = name @ ''-'' @ tv_name v \<and> pl_parent c = name \<and> pl_required c = required \<and>
      mget (pl_axes c) = mget (tv_axes v) \<and>
      ts_kind (pl_spec c) = ts_kind spec \<and>
      ts_scope (pl_spec c) = (if ts_scope spec = ScopeUnset then ScopeNode else ts_scope spec) \<and>
      ts_duration_seconds (pl_spec c) =
        (case tv_duration_seconds v of Some d \<Rightarrow> d | None \<Rightarrow> ts_duration_seconds spec) \<and>
      ts_repeat_count (pl_spec c) =
        (case tv_repeat_count v of Some n \<Rightarrow> Some n | None \<Rightarrow> ts_repeat_count spec) \<and>
      ts_thresholds (pl_spec c) =
        (case tv_thresholds v of Some ts \<Rightarrow> ts | None \<Rightarrow> ts_thresholds spec))"
  using assms CopyAxes_same[OF assms(2)]
  by (cases variants) (auto simp: ExpandVariants_def Let_def overlay_fields nth_Cons' split: option.splits)

theorem ExpandVariants_cells_are_independent_witness:
  "let v = \<lparr>tv_name = ''fp8'', tv_axes = [(''precision'', ''fp8'')], tv_duration_seconds = Some 60, tv_args = None,
         tv_env = Some [], tv_thresholds = Some [], tv_repeat_count = None\<rparr>;
       s = \<lparr>ts_kind = KindGemmSweep, ts_scope = ScopeUnset, ts_duration_seconds = 300, ts_repeat_count = None,
         ts_checkpoint_interval_seconds = None, ts_soak = None, ts_runner = None, ts_thresholds = [], ts_resource_limits = [], ts_host_network = False\<rparr>
   in length (ExpandVariants ''gemm'' s True [v, v]) = 2 \<and>
      ts_duration_seconds (pl_spec (ExpandVariants ''gemm'' s True [v, v] ! 1)) = 60"
proof -
  let ?v = "\<lparr>tv_name = ''fp8'', tv_axes = [(''precision'', ''fp8'')], tv_duration_seconds = Some 60, tv_args = None,
         tv_env = Some [], tv_thresholds = Some [], tv_repeat_count = None\<rparr>"
  have "(1::nat) < length [?v, ?v]" "wf_map (tv_axes ([?v, ?v] ! 1))" by (simp_all add: wf_map_def)
  from ExpandVariants_cells_are_independent[OF this] show ?thesis by (simp add: Let_def)
qed

text \<open>
  A profile entry without variants plans as itself: one execution with the entry's
  own name, spec (its unset scope read as Node) and no axes.
\<close>

theorem ExpandVariants_without_variants:
  "ExpandVariants name spec required [] =
     [\<lparr>pl_name = name, pl_required = required,
       pl_spec = (if ts_scope spec = ScopeUnset then spec\<lparr>ts_scope := ScopeNode\<rparr> else spec),
       pl_axes = [], pl_parent = []\<rparr>]"
  by (simp add: ExpandVariants_def Let_def)

text \<open>
  When the plan is not refused for its axes, every axis of every test reaches the
  runner: its variable is in the environment, with the axis's value, and the
  environment has exactly one entry per axis.
\<close>

theorem accepted_axes_reach_the_runner:
  assumes "RefuseUnreachableAxes tests = None" and "t \<in> set tests" and "mget (pl_axes t) k = Some v"
  shows "\<lparr>ev_name = VariantEnvName k, ev_value = v\<rparr> \<in> set (VariantEnv (pl_axes t)) \<and>
    length (VariantEnv (pl_axes t)) = length (pl_axes t)"
proof -
  have safe: "\<forall>k \<in> set (mkeys (pl_axes t)). EnvSafeAxis k"
    using assms(1,2) by (auto simp: RefuseUnreachableAxes_None list_all_iff)
  have "k \<in> set (mkeys (pl_axes t))" using assms(3) by (simp add: set_mkeys mhas_def)
  moreover have "filter EnvSafeAxis (mkeys (pl_axes t)) = mkeys (pl_axes t)" using safe by simp
  ultimately show ?thesis using assms(3)
    by (auto simp: VariantEnv_def axis_value_def sort_strings_def mkeys_def intro!: image_eqI[of _ _ k])
qed

theorem accepted_axes_reach_the_runner_witness:
  "\<lparr>ev_name = VariantEnvName ''precision'', ev_value = ''fp8''\<rparr> \<in> set (VariantEnv [(''precision'', ''fp8'')])"
proof -
  let ?s = "\<lparr>ts_kind = KindGemmSweep, ts_scope = ScopeNode, ts_duration_seconds = 300, ts_repeat_count = None,
         ts_checkpoint_interval_seconds = None, ts_soak = None, ts_runner = None, ts_thresholds = [], ts_resource_limits = [], ts_host_network = False\<rparr>"
  let ?t = "\<lparr>pl_name = ''g'', pl_required = True, pl_spec = ?s, pl_axes = [(''precision'', ''fp8'')], pl_parent = []\<rparr>"
  have "EnvSafeAxis ''precision''" by code_simp
  then have "RefuseUnreachableAxes [?t] = None" by (simp add: RefuseUnreachableAxes_None mkeys_def)
  from accepted_axes_reach_the_runner[OF this, of ?t "''precision''" "''fp8''"] show ?thesis
    by (simp add: mget_def)
qed

text \<open>
  Two axes that differ only in case are accepted and reach the runner under one
  variable name, so it can read only one of the two values.
\<close>

theorem axes_collide_by_case:
  "let t = \<lparr>pl_name = ''g'', pl_required = True, pl_spec = spec, pl_axes = [(''dtype'', ''fp8''), (''DTYPE'', ''bf16'')], pl_parent = []\<rparr>
   in RefuseUnreachableAxes [t] = None \<and>
      map ev_name (VariantEnv (pl_axes t)) = [''BURNIN_VARIANT_DTYPE'', ''BURNIN_VARIANT_DTYPE''] \<and>
      map ev_value (VariantEnv (pl_axes t)) = [''bf16'', ''fp8'']"
proof -
  have "EnvSafeAxis ''dtype''" "EnvSafeAxis ''DTYPE''" by code_simp+
  moreover have "VariantEnv [(''dtype'', ''fp8''), (''DTYPE'', ''bf16'')] =
      [\<lparr>ev_name = ''BURNIN_VARIANT_DTYPE'', ev_value = ''bf16''\<rparr>, \<lparr>ev_name = ''BURNIN_VARIANT_DTYPE'', ev_value = ''fp8''\<rparr>]"
    by code_simp
  ultimately show ?thesis by (simp add: RefuseUnreachableAxes_None mkeys_def)
qed

end
