(* ===== verification/Lint.thy ===== *)
theory Lint
  imports Verdict
begin

text \<open>
  \<^verbatim>\<open>pkg/verdict/lint.go\<close>: what is wrong with a set of thresholds before anything has run. A
  problem is Malformed when the gate can never be satisfied and Unsound when it can but
  should not decide acceptance. Reasons are a datatype with one constructor per message.
\<close>

datatype Severity = SeverityMalformed | SeverityUnsound

datatype LintReason =
    BadMetricName NameError
  | ValueNotNumeric string
  | ValueNotFinite string
  | ExactOnContinuous string Unit
  | ExactOnFraction string
  | UnknownComparison string
  | UnregisteredOnBuiltIn string TestKind
  | RequiredMayBeUnmeasurable string Applicability
  | EvidenceOnly string

record Problem =
  p_index :: nat
  p_metric :: string
  p_severity :: Severity
  p_reason :: LintReason

text \<open>\<^verbatim>\<open>math.Trunc\<close>, with the sign of a zero result.\<close>

fun ftrunc :: "float64 \<Rightarrow> float64" where
  "ftrunc (Fin q) = (if 0 \<le> q then Fin (of_int \<lfloor>q\<rfloor>)
     else if \<lceil>q\<rceil> = 0 then NegZero else Fin (of_int \<lceil>q\<rceil>))"
| "ftrunc x = x"

text \<open>What the body of the loop adds for one threshold, check by check in source order.\<close>

definition lint_name :: "Threshold \<Rightarrow> (Severity \<times> LintReason) list" where
  "lint_name th = (case ValidateMetricName (th_metric th) of
     Some e \<Rightarrow> [(SeverityMalformed, BadMetricName e)] | None \<Rightarrow> [])"

definition lint_value :: "Threshold \<Rightarrow> (Severity \<times> LintReason) list" where
  "lint_value th = (case ParseFloat (th_value th) of
     None \<Rightarrow> [(SeverityMalformed, ValueNotNumeric (th_value th))]
   | Some want \<Rightarrow> if IsNaN want \<or> IsInf want then [(SeverityMalformed, ValueNotFinite (th_value th))] else [])"

definition lint_exact :: "Threshold \<Rightarrow> (Severity \<times> LintReason) list" where
  "lint_exact th =
     (if UnitOf (th_metric th) \<noteq> UnitNone
      then [(SeverityUnsound, ExactOnContinuous (th_metric th) (UnitOf (th_metric th)))]
      else (case ParseFloat (th_value th) of
         Some want \<Rightarrow> if \<not> feq want (ftrunc want) then [(SeverityUnsound, ExactOnFraction (th_value th))] else []
       | None \<Rightarrow> []))"

definition lint_comparison :: "Threshold \<Rightarrow> (Severity \<times> LintReason) list" where
  "lint_comparison th = (case th_comparison th of
     GTE \<Rightarrow> [] | LTE \<Rightarrow> []
   | EQ \<Rightarrow> lint_exact th | NEQ \<Rightarrow> lint_exact th
   | OtherComparison c \<Rightarrow> [(SeverityMalformed, UnknownComparison c)])"

definition lint_registered :: "TestKind \<Rightarrow> Threshold \<Rightarrow> (Severity \<times> LintReason) list" where
  "lint_registered kind th =
     (if Lookup (th_metric th) = None \<and> ValidateMetricName (th_metric th) = None \<and> IsBuiltIn kind
      then [(SeverityUnsound, UnregisteredOnBuiltIn (th_metric th) kind)] else [])"

definition lint_applicability :: "Threshold \<Rightarrow> (Severity \<times> LintReason) list" where
  "lint_applicability th =
     (if MayBeUnmeasurable (th_metric th) \<and> applicabilityOf th \<noteq> RequiredIfMeasurable
      then [(SeverityUnsound, RequiredMayBeUnmeasurable (th_metric th) (applicabilityOf th))] else [])"

definition lint_evidence :: "Threshold \<Rightarrow> (Severity \<times> LintReason) list" where
  "lint_evidence th = (if \<not> SafeToThresholdOn (th_metric th)
     then [(SeverityUnsound, EvidenceOnly (th_metric th))] else [])"

definition lint_one :: "TestKind \<Rightarrow> Threshold \<Rightarrow> (Severity \<times> LintReason) list" where
  "lint_one kind th = lint_name th @ lint_value th @ lint_comparison th @ lint_registered kind th @
     lint_applicability th @ lint_evidence th"

definition ValidateThresholdsForKind :: "TestKind \<Rightarrow> Threshold list \<Rightarrow> Problem list" where
  "ValidateThresholdsForKind kind thresholds = concat (map (\<lambda>(i, th).
     map (\<lambda>(sev, r). \<lparr>p_index = i, p_metric = th_metric th, p_severity = sev, p_reason = r\<rparr>)
       (lint_one kind th)) (enumerate 0 thresholds))"

definition ValidateThresholds :: "Threshold list \<Rightarrow> Problem list" where
  "ValidateThresholds thresholds = ValidateThresholdsForKind KindCustom thresholds"

section \<open>Malformed means unsatisfiable\<close>

definition malformed :: "Threshold \<Rightarrow> bool" where
  "malformed th = (\<not> valid_name (th_metric th) \<or> finite_reading (th_value th) = None \<or>
     (\<exists>c. th_comparison th = OtherComparison c))"

lemma lint_exact_unsound: "(s, r) \<in> set (lint_exact th) \<Longrightarrow> s = SeverityUnsound"
  by (auto simp: lint_exact_def split: if_splits option.splits)

lemma lint_one_malformed: "(\<exists>r. (SeverityMalformed, r) \<in> set (lint_one kind th)) \<longleftrightarrow> malformed th"
proof -
  have "(\<exists>r. (SeverityMalformed, r) \<in> set (lint_name th)) \<longleftrightarrow> \<not> valid_name (th_metric th)"
    by (cases "ValidateMetricName (th_metric th)") (auto simp: lint_name_def valid_name_def)
  moreover have "(\<exists>r. (SeverityMalformed, r) \<in> set (lint_value th)) \<longleftrightarrow> finite_reading (th_value th) = None"
    by (auto simp: lint_value_def finite_reading_def is_finite_def split: option.splits if_splits)
  moreover have "(\<exists>r. (SeverityMalformed, r) \<in> set (lint_comparison th)) \<longleftrightarrow> (\<exists>c. th_comparison th = OtherComparison c)"
    by (auto simp: lint_comparison_def dest: lint_exact_unsound split: Comparison.splits)
  moreover have "\<not> (\<exists>r. (SeverityMalformed, r) \<in> set (lint_registered kind th @ lint_applicability th @ lint_evidence th))"
    by (auto simp: lint_registered_def lint_applicability_def lint_evidence_def)
  ultimately show ?thesis unfolding lint_one_def malformed_def by auto
qed

lemma problem_at:
  assumes "p \<in> set (ValidateThresholdsForKind kind ths)"
  shows "p_index p < length ths" "p_metric p = th_metric (ths ! p_index p)"
    "(p_severity p, p_reason p) \<in> set (lint_one kind (ths ! p_index p))"
  using assms by (auto simp: ValidateThresholdsForKind_def in_set_enumerate_eq)

lemma lint_problem_intro:
  assumes "i < length ths" "(s, r) \<in> set (lint_one kind (ths ! i))"
  shows "\<lparr>p_index = i, p_metric = th_metric (ths ! i), p_severity = s, p_reason = r\<rparr>
    \<in> set (ValidateThresholdsForKind kind ths)"
  unfolding ValidateThresholdsForKind_def using assms
  by (auto simp: in_set_enumerate_eq intro!: bexI[of _ "(i, ths ! i)"] image_eqI[of _ _ "(s, r)"])

lemma malformed_at:
  "(\<exists>p \<in> set (ValidateThresholdsForKind kind ths). p_severity p = SeverityMalformed)
    \<longleftrightarrow> (\<exists>th \<in> set ths. malformed th)"
proof
  assume "\<exists>p \<in> set (ValidateThresholdsForKind kind ths). p_severity p = SeverityMalformed"
  then show "\<exists>th \<in> set ths. malformed th"
    using problem_at lint_one_malformed by (metis nth_mem)
next
  assume "\<exists>th \<in> set ths. malformed th"
  then obtain i where i: "i < length ths" "malformed (ths ! i)" by (auto simp: in_set_conv_nth)
  then obtain r where "(SeverityMalformed, r) \<in> set (lint_one kind (ths ! i))" using lint_one_malformed by blast
  from lint_problem_intro[OF i(1) this]
  show "\<exists>p \<in> set (ValidateThresholdsForKind kind ths). p_severity p = SeverityMalformed" by force
qed

lemma one_zero: "''1'' = show_nat 1" "''0'' = show_nat 0"
  by code_simp+

text \<open>A number other than a given one, for the gates that ask for a difference.\<close>

lemma other_number: "\<exists>s y. finite_reading s = Some y \<and> \<not> feq y x"
proof (cases "feq (Fin 0) x")
  case True
  have "finite_reading ''1'' = Some (Fin 1)"
    using ParseFloat_nat[of "''1''" 1] one_zero by (simp add: finite_reading_def)
  moreover have "\<not> feq (Fin 1) x" using True by (cases x) (auto simp: feq_def)
  ultimately show ?thesis by blast
next
  case False
  have "finite_reading ''0'' = Some (Fin 0)"
    using ParseFloat_nat[of "''0''" 0] one_zero by (simp add: finite_reading_def)
  then show ?thesis using False by blast
qed

lemma fle_refl_finite: "is_finite x \<Longrightarrow> fle x x" and feq_refl_finite: "is_finite x \<Longrightarrow> feq x x"
  by (simp_all add: float_order)

lemma satisfiable_iff:
  "\<not> malformed th \<longleftrightarrow> (\<exists>m u. ValidateMetrics m = [] \<and> satisfied m u th)"
proof
  assume w: "\<not> malformed th"
  then obtain want where want: "finite_reading (th_value th) = Some want" by (auto simp: malformed_def)
  then have fin: "is_finite want" using finite_reading_Some by blast
  obtain s y where y: "finite_reading s = Some y" "compare_f y (th_comparison th) want"
  proof (cases "th_comparison th")
    case NEQ
    then show ?thesis using other_number[of want] that by auto
  next
    case (OtherComparison c)
    then show ?thesis using w by (simp add: malformed_def)
  qed (use that[of "th_value th" want] want fin fle_refl_finite feq_refl_finite in auto)
  have "satisfied [(th_metric th, s)] [] th" using y want by (simp add: satisfied_def mget_def)
  moreover have "ValidateMetrics [(th_metric th, s)] = []"
    using w by (simp add: ValidateMetrics_Nil mkeys_def malformed_def)
  ultimately show "\<exists>m u. ValidateMetrics m = [] \<and> satisfied m u th" by blast
next
  assume "\<exists>m u. ValidateMetrics m = [] \<and> satisfied m u th"
  then obtain m u where m: "ValidateMetrics m = []" "satisfied m u th" by blast
  then have "mhas m (th_metric th)" by (auto simp: satisfied_def mhas_def split: option.splits)
  then have "valid_name (th_metric th)" using m(1) by (simp add: ValidateMetrics_Nil mhas_iff_key)
  then show "\<not> malformed th" using m(2) by (auto simp: malformed_def satisfied_def split: option.splits)
qed

section \<open>Properties\<close>

text \<open>
  C18. The linter's Malformed verdict is exact: a list of thresholds draws no Malformed
  problem if and only if each of them can be satisfied by some report whose metric names
  the runner's parser keeps.
\<close>

theorem lint_malformed_iff_unsatisfiable:
  "list_all (\<lambda>p. p_severity p \<noteq> SeverityMalformed) (ValidateThresholdsForKind kind ths) \<longleftrightarrow>
   list_all (\<lambda>th. \<exists>m u. ValidateMetrics m = [] \<and> satisfied m u th) ths"
  unfolding satisfiable_iff[symmetric] using malformed_at[of kind ths] by (auto simp: list_all_iff)

text \<open>
  A threshold list that draws no Malformed problem never produces a violation that
  blames the author of the profile, whatever a runner reports.
\<close>

theorem lint_clean_never_authoring:
  assumes "list_all (\<lambda>p. p_severity p \<noteq> SeverityMalformed) (ValidateThresholds ths)"
    and "v \<in> set (out_violations (Evaluate m u ths))"
  shows "v_cause v \<noteq> CauseAuthoring"
proof -
  have "\<exists>th \<in> set ths. malformed th" if "v_cause v = CauseAuthoring"
    using violation_at(6)[OF assms(2) that] violation_at(1)[OF assms(2)]
    by (auto simp: malformed_def)
  then show ?thesis using assms(1) malformed_at[of KindCustom ths] by (auto simp: ValidateThresholds_def list_all_iff)
qed

theorem lint_clean_never_authoring_witness:
  "let ths = [\<lparr>th_metric = ''eccErrors'', th_comparison = LTE, th_value = ''0'', th_applicability = Required\<rparr>]
   in list_all (\<lambda>v. v_cause v \<noteq> CauseAuthoring) (out_violations (Evaluate [] [] ths))"
proof -
  let ?th = "\<lparr>th_metric = ''eccErrors'', th_comparison = LTE, th_value = ''0'', th_applicability = Required\<rparr>"
  have n: "valid_name ''eccErrors''" by (simp add: valid_name_iff grammatical_def is_lower_def is_upper_def is_alnum_def)
  have "finite_reading ''0'' = Some (Fin 0)"
    using ParseFloat_nat[of "''0''" 0] one_zero by (simp add: finite_reading_def)
  then have "list_all (\<lambda>p. p_severity p \<noteq> SeverityMalformed) (ValidateThresholds [?th])"
    using malformed_at[of KindCustom "[?th]"] n by (auto simp: ValidateThresholds_def list_all_iff malformed_def)
  from lint_clean_never_authoring[OF this] show ?thesis by (simp add: list_all_iff Let_def)
qed

end
