(* ===== verification/Soak.thy ===== *)
theory Soak
  imports Plan_Expand Lint
begin

text \<open>
  \<^verbatim>\<open>internal/controller/soak.go\<close>: the arithmetic of a segmented soak, the folding of one
  segment's metrics into the aggregate, which violations of an aggregate no later segment
  can retract, and the bound on the attempt history.
\<close>

definition minSegmentSeconds :: int where
  "minSegmentSeconds = 300"

definition keptPassingSegments :: nat where
  "keptPassingSegments = 16"

definition defaultDurationSeconds :: int where
  "defaultDurationSeconds = 600"

section \<open>Windows\<close>

definition segmentSeconds :: "BurnInTestSpec \<Rightarrow> int" where
  "segmentSeconds spec = (case ts_soak spec of None \<Rightarrow> 0
     | Some s \<Rightarrow> if sk_segment_seconds s \<le> 0 then 0 else sk_segment_seconds s)"

text \<open>Both operands of the division are positive where it is taken, so Go's division is \<open>div\<close>.\<close>

definition segmentsRequired :: "BurnInTestSpec \<Rightarrow> int" where
  "segmentsRequired spec =
     (let seg = segmentSeconds spec in
      if seg \<le> 0 then 0
      else (let duration = (if ts_duration_seconds spec \<le> 0 then defaultDurationSeconds else ts_duration_seconds spec);
                n = duration div seg;
                n = (if duration mod seg \<noteq> 0 then n + 1 else n)
            in if n < 1 then 1 else n))"

definition abortEarly :: "BurnInTestSpec \<Rightarrow> bool" where
  "abortEarly spec = (case ts_soak spec of None \<Rightarrow> False | Some s \<Rightarrow> sk_abort_early s = Some True)"

definition executionDurationSeconds :: "BurnInTestSpec \<Rightarrow> int" where
  "executionDurationSeconds spec =
     (if segmentSeconds spec > 0 then segmentSeconds spec
      else if ts_duration_seconds spec > 0 then ts_duration_seconds spec else defaultDurationSeconds)"

section \<open>Folding\<close>

definition finiteValue :: "string \<Rightarrow> float64 option" where
  "finiteValue raw = (case ParseFloat raw of None \<Rightarrow> None
     | Some v \<Rightarrow> if IsNaN v \<or> IsInf v then None else Some v)"

definition combineMetric :: "Aggregation \<Rightarrow> string \<Rightarrow> string \<Rightarrow> string" where
  "combineMetric rule prior next =
     (if rule \<notin> {AggSum, AggMin, AggMax} then next
      else (case finiteValue prior of
        None \<Rightarrow> prior
      | Some a \<Rightarrow> (case finiteValue next of
          None \<Rightarrow> next
        | Some b \<Rightarrow> (case rule of
            AggSum \<Rightarrow> FormatFloat (fadd a b)
          | AggMin \<Rightarrow> if flt b a then next else prior
          | AggMax \<Rightarrow> if flt a b then next else prior
          | _ \<Rightarrow> next))))"

definition fold_metric :: "string \<times> string \<Rightarrow> string gomap \<Rightarrow> string gomap" where
  "fold_metric kv out = (case kv of (name, raw) \<Rightarrow> (case mget out name of
     None \<Rightarrow> mput name raw out
   | Some prior \<Rightarrow> mput name (combineMetric (AggregationFor name) prior raw) out))"

definition foldMetrics :: "string gomap \<Rightarrow> string gomap \<Rightarrow> string gomap" where
  "foldMetrics agg next = fold fold_metric next agg"

definition foldUnmeasurable :: "string list \<Rightarrow> nameset \<Rightarrow> string gomap \<Rightarrow> string list" where
  "foldUnmeasurable prior declared agg =
     sort_strings (filter (\<lambda>name. \<not> mhas agg name) (remdups (prior @ mkeys declared)))"

definition unmeasurableSet :: "string list \<Rightarrow> nameset" where
  "unmeasurableSet names = fold (\<lambda>name out. mput name True out) names []"

section \<open>Aborting early\<close>

definition monotoneBreach :: "string gomap \<Rightarrow> Threshold \<Rightarrow> bool" where
  "monotoneBreach agg th = (case AggregationFor (th_metric th) of
     AggSum \<Rightarrow> (case th_comparison th of
         LTE \<Rightarrow> True
       | EQ \<Rightarrow> (case (finiteValue (case mget agg (th_metric th) of Some s \<Rightarrow> s | None \<Rightarrow> []), finiteValue (th_value th)) of
           (Some got, Some want) \<Rightarrow> flt want got | _ \<Rightarrow> False)
       | _ \<Rightarrow> False)
   | AggMin \<Rightarrow> th_comparison th = GTE
   | AggMax \<Rightarrow> th_comparison th = LTE
   | _ \<Rightarrow> False)"

definition provableViolations :: "string gomap \<Rightarrow> Outcome \<Rightarrow> Threshold list \<Rightarrow> Violation list" where
  "provableViolations agg out thresholds =
     filter (\<lambda>v. v_cause v = CauseMeasurement \<and> v_index v < length thresholds \<and>
       monotoneBreach agg (thresholds ! v_index v)) (out_violations out)"

section \<open>The attempt history\<close>

definition truncateAttempts :: "TestResult \<Rightarrow> TestResult" where
  "truncateAttempts res =
     (if tr_segments_required res \<le> 0 \<or> length (tr_attempts res) \<le> keptPassingSegments + 1 then res
      else (let atts = tr_attempts res;
                passing = filter (\<lambda>i. i \<noteq> 0 \<and> at_phase (atts ! i) = RunPassed) [0..<length atts];
                drop = length passing - keptPassingSegments
            in if drop = 0 then res
               else (let dropped = take drop passing;
                         kept = map (\<lambda>i. atts ! i) (filter (\<lambda>i. i \<notin> set dropped) [0..<length atts])
                     in res\<lparr>tr_attempts := kept, tr_truncated_attempts := tr_truncated_attempts res + int drop\<rparr>)))"

section \<open>Validation\<close>

definition validateSoak :: "PlanTest \<Rightarrow> PlanError option" where
  "validateSoak t = (case ts_soak (pl_spec t) of
     None \<Rightarrow> None
   | Some s \<Rightarrow>
       if BurstOnly (ts_kind (pl_spec t)) then Some (SoakBurstOnly (pl_name t) (ts_kind (pl_spec t)))
       else if sk_segment_seconds s < minSegmentSeconds then Some (SoakSegmentTooShort (pl_name t) (sk_segment_seconds s))
       else if ts_duration_seconds (pl_spec t) \<le> 0 then Some (SoakNoDuration (pl_name t))
       else if sk_segment_seconds s > ts_duration_seconds (pl_spec t) then
         Some (SoakSegmentTooLong (pl_name t) (sk_segment_seconds s) (ts_duration_seconds (pl_spec t)))
       else if repeatsRequired (pl_spec t) > 1 then Some (SoakWithRepeats (pl_name t) (repeatsRequired (pl_spec t)))
       else None)"

section \<open>Folding, key by key\<close>

lemma finiteValue_reading: "finiteValue = finite_reading"
  by (auto simp: finiteValue_def finite_reading_def is_finite_def fun_eq_iff split: option.splits)

lemma mget_fold_metric:
  "mget (fold_metric (name, raw) out) k = (if k = name then Some (case mget out k of
     None \<Rightarrow> raw | Some prior \<Rightarrow> combineMetric (AggregationFor k) prior raw) else mget out k)"
  by (simp add: fold_metric_def mget_put split: option.splits)

text \<open>Each metric of the aggregate is folded on its own.\<close>

lemma mget_foldMetrics:
  assumes "wf_map next"
  shows "mget (foldMetrics agg next) k = (case (mget agg k, mget next k) of
     (a, None) \<Rightarrow> a | (None, Some raw) \<Rightarrow> Some raw
   | (Some prior, Some raw) \<Rightarrow> Some (combineMetric (AggregationFor k) prior raw))"
  using assms unfolding foldMetrics_def
proof (induction "next" arbitrary: agg)
  case Nil
  then show ?case by (simp split: option.splits)
next
  case (Cons kv nx)
  obtain j v where kv: "kv = (j, v)" by (cases kv)
  have n: "mget nx j = None" and wf: "wf_map nx"
    using Cons.prems by (auto simp: kv wf_map_def mget_def map_of_eq_None_iff)
  show ?case using Cons.IH[OF wf, of "fold_metric (j, v) agg"] n
    by (auto simp: kv mget_Cons mget_fold_metric split: option.splits)
qed

lemma foldMetrics_wf: "wf_map agg \<Longrightarrow> wf_map (foldMetrics agg next)"
  unfolding foldMetrics_def
  by (induction "next" arbitrary: agg) (auto simp: fold_metric_def split: option.splits)

lemma foldMetrics_keeps: "wf_map next \<Longrightarrow> mhas agg k \<Longrightarrow> mhas (foldMetrics agg next) k"
  by (auto simp: mhas_def mget_foldMetrics split: option.splits)

lemma unmeasurableSet_flagged: "flagged (unmeasurableSet names) k \<longleftrightarrow> k \<in> set names"
proof -
  have "flagged (fold (\<lambda>name out. mput name True out) names out) k \<longleftrightarrow> k \<in> set names \<or> flagged out k" for out
    by (induction names arbitrary: out) (auto simp: flagged_put)
  then show ?thesis by (simp add: unmeasurableSet_def)
qed

section \<open>A breach that nothing retracts\<close>

text \<open>
  \<open>gated_down th\<close> are the combinations of aggregation and comparison \<^verbatim>\<open>monotoneBreach\<close>
  accepts; \<open>past th v\<close> says that \<open>v\<close> is not a finite number or is one beyond the bound.
\<close>

definition gated_down :: "Threshold \<Rightarrow> bool" where
  "gated_down th = (case AggregationFor (th_metric th) of
     AggSum \<Rightarrow> th_comparison th = LTE \<or> th_comparison th = EQ
   | AggMin \<Rightarrow> th_comparison th = GTE | AggMax \<Rightarrow> th_comparison th = LTE | _ \<Rightarrow> False)"

definition beyond :: "Aggregation \<Rightarrow> float64 \<Rightarrow> float64 \<Rightarrow> bool" where
  "beyond rule x w = (if rule = AggMin then flt x w else flt w x)"

definition past :: "Threshold \<Rightarrow> string \<Rightarrow> bool" where
  "past th v = (\<forall>x. finite_reading v = Some x \<longrightarrow>
     (\<exists>w. finite_reading (th_value th) = Some w \<and> beyond (AggregationFor (th_metric th)) x w))"

text \<open>What a count is: a reading that is not negative, where it is a finite number at all.\<close>

definition count_reading :: "string \<Rightarrow> bool" where
  "count_reading v = (case finite_reading v of None \<Rightarrow> True | Some x \<Rightarrow> 0 \<le> fval x)"

lemma past_violates:
  assumes "gated_down th" "mget agg (th_metric th) = Some v" "past th v"
  shows "violated agg u th"
proof -
  have "\<not> satisfied agg u th"
  proof
    assume "satisfied agg u th"
    then obtain x w where x: "finite_reading v = Some x" "finite_reading (th_value th) = Some w"
      "compare_f x (th_comparison th) w" using assms(2) by (auto simp: satisfied_def split: option.splits)
    then have "is_finite x" "is_finite w" using finite_reading_Some by blast+
    then show False using x assms(1,3)
      by (auto simp: past_def beyond_def gated_down_def float_order split: Aggregation.splits if_splits)
  qed
  then show ?thesis using assms(2) by (simp add: violated_def waived_def)
qed

lemma fadd_valid: "valid_f64 x \<Longrightarrow> valid_f64 y \<Longrightarrow> valid_f64 (fadd x y)"
  by (cases "(x, y)" rule: fadd.cases) (auto simp: round_f64_valid, auto simp: valid_f64_def)

lemma sum_reading:
  assumes "finite_reading a = Some x" "finite_reading b = Some y" "0 \<le> fval x" "0 \<le> fval y"
  shows "\<forall>z. finite_reading (FormatFloat (fadd x y)) = Some z \<longrightarrow> fval x \<le> fval z"
proof -
  have v: "valid_f64 x" "valid_f64 y" "is_finite x" "is_finite y"
    using assms(1,2) finite_reading_Some ParseFloat_valid_lemma by blast+
  have p: "ParseFloat (FormatFloat (fadd x y)) = Some (fadd x y)"
    using ParseFloat_FormatFloat_lemma[OF fadd_valid[OF v(1,2)]] .
  have "fadd x y = PosInf \<or> is_finite (fadd x y) \<and> fval x \<le> fval (fadd x y)"
    using v assms(3,4) fadd_ge[of "fval x" "fval y"]
    by (cases x; cases y) (auto simp: is_finite_def valid_f64_def)
  then show ?thesis using p by (auto simp: finite_reading_def is_finite_def)
qed

lemma past_step:
  assumes "past th a" "gated_down th"
    and "AggregationFor (th_metric th) = AggSum \<Longrightarrow> count_reading a \<and> count_reading b"
  defines "r \<equiv> AggregationFor (th_metric th)"
  shows "past th (combineMetric r a b) \<and> (r = AggSum \<longrightarrow> count_reading (combineMetric r a b))"
proof (cases "finite_reading a = None \<or> finite_reading b = None")
  case True
  then show ?thesis using assms(1,2)
    by (auto simp: combineMetric_def finiteValue_reading r_def past_def count_reading_def gated_down_def
        split: Aggregation.splits option.splits)
next
  case False
  then obtain x y where xy: "finite_reading a = Some x" "finite_reading b = Some y" by auto
  then have f: "is_finite x" "is_finite y" using finite_reading_Some by blast+
  obtain w where w: "finite_reading (th_value th) = Some w" "beyond r x w" using assms(1) xy by (auto simp: past_def r_def)
  have fw: "is_finite w" using w(1) finite_reading_Some by blast
  show ?thesis
  proof (cases r)
    case AggSum
    then have c: "0 \<le> fval x" "0 \<le> fval y" using assms(3) xy by (auto simp: r_def count_reading_def)
    have "fval x \<le> fval z" "is_finite z" if "finite_reading (FormatFloat (fadd x y)) = Some z" for z
      using sum_reading[OF xy c] that finite_reading_Some by auto
    then show ?thesis using AggSum xy w c f fw
      by (fastforce simp: combineMetric_def finiteValue_reading past_def count_reading_def beyond_def r_def[symmetric]
          float_order split: option.splits)
  next
    case AggMin
    then show ?thesis using xy w f fw
      by (auto simp: combineMetric_def finiteValue_reading past_def beyond_def r_def[symmetric] float_order)
  next
    case AggMax
    then show ?thesis using xy w f fw
      by (auto simp: combineMetric_def finiteValue_reading past_def beyond_def r_def[symmetric] float_order)
  qed (use assms(2) in \<open>auto simp: gated_down_def r_def\<close>)
qed

definition counts_ok :: "Threshold \<Rightarrow> string gomap \<Rightarrow> bool" where
  "counts_ok th m = (AggregationFor (th_metric th) = AggSum \<longrightarrow>
     (case mget m (th_metric th) of None \<Rightarrow> True | Some v \<Rightarrow> count_reading v))"

lemma past_forever:
  assumes "gated_down th" "mget agg (th_metric th) = Some v" "past th v" "counts_ok th agg"
    and "list_all (\<lambda>m. wf_map m \<and> counts_ok th m) segs"
  shows "\<exists>v'. mget (foldl foldMetrics agg segs) (th_metric th) = Some v' \<and> past th v'"
  using assms(2-5)
proof (induction segs arbitrary: agg v)
  case (Cons m segs)
  have wf: "wf_map m" "counts_ok th m" using Cons.prems(4) by auto
  show ?case
  proof (cases "mget m (th_metric th)")
    case None
    then have "mget (foldMetrics agg m) (th_metric th) = Some v"
      using Cons.prems(1) wf by (simp add: mget_foldMetrics)
    then show ?thesis using Cons.IH[of "foldMetrics agg m" v] Cons.prems by (auto simp: counts_ok_def)
  next
    case (Some raw)
    let ?c = "combineMetric (AggregationFor (th_metric th)) v raw"
    have g: "mget (foldMetrics agg m) (th_metric th) = Some ?c"
      using Cons.prems(1) wf Some by (simp add: mget_foldMetrics)
    have s: "past th ?c \<and> (AggregationFor (th_metric th) = AggSum \<longrightarrow> count_reading ?c)"
      using past_step[OF Cons.prems(2) assms(1), of raw] Cons.prems(1,3) wf(2) Some by (auto simp: counts_ok_def)
    then have "counts_ok th (foldMetrics agg m)" using g by (simp add: counts_ok_def)
    then show ?thesis using Cons.IH[OF g] s Cons.prems(4) by auto
  qed
qed auto

lemma provable_past:
  assumes "v \<in> set (provableViolations agg (Evaluate agg u ths) ths)"
  defines "th \<equiv> ths ! v_index v"
  shows "v_index v < length ths" "gated_down th" "\<exists>raw. mget agg (th_metric th) = Some raw \<and> past th raw"
proof -
  have v: "v \<in> set (out_violations (Evaluate agg u ths))" "v_cause v = CauseMeasurement" "monotoneBreach agg th"
    and i: "v_index v < length ths" using assms by (auto simp: provableViolations_def)
  show "v_index v < length ths" by (rule i)
  have fs: "falls_short agg u th" using violation_at(5)[OF v(1)] v(2) by (simp add: th_def)
  then obtain raw x w where x: "mget agg (th_metric th) = Some raw" "finite_reading raw = Some x"
    "finite_reading (th_value th) = Some w" "\<not> compare_f x (th_comparison th) w"
    by (auto simp: falls_short_def split: option.splits)
  then have "is_finite x" "is_finite w" using finite_reading_Some by blast+
  then show "gated_down th" "\<exists>raw. mget agg (th_metric th) = Some raw \<and> past th raw"
    using x v(3)
    by (auto simp: monotoneBreach_def gated_down_def past_def beyond_def float_order finiteValue_reading
        split: Aggregation.splits Comparison.splits if_splits)
qed

section \<open>The aggregate bounds every segment\<close>

abbreviation finite_string :: "string \<Rightarrow> bool" where
  "finite_string s \<equiv> finite_reading s \<noteq> None"

definition string_le :: "string \<Rightarrow> string \<Rightarrow> bool" where
  "string_le s t = fle (the (finite_reading s)) (the (finite_reading t))"

lemma finite_string_the: "finite_string s \<Longrightarrow> is_finite (the (finite_reading s))"
  using finite_reading_Some by fastforce

lemma string_le_trans: "finite_string a \<Longrightarrow> finite_string b \<Longrightarrow> finite_string c \<Longrightarrow> string_le a b \<Longrightarrow> string_le b c \<Longrightarrow> string_le a c"
  unfolding string_le_def using finite_string_the[of a] finite_string_the[of b] finite_string_the[of c] by (simp add: float_order)

lemma string_le_refl: "finite_string a \<Longrightarrow> string_le a a"
  unfolding string_le_def using finite_string_the[of a] by (simp add: float_order)

lemma combine_extremum:
  assumes "finite_string a" "finite_string b"
  shows "combineMetric AggMax a b = (if flt (the (finite_reading a)) (the (finite_reading b)) then b else a)"
    "combineMetric AggMin a b = (if flt (the (finite_reading b)) (the (finite_reading a)) then b else a)"
  using assms by (auto simp: combineMetric_def finiteValue_reading)

interpretation segment_max: bounding_fold "combineMetric AggMax" finite_string string_le
proof
  show "finite_string a \<Longrightarrow> finite_string b \<Longrightarrow> finite_string (combineMetric AggMax a b)" for a b by (simp add: combine_extremum)
  show "finite_string a \<Longrightarrow> finite_string b \<Longrightarrow> string_le a (combineMetric AggMax a b)" for a b
    using finite_string_the[of a] finite_string_the[of b] by (auto simp: combine_extremum string_le_def float_order)
  show "finite_string a \<Longrightarrow> finite_string b \<Longrightarrow> string_le b (combineMetric AggMax a b)" for a b
    using finite_string_the[of a] finite_string_the[of b] by (auto simp: combine_extremum string_le_def float_order)
qed (auto intro: string_le_refl string_le_trans)

interpretation segment_min: bounding_fold "combineMetric AggMin" finite_string "\<lambda>a b. string_le b a"
proof
  show "finite_string a \<Longrightarrow> finite_string b \<Longrightarrow> finite_string (combineMetric AggMin a b)" for a b by (simp add: combine_extremum)
  show "finite_string a \<Longrightarrow> finite_string b \<Longrightarrow> string_le (combineMetric AggMin a b) a" for a b
    using finite_string_the[of a] finite_string_the[of b] by (auto simp: combine_extremum string_le_def float_order)
  show "finite_string a \<Longrightarrow> finite_string b \<Longrightarrow> string_le (combineMetric AggMin a b) b" for a b
    using finite_string_the[of a] finite_string_the[of b] by (auto simp: combine_extremum string_le_def float_order)
qed (auto intro: string_le_refl string_le_trans)

text \<open>A reading that is not a finite number stays in the aggregate.\<close>

lemma combine_nonfinite:
  "r \<in> {AggSum, AggMin, AggMax} \<Longrightarrow> \<not> finite_string a \<or> \<not> finite_string b \<Longrightarrow> \<not> finite_string (combineMetric r a b)"
  by (auto simp: combineMetric_def finiteValue_reading split: option.splits)

lemma foldl_nonfinite:
  "r \<in> {AggSum, AggMin, AggMax} \<Longrightarrow> finite_string (foldl (combineMetric r) a xs) \<Longrightarrow> list_all finite_string (a # xs)"
proof (induction xs arbitrary: a)
  case (Cons x xs)
  have c: "finite_string (combineMetric r a x)" "list_all finite_string xs" using Cons by auto
  have "finite_string a" "finite_string x" using combine_nonfinite[OF Cons.prems(1), of a x] c(1) by blast+
  then show ?case using c(2) by simp
qed simp

definition segment_readings :: "string gomap list \<Rightarrow> string \<Rightarrow> string list" where
  "segment_readings segs k = concat (map (\<lambda>m. case mget m k of None \<Rightarrow> [] | Some v \<Rightarrow> [v]) segs)"

lemma mget_foldl_foldMetrics:
  "list_all wf_map segs \<Longrightarrow> mget (foldl foldMetrics agg segs) k =
     (case mget agg k of
        Some a \<Rightarrow> Some (foldl (combineMetric (AggregationFor k)) a (segment_readings segs k))
      | None \<Rightarrow> (case segment_readings segs k of [] \<Rightarrow> None
          | r # rs \<Rightarrow> Some (foldl (combineMetric (AggregationFor k)) r rs)))"
proof (induction segs arbitrary: agg)
  case (Cons m segs)
  then show ?case
    by (simp add: segment_readings_def mget_foldMetrics split: option.splits)
qed (simp add: segment_readings_def split: option.splits)

lemma segment_reading_in: "m \<in> set segs \<Longrightarrow> mget m k = Some v \<Longrightarrow> v \<in> set (segment_readings segs k)"
  by (force simp: segment_readings_def)

lemma aggregate_bounds_segment:
  assumes "list_all wf_map segs" "mget (foldl foldMetrics [] segs) k = Some s" "finite_string s"
    and r: "AggregationFor k = AggMax \<or> AggregationFor k = AggMin" and v: "v \<in> set (segment_readings segs k)"
  shows "finite_string v \<and> (if AggregationFor k = AggMax then string_le v s else string_le s v)"
proof -
  obtain a xs where rs: "segment_readings segs k = a # xs" and s: "s = foldl (combineMetric (AggregationFor k)) a xs"
    using assms(1,2) by (auto simp: mget_foldl_foldMetrics split: list.splits)
  have fin: "list_all finite_string (a # xs)" using foldl_nonfinite[of "AggregationFor k" a xs] r assms(3) s by auto
  then show ?thesis using r v rs s segment_max.foldl_bound[of a xs] segment_min.foldl_bound[of a xs]
    by (auto simp: list_all_iff)
qed

section \<open>Windows cover the duration\<close>

lemma segments_cover:
  assumes "segmentSeconds spec > 0" "ts_duration_seconds spec > 0"
  shows "ts_duration_seconds spec \<le> segmentsRequired spec * segmentSeconds spec"
    "(segmentsRequired spec - 1) * segmentSeconds spec < ts_duration_seconds spec"
proof -
  define s d where "s = segmentSeconds spec" and "d = ts_duration_seconds spec"
  have sd: "0 < s" "0 < d" using assms by (simp_all add: s_def d_def)
  define q r where "q = d div s" and "r = d mod s"
  have e: "d = q * s + r" "0 \<le> r" "r < s" using sd by (simp_all add: q_def r_def)
  have q: "0 \<le> q" using sd by (simp add: q_def pos_imp_zdiv_nonneg_iff)
  have nz: "1 \<le> q" if "r = 0" using that e(1) sd q by (cases "q = 0") auto
  have n: "segmentsRequired spec = (if r \<noteq> 0 then q + 1 else q)"
    using sd q nz by (auto simp: segmentsRequired_def Let_def s_def[symmetric] d_def[symmetric] q_def[symmetric] r_def[symmetric])
  show "ts_duration_seconds spec \<le> segmentsRequired spec * segmentSeconds spec"
    "(segmentsRequired spec - 1) * segmentSeconds spec < ts_duration_seconds spec"
    using n e sd by (auto simp: s_def[symmetric] d_def[symmetric] algebra_simps)
qed

section \<open>The bounded history\<close>

lemma length_filter_notin:
  assumes "distinct ds" "set ds \<subseteq> set is" "distinct is"
  shows "length (filter (\<lambda>i. i \<notin> set ds) is) + length ds = length is"
proof -
  have "{i \<in> set is. i \<in> set ds} = set ds" using assms(2) by auto
  then have "length (filter (\<lambda>i. i \<in> set ds) is) = length ds"
    using assms(1,3) distinct_card[of "filter (\<lambda>i. i \<in> set ds) is"] distinct_card[of ds] by simp
  then show ?thesis using sum_length_filter_compl[of "\<lambda>i. i \<in> set ds" "is"] by simp
qed

lemma truncate_cases:
  fixes res
  defines "atts \<equiv> tr_attempts res"
  defines "passing \<equiv> filter (\<lambda>i. i \<noteq> 0 \<and> at_phase (atts ! i) = RunPassed) [0..<length atts]"
  obtains (same) "truncateAttempts res = res"
    "tr_segments_required res > 0 \<Longrightarrow> length passing \<le> keptPassingSegments"
  | (cut) ds where "ds = take (length passing - keptPassingSegments) passing" "length ds = length passing - keptPassingSegments"
    "keptPassingSegments < length passing"
    "truncateAttempts res = res\<lparr>tr_attempts := map (\<lambda>i. atts ! i) (filter (\<lambda>i. i \<notin> set ds) [0..<length atts]),
       tr_truncated_attempts := tr_truncated_attempts res + int (length ds)\<rparr>"
proof (cases "tr_segments_required res \<le> 0 \<or> length atts \<le> keptPassingSegments + 1 \<or> length passing \<le> keptPassingSegments")
  case True
  have short: "length passing \<le> keptPassingSegments" if "length atts \<le> keptPassingSegments + 1"
  proof -
    have "distinct passing" "set passing \<subseteq> {1..<length atts}" by (auto simp: passing_def)
    then have "length passing \<le> card {1..<length atts}" by (metis card_mono distinct_card finite_atLeastLessThan)
    then show ?thesis using that by simp
  qed
  show thesis
  proof (rule same)
    show "truncateAttempts res = res" using True unfolding truncateAttempts_def Let_def atts_def passing_def by auto
    show "length passing \<le> keptPassingSegments" if "tr_segments_required res > 0" using True short that by auto
  qed
next
  case False
  show thesis
  proof (rule cut[OF refl])
    show "truncateAttempts res = res\<lparr>tr_attempts := map (\<lambda>i. atts ! i) (filter (\<lambda>i. i \<notin> set (take (length passing - keptPassingSegments) passing)) [0..<length atts]),
       tr_truncated_attempts := tr_truncated_attempts res + int (length (take (length passing - keptPassingSegments) passing))\<rparr>"
      using False unfolding truncateAttempts_def Let_def atts_def passing_def by auto
  qed (use False in auto)
qed

text \<open>Cutting positions out of a list.\<close>

lemma map_nth_filter: "map (\<lambda>i. xs ! i) (filter (\<lambda>i. P (xs ! i)) [0..<length xs]) = filter P xs"
  using filter_map[of P "\<lambda>i. xs ! i" "[0..<length xs]"] by (simp add: map_nth comp_def)

lemma cut_subseq: "subseq (map (\<lambda>i. xs ! i) (filter Q [0..<length xs])) xs"
  using subseq_map[OF subseq_filter_left[of Q "[0..<length xs]"], of "\<lambda>i. xs ! i"] by (simp add: map_nth)

lemma cut_keeps:
  assumes "\<And>i. i < length xs \<Longrightarrow> P (xs ! i) \<Longrightarrow> Q i"
  shows "filter P (map (\<lambda>i. xs ! i) (filter Q [0..<length xs])) = filter P xs"
proof -
  have "filter (\<lambda>i. P (xs ! i) \<and> Q i) [0..<length xs] = filter (\<lambda>i. P (xs ! i)) [0..<length xs]"
    using assms by (intro filter_cong) auto
  then show ?thesis using map_nth_filter[of xs P] by (simp add: filter_map comp_def conj_commute)
qed

lemma cut_first:
  assumes "xs \<noteq> []" "Q 0"
  shows "map (\<lambda>i. xs ! i) (filter Q [0..<length xs]) = xs ! 0 # map (\<lambda>i. xs ! i) (filter Q [1..<length xs])"
  using assms upt_conv_Cons[of 0 "length xs"] by simp

lemma passing_from_1:
  "filter (\<lambda>i. i \<noteq> 0 \<and> P (xs ! i)) [0..<length xs] = filter (\<lambda>i. P (xs ! i)) [1..<length xs]"
proof (cases "length xs")
  case (Suc n)
  have "filter (\<lambda>i. i \<noteq> 0 \<and> P (xs ! i)) [1..<Suc n] = filter (\<lambda>i. P (xs ! i)) [1..<Suc n]"
    by (rule filter_cong) auto
  then show ?thesis using Suc by (simp add: upt_conv_Cons del: upt_Suc)
qed simp

lemma passing_tl: "length (filter (\<lambda>i. P (xs ! i)) [1..<length xs]) = length (filter P (tl xs))"
proof (cases xs)
  case (Cons x ys)
  have "map (\<lambda>i. xs ! i) [1..<length xs] = ys" by (rule nth_equalityI) (simp_all add: Cons del: upt_Suc)
  then have "length (filter P (map (\<lambda>i. xs ! i) [1..<length xs])) = length (filter P ys)" by simp
  then show ?thesis by (simp add: filter_map comp_def Cons)
qed simp

lemma truncate_spec:
  fixes res
  defines "res' \<equiv> truncateAttempts res"
  shows "subseq (tr_attempts res') (tr_attempts res) \<and>
    int (length (tr_attempts res')) + tr_truncated_attempts res' = int (length (tr_attempts res)) + tr_truncated_attempts res \<and>
    filter (\<lambda>a. at_phase a \<noteq> RunPassed) (tr_attempts res') = filter (\<lambda>a. at_phase a \<noteq> RunPassed) (tr_attempts res) \<and>
    take 1 (tr_attempts res') = take 1 (tr_attempts res) \<and>
    (tr_segments_required res \<le> 0 \<or> length (filter (\<lambda>a. at_phase a = RunPassed) (tl (tr_attempts res'))) \<le> keptPassingSegments)"
proof (cases res rule: truncate_cases)
  case same
  then show ?thesis unfolding res'_def passing_from_1[of "\<lambda>a. at_phase a = RunPassed"] passing_tl[of "\<lambda>a. at_phase a = RunPassed"]
    by (cases "0 < tr_segments_required res") auto
next
  case (cut ds)
  let ?xs = "tr_attempts res"
  let ?pass = "filter (\<lambda>i. i \<noteq> 0 \<and> at_phase (?xs ! i) = RunPassed) [0..<length ?xs]"
  have r: "tr_attempts res' = map (\<lambda>i. ?xs ! i) (filter (\<lambda>i. i \<notin> set ds) [0..<length ?xs])"
    "tr_truncated_attempts res' = tr_truncated_attempts res + int (length ds)" using cut(4) by (simp_all add: res'_def)
  have d: "distinct ds" "set ds \<subseteq> set ?pass" unfolding cut(1) using set_take_subset[of _ ?pass] by auto
  have ne: "?xs \<noteq> []" using cut(3) by auto
  have "subseq (tr_attempts res') ?xs" unfolding r by (rule cut_subseq)
  moreover have "length (tr_attempts res') + length ds = length ?xs"
  proof -
    have "set ds \<subseteq> set [0..<length ?xs]" using d(2) by auto
    from length_filter_notin[OF d(1) this] show ?thesis by (simp add: r)
  qed
  moreover have "filter (\<lambda>a. at_phase a \<noteq> RunPassed) (tr_attempts res') = filter (\<lambda>a. at_phase a \<noteq> RunPassed) ?xs"
    unfolding r by (rule cut_keeps) (use d(2) in auto)
  moreover have f: "tr_attempts res' = ?xs ! 0 # map (\<lambda>i. ?xs ! i) (filter (\<lambda>i. i \<notin> set ds) [1..<length ?xs])"
    unfolding r by (rule cut_first[OF ne]) (use d(2) in auto)
  moreover have "length (filter (\<lambda>a. at_phase a = RunPassed) (tl (tr_attempts res'))) = keptPassingSegments"
  proof -
    have "length (filter (\<lambda>i. i \<notin> set ds) ?pass) + length ds = length ?pass" by (rule length_filter_notin) (use d in auto)
    moreover have "filter (\<lambda>i. i \<notin> set ds) ?pass = filter (\<lambda>i. at_phase (?xs ! i) = RunPassed \<and> i \<notin> set ds) [1..<length ?xs]"
      by (simp only: passing_from_1[of "\<lambda>a. at_phase a = RunPassed" ?xs] filter_filter)
    ultimately show ?thesis using f cut(2,3) by (simp add: filter_map comp_def conj_commute)
  qed
  ultimately show ?thesis using r(2) ne by (cases ?xs) auto
qed

lemma foldUnmeasurable_set: "set (foldUnmeasurable prior declared agg) = {k. (k \<in> set prior \<or> mhas declared k) \<and> \<not> mhas agg k}"
  by (auto simp: foldUnmeasurable_def set_mkeys)

section \<open>Properties\<close>

text \<open>
  C21. Aborting a soak early is sound. A violation that \<^verbatim>\<open>provableViolations\<close> keeps fails the
  evaluation of every later aggregate, whatever segments follow and whatever is declared
  unmeasurable, provided the readings of a summed metric are not negative.
\<close>

theorem abort_early_is_sound:
  assumes "v \<in> set (provableViolations agg (Evaluate agg u ths) ths)"
    and "counts_ok (ths ! v_index v) agg"
    and "list_all (\<lambda>m. wf_map m \<and> counts_ok (ths ! v_index v) m) segs"
  shows "\<not> out_passed (Evaluate (foldl foldMetrics agg segs) u' ths)"
proof -
  note p = provable_past[OF assms(1)]
  obtain raw where raw: "mget agg (th_metric (ths ! v_index v)) = Some raw" "past (ths ! v_index v) raw" using p(3) by blast
  obtain v' where "mget (foldl foldMetrics agg segs) (th_metric (ths ! v_index v)) = Some v'" "past (ths ! v_index v) v'"
    using past_forever[OF p(2) raw assms(2,3)] by blast
  then have "violated (foldl foldMetrics agg segs) u' (ths ! v_index v)" by (rule past_violates[OF p(2)])
  then show ?thesis using p(1) Evaluate_passed_iff nth_mem by blast
qed

lemma gpuTempC_agg: "AggregationFor ''gpuTempC'' = AggMax"
  by code_simp

lemma ninety: "finite_reading ''90'' = Some (Fin 90)" "finite_reading ''85'' = Some (Fin 85)" "finite_reading ''60'' = Some (Fin 60)"
proof -
  have "''90'' = show_nat 90" "''85'' = show_nat 85" "''60'' = show_nat 60" by code_simp+
  then show "finite_reading ''90'' = Some (Fin 90)" "finite_reading ''85'' = Some (Fin 85)" "finite_reading ''60'' = Some (Fin 60)"
    using ParseFloat_nat[of "''90''" 90] ParseFloat_nat[of "''85''" 85] ParseFloat_nat[of "''60''" 60]
    by (simp_all add: finite_reading_def)
qed

theorem abort_early_is_sound_witness:
  "\<not> out_passed (Evaluate (foldl foldMetrics [(''gpuTempC'', ''90'')] [[(''gpuTempC'', ''60'')]]) []
      [\<lparr>th_metric = ''gpuTempC'', th_comparison = LTE, th_value = ''85'', th_applicability = Required\<rparr>])"
proof -
  let ?ths = "[\<lparr>th_metric = ''gpuTempC'', th_comparison = LTE, th_value = ''85'', th_applicability = Required\<rparr>]"
  let ?agg = "[(''gpuTempC'', ''90'')]"
  define v where "v = hd (out_violations (Evaluate ?agg [] ?ths))"
  have pf: "ParseFloat ''90'' = Some (Fin 90)" "ParseFloat ''85'' = Some (Fin 85)" using ninety finite_reading_Some by blast+
  have e: "out_violations (Evaluate ?agg [] ?ths) = [v]" "v_index v = 0" "v_cause v = CauseMeasurement"
    by (simp_all add: v_def Evaluate_def eval_init_def eval_one_def Let_def mget_def pf fail_gate_def fle_fval)
  have "v \<in> set (provableViolations ?agg (Evaluate ?agg [] ?ths) ?ths)"
    using e by (simp add: provableViolations_def monotoneBreach_def gpuTempC_agg)
  from abort_early_is_sound[OF this, of "[[(''gpuTempC'', ''60'')]]" "[]"] show ?thesis
    using e by (simp add: counts_ok_def gpuTempC_agg wf_map_def)
qed

text \<open>
  A soak that passes certifies every segment. When the evaluation of the aggregate
  passes a ceiling on a metric aggregated by maximum, or a floor on one aggregated by
  minimum, every segment that reported the metric satisfies the gate on its own; a
  reading that is not a finite number is never lost in the aggregate.
\<close>

theorem soak_pass_certifies_every_segment:
  assumes "list_all wf_map segs" and "th \<in> set ths" and "th_applicability th = Required"
    and "AggregationFor (th_metric th) = AggMax \<and> th_comparison th = LTE \<or>
      AggregationFor (th_metric th) = AggMin \<and> th_comparison th = GTE"
    and "out_passed (Evaluate (foldl foldMetrics [] segs) u ths)"
    and "m \<in> set segs" and "mhas m (th_metric th)"
  shows "satisfied m [] th"
proof -
  have "satisfied (foldl foldMetrics [] segs) u th"
    using assms(2,3,5) Evaluate_passed_iff by (fastforce simp: violated_def waived_def)
  then obtain s x w where s: "mget (foldl foldMetrics [] segs) (th_metric th) = Some s" "finite_reading s = Some x"
    "finite_reading (th_value th) = Some w" "compare_f x (th_comparison th) w"
    by (auto simp: satisfied_def split: option.splits)
  obtain v where v: "mget m (th_metric th) = Some v" using assms(7) by (auto simp: mhas_def)
  have r: "AggregationFor (th_metric th) = AggMax \<or> AggregationFor (th_metric th) = AggMin" using assms(4) by blast
  have fs: "finite_string s" using s(2) by simp
  note b = aggregate_bounds_segment[OF assms(1) s(1) fs r segment_reading_in[OF assms(6) v]]
  then obtain y where y: "finite_reading v = Some y" by auto
  have "is_finite x" "is_finite y" "is_finite w" using y s(2,3) finite_reading_Some by blast+
  then have "compare_f y (th_comparison th) w"
    using b s y assms(4) by (auto simp: string_le_def float_order split: if_splits)
  then show ?thesis using v y s(3) by (simp add: satisfied_def)
qed

theorem soak_pass_certifies_every_segment_witness:
  "satisfied [(''gpuTempC'', ''60'')] []
     \<lparr>th_metric = ''gpuTempC'', th_comparison = LTE, th_value = ''85'', th_applicability = Required\<rparr>"
proof -
  let ?th = "\<lparr>th_metric = ''gpuTempC'', th_comparison = LTE, th_value = ''85'', th_applicability = Required\<rparr>"
  let ?m = "[(''gpuTempC'', ''60'')]"
  have "foldl foldMetrics [] [?m, ?m] = [(''gpuTempC'', ''60'')]"
    by (simp add: foldMetrics_def fold_metric_def mput_def mget_def gpuTempC_agg combineMetric_def finiteValue_reading ninety)
  then have "out_passed (Evaluate (foldl foldMetrics [] [?m, ?m]) [] [?th])"
    by (simp add: Evaluate_passed_iff violated_def satisfied_def mget_def ninety fle_fval)
  from soak_pass_certifies_every_segment[OF _ _ _ _ this, of ?th ?m] show ?thesis
    by (simp add: wf_map_def gpuTempC_agg mhas_def mget_def)
qed

text \<open>
  Bounding the attempt history loses no evidence of trouble: the kept attempts are a
  subsequence that starts with the first attempt and has every attempt that did not pass,
  kept and dropped attempts add up, and of a segmented test at most sixteen later passing
  segments are kept.
\<close>

theorem truncateAttempts_keeps_all_evidence:
  "let res' = truncateAttempts res in
    subseq (tr_attempts res') (tr_attempts res) \<and>
    int (length (tr_attempts res')) + tr_truncated_attempts res' = int (length (tr_attempts res)) + tr_truncated_attempts res \<and>
    filter (\<lambda>a. at_phase a \<noteq> RunPassed) (tr_attempts res') = filter (\<lambda>a. at_phase a \<noteq> RunPassed) (tr_attempts res) \<and>
    take 1 (tr_attempts res') = take 1 (tr_attempts res) \<and>
    (tr_segments_required res \<le> 0 \<or> length (filter (\<lambda>a. at_phase a = RunPassed) (tl (tr_attempts res'))) \<le> 16)"
  using truncate_spec[of res] by (simp add: Let_def keptPassingSegments_def)

text \<open>
  A validated soak covers its duration and overruns by less than one segment, in
  segments of at least the floor, each pod running exactly one; it is never combined
  with repeats or given to a burst-only kind.
\<close>

theorem validated_soak_covers_its_duration:
  assumes "validateSoak t = None" and "ts_soak (pl_spec t) = Some s"
  shows "ts_duration_seconds (pl_spec t) \<le> segmentsRequired (pl_spec t) * sk_segment_seconds s \<and>
    segmentsRequired (pl_spec t) * sk_segment_seconds s < ts_duration_seconds (pl_spec t) + sk_segment_seconds s \<and>
    300 \<le> sk_segment_seconds s \<and> executionDurationSeconds (pl_spec t) = sk_segment_seconds s \<and>
    repeatsRequired (pl_spec t) = 1 \<and> \<not> BurstOnly (ts_kind (pl_spec t))"
proof -
  have v: "300 \<le> sk_segment_seconds s" "0 < ts_duration_seconds (pl_spec t)" "repeatsRequired (pl_spec t) \<le> 1"
    "\<not> BurstOnly (ts_kind (pl_spec t))"
    using assms by (auto simp: validateSoak_def minSegmentSeconds_def split: if_splits)
  then have g: "segmentSeconds (pl_spec t) = sk_segment_seconds s" using assms(2) by (simp add: segmentSeconds_def)
  show ?thesis using v g segments_cover[of "pl_spec t"] repeatsRequired_pos[of "pl_spec t"]
    by (auto simp: executionDurationSeconds_def algebra_simps)
qed

theorem validated_soak_covers_its_duration_witness:
  "let t = \<lparr>pl_name = ''soak'', pl_required = True, pl_spec = \<lparr>ts_kind = KindThermalSoak, ts_scope = ScopeNode,
         ts_duration_seconds = 1000, ts_repeat_count = None, ts_checkpoint_interval_seconds = None,
         ts_soak = Some \<lparr>sk_segment_seconds = 300, sk_abort_early = None\<rparr>, ts_runner = None, ts_thresholds = [],
         ts_resource_limits = [], ts_host_network = False\<rparr>, pl_axes = [], pl_parent = []\<rparr>
   in 1000 \<le> segmentsRequired (pl_spec t) * 300 \<and> segmentsRequired (pl_spec t) * 300 < 1300"
proof -
  let ?t = "\<lparr>pl_name = ''soak'', pl_required = True, pl_spec = \<lparr>ts_kind = KindThermalSoak, ts_scope = ScopeNode,
         ts_duration_seconds = 1000, ts_repeat_count = None, ts_checkpoint_interval_seconds = None,
         ts_soak = Some \<lparr>sk_segment_seconds = 300, sk_abort_early = None\<rparr>, ts_runner = None, ts_thresholds = [],
         ts_resource_limits = [], ts_host_network = False\<rparr>, pl_axes = [], pl_parent = []\<rparr>"
  have "validateSoak ?t = None" by (simp add: validateSoak_def BurstOnly_def minSegmentSeconds_def repeatsRequired_def)
  from validated_soak_covers_its_duration[OF this, of "\<lparr>sk_segment_seconds = 300, sk_abort_early = None\<rparr>"]
  show ?thesis by (simp add: Let_def)
qed

end
