(* ===== verification/Run_Plan.thy ===== *)
theory Run_Plan
  imports Soak
begin

text \<open>
  \<^verbatim>\<open>internal/controller/plan.go\<close>: the plan a run is pinned to, and every refusal taken before a
  node is touched. \<open>plan_sound\<close> states on its own what an acceptable plan is; the properties
  show that \<^verbatim>\<open>buildPlan\<close> accepts exactly those. The theory of pinned plans has the
  annotation it is kept in.
\<close>

record plan =
  pn_version :: int
  pn_targets :: "string list"
  pn_sinks :: "string list"
  pn_fail_fast :: bool
  pn_baseline :: bool
  pn_profile_entries :: int
  pn_tests :: "PlanTest list"

section \<open>Summaries\<close>

record variantSummary =
  vs_entries :: int
  vs_executions :: int
  vs_expanded :: "(string \<times> nat) list"

text \<open>The parents in the order they first appear, each with the number of its cells.\<close>

definition count_parent :: "PlanTest \<Rightarrow> (string \<times> nat) list \<Rightarrow> (string \<times> nat) list" where
  "count_parent t counts = (if pl_parent t = [] then counts
     else (case mget counts (pl_parent t) of
       None \<Rightarrow> counts @ [(pl_parent t, 1)]
     | Some n \<Rightarrow> mput (pl_parent t) (n + 1) counts))"

definition variant_summary :: "plan \<Rightarrow> variantSummary" where
  "variant_summary p = \<lparr>vs_entries = pn_profile_entries p, vs_executions = int (length (pn_tests p)),
     vs_expanded = fold count_parent (pn_tests p) []\<rparr>"

definition requiredByName :: "plan \<Rightarrow> bool gomap" where
  "requiredByName p = fold (\<lambda>t m. mput (pl_name t) (pl_required t) m) (pn_tests p) []"

definition plan_checkpointInterval :: "plan \<Rightarrow> int" where
  "plan_checkpointInterval p = foldl (\<lambda>out t. let d = checkpointInterval (pl_spec t) in
     if d > 0 \<and> (out = 0 \<or> d < out) then d else out) 0 (pn_tests p)"

definition unsoundThresholds :: "plan \<Rightarrow> (string \<times> Problem) list" where
  "unsoundThresholds p = concat (map (\<lambda>t. map (\<lambda>pr. (pl_name t, pr))
     (filter (\<lambda>pr. p_severity pr = SeverityUnsound) (ValidateThresholdsForKind (ts_kind (pl_spec t)) (ts_thresholds (pl_spec t)))))
     (pn_tests p))"

section \<open>Refusals over all tests\<close>

definition refuseReservedEnvOverride :: "PlanTest list \<Rightarrow> PlanError option" where
  "refuseReservedEnvOverride tests =
     (let bad = concat (map (\<lambda>t. case ts_runner (pl_spec t) of None \<Rightarrow> []
            | Some r \<Rightarrow> map (\<lambda>e. (pl_name t, ke_name e)) (filter (\<lambda>e. ke_name e \<in> set ReservedEnv) (rs_env r))) tests)
      in if bad = [] then None else Some (ReservedEnvOverride bad))"

definition refuseUnsatisfiableThresholds :: "PlanTest list \<Rightarrow> PlanError option" where
  "refuseUnsatisfiableThresholds tests =
     (let bad = concat (map (\<lambda>t. map (\<lambda>p. (pl_name t, p_index p))
            (filter (\<lambda>p. p_severity p = SeverityMalformed)
              (ValidateThresholdsForKind (ts_kind (pl_spec t)) (ts_thresholds (pl_spec t))))) tests)
      in if bad = [] then None else Some (UnsatisfiableThresholds bad))"

definition refuseGatedBaseline :: "PlanTest list \<Rightarrow> bool \<Rightarrow> PlanError option" where
  "refuseGatedBaseline tests baseline =
     (if \<not> baseline then None
      else (let gated = map (\<lambda>t. (pl_name t, length (ts_thresholds (pl_spec t))))
              (filter (\<lambda>t. ts_thresholds (pl_spec t) \<noteq> []) tests)
            in if gated = [] then None else Some (GatedBaseline gated)))"

section \<open>Topology\<close>

text \<open>\<open>firstDuplicate\<close> answers the empty string when there is none.\<close>

fun first_dup :: "string list \<Rightarrow> string list \<Rightarrow> string" where
  "first_dup seen [] = []"
| "first_dup seen (n # ns) = (if n \<in> set seen then n else first_dup (n # seen) ns)"

definition firstDuplicate :: "string list \<Rightarrow> string" where
  "firstDuplicate targets = first_dup [] targets"

definition groupCapableKinds :: "TestKind list" where
  "groupCapableKinds = [KindNCCL]"

definition no_image :: "PlanTest \<Rightarrow> bool" where
  "no_image t = (case ts_runner (pl_spec t) of None \<Rightarrow> True | Some r \<Rightarrow> rs_image r = [])"

definition validateGroupTopology :: "PlanTest \<Rightarrow> string list \<Rightarrow> int \<Rightarrow> PlanError option" where
  "validateGroupTopology t targets nodeCap =
     (if length targets < 2 then Some (GroupTooFewTargets (pl_name t) (length targets))
      else if firstDuplicate targets \<noteq> [] then Some (GroupDuplicateNode (pl_name t) (firstDuplicate targets))
      else if no_image t \<and> ts_kind (pl_spec t) \<notin> set groupCapableKinds
        then Some (GroupImageNotCapable (pl_name t) (ts_kind (pl_spec t)))
      else if nodeCap < int (length targets) then Some (GroupExceedsCap (pl_name t) (length targets) nodeCap)
      else None)"

definition validatePairTopology :: "PlanTest \<Rightarrow> string list \<Rightarrow> int \<Rightarrow> PlanError option" where
  "validatePairTopology t targets nodeCap =
     (if ts_scope (pl_spec t) \<noteq> ScopePair then None
      else if length targets \<noteq> 2 then Some (PairNeedsTwoTargets (pl_name t) (length targets))
      else if targets ! 0 = targets ! 1 then Some (PairSameNode (pl_name t) (targets ! 0))
      else if nodeCap < 2 then Some (PairExceedsCap (pl_name t) nodeCap)
      else None)"

definition validateTopology :: "PlanTest \<Rightarrow> string list \<Rightarrow> int \<Rightarrow> PlanError option" where
  "validateTopology t targets nodeCap = (case ts_scope (pl_spec t) of
     ScopePair \<Rightarrow> validatePairTopology t targets nodeCap
   | ScopeGroup \<Rightarrow> validateGroupTopology t targets nodeCap
   | _ \<Rightarrow> None)"

section \<open>Host mounts\<close>

fun check_mounts :: "string \<Rightarrow> string list \<Rightarrow> HostPathMount list \<Rightarrow> PlanError option" where
  "check_mounts name byMountPath [] = None"
| "check_mounts name byMountPath (m # ms) =
     (if hp_path m = [] \<or> hp_mount_path m = [] then Some (HostMountEmptyPath name (hp_path m) (hp_mount_path m))
      else if \<not> HasPrefix (hp_path m) ''/'' \<or> \<not> HasPrefix (hp_mount_path m) ''/''
        then Some (HostMountRelativePath name (hp_path m) (hp_mount_path m))
      else if hp_mount_path m \<in> set byMountPath then Some (HostMountDuplicate name (hp_mount_path m))
      else check_mounts name (hp_mount_path m # byMountPath) ms)"

definition validateHostPaths :: "PlanTest \<Rightarrow> PlanError option" where
  "validateHostPaths t = (case ts_runner (pl_spec t) of None \<Rightarrow> None
     | Some r \<Rightarrow> check_mounts (pl_name t) [] (rs_host_paths r))"

section \<open>buildPlan\<close>

text \<open>The first error of a sequence of checks.\<close>

definition orElse :: "'e option \<Rightarrow> 'e option \<Rightarrow> 'e option" where
  "orElse a b = (case a of Some e \<Rightarrow> Some e | None \<Rightarrow> b)"

fun plan_tests :: "string list \<Rightarrow> int \<Rightarrow> string list \<Rightarrow> PlanTest list \<Rightarrow> PlanError + PlanTest list" where
  "plan_tests targets nodeCap seen [] = Inr []"
| "plan_tests targets nodeCap seen (t # ts) =
     (if pl_name t \<in> set seen then Inl (DuplicateTest (pl_name t))
      else (case orElse (validateTopology t targets nodeCap) (orElse (validateHostPaths t) (validateSoak t)) of
        Some e \<Rightarrow> Inl e
      | None \<Rightarrow> (case plan_tests targets nodeCap (pl_name t # seen) ts of
          Inl e \<Rightarrow> Inl e
        | Inr rest \<Rightarrow> Inr (t\<lparr>pl_axes := CopyAxes (pl_axes t)\<rparr> # rest))))"

definition buildPlan ::
  "BurnInProfileSpec \<Rightarrow> PlanTest list \<Rightarrow> string list \<Rightarrow> int \<Rightarrow> bool \<Rightarrow> PlanError + plan" where
  "buildPlan profile tests targets nodeCap baseline =
     (case orElse (refuseReservedEnvOverride tests) (orElse (RefuseCapabilitiesWithoutRunAsUserZero tests)
            (orElse (refuseUnsatisfiableThresholds tests) (orElse (refuseGatedBaseline tests baseline)
              (RefuseUnreachableAxes tests)))) of
        Some e \<Rightarrow> Inl e
      | None \<Rightarrow> (case plan_tests targets nodeCap [] tests of
          Inl e \<Rightarrow> Inl e
        | Inr ts \<Rightarrow> Inr \<lparr>pn_version = 1, pn_targets = targets, pn_sinks = pf_sinks profile,
            pn_fail_fast = pf_fail_fast profile, pn_baseline = baseline,
            pn_profile_entries = int (length (pf_tests profile)), pn_tests = ts\<rparr>))"

section \<open>What an acceptable plan is\<close>

definition test_sound :: "string list \<Rightarrow> int \<Rightarrow> bool \<Rightarrow> PlanTest \<Rightarrow> bool" where
  "test_sound targets nodeCap baseline t = (
     (case ts_runner (pl_spec t) of None \<Rightarrow> True
      | Some r \<Rightarrow> list_all (\<lambda>e. ke_name e \<notin> set ReservedEnv) (rs_env r) \<and>
          (rs_capabilities r \<noteq> [] \<longrightarrow> rs_run_as_user r = Some 0) \<and>
          list_all (\<lambda>m. HasPrefix (hp_path m) ''/'' \<and> HasPrefix (hp_mount_path m) ''/'') (rs_host_paths r) \<and>
          distinct (map hp_mount_path (rs_host_paths r))) \<and>
     list_all (\<lambda>th. \<exists>m u. ValidateMetrics m = [] \<and> satisfied m u th) (ts_thresholds (pl_spec t)) \<and>
     (baseline \<longrightarrow> ts_thresholds (pl_spec t) = []) \<and>
     list_all EnvSafeAxis (mkeys (pl_axes t)) \<and>
     (ts_scope (pl_spec t) = ScopePair \<longrightarrow> length targets = 2 \<and> distinct targets \<and> 2 \<le> nodeCap) \<and>
     (ts_scope (pl_spec t) = ScopeGroup \<longrightarrow> 2 \<le> length targets \<and> firstDuplicate targets = [] \<and>
        int (length targets) \<le> nodeCap \<and> (no_image t \<longrightarrow> ts_kind (pl_spec t) = KindNCCL)) \<and>
     validateSoak t = None)"

definition plan_sound :: "PlanTest list \<Rightarrow> string list \<Rightarrow> int \<Rightarrow> bool \<Rightarrow> bool" where
  "plan_sound tests targets nodeCap baseline =
     (distinct (map pl_name tests) \<and> list_all (test_sound targets nodeCap baseline) tests)"

lemma orElse_None: "orElse a b = None \<longleftrightarrow> a = None \<and> b = None"
  by (simp add: orElse_def split: option.splits)

lemma check_mounts_None:
  "check_mounts name seen ms = None \<longleftrightarrow>
     list_all (\<lambda>m. HasPrefix (hp_path m) ''/'' \<and> HasPrefix (hp_mount_path m) ''/'') ms \<and>
     distinct (map hp_mount_path ms) \<and> set seen \<inter> set (map hp_mount_path ms) = {}"
  by (induction ms arbitrary: seen) (auto simp: HasPrefix_def)

lemma first_dup_None: "[] \<notin> set ns \<Longrightarrow> first_dup seen ns = [] \<longleftrightarrow> distinct ns \<and> set seen \<inter> set ns = {}"
  by (induction ns arbitrary: seen) auto

lemma refuseReservedEnv_None:
  "refuseReservedEnvOverride tests = None \<longleftrightarrow> list_all (\<lambda>t. case ts_runner (pl_spec t) of None \<Rightarrow> True
     | Some r \<Rightarrow> list_all (\<lambda>e. ke_name e \<notin> set ReservedEnv) (rs_env r)) tests"
  by (auto simp: refuseReservedEnvOverride_def Let_def list_all_iff filter_empty_conv split: option.splits)

lemma RefuseCapabilities_None:
  "RefuseCapabilitiesWithoutRunAsUserZero tests = None \<longleftrightarrow> list_all (\<lambda>t. \<not> capabilities_without_root t) tests"
  by (auto simp: RefuseCapabilitiesWithoutRunAsUserZero_def Let_def list_all_iff filter_empty_conv)

lemma refuseUnsatisfiable_None:
  "refuseUnsatisfiableThresholds tests = None \<longleftrightarrow>
     list_all (\<lambda>t. list_all (\<lambda>th. \<exists>m u. ValidateMetrics m = [] \<and> satisfied m u th) (ts_thresholds (pl_spec t))) tests"
proof -
  have "filter (\<lambda>p. p_severity p = SeverityMalformed) (ValidateThresholdsForKind k ths) = [] \<longleftrightarrow>
      list_all (\<lambda>th. \<exists>m u. ValidateMetrics m = [] \<and> satisfied m u th) ths" for k ths
    using malformed_at[of k ths] unfolding satisfiable_iff[symmetric] by (auto simp: list_all_iff filter_empty_conv)
  then show ?thesis by (simp add: refuseUnsatisfiableThresholds_def Let_def list_all_iff)
qed

lemma refuseGatedBaseline_None:
  "refuseGatedBaseline tests b = None \<longleftrightarrow> list_all (\<lambda>t. b \<longrightarrow> ts_thresholds (pl_spec t) = []) tests"
  by (auto simp: refuseGatedBaseline_def Let_def list_all_iff filter_empty_conv)

lemma validateTopology_None:
  "validateTopology t targets cap = None \<longleftrightarrow>
     (ts_scope (pl_spec t) = ScopePair \<longrightarrow> length targets = 2 \<and> distinct targets \<and> 2 \<le> cap) \<and>
     (ts_scope (pl_spec t) = ScopeGroup \<longrightarrow> 2 \<le> length targets \<and> firstDuplicate targets = [] \<and>
        int (length targets) \<le> cap \<and> (no_image t \<longrightarrow> ts_kind (pl_spec t) = KindNCCL))"
proof -
  have two: "length targets = 2 \<Longrightarrow> targets ! 0 = targets ! 1 \<longleftrightarrow> \<not> distinct targets"
    by (auto simp: numeral_2_eq_2 length_Suc_conv)
  show ?thesis using two
    by (cases "ts_scope (pl_spec t)")
      (auto simp: validateTopology_def validatePairTopology_def validateGroupTopology_def groupCapableKinds_def)
qed

lemma plan_tests_Inr:
  "(\<exists>ts'. plan_tests targets cap seen ts = Inr ts') \<longleftrightarrow>
     distinct (map pl_name ts) \<and> set seen \<inter> set (map pl_name ts) = {} \<and>
     list_all (\<lambda>t. validateTopology t targets cap = None \<and> validateHostPaths t = None \<and> validateSoak t = None) ts"
proof (induction ts arbitrary: seen)
  case (Cons t ts)
  let ?chk = "orElse (validateTopology t targets cap) (orElse (validateHostPaths t) (validateSoak t))"
  have "(\<exists>ts'. plan_tests targets cap seen (t # ts) = Inr ts') \<longleftrightarrow>
      pl_name t \<notin> set seen \<and> ?chk = None \<and> (\<exists>ts'. plan_tests targets cap (pl_name t # seen) ts = Inr ts')"
    by (cases ?chk; cases "plan_tests targets cap (pl_name t # seen) ts") simp_all
  then show ?case unfolding orElse_None Cons.IH by auto
qed simp

lemma plan_tests_result:
  "plan_tests targets cap seen ts = Inr ts' \<Longrightarrow> ts' = map (\<lambda>t. t\<lparr>pl_axes := CopyAxes (pl_axes t)\<rparr>) ts"
  by (induction ts arbitrary: seen ts') (auto split: option.splits sum.splits if_splits)

lemma validateHostPaths_None:
  "validateHostPaths t = None \<longleftrightarrow> (case ts_runner (pl_spec t) of None \<Rightarrow> True
     | Some r \<Rightarrow> list_all (\<lambda>m. HasPrefix (hp_path m) ''/'' \<and> HasPrefix (hp_mount_path m) ''/'') (rs_host_paths r) \<and>
         distinct (map hp_mount_path (rs_host_paths r)))"
  by (simp add: validateHostPaths_def check_mounts_None split: option.splits)

lemmas refusal_None = refuseReservedEnv_None RefuseCapabilities_None refuseUnsatisfiable_None
  refuseGatedBaseline_None RefuseUnreachableAxes_None

lemma buildPlan_Inr:
  "(\<exists>p. buildPlan profile tests targets cap b = Inr p) \<longleftrightarrow>
     list_all (\<lambda>t. case ts_runner (pl_spec t) of None \<Rightarrow> True
       | Some r \<Rightarrow> list_all (\<lambda>e. ke_name e \<notin> set ReservedEnv) (rs_env r)) tests \<and>
     list_all (\<lambda>t. \<not> capabilities_without_root t) tests \<and>
     list_all (\<lambda>t. list_all (\<lambda>th. \<exists>m u. ValidateMetrics m = [] \<and> satisfied m u th) (ts_thresholds (pl_spec t))) tests \<and>
     list_all (\<lambda>t. b \<longrightarrow> ts_thresholds (pl_spec t) = []) tests \<and>
     list_all (\<lambda>t. list_all EnvSafeAxis (mkeys (pl_axes t))) tests \<and>
     (\<exists>ts'. plan_tests targets cap [] tests = Inr ts')"
  unfolding refusal_None[symmetric]
  by (auto simp: buildPlan_def orElse_def split: option.splits sum.splits)

lemma test_sound_iff:
  "test_sound targets cap b t \<longleftrightarrow>
     (case ts_runner (pl_spec t) of None \<Rightarrow> True | Some r \<Rightarrow> list_all (\<lambda>e. ke_name e \<notin> set ReservedEnv) (rs_env r)) \<and>
     \<not> capabilities_without_root t \<and>
     list_all (\<lambda>th. \<exists>m u. ValidateMetrics m = [] \<and> satisfied m u th) (ts_thresholds (pl_spec t)) \<and>
     (b \<longrightarrow> ts_thresholds (pl_spec t) = []) \<and> list_all EnvSafeAxis (mkeys (pl_axes t)) \<and>
     validateTopology t targets cap = None \<and> validateHostPaths t = None \<and> validateSoak t = None"
  unfolding test_sound_def validateTopology_None validateHostPaths_None capabilities_without_root_def
  by (cases "ts_runner (pl_spec t)") auto

lemma buildPlan_sound_iff:
  "(\<exists>p. buildPlan profile tests targets cap b = Inr p) \<longleftrightarrow> plan_sound tests targets cap b"
  unfolding buildPlan_Inr plan_tests_Inr plan_sound_def test_sound_iff list_all_iff by auto

lemma buildPlan_result:
  "buildPlan profile tests targets cap b = Inr p \<Longrightarrow>
     pn_targets p = targets \<and> pn_baseline p = b \<and> pn_version p = 1 \<and> pn_sinks p = pf_sinks profile \<and>
     pn_fail_fast p = pf_fail_fast profile \<and>
     pn_tests p = map (\<lambda>t. t\<lparr>pl_axes := CopyAxes (pl_axes t)\<rparr>) tests"
  by (auto simp: buildPlan_def dest: plan_tests_result split: option.splits sum.splits)

section \<open>Properties\<close>


text \<open>
  No accepted plan can blame its author for a verdict: whatever a runner of one of its
  tests reports, no violation has cause Authoring.
\<close>

theorem accepted_plan_never_blames_its_author:
  assumes "buildPlan profile tests targets cap b = Inr p" and "t \<in> set (pn_tests p)"
    and "v \<in> set (out_violations (Evaluate m u (ts_thresholds (pl_spec t))))"
  shows "v_cause v \<noteq> CauseAuthoring"
proof
  assume a: "v_cause v = CauseAuthoring"
  obtain t0 where t0: "t0 \<in> set tests" "ts_thresholds (pl_spec t) = ts_thresholds (pl_spec t0)"
    using assms(2) buildPlan_result[OF assms(1)] by auto
  let ?th = "ts_thresholds (pl_spec t) ! v_index v"
  have "?th \<in> set (ts_thresholds (pl_spec t0))" using violation_at(1)[OF assms(3)] t0(2) by simp
  then have "\<not> malformed ?th"
    using buildPlan_sound_iff[of profile tests targets cap b] assms(1) t0(1)
    unfolding satisfiable_iff plan_sound_def test_sound_def list_all_iff by blast
  then show False using violation_at(6)[OF assms(3) a] by (simp add: malformed_def)
qed

theorem accepted_plan_never_blames_its_author_witness:
  "let th = \<lparr>th_metric = ''gpuTempC'', th_comparison = LTE, th_value = ''85'', th_applicability = Required\<rparr>
   in list_all (\<lambda>v. v_cause v \<noteq> CauseAuthoring) (out_violations (Evaluate [(''gpuTempC'', ''90'')] [] [th]))"
proof -
  let ?th = "\<lparr>th_metric = ''gpuTempC'', th_comparison = LTE, th_value = ''85'', th_applicability = Required\<rparr>"
  let ?t = "\<lparr>pl_name = ''t'', pl_required = True, pl_spec = \<lparr>ts_kind = KindThermalSoak, ts_scope = ScopeNode,
         ts_duration_seconds = 600, ts_repeat_count = None, ts_checkpoint_interval_seconds = None,
         ts_soak = None, ts_runner = None, ts_thresholds = [?th], ts_resource_limits = [], ts_host_network = False\<rparr>, pl_axes = [], pl_parent = []\<rparr>"
  let ?pf = "\<lparr>pf_tests = [], pf_fail_fast = False, pf_sinks = []\<rparr>"
  have "satisfied [(''gpuTempC'', ''60'')] [] ?th" by (simp add: satisfied_def mget_def ninety fle_fval)
  moreover have "ValidateMetrics [(''gpuTempC'', ''60'')] = []"
    by (simp add: ValidateMetrics_Nil mkeys_def valid_name_iff grammatical_def is_lower_def is_upper_def is_alnum_def)
  ultimately have "plan_sound [?t] [''n''] 1 False"
    by (auto simp: plan_sound_def test_sound_def validateSoak_def mkeys_def)
  then obtain p where p: "buildPlan ?pf [?t] [''n''] 1 False = Inr p" using buildPlan_sound_iff by blast
  have "?t\<lparr>pl_axes := CopyAxes []\<rparr> \<in> set (pn_tests p)" using buildPlan_result[OF p] by simp
  from accepted_plan_never_blames_its_author[OF p this] show ?thesis by (simp add: list_all_iff Let_def)
qed

end
