(* ===== verification/Go_Sha256.thy ===== *)
theory Go_Sha256
  imports Go_Strings "HOL-Library.Word"
begin

text \<open>
  \<^verbatim>\<open>crypto/sha256\<close> and \<^verbatim>\<open>encoding/hex\<close> as the sources use them: \<^verbatim>\<open>sha256.Sum256\<close> of a byte
  string (FIPS 180-4, its constants in decimal) and its lower-case hexadecimal spelling.
\<close>

unbundle bit_operations_syntax

definition sha_K :: "32 word list" where
  "sha_K = [1116352408, 1899447441, 3049323471, 3921009573, 961987163, 1508970993, 2453635748, 2870763221,
            3624381080, 310598401, 607225278, 1426881987, 1925078388, 2162078206, 2614888103, 3248222580,
            3835390401, 4022224774, 264347078, 604807628, 770255983, 1249150122, 1555081692, 1996064986,
            2554220882, 2821834349, 2952996808, 3210313671, 3336571891, 3584528711, 113926993, 338241895,
            666307205, 773529912, 1294757372, 1396182291, 1695183700, 1986661051, 2177026350, 2456956037,
            2730485921, 2820302411, 3259730800, 3345764771, 3516065817, 3600352804, 4094571909, 275423344,
            430227734, 506948616, 659060556, 883997877, 958139571, 1322822218, 1537002063, 1747873779,
            1955562222, 2024104815, 2227730452, 2361852424, 2428436474, 2756734187, 3204031479, 3329325298]"

definition sha_H0 :: "32 word list" where
  "sha_H0 = [1779033703, 3144134277, 1013904242, 2773480762, 1359893119, 2600822924, 528734635, 1541459225]"

definition be_word :: "char list \<Rightarrow> 32 word" where
  "be_word cs = foldl (\<lambda>w c. push_bit 8 w OR word_of_int (of_char c)) 0 cs"

fun chunks :: "nat \<Rightarrow> nat \<Rightarrow> 'a list \<Rightarrow> 'a list list" where
  "chunks 0 n xs = []"
| "chunks (Suc k) n xs = (if xs = [] then [] else take n xs # chunks k n (drop n xs))"

definition sha_pad :: "string \<Rightarrow> string" where
  "sha_pad s = (let n = length s; z = (119 - n mod 64) mod 64 in
     s @ [char_of (128 :: nat)] @ replicate z (char_of (0 :: nat)) @
     rev (map (\<lambda>i. char_of ((8 * n) div 256 ^ i mod 256)) [0..<8]))"

text \<open>The message schedule, newest word first.\<close>

fun sha_schedule :: "nat \<Rightarrow> 32 word list \<Rightarrow> 32 word list" where
  "sha_schedule 0 w = w"
| "sha_schedule (Suc k) w =
     (let w15 = w ! 14; w2 = w ! 1;
          s0 = word_rotr 7 w15 XOR word_rotr 18 w15 XOR drop_bit 3 w15;
          s1 = word_rotr 17 w2 XOR word_rotr 19 w2 XOR drop_bit 10 w2
      in sha_schedule k ((w ! 15 + s0 + w ! 6 + s1) # w))"

fun sha_round :: "32 word list \<Rightarrow> 32 word \<times> 32 word \<Rightarrow> 32 word list" where
  "sha_round [a, b, c, d, e, f, g, h] (k, w) =
     (let S1 = word_rotr 6 e XOR word_rotr 11 e XOR word_rotr 25 e;
          ch = (e AND f) XOR (NOT e AND g);
          t1 = h + S1 + ch + k + w;
          S0 = word_rotr 2 a XOR word_rotr 13 a XOR word_rotr 22 a;
          maj = (a AND b) XOR (a AND c) XOR (b AND c)
      in [t1 + (S0 + maj), a, b, c, d + t1, e, f, g])"
| "sha_round v _ = v"

definition sha_block :: "32 word list \<Rightarrow> string \<Rightarrow> 32 word list" where
  "sha_block H blk =
     (let w = rev (sha_schedule 48 (rev (map be_word (chunks 16 4 blk))))
      in map2 (+) H (foldl sha_round H (zip sha_K w)))"

definition Sum256 :: "string \<Rightarrow> 32 word list" where
  "Sum256 s = (let p = sha_pad s in foldl sha_block sha_H0 (chunks (length p) 64 p))"

definition hex_digit :: "int \<Rightarrow> char" where
  "hex_digit d = (if d < 10 then char_of (48 + d) else char_of (87 + d))"

definition hex_word :: "32 word \<Rightarrow> string" where
  "hex_word w = map (\<lambda>i. hex_digit (uint w div 16 ^ i mod 16)) (rev [0..<8])"

definition EncodeToString :: "32 word list \<Rightarrow> string" where
  "EncodeToString ws = concat (map hex_word ws)"

lemma length_EncodeToString: "length (EncodeToString ws) = 8 * length ws"
  by (induction ws) (auto simp: EncodeToString_def hex_word_def)

lemma length_sha_round: "length v = 8 \<Longrightarrow> length (sha_round v x) = 8"
  by (cases "(v, x)" rule: sha_round.cases) (auto simp: Let_def)

lemma length_sha_rounds: "length v = 8 \<Longrightarrow> length (foldl sha_round v xs) = 8"
  by (induction xs arbitrary: v) (auto simp: length_sha_round)

lemma length_sha_blocks: "length H = 8 \<Longrightarrow> length (foldl sha_block H bs) = 8"
  by (induction bs arbitrary: H) (auto simp: sha_block_def Let_def length_sha_rounds)

lemma length_Sum256: "length (Sum256 s) = 8"
  unfolding Sum256_def Let_def by (rule length_sha_blocks) (simp add: sha_H0_def)

lemma length_sha_pad: "64 dvd length (sha_pad s)"
proof -
  define r where "r = length s mod 64"
  have r: "r < 64" "length s = 64 * (length s div 64) + r" by (simp_all add: r_def)
  have "length (sha_pad s) = (if r \<le> 55 then 64 * (length s div 64) + 64 else 64 * (length s div 64) + 128)"
  proof (cases "r \<le> 55")
    case True
    then have "(119 - r) mod 64 = 55 - r" by (simp add: mod_if)
    then show ?thesis using True r by (simp add: sha_pad_def Let_def r_def[symmetric])
  next
    case False
    then have "(119 - r) mod 64 = 119 - r" by simp
    then show ?thesis using False r by (simp add: sha_pad_def Let_def r_def[symmetric])
  qed
  moreover have "64 dvd 64 * k + 64" "64 dvd 64 * k + 128" for k :: nat
    by (simp_all add: dvd_eq_mod_eq_0 mod_mult_self4[of 64 k, simplified] )
  ultimately show ?thesis by simp
qed

section \<open>A known digest\<close>

lemma Sum256_one_block: "length (sha_pad s) = 64 \<Longrightarrow> Sum256 s = sha_block sha_H0 (sha_pad s)"
proof -
  assume l: "length (sha_pad s) = 64"
  have "chunks n 64 ([] :: string) = []" for n by (cases n) simp_all
  moreover have "chunks 64 64 xs = take 64 xs # chunks 63 64 (drop 64 xs)" if "xs \<noteq> []" for xs :: string
    using chunks.simps(2)[of 63 64 xs] that by simp
  moreover have "sha_pad s \<noteq> []" using l by auto
  ultimately show ?thesis using l by (simp add: Sum256_def)
qed

lemma replicate_Cons: "replicate (numeral n) x = x # replicate (pred_numeral n) x"
  by (simp add: numeral_eq_Suc)

lemma char_bytes: "char_of (0 :: nat) = CHR 0x00" "char_of (128 :: nat) = CHR 0x80"
  by code_simp+

lemma upt_8: "[0..<8] = [0, 1, 2, 3, 4, 5, 6, 7]"
  by code_simp

lemmas pad_simps = replicate_Cons char_bytes upt_8

text \<open>The first example of FIPS 180-4.\<close>

lemma Sum256_abc: "Sum256 ''abc'' = [3128432319, 2399260650, 1094795486, 1571693091, 2953011619, 2518121116, 3021012833, 4060091821]"
proof -
  have pad: "sha_pad ''abc'' = [CHR 0x61, CHR 0x62, CHR 0x63, CHR 0x80, CHR 0x00, CHR 0x00, CHR 0x00, CHR 0x00, CHR 0x00, CHR 0x00, CHR 0x00, CHR 0x00,
      CHR 0x00, CHR 0x00, CHR 0x00, CHR 0x00, CHR 0x00, CHR 0x00, CHR 0x00, CHR 0x00, CHR 0x00, CHR 0x00, CHR 0x00, CHR 0x00,
      CHR 0x00, CHR 0x00, CHR 0x00, CHR 0x00, CHR 0x00, CHR 0x00, CHR 0x00, CHR 0x00, CHR 0x00, CHR 0x00, CHR 0x00, CHR 0x00,
      CHR 0x00, CHR 0x00, CHR 0x00, CHR 0x00, CHR 0x00, CHR 0x00, CHR 0x00, CHR 0x00, CHR 0x00, CHR 0x00, CHR 0x00, CHR 0x00,
      CHR 0x00, CHR 0x00, CHR 0x00, CHR 0x00, CHR 0x00, CHR 0x00, CHR 0x00, CHR 0x00, CHR 0x00, CHR 0x00, CHR 0x00, CHR 0x00,
      CHR 0x00, CHR 0x00, CHR 0x00, CHR 0x18]"
    by (simp add: sha_pad_def pad_simps) code_simp
  have words: "rev (sha_schedule 48 (rev (map be_word (chunks 16 4 [CHR 0x61, CHR 0x62, CHR 0x63, CHR 0x80, CHR 0x00, CHR 0x00, CHR 0x00, CHR 0x00, CHR 0x00, CHR 0x00, CHR 0x00, CHR 0x00,
      CHR 0x00, CHR 0x00, CHR 0x00, CHR 0x00, CHR 0x00, CHR 0x00, CHR 0x00, CHR 0x00, CHR 0x00, CHR 0x00, CHR 0x00, CHR 0x00,
      CHR 0x00, CHR 0x00, CHR 0x00, CHR 0x00, CHR 0x00, CHR 0x00, CHR 0x00, CHR 0x00, CHR 0x00, CHR 0x00, CHR 0x00, CHR 0x00,
      CHR 0x00, CHR 0x00, CHR 0x00, CHR 0x00, CHR 0x00, CHR 0x00, CHR 0x00, CHR 0x00, CHR 0x00, CHR 0x00, CHR 0x00, CHR 0x00,
      CHR 0x00, CHR 0x00, CHR 0x00, CHR 0x00, CHR 0x00, CHR 0x00, CHR 0x00, CHR 0x00, CHR 0x00, CHR 0x00, CHR 0x00, CHR 0x00,
      CHR 0x00, CHR 0x00, CHR 0x00, CHR 0x18])))) =
     [1633837952, 0, 0, 0, 0, 0, 0, 0,
      0, 0, 0, 0, 0, 0, 0, 24,
      1633837952, 983040, 2108187653, 1610613702, 1050508152, 25426944, 316456923, 3806512014,
      3357629466, 3073800610, 3854317833, 845560923, 2636160359, 3968280267, 1881225380, 3552024379,
      2482346367, 996719219, 2952069057, 4043988066, 176896406, 1924104970, 2483675966, 610538786,
      2672279444, 4037431130, 1042573945, 657669027, 206005234, 2215296807, 2049510749, 106709978,
      4215179723, 3430291419, 3118885940, 2845390439, 2226839261, 3256115900, 344409900, 2987358873,
      4015503821, 3957764664, 2682456414, 2025622859, 2755645205, 1720397816, 4004225740, 313650667]"
    by code_simp
  have rounds: "foldl sha_round sha_H0 (zip sha_K [1633837952, 0, 0, 0, 0, 0, 0, 0,
      0, 0, 0, 0, 0, 0, 0, 24,
      1633837952, 983040, 2108187653, 1610613702, 1050508152, 25426944, 316456923, 3806512014,
      3357629466, 3073800610, 3854317833, 845560923, 2636160359, 3968280267, 1881225380, 3552024379,
      2482346367, 996719219, 2952069057, 4043988066, 176896406, 1924104970, 2483675966, 610538786,
      2672279444, 4037431130, 1042573945, 657669027, 206005234, 2215296807, 2049510749, 106709978,
      4215179723, 3430291419, 3118885940, 2845390439, 2226839261, 3256115900, 344409900, 2987358873,
      4015503821, 3957764664, 2682456414, 2025622859, 2755645205, 1720397816, 4004225740, 313650667]) = [1349398616, 3550093669, 80891244, 3093179625, 1593118500, 4212265488, 2492278198, 2518632596]"
    by code_simp
  have "Sum256 ''abc'' = sha_block sha_H0 (sha_pad ''abc'')" by (rule Sum256_one_block) (simp add: pad)
  then show ?thesis unfolding pad sha_block_def words rounds Let_def by (simp add: sha_H0_def)
qed

end
