(* ===== verification/Artifact.thy ===== *)
theory Artifact
  imports Go_Sha256
begin

text \<open>
  \<^verbatim>\<open>pkg/runner/artifact.go\<close>: fenced evidence on a runner's stdout. \<open>extract_lines\<close> is the loop of
  \<^verbatim>\<open>extractArtifacts\<close> over the lines, \<open>scan_fence\<close> its inner loop, which leaves the lines
  the outer loop goes on with (after the END line, at a nested BEGIN, or none).
\<close>

section \<open>Markers\<close>

definition artifactBegin :: string where
  "artifactBegin = ''-----BEGIN BURNIN ARTIFACT''"

definition artifactEnd :: string where
  "artifactEnd = ''-----END BURNIN ARTIFACT-----''"

definition markerSuffix :: string where
  "markerSuffix = ''-----''"

definition MaxArtifactBytes :: nat where
  "MaxArtifactBytes = 256 * 1024"

definition isSpace :: "char \<Rightarrow> bool" where
  "isSpace b = (b = CHR '' '' \<or> b = byte 9)"

definition RuneStart :: "char \<Rightarrow> bool" where
  "RuneStart b = ((of_char b :: nat) div 64 \<noteq> 2)"

fun rune_cut :: "string \<Rightarrow> nat \<Rightarrow> nat" where
  "rune_cut s 0 = 0"
| "rune_cut s (Suc n) = (if RuneStart (s ! Suc n) then Suc n else rune_cut s n)"

definition truncateAtRune :: "string \<Rightarrow> nat \<Rightarrow> string \<Rightarrow> string" where
  "truncateAtRune s mx sfx = (if length s \<le> mx then s else take (rune_cut s mx) s @ sfx)"

definition ellipsis :: string where
  "ellipsis = map byte [226, 128, 166]"

datatype marker = NotAMarker | ValidMarker string string | MalformedMarker string

definition classifyBegin :: "string \<Rightarrow> marker" where
  "classifyBegin line =
     (if \<not> HasPrefix line artifactBegin \<or> \<not> HasSuffix line markerSuffix then NotAMarker
      else (let rest = TrimSuffix (TrimPrefix line artifactBegin) markerSuffix in
        if rest \<noteq> [] \<and> \<not> isSpace (hd rest) then NotAMarker
        else (let inner = TrimSpace rest in
          case Fields inner of
            [name, mediaType] \<Rightarrow> ValidMarker name mediaType
          | _ \<Rightarrow> MalformedMarker (truncateAtRune inner 120 ellipsis))))"

section \<open>Artifacts\<close>

text \<open>Why an artifact was refused; \<open>Kept\<close> is the empty string of the source.\<close>

datatype Dropped = Kept | BadHeader string | NestedBegin | NeverClosed | Oversized nat

record Artifact =
  art_name :: string
  art_media_type :: string
  art_payload :: string
  art_size :: nat
  art_digest :: string
  art_dropped :: Dropped

datatype fence_end = Closed | Nested | Unterminated

fun scan_fence :: "string list \<Rightarrow> string \<Rightarrow> fence_end \<times> string \<times> string list" where
  "scan_fence [] payload = (Unterminated, payload, [])"
| "scan_fence (l # ls) payload =
     (let body = TrimRightCR l in
      if body = artifactEnd then (Closed, payload, ls)
      else if classifyBegin body \<noteq> NotAMarker then (Nested, payload, l # ls)
      else scan_fence ls (payload @ body @ [byte 10]))"

definition refused :: "string \<Rightarrow> string \<Rightarrow> Dropped \<Rightarrow> Artifact" where
  "refused name mediaType why = \<lparr>art_name = name, art_media_type = mediaType, art_payload = [],
     art_size = (case why of Oversized n \<Rightarrow> n | _ \<Rightarrow> 0), art_digest = [], art_dropped = why\<rparr>"

definition accepted :: "string \<Rightarrow> string \<Rightarrow> string \<Rightarrow> Artifact" where
  "accepted name mediaType body = \<lparr>art_name = name, art_media_type = mediaType, art_payload = body,
     art_size = length body, art_digest = ''sha256:'' @ EncodeToString (Sum256 body), art_dropped = Kept\<rparr>"

fun build_artifact :: "marker \<Rightarrow> fence_end \<Rightarrow> string \<Rightarrow> Artifact" where
  "build_artifact (MalformedMarker h) e payload = refused [] [] (BadHeader h)"
| "build_artifact (ValidMarker name mediaType) e payload =
     (case e of
        Nested \<Rightarrow> refused name mediaType NestedBegin
      | Unterminated \<Rightarrow> refused name mediaType NeverClosed
      | Closed \<Rightarrow> if length payload > MaxArtifactBytes
                  then refused name mediaType (Oversized (length payload))
                  else accepted name mediaType payload)"
| "build_artifact NotAMarker e payload = refused [] [] Kept"

lemma scan_fence_length: "scan_fence ls p = (e, p', rest) \<Longrightarrow> length rest \<le> length ls"
  by (induction ls arbitrary: p) (fastforce simp: Let_def split: if_splits)+

function extract_lines :: "string list \<Rightarrow> Artifact list \<times> string list" where
  "extract_lines [] = ([], [])"
| "extract_lines (l # ls) =
     (let mk = classifyBegin (TrimRightCR l) in
      if mk = NotAMarker then (let (arts, rest) = extract_lines ls in (arts, l # rest))
      else (case scan_fence ls [] of (e, payload, ls') \<Rightarrow>
        (let (arts, rest) = extract_lines ls' in (build_artifact mk e payload # arts, rest))))"
  by pat_completeness auto
termination
  by (relation "measure length") (auto simp: le_imp_less_Suc dest!: scan_fence_length[OF sym])

definition extractArtifacts :: "string \<Rightarrow> Artifact list \<times> string list" where
  "extractArtifacts stdout = extract_lines (split_on (byte 10) stdout)"

section \<open>Which lines are payload\<close>

text \<open>A line that opens a fence, a line that may stand inside one, and a list of lines with neither.\<close>

definition opens :: "string \<Rightarrow> bool" where
  "opens l = (classifyBegin (TrimRightCR l) \<noteq> NotAMarker)"

definition closes :: "string \<Rightarrow> bool" where
  "closes l = (TrimRightCR l = artifactEnd)"

lemma end_not_begin: "classifyBegin artifactEnd = NotAMarker"
  by (simp add: classifyBegin_def artifactEnd_def artifactBegin_def HasPrefix_def)

lemma byte_9_13: "byte 9 = CHR 0x09" "byte 13 = CHR 0x0D"
  by code_simp+

text \<open>A line that announces an artifact opens a fence, whatever its header says.\<close>

lemma header_opens:
  assumes "rest = [] \<or> isSpace (hd rest)"
  shows "opens (artifactBegin @ rest @ markerSuffix)"
proof -
  let ?l = "artifactBegin @ rest @ markerSuffix"
  have "TrimRightCR ?l = ?l" by (simp add: TrimRightCR_def markerSuffix_def byte_9_13)
  moreover have "TrimSuffix (TrimPrefix ?l artifactBegin) markerSuffix = rest"
    by (simp add: TrimSuffix_def TrimPrefix_def HasPrefix_def HasSuffix_def suffix_def)
  moreover have "HasPrefix ?l artifactBegin" "HasSuffix ?l markerSuffix"
    by (simp_all add: HasPrefix_def HasSuffix_def suffix_def)
  ultimately show ?thesis using assms
    by (auto simp: opens_def classifyBegin_def Let_def split: list.splits)
qed

lemma closes_not_opens: "closes l \<Longrightarrow> \<not> opens l"
  by (simp add: closes_def opens_def end_not_begin)

lemma scan_fence_Cons:
  "scan_fence (l # ls) p = (if closes l then (Closed, p, ls)
     else if opens l then (Nested, p, l # ls) else scan_fence ls (p @ TrimRightCR l @ [byte 10]))"
  by (simp add: closes_def opens_def Let_def)

lemma extract_Cons:
  "extract_lines (l # ls) = (if \<not> opens l then (fst (extract_lines ls), l # snd (extract_lines ls))
     else (let (e, p, ls') = scan_fence ls [] in
       (build_artifact (classifyBegin (TrimRightCR l)) e p # fst (extract_lines ls'), snd (extract_lines ls'))))"
  by (auto simp: opens_def Let_def case_prod_unfold)

declare scan_fence.simps(2) [simp del] extract_lines.simps(2) [simp del]

text \<open>The payload of a list of lines, as the builder accumulates it.\<close>

definition payload_of :: "string list \<Rightarrow> string" where
  "payload_of ls = concat (map (\<lambda>l. TrimRightCR l @ [byte 10]) ls)"

lemma scan_fence_body:
  "list_all (\<lambda>l. \<not> closes l \<and> \<not> opens l) ls \<Longrightarrow> scan_fence (ls @ rest) p = scan_fence rest (p @ payload_of ls)"
  by (induction ls arbitrary: p) (auto simp: scan_fence_Cons payload_of_def)

lemma scan_fence_suffix: "scan_fence ls p = (e, p', rest) \<Longrightarrow> suffix rest ls"
  by (induction ls arbitrary: p) (auto simp: scan_fence_Cons suffix_ConsI split: if_splits)

lemma extract_unfenced: "list_all (\<lambda>l. \<not> opens l) ls \<Longrightarrow> extract_lines (ls @ rest) = (fst (extract_lines rest), ls @ snd (extract_lines rest))"
  by (induction ls) (auto simp: extract_Cons)

lemma extract_block:
  assumes "opens b" "list_all (\<lambda>l. \<not> closes l \<and> \<not> opens l) body" "closes e"
  shows "extract_lines (b # body @ e # rest) =
    (build_artifact (classifyBegin (TrimRightCR b)) Closed (payload_of body) # fst (extract_lines rest), snd (extract_lines rest))"
  using assms by (simp add: extract_Cons scan_fence_body scan_fence_Cons)

lemma extract_rest_subset: "set (snd (extract_lines ls)) \<subseteq> {l \<in> set ls. \<not> opens l}"
proof (induction ls rule: extract_lines.induct)
  case (2 l ls)
  show ?case
  proof (cases "opens l")
    case True
    obtain e p ls' where s: "scan_fence ls [] = (e, p, ls')" by (cases "scan_fence ls []")
    have "set ls' \<subseteq> set ls" using set_mono_suffix[OF scan_fence_suffix[OF s]] .
    moreover have "set (snd (extract_lines ls')) \<subseteq> {l \<in> set ls'. \<not> opens l}"
      using 2(2)[OF refl _ s[symmetric]] True s by (auto simp: opens_def)
    ultimately show ?thesis using True s by (auto simp: extract_Cons)
  next
    case False
    then show ?thesis using 2(1) by (auto simp: extract_Cons opens_def)
  qed
qed simp

text \<open>What an accepted or refused artifact carries.\<close>

definition artifact_ok :: "Artifact \<Rightarrow> bool" where
  "artifact_ok a = (if art_dropped a = Kept
     then art_size a = length (art_payload a) \<and> art_size a \<le> MaxArtifactBytes \<and>
       art_digest a = ''sha256:'' @ EncodeToString (Sum256 (art_payload a))
     else art_payload a = [] \<and> art_digest a = [] \<and>
       (art_size a \<noteq> 0 \<longrightarrow> art_size a > MaxArtifactBytes \<and> art_dropped a = Oversized (art_size a)))"

lemma build_artifact_ok: "mk \<noteq> NotAMarker \<Longrightarrow> artifact_ok (build_artifact mk e p)"
  by (cases mk; cases e) (auto simp: artifact_ok_def refused_def accepted_def)

lemma extract_artifacts_ok: "list_all artifact_ok (fst (extract_lines ls))"
proof (induction ls rule: extract_lines.induct)
  case (2 l ls)
  show ?case
  proof (cases "opens l")
    case True
    obtain e p ls' where s: "scan_fence ls [] = (e, p, ls')" by (cases "scan_fence ls []")
    have "list_all artifact_ok (fst (extract_lines ls'))"
      using 2(2)[OF refl _ s[symmetric]] True s by (auto simp: opens_def)
    then show ?thesis using True s build_artifact_ok by (simp add: extract_Cons opens_def)
  next
    case False
    then show ?thesis using 2(1) by (auto simp: extract_Cons opens_def)
  qed
qed simp

text \<open>The clamp of a header stays within its bound and never splits a rune.\<close>

lemma rune_cut_le: "rune_cut s n \<le> n"
  by (induction n) auto

lemma rune_cut_start: "rune_cut s n = 0 \<or> RuneStart (s ! rune_cut s n)"
  by (induction n) auto

lemma length_truncateAtRune: "length (truncateAtRune s mx sfx) \<le> max mx (mx + length sfx)"
  using rune_cut_le[of s mx] by (auto simp: truncateAtRune_def)

lemma truncateAtRune_clean: "length s \<le> mx \<Longrightarrow> truncateAtRune s mx sfx = s"
  by (simp add: truncateAtRune_def)

section \<open>Properties\<close>

text \<open>
  Every artifact the extractor returns is either kept whole, within the size cap, with
  its true size and the SHA-256 of its payload, or refused with a reason and no payload
  and no digest, a size being recorded only when the refusal is for exceeding the cap.
\<close>

theorem extractArtifacts_accounts_for_every_artifact:
  "list_all (\<lambda>a. if art_dropped a = Kept
     then art_size a = length (art_payload a) \<and> art_size a \<le> MaxArtifactBytes \<and>
       art_digest a = ''sha256:'' @ EncodeToString (Sum256 (art_payload a))
     else art_payload a = [] \<and> art_digest a = [] \<and>
       (art_size a = 0 \<or> art_size a > MaxArtifactBytes)) (fst (extractArtifacts stdout))"
  using extract_artifacts_ok[of "split_on (byte 10) stdout"]
  by (auto simp: extractArtifacts_def list_all_iff artifact_ok_def)

end
