(* ===== verification/Runner_Parse.thy ===== *)
theory Runner_Parse
  imports Artifact Lint
begin

text \<open>
  \<^verbatim>\<open>pkg/runner/parse.go\<close>: what a runner's exit code and stdout mean. The scan over the lines
  that are left once the fenced artifacts are lifted out is a fold of \<open>scan_line\<close>. The
  exit code is Go's \<^verbatim>\<open>int\<close>, read as an integer.
\<close>

section \<open>Exit codes and skips\<close>

datatype Verdict = VerdictPass | VerdictFail | VerdictSkip | VerdictError

definition VerdictFor :: "int \<Rightarrow> Verdict" where
  "VerdictFor exitCode = (if exitCode = 0 then VerdictPass else if exitCode = 1 then VerdictFail
     else if exitCode = 2 then VerdictSkip else VerdictError)"

text \<open>
  The expression \<^verbatim>\<open>(?m)^[A-Z][A-Z0-9_]*_SKIP\b\<close> at the start of one line. The word boundary
  forces the match to end where the line's leading run of word characters ends.
\<close>

definition is_skip_char :: "char \<Rightarrow> bool" where
  "is_skip_char c = (is_upper c \<or> is_digit c \<or> c = CHR ''_'')"

definition skip_line :: "string \<Rightarrow> bool" where
  "skip_line l = (let w = takeWhile is_word_char l in
     w \<noteq> [] \<and> is_upper (hd w) \<and> list_all is_skip_char w \<and> HasSuffix (tl w) ''_SKIP'')"

definition DeclaresSkip :: "string \<Rightarrow> bool" where
  "DeclaresSkip stdout = list_ex skip_line (split_on (byte 10) stdout)"

section \<open>The result\<close>

definition Unmeasurable :: string where
  "Unmeasurable = ''n/a''"

record Result =
  res_verdict :: Verdict
  res_exit_code :: int
  res_metrics :: "string gomap"
  res_unmeasurable :: nameset
  res_message :: string
  res_invalid_names :: "string list"
  res_artifacts :: "Artifact list"
  res_undeclared_skip :: bool

definition IsUnmeasurable :: "Result \<Rightarrow> string \<Rightarrow> bool" where
  "IsUnmeasurable r name = flagged (res_unmeasurable r) name"

definition ReportedNothing :: "Result \<Rightarrow> bool" where
  "ReportedNothing r = (res_metrics r = [] \<and> res_unmeasurable r = [] \<and> res_invalid_names r = [])"

definition Numeric :: "Result \<Rightarrow> string \<Rightarrow> float64 option" where
  "Numeric r name = (case mget (res_metrics r) name of None \<Rightarrow> None | Some raw \<Rightarrow> ParseFloat raw)"

section \<open>Names\<close>

definition aliases :: "string gomap gomap" where
  "aliases = [(''compute-smoke'', [(''tflops'', ''throughputTflops'')]),
    (''gemm-sweep'', [(''window_seconds'', ''sampleWindowS''),
      (''gemm_iterations'', ''iterationsCompleted''),
      (''sm_clock_mhz'', ''smClockMHz'')]),
    (''gpu-burn'', [(''errors'', ''miscompares''),
      (''iterations'', ''iterationsCompleted''),
      (''tflops'', ''sustainedThroughputTflops''),
      (''xid_count'', ''xidEvents'')]),
    (''dcgm-diag'', [(''tests_failed'', ''diagTestsFailed''),
      (''pcie_replay_count'', ''pcieReplayErrors''),
      (''rows_remapped'', ''remappedRows'')]),
    (''memory-bw'', [(''h2d_bandwidth_gbs'', ''hostToDeviceBandwidthGBs''),
      (''d2h_bandwidth_gbs'', ''deviceToHostBandwidthGBs''),
      (''d2d_bandwidth_gbs'', ''deviceToDeviceBandwidthGBs''),
      (''peer_read_bandwidth_gbs'', ''peerReadBandwidthGBs''),
      (''peer_write_bandwidth_gbs'', ''peerWriteBandwidthGBs''),
      (''memory_bandwidth_gbs'', ''memoryBandwidthGBs''),
      (''managed_memory_bandwidth_gbs'', ''managedMemoryBandwidthGBs'')]),
    (''host-health'', [(''ib_counters_saturated'', ''fabricCountersSaturated''),
      (''ib_saturated_counters'', ''fabricSaturatedCounters''),
      (''ib_counter_status'', ''fabricCounterStatus''),
      (''nic_link_down'', ''nicLinkDownEvents''),
      (''pcie_replay_count'', ''pcieReplayErrors''),
      (''xid_count'', ''xidEvents''),
      (''rows_remapped'', ''remappedRows'')]),
    (''thermal-soak'', [(''peak_temp_c'', ''gpuTempC''),
      (''peak_power_w'', ''powerDrawW''),
      (''throttle_count'', ''throttleEvents''),
      (''soak_seconds'', ''elapsedS''),
      (''xid_count'', ''xidEvents'')]),
    (''power-swing'', [(''peak_temp_c'', ''gpuTempC''),
      (''peak_power_w'', ''powerDrawW''),
      (''throttle_count'', ''throttleEvents''),
      (''soak_seconds'', ''elapsedS''),
      (''xid_count'', ''xidEvents'')]),
    (''nccl'', [(''algbw'', ''algBandwidthGBs''),
      (''busbw'', ''busBandwidthGBs''),
      (''wrong_count'', ''miscompares'')]),
    (''ib-write-bw'', [(''bw_average'', ''bandwidthGbps''),
      (''bw_peak'', ''peakBandwidthGbps''),
      (''latency_min_us'', ''minLatencyUs''),
      (''latency_max_us'', ''maxLatencyUs''),
      (''latency_p99_us'', ''p99LatencyUs''),
      (''msg_rate_mpps'', ''messageRateMpps'')]),
    (''gpudirect-rdma'', [(''bw_average'', ''bandwidthGbps''),
      (''t_avg_usec'', ''latencyUs'')]),
    (''clockprobe'', [(''sm_clock_mhz'', ''smClockMHz''),
      (''mem_clock_mhz'', ''memClockMHz''),
      (''rated_boost_clock_mhz'', ''ratedBoostClockMHz''),
      (''rated_mem_clock_mhz'', ''ratedMemClockMHz'')]),
    (''memory-stress'', [(''hardware_incidents'', ''memoryErrors''),
      (''sdc_count'', ''sdcDetections''),
      (''read_bandwidth_mbs'', ''readBandwidthMBs''),
      (''write_bandwidth_mbs'', ''writeBandwidthMBs'')])]"

definition capitalise :: "string \<Rightarrow> string" where
  "capitalise s = (case s of [] \<Rightarrow> [] | c # cs \<Rightarrow> upper_ascii c # cs)"

definition is_sep :: "char \<Rightarrow> bool" where
  "is_sep r = (r = CHR ''_'' \<or> r = CHR ''-'')"

definition snakeToLowerCamel :: "string \<Rightarrow> string" where
  "snakeToLowerCamel s =
     (if \<not> ContainsAny s ''_-'' then s
      else (case FieldsFunc is_sep s of
        [] \<Rightarrow> s
      | p # ps \<Rightarrow> ToLower p @ concat (map (\<lambda>q. capitalise (ToLower q)) ps)))"

definition canonicalName :: "string \<Rightarrow> string gomap \<Rightarrow> string" where
  "canonicalName rawKey kindAliases = (case mget kindAliases rawKey of
     Some canonical \<Rightarrow> canonical | None \<Rightarrow> snakeToLowerCamel rawKey)"

definition isUnmeasurable :: "string \<Rightarrow> bool" where
  "isUnmeasurable value = EqualFold (TrimSpace value) Unmeasurable"

section \<open>Parse\<close>

definition record_metric :: "string \<Rightarrow> string \<Rightarrow> Result \<Rightarrow> Result" where
  "record_metric name value res =
     (if ValidateMetricName name \<noteq> None then res\<lparr>res_invalid_names := res_invalid_names res @ [name]\<rparr>
      else if isUnmeasurable value then
        res\<lparr>res_unmeasurable := mput name True (res_unmeasurable res), res_metrics := mdel name (res_metrics res)\<rparr>
      else res\<lparr>res_unmeasurable := mdel name (res_unmeasurable res), res_metrics := mput name value (res_metrics res)\<rparr>)"

definition scan_line :: "string gomap \<Rightarrow> string \<Rightarrow> Result \<Rightarrow> Result" where
  "scan_line kindAliases raw res =
     (let line = TrimSpace raw in
      if line = [] then res
      else (case cut_at (CHR ''='') line of
        None \<Rightarrow> res\<lparr>res_message := line\<rparr>
      | Some (before, after) \<Rightarrow>
          if before = [] then res\<lparr>res_message := line\<rparr>
          else (let rawKey = TrimSpace before; value = TrimSpace after in
            if rawKey = [] \<or> ContainsAny rawKey [CHR '' '', byte 9] then res\<lparr>res_message := line\<rparr>
            else record_metric (canonicalName rawKey kindAliases) value res)))"

definition parse_init :: "string \<Rightarrow> int \<Rightarrow> Result" where
  "parse_init stdout exitCode =
     (let undeclared = (exitCode = 2 \<and> \<not> DeclaresSkip stdout) in
      \<lparr>res_verdict = (if undeclared then VerdictError else VerdictFor exitCode), res_exit_code = exitCode,
       res_metrics = [], res_unmeasurable = [], res_message = [], res_invalid_names = [],
       res_artifacts = [], res_undeclared_skip = undeclared\<rparr>)"

definition kind_aliases :: "string \<Rightarrow> string gomap" where
  "kind_aliases kind = (case mget aliases kind of Some a \<Rightarrow> a | None \<Rightarrow> [])"

definition Parse :: "string \<Rightarrow> string \<Rightarrow> int \<Rightarrow> Result" where
  "Parse kind stdout exitCode =
     (case extractArtifacts stdout of (artifacts, lines) \<Rightarrow>
        fold (scan_line (kind_aliases kind)) lines
          ((parse_init stdout exitCode)\<lparr>res_artifacts := artifacts\<rparr>))"

section \<open>Skip declarations\<close>

text \<open>The line test against the expression read as a pattern.\<close>

lemma skip_char_word: "is_skip_char c \<Longrightarrow> is_word_char c" and upper_skip: "is_upper c \<Longrightarrow> is_skip_char c"
  by (auto simp: is_skip_char_def is_word_char_def)

lemma SKIP_chars: "list_all is_skip_char ''_SKIP''"
  by code_simp

lemma takeWhile_run: "list_all P w \<Longrightarrow> r = [] \<or> \<not> P (hd r) \<Longrightarrow> takeWhile P (w @ r) = w"
  by (induction w) (auto simp: takeWhile_eq_Nil_iff)

lemma skip_line_iff:
  "skip_line l \<longleftrightarrow> (\<exists>c w r. l = c # w @ ''_SKIP'' @ r \<and> is_upper c \<and> list_all is_skip_char w \<and>
     (r = [] \<or> \<not> is_word_char (hd r)))"
proof
  assume s: "skip_line l"
  define w where "w = takeWhile is_word_char l"
  have w: "w \<noteq> []" "is_upper (hd w)" "list_all is_skip_char w" "suffix ''_SKIP'' (tl w)"
    using s by (auto simp: skip_line_def w_def HasSuffix_def Let_def)
  obtain v where v: "tl w = v @ ''_SKIP''" using w(4) by (auto simp: suffix_def)
  then have "w = hd w # v @ ''_SKIP''" using w(1) by (metis list.collapse)
  moreover have "l = w @ dropWhile is_word_char l" by (simp add: w_def)
  moreover have "dropWhile is_word_char l = [] \<or> \<not> is_word_char (hd (dropWhile is_word_char l))"
    using hd_dropWhile by blast
  moreover have "list_all is_skip_char v" using w(3) calculation(1) by (metis list_all_append list.pred_inject(2))
  ultimately show "\<exists>c w r. l = c # w @ ''_SKIP'' @ r \<and> is_upper c \<and> list_all is_skip_char w \<and>
     (r = [] \<or> \<not> is_word_char (hd r))"
    using w(2) by (metis append_Cons append_assoc)
next
  assume "\<exists>c w r. l = c # w @ ''_SKIP'' @ r \<and> is_upper c \<and> list_all is_skip_char w \<and>
     (r = [] \<or> \<not> is_word_char (hd r))"
  then obtain c w r where l: "l = (c # w @ ''_SKIP'') @ r" "is_upper c" "list_all is_skip_char w"
    "r = [] \<or> \<not> is_word_char (hd r)" by auto
  have all: "list_all is_skip_char (c # w @ ''_SKIP'')" using l(2,3) upper_skip SKIP_chars by simp
  then have "list_all is_word_char (c # w @ ''_SKIP'')" using skip_char_word by (simp only: list_all_iff) blast
  from takeWhile_run[OF this l(4)] show "skip_line l"
    using l(1,2) all by (simp add: skip_line_def HasSuffix_def suffix_def)
qed

section \<open>What the scan keeps\<close>

definition result_ok :: "Result \<Rightarrow> bool" where
  "result_ok r = (wf_map (res_metrics r) \<and> wf_map (res_unmeasurable r) \<and>
     (\<forall>k. mhas (res_metrics r) k \<longrightarrow> valid_name k \<and> \<not> mhas (res_unmeasurable r) k) \<and>
     (\<forall>k. mhas (res_unmeasurable r) k \<longrightarrow> valid_name k \<and> flagged (res_unmeasurable r) k) \<and>
     (\<forall>k \<in> set (res_invalid_names r). \<not> valid_name k))"

definition evidence :: "Result \<Rightarrow> string gomap \<times> nameset \<times> string list \<times> string" where
  "evidence r = (res_metrics r, res_unmeasurable r, res_invalid_names r, res_message r)"

lemma record_metric_ok: "result_ok r \<Longrightarrow> result_ok (record_metric name value r)"
  by (auto simp: result_ok_def record_metric_def valid_name_def mhas_simps flagged_put flagged_del)

lemma record_metric_view:
  "evidence r = evidence r' \<Longrightarrow> evidence (record_metric name value r) = evidence (record_metric name value r')"
  by (simp add: evidence_def record_metric_def)

lemma scan_line_cases:
  "scan_line a l r = r \<or> (\<exists>m. scan_line a l r = r\<lparr>res_message := m\<rparr>) \<or>
   (\<exists>n v. scan_line a l r = record_metric n v r)"
  by (auto simp: scan_line_def Let_def split: option.splits)

lemma message_ok: "result_ok r \<Longrightarrow> result_ok (r\<lparr>res_message := m\<rparr>)"
  by (simp add: result_ok_def)

lemma scan_line_view:
  "evidence r = evidence r' \<Longrightarrow> evidence (scan_line a l r) = evidence (scan_line a l r')"
  unfolding scan_line_def Let_def
  by (auto intro: record_metric_view split: option.splits) (simp_all add: evidence_def)

interpretation scan_ok: loop_invariant "scan_line a" result_ok for a
proof
  fix r l assume "result_ok r"
  then show "result_ok (scan_line a l r)"
    using scan_line_cases[of a l r] record_metric_ok message_ok by metis
qed

interpretation scan_evidence: loop_view "scan_line a" evidence for a
  by unfold_locales (rule scan_line_view)

definition same_frame :: "Result \<Rightarrow> Result \<Rightarrow> bool" where
  "same_frame r0 r = (res_verdict r = res_verdict r0 \<and> res_exit_code r = res_exit_code r0 \<and>
     res_artifacts r = res_artifacts r0 \<and> res_undeclared_skip r = res_undeclared_skip r0)"

interpretation scan_frame: loop_invariant "scan_line a" "same_frame r0" for a r0
  by unfold_locales (auto simp: same_frame_def scan_line_def record_metric_def Let_def split: option.splits)

lemma Parse_frame: "same_frame ((parse_init stdout c)\<lparr>res_artifacts := fst (extractArtifacts stdout)\<rparr>) (Parse kind stdout c)"
  unfolding Parse_def case_prod_unfold by (rule scan_frame.fold_inv) (simp add: same_frame_def)

lemma Parse_ok: "result_ok (Parse kind stdout c)"
  unfolding Parse_def case_prod_unfold by (rule scan_ok.fold_inv) (simp add: result_ok_def parse_init_def Let_def)

definition empty_result :: Result where
  "empty_result = parse_init [] 0"

lemma Parse_evidence:
  "evidence (Parse kind stdout c) =
   evidence (fold (scan_line (kind_aliases kind)) (snd (extract_lines (split_on (byte 10) stdout))) empty_result)"
  unfolding Parse_def case_prod_unfold extractArtifacts_def
  by (rule scan_evidence.fold_view) (simp add: evidence_def parse_init_def empty_result_def Let_def)

lemma blank_opens: "\<not> opens []"
  by (simp add: opens_def TrimRightCR_def classifyBegin_def HasPrefix_def artifactBegin_def)

lemma scan_blank: "scan_line a [] r = r"
  by (simp add: scan_line_def TrimSpace_graphic)

text \<open>Over a list of lines, whether or not it is empty.\<close>

lemma Parse_lines:
  assumes "list_all (\<lambda>l. byte 10 \<notin> set l) ls"
  shows "evidence (Parse kind (unlines ls) c) =
    evidence (fold (scan_line (kind_aliases kind)) (snd (extract_lines ls)) empty_result)"
proof (cases ls)
  case Nil
  then show ?thesis by (simp add: Parse_evidence unlines_def extract_Cons blank_opens scan_blank)
next
  case (Cons l ls')
  then show ?thesis using assms split_unlines[of ls] by (simp add: Parse_evidence)
qed

section \<open>Names\<close>

lemma lower_not_sep: "\<not> is_sep c \<Longrightarrow> \<not> is_sep (lower_ascii c)"
  by (auto simp: is_sep_def lower_ascii_def char_of_eq_iff take_bit_eq_mod)

lemma upper_not_sep: "\<not> is_sep c \<Longrightarrow> \<not> is_sep (upper_ascii c)"
  by (auto simp: is_sep_def upper_ascii_def is_lower_def char_of_eq_iff take_bit_eq_mod)

abbreviation no_sep :: "string \<Rightarrow> bool" where
  "no_sep s \<equiv> list_all (\<lambda>c. \<not> is_sep c) s"

lemma no_sep_ToLower: "no_sep s \<Longrightarrow> no_sep (ToLower s)"
  using lower_not_sep by (auto simp: ToLower_def list_all_iff)

lemma no_sep_capitalise: "no_sep s \<Longrightarrow> no_sep (capitalise s)"
  using upper_not_sep by (auto simp: capitalise_def list_all_iff split: list.splits)

lemma snake_plain: "no_sep s \<Longrightarrow> snakeToLowerCamel s = s"
  by (auto simp: snakeToLowerCamel_def ContainsAny_def list_all_iff is_sep_def)

lemma snake_cases: "snakeToLowerCamel s = s \<or> no_sep (snakeToLowerCamel s)"
proof (cases "FieldsFunc is_sep s")
  case (Cons p ps)
  then have "no_sep p" "list_all no_sep ps"
    using FieldsFunc_clean[of is_sep s] by simp_all
  then have "no_sep (ToLower p @ concat (map (\<lambda>q. capitalise (ToLower q)) ps))"
    using no_sep_ToLower no_sep_capitalise by (induction ps) simp_all
  then show ?thesis using Cons by (simp add: snakeToLowerCamel_def)
qed (simp add: snakeToLowerCamel_def)

lemma alnum_plain: "is_alnum c \<Longrightarrow> graphic c \<and> \<not> is_sep c \<and> c \<noteq> CHR ''='' \<and> c \<noteq> CHR '' '' \<and> c \<noteq> byte 9"
  by (auto simp: is_alnum_def is_lower_def is_upper_def is_digit_def graphic_def is_sep_def byte_9_13)

text \<open>
  Every alias leads to a registered name. The targets, in the order of the registry, are
  found by one walk along it.
\<close>

fun subseq_walk :: "string list \<Rightarrow> string list \<Rightarrow> bool" where
  "subseq_walk [] ns = True"
| "subseq_walk ts [] = False"
| "subseq_walk (t # ts) (n # ns) = (if t = n then subseq_walk ts ns else subseq_walk (t # ts) ns)"

lemma subseq_walk_subset: "subseq_walk ts ns \<Longrightarrow> set ts \<subseteq> set ns"
  by (induction ts ns rule: subseq_walk.induct) (auto split: if_splits)

definition alias_targets :: "string list" where
  "alias_targets = [''bandwidthGbps'', ''peakBandwidthGbps'', ''busBandwidthGBs'', ''algBandwidthGBs'',
     ''hostToDeviceBandwidthGBs'', ''deviceToHostBandwidthGBs'', ''peerReadBandwidthGBs'',
     ''peerWriteBandwidthGBs'', ''deviceToDeviceBandwidthGBs'', ''memoryBandwidthGBs'',
     ''readBandwidthMBs'', ''writeBandwidthMBs'', ''latencyUs'', ''minLatencyUs'', ''maxLatencyUs'',
     ''p99LatencyUs'', ''messageRateMpps'', ''elapsedS'', ''sampleWindowS'', ''gpuTempC'',
     ''powerDrawW'', ''smClockMHz'', ''memClockMHz'', ''ratedBoostClockMHz'', ''ratedMemClockMHz'',
     ''throughputTflops'', ''sustainedThroughputTflops'', ''miscompares'', ''sdcDetections'',
     ''memoryErrors'', ''xidEvents'', ''remappedRows'', ''pcieReplayErrors'', ''nicLinkDownEvents'',
     ''throttleEvents'', ''diagTestsFailed'', ''iterationsCompleted'', ''fabricCountersSaturated'',
     ''fabricSaturatedCounters'', ''fabricCounterStatus'', ''managedMemoryBandwidthGBs'']"

lemma alias_targets_registered: "subseq_walk alias_targets (map metric_name registry)"
  by code_simp

lemma alias_targets_all: "list_all (\<lambda>(kind, t). list_all (\<lambda>(raw, name). name \<in> set alias_targets) t) aliases"
  by code_simp

lemma aliases_distinct:
  "list_all (\<lambda>(kind, t). kind \<in> set (map kind_string BuiltInKinds) \<and> distinct (map fst t) \<and> distinct (map snd t)) aliases"
  by code_simp

lemma aliases_needed: "list_all (\<lambda>(kind, t). list_all (\<lambda>(raw, name). snakeToLowerCamel raw \<noteq> name) t) aliases"
  by code_simp

lemma aliases_registered: "list_all (\<lambda>(kind, t). list_all (\<lambda>(raw, name). Lookup name \<noteq> None) t) aliases"
  using alias_targets_all subseq_walk_subset[OF alias_targets_registered]
  by (fastforce simp: list_all_iff Lookup_None)

section \<open>One metric line\<close>

text \<open>The line a runner prints for a metric under its canonical name.\<close>

definition metric_line :: "string \<Rightarrow> string \<Rightarrow> string" where
  "metric_line name value = name @ CHR ''='' # value"

definition clean_value :: "string \<Rightarrow> bool" where
  "clean_value v = (v = [] \<or> graphic (hd v) \<and> graphic (last v))"

lemma valid_name_chars:
  assumes "valid_name name"
  shows "name \<noteq> []" "no_sep name" "CHR ''='' \<notin> set name" "graphic (hd name)" "graphic (last name)"
    "\<not> ContainsAny name [CHR '' '', byte 9]"
proof -
  have a: "name \<noteq> []" "\<forall>c \<in> set name. is_alnum c" using assms by (auto simp: valid_name_iff grammatical_def list_all_iff)
  then show "name \<noteq> []" "no_sep name" "CHR ''='' \<notin> set name" "graphic (hd name)" "graphic (last name)"
    using alnum_plain by (auto simp: list_all_iff)
  show "\<not> ContainsAny name [CHR '' '', byte 9]" using a(2) alnum_plain by (auto simp: ContainsAny_def)
qed

lemma scan_metric_line:
  assumes "valid_name name" "clean_value value" "\<not> mhas a name"
  shows "scan_line a (metric_line name value) r = record_metric name value r"
proof -
  note n = valid_name_chars[OF assms(1)]
  have "graphic (CHR ''='')" by (simp add: graphic_def)
  then have "TrimSpace (metric_line name value) = metric_line name value"
    using n assms(2) by (intro TrimSpace_graphic) (auto simp: metric_line_def clean_value_def)
  moreover have "cut_at (CHR ''='') (metric_line name value) = Some (name, value)"
    using n(3) by (simp add: metric_line_def cut_at_append)
  moreover have "TrimSpace name = name" "TrimSpace value = value"
    using n assms(2) by (simp_all add: TrimSpace_graphic clean_value_def)
  moreover have "canonicalName name a = name"
    using assms(3) snake_plain[OF n(2)] by (simp add: canonicalName_def mhas_def)
  ultimately show ?thesis using n(1,6) by (simp add: scan_line_def Let_def metric_line_def)
qed

lemma TrimRightCR_Cons: "c \<noteq> byte 13 \<Longrightarrow> TrimRightCR (c # l) = c # TrimRightCR l"
proof -
  assume "c \<noteq> byte 13"
  then have "dropWhile (\<lambda>x. x = byte 13) (xs @ [c]) = dropWhile (\<lambda>x. x = byte 13) xs @ [c]" for xs
    by (induction xs) auto
  then show ?thesis by (simp add: TrimRightCR_def)
qed

lemma lower_start_not_opens: "l \<noteq> [] \<Longrightarrow> hd l \<noteq> CHR ''-'' \<Longrightarrow> hd l \<noteq> byte 13 \<Longrightarrow> \<not> opens l"
proof -
  assume l: "l \<noteq> []" "hd l \<noteq> CHR ''-''" "hd l \<noteq> byte 13"
  then obtain t where "TrimRightCR l = hd l # t" using TrimRightCR_Cons by (cases l) auto
  then show ?thesis using l(2) by (auto simp: opens_def classifyBegin_def HasPrefix_def artifactBegin_def)
qed

lemma metric_line_not_opens:
  assumes "valid_name name"
  shows "\<not> opens (metric_line name value)"
proof -
  obtain c cs where n: "name = c # cs" using valid_name_chars(1)[OF assms] by (cases name) auto
  then have "\<not> is_sep c" "graphic c" using valid_name_chars(2,4)[OF assms] by auto
  then show ?thesis using n by (intro lower_start_not_opens) (auto simp: metric_line_def is_sep_def byte_9_13 graphic_def)
qed

section \<open>Properties\<close>

text \<open>
  What a parse records is well formed, whatever the runner printed: measured and
  unmeasurable names are disjoint, every one of them obeys the contract's grammar, every
  rejected name does not, and neither map repeats a key.
\<close>

theorem Parse_evidence_is_consistent:
  "(\<forall>k. mhas (res_metrics (Parse kind stdout c)) k \<longrightarrow>
      ValidateMetricName k = None \<and> \<not> IsUnmeasurable (Parse kind stdout c) k) \<and>
   (\<forall>k. mhas (res_unmeasurable (Parse kind stdout c)) k \<longrightarrow>
      ValidateMetricName k = None \<and> \<not> mhas (res_metrics (Parse kind stdout c)) k) \<and>
   list_all (\<lambda>k. ValidateMetricName k \<noteq> None) (res_invalid_names (Parse kind stdout c)) \<and>
   wf_map (res_metrics (Parse kind stdout c)) \<and> wf_map (res_unmeasurable (Parse kind stdout c))"
  using Parse_ok[of kind stdout c] flagged_mhas
  by (auto simp: result_ok_def valid_name_def IsUnmeasurable_def list_all_iff)

theorem Parse_evidence_is_consistent_witness:
  "ValidateMetricName ''eccErrors'' = None \<and>
   \<not> IsUnmeasurable (Parse ''gpu-burn'' (metric_line ''eccErrors'' ''0'') 0) ''eccErrors''"
proof -
  have n: "valid_name ''eccErrors''"
    by (simp add: valid_name_iff grammatical_def is_lower_def is_upper_def is_alnum_def)
  have v: "clean_value ''0''" "\<not> isUnmeasurable ''0''" "\<not> mhas (kind_aliases ''gpu-burn'') ''eccErrors''"
    by code_simp+
  have nl: "list_all (\<lambda>l. byte 10 \<notin> set l) [metric_line ''eccErrors'' ''0'']" by code_simp
  have "evidence (Parse ''gpu-burn'' (unlines [metric_line ''eccErrors'' ''0'']) 0) =
      evidence (record_metric ''eccErrors'' ''0'' empty_result)"
    using Parse_lines[OF nl] scan_metric_line[OF n v(1,3)] metric_line_not_opens[OF n]
    by (simp add: extract_Cons)
  then have "mhas (res_metrics (Parse ''gpu-burn'' (metric_line ''eccErrors'' ''0'') 0)) ''eccErrors''"
    using n v(2) by (simp add: unlines_def evidence_def record_metric_def valid_name_def mhas_put)
  then show ?thesis using Parse_evidence_is_consistent by blast
qed

text \<open>
  A skip must be declared. The verdict is Pass exactly on exit 0, Fail exactly on
  exit 1, Skip exactly on exit 2 with a declared skip, and Error in every other case;
  the case of exit 2 with nothing declared is recorded as such.
\<close>

theorem Parse_skip_must_be_declared:
  "(res_verdict (Parse kind stdout c) = VerdictPass \<longleftrightarrow> c = 0) \<and>
   (res_verdict (Parse kind stdout c) = VerdictFail \<longleftrightarrow> c = 1) \<and>
   (res_verdict (Parse kind stdout c) = VerdictSkip \<longleftrightarrow> c = 2 \<and> DeclaresSkip stdout) \<and>
   (res_undeclared_skip (Parse kind stdout c) \<longleftrightarrow>
      c = 2 \<and> res_verdict (Parse kind stdout c) = VerdictError)"
  using Parse_frame[of stdout c kind] by (auto simp: same_frame_def parse_init_def VerdictFor_def Let_def)

text \<open>
  C17. A fenced artifact cannot touch a measurement: taking a closed fence and its payload
  out of the output leaves the metrics, the unmeasurable names, the rejected names and
  the message of the parse exactly as they were.
\<close>

theorem Parse_fence_is_transparent:
  assumes "list_all (\<lambda>l. byte 10 \<notin> set l) (pre @ b # body @ e # post)"
    and "list_all (\<lambda>l. \<not> opens l) pre" and "opens b"
    and "list_all (\<lambda>l. \<not> closes l \<and> \<not> opens l) body" and "closes e"
  shows "evidence (Parse kind (unlines (pre @ b # body @ e # post)) c) =
    evidence (Parse kind (unlines (pre @ post)) c)"
  using assms by (simp add: Parse_lines extract_unfenced extract_block)

theorem Parse_fence_is_transparent_witness:
  "evidence (Parse ''nccl'' (unlines [''busbw=350'', ''-----BEGIN BURNIN ARTIFACT a.json text/json-----'',
      ''busbw=1'', ''-----END BURNIN ARTIFACT-----'', ''algbw=300'']) 0) =
   evidence (Parse ''nccl'' (unlines [''busbw=350'', ''algbw=300'']) 0)"
proof -
  have 1: "list_all (\<lambda>l. byte 10 \<notin> set l) ([''busbw=350''] @ ''-----BEGIN BURNIN ARTIFACT a.json text/json-----'' #
      [''busbw=1''] @ ''-----END BURNIN ARTIFACT-----'' # [''algbw=300''])"
    and 2: "list_all (\<lambda>l. \<not> opens l) [''busbw=350'']" by code_simp+
  have 3: "opens ''-----BEGIN BURNIN ARTIFACT a.json text/json-----''"
    using header_opens[of "'' a.json text/json''"] by (simp add: artifactBegin_def markerSuffix_def isSpace_def)
  have 4: "list_all (\<lambda>l. \<not> closes l \<and> \<not> opens l) [''busbw=1'']" and 5: "closes ''-----END BURNIN ARTIFACT-----''"
    by code_simp+
  show ?thesis using Parse_fence_is_transparent[OF 1 2 3 4 5] by (simp only: append_Cons append_Nil)
qed

text \<open>
  The last line for a metric settles it: after any lines outside a fence, a line
  \<^verbatim>\<open>name=value\<close> under a canonical name makes that value the metric's, or, when the value
  is the unmeasurable sentinel, retracts every earlier value and declares the metric
  unmeasurable.
\<close>

theorem Parse_last_occurrence_wins:
  assumes "valid_name name" and "clean_value value" and "\<not> mhas (kind_aliases kind) name"
    and "list_all (\<lambda>l. byte 10 \<notin> set l) (ls @ [metric_line name value])"
    and "list_all (\<lambda>l. \<not> opens l) ls"
  shows "mget (res_metrics (Parse kind (unlines (ls @ [metric_line name value])) c)) name =
      (if isUnmeasurable value then None else Some value) \<and>
    IsUnmeasurable (Parse kind (unlines (ls @ [metric_line name value])) c) name = isUnmeasurable value"
proof -
  have "list_all (\<lambda>l. \<not> opens l) (ls @ [metric_line name value])"
    using assms(5) metric_line_not_opens[OF assms(1)] by simp
  then have "snd (extract_lines (ls @ [metric_line name value])) = ls @ [metric_line name value]"
    using extract_unfenced[of "ls @ [metric_line name value]" "[]"] by simp
  then have "evidence (Parse kind (unlines (ls @ [metric_line name value])) c) =
      evidence (record_metric name value (fold (scan_line (kind_aliases kind)) ls empty_result))"
    using Parse_lines[OF assms(4)] scan_metric_line[OF assms(1-3)] by simp
  then show ?thesis using assms(1)
    by (auto simp: evidence_def record_metric_def valid_name_def IsUnmeasurable_def mget_put mget_del flagged_put flagged_del)
qed

theorem Parse_last_occurrence_wins_witness:
  "mget (res_metrics (Parse ''host-health'' (unlines [''eccErrors=3'', metric_line ''eccErrors'' ''n/a'']) 0)) ''eccErrors'' = None"
proof -
  have "valid_name ''eccErrors''" "clean_value ''n/a''" "\<not> mhas (kind_aliases ''host-health'') ''eccErrors''"
    "list_all (\<lambda>l. byte 10 \<notin> set l) ([''eccErrors=3''] @ [metric_line ''eccErrors'' ''n/a''])"
    "list_all (\<lambda>l. \<not> opens l) [''eccErrors=3'']"
    by (simp add: valid_name_iff grammatical_def is_lower_def is_upper_def is_alnum_def) code_simp+
  from Parse_last_occurrence_wins[OF this, of 0] show ?thesis
    by (simp add: isUnmeasurable_def Unmeasurable_def EqualFold_def TrimSpace_graphic graphic_def)
qed

text \<open>
  The alias tables are sound: each belongs to a kind this project ships, none sends
  two keys to one name, every target is a registered metric, and every entry is needed
  (the generic rule would give another name).
\<close>

theorem aliases_are_sound:
  "list_all (\<lambda>(kind, t). kind \<in> set (map kind_string BuiltInKinds) \<and> distinct (map fst t) \<and> distinct (map snd t) \<and>
     list_all (\<lambda>(raw, name). Lookup name \<noteq> None \<and> snakeToLowerCamel raw \<noteq> name) t) aliases"
  using aliases_distinct aliases_registered aliases_needed by (fastforce simp: list_all_iff)

text \<open>Normalising a key is idempotent: a runner may print either spelling.\<close>

theorem snakeToLowerCamel_idempotent: "snakeToLowerCamel (snakeToLowerCamel s) = snakeToLowerCamel s"
  using snake_cases[of s] snake_plain by metis

text \<open>
  A skip can be declared from inside a fence: the marker is looked for in the whole
  output, so an exit of 2 is a Skip although no line outside the artifact's payload
  declares one. The file's comment says that nothing in an artifact can change a verdict.
\<close>

theorem artifact_payload_can_declare_a_skip:
  "let stdout = unlines [''-----BEGIN BURNIN ARTIFACT log text/plain-----'', ''NCCL_SKIP'', ''-----END BURNIN ARTIFACT-----'']
   in res_verdict (Parse ''nccl'' stdout 2) = VerdictSkip \<and> snd (extractArtifacts stdout) = [] \<and>
      \<not> DeclaresSkip (unlines (snd (extractArtifacts stdout)))"
proof -
  let ?ls = "[''-----BEGIN BURNIN ARTIFACT log text/plain-----'', ''NCCL_SKIP'', ''-----END BURNIN ARTIFACT-----'']"
  have l: "split_on (byte 10) (unlines ?ls) = ?ls" by (rule split_unlines) (simp, code_simp)
  have b: "opens ''-----BEGIN BURNIN ARTIFACT log text/plain-----''"
    using header_opens[of "'' log text/plain''"] by (simp add: artifactBegin_def markerSuffix_def isSpace_def)
  have c: "list_all (\<lambda>l. \<not> closes l \<and> \<not> opens l) [''NCCL_SKIP'']" "closes ''-----END BURNIN ARTIFACT-----''"
    by code_simp+
  have "snd (extractArtifacts (unlines ?ls)) = []"
    using extract_block[OF b c, of "[]"] l by (simp add: extractArtifacts_def)
  moreover have "DeclaresSkip (unlines ?ls)" using l by (simp add: DeclaresSkip_def) code_simp
  moreover have "\<not> DeclaresSkip (unlines [])" by code_simp
  ultimately show ?thesis
    using Parse_frame[of "unlines ?ls" 2 "''nccl''"]
    by (simp add: Let_def same_frame_def parse_init_def VerdictFor_def)
qed

end
