(* ===== verification/Runner_Images.thy ===== *)
theory Runner_Images
  imports Api_Types Go_Strings
begin

text \<open>
  \<^verbatim>\<open>pkg/runnerimages/images.go\<close>: the image a test of some kind runs on a node whose accelerator is
  of some vendor. An error is a constructor with what its message names.
\<close>

record image =
  im_ref :: string
  im_vendor :: string

definition VendorNVIDIA :: string where
  "VendorNVIDIA = ''nvidia''"

definition VendorAny :: string where
  "VendorAny = ''*''"

definition image_defaults :: "(TestKind \<times> image) list" where
  "image_defaults =
    [(KindComputeSmoke, \<lparr>im_ref = ''ghcr.io/baldwinspc/glimmer-burnin-compute-smoke:v0.7.0'', im_vendor = VendorNVIDIA\<rparr>),
     (KindClockProbe, \<lparr>im_ref = ''ghcr.io/baldwinspc/glimmer-burnin-clockprobe:v0.7.1'', im_vendor = VendorNVIDIA\<rparr>),
     (KindDCGMDiag, \<lparr>im_ref = ''ghcr.io/baldwinspc/glimmer-burnin-dcgm-diag:v0.7.3'', im_vendor = VendorNVIDIA\<rparr>),
     (KindHostHealth, \<lparr>im_ref = ''ghcr.io/baldwinspc/glimmer-burnin-host-health:v0.7.2'', im_vendor = VendorNVIDIA\<rparr>),
     (KindMemoryBW, \<lparr>im_ref = ''ghcr.io/baldwinspc/glimmer-burnin-memory-bw:v0.8.0'', im_vendor = VendorNVIDIA\<rparr>),
     (KindMemoryStress, \<lparr>im_ref = ''ghcr.io/baldwinspc/glimmer-burnin-memory-stress:v0.6.2'', im_vendor = VendorAny\<rparr>),
     (KindThermalSoak, \<lparr>im_ref = ''ghcr.io/baldwinspc/glimmer-burnin-thermal-soak:v0.7.2'', im_vendor = VendorNVIDIA\<rparr>),
     (KindGPUBurn, \<lparr>im_ref = ''ghcr.io/baldwinspc/glimmer-burnin-gpu-burn:v0.7.2'', im_vendor = VendorNVIDIA\<rparr>),
     (KindIBWriteBW, \<lparr>im_ref = ''ghcr.io/baldwinspc/glimmer-burnin-ib-write-bw:v0.6.5'', im_vendor = VendorAny\<rparr>),
     (KindNCCL, \<lparr>im_ref = ''ghcr.io/baldwinspc/glimmer-burnin-nccl:v0.9.1'', im_vendor = VendorNVIDIA\<rparr>),
     (KindGPUDirect, \<lparr>im_ref = ''ghcr.io/baldwinspc/glimmer-burnin-gpudirect-rdma:v0.6.4'', im_vendor = VendorNVIDIA\<rparr>),
     (KindTCPBaseline, \<lparr>im_ref = ''ghcr.io/baldwinspc/glimmer-burnin-tcp-baseline:v0.1.2'', im_vendor = VendorAny\<rparr>),
     (KindDiskIO, \<lparr>im_ref = ''ghcr.io/baldwinspc/glimmer-burnin-disk-io:v0.1.2'', im_vendor = VendorAny\<rparr>),
     (KindGemmSweep, \<lparr>im_ref = ''ghcr.io/baldwinspc/glimmer-burnin-gemm-sweep:v0.7.0'', im_vendor = VendorNVIDIA\<rparr>)]"

definition DefaultImage :: "TestKind \<Rightarrow> string option" where
  "DefaultImage kind = map_option im_ref (map_of image_defaults kind)"

definition VendorOf :: "TestKind \<Rightarrow> string option" where
  "VendorOf kind = map_option im_vendor (map_of image_defaults kind)"

definition WithoutDefault :: "TestKind list" where
  "WithoutDefault = [KindCustom, KindFingerprintProbe, KindFabricSoak, KindPowerSwing, KindMemoryRetention,
     KindXPUDiag, KindCPUBench]"

datatype ImageError =
    NoImageForVendor string TestKind "string list" "string option"
  | NoDefaultImage TestKind

definition listVendors :: "VendorImage list \<Rightarrow> string list" where
  "listVendors xs = sort_strings (map vi_vendor xs)"

definition Resolve :: "TestKind \<Rightarrow> RunnerSpec option \<Rightarrow> string \<Rightarrow> ImageError + string" where
  "Resolve kind runner vendor =
     (let byVendor = (case runner of None \<Rightarrow> [] | Some r \<Rightarrow> rs_images_by_vendor r);
          pinned = (case runner of None \<Rightarrow> [] | Some r \<Rightarrow> rs_image r);
          dflt = map_of image_defaults kind
      in if pinned \<noteq> [] then Inr pinned
         else (case find (\<lambda>vi. vi_vendor vi = vendor \<and> vi_image vi \<noteq> []) byVendor of
           Some vi \<Rightarrow> Inr (vi_image vi)
         | None \<Rightarrow> (case dflt of
             Some e \<Rightarrow> if im_vendor e = VendorAny \<or> vendor = [] \<or> im_vendor e = vendor then Inr (im_ref e)
                       else Inl (NoImageForVendor vendor kind (listVendors byVendor) (Some (im_vendor e)))
           | None \<Rightarrow> if byVendor \<noteq> [] then Inl (NoImageForVendor vendor kind (listVendors byVendor) None)
                     else Inl (NoDefaultImage kind))))"

section \<open>Errors as text\<close>

definition vendorOrUnknown :: "string \<Rightarrow> string" where
  "vendorOrUnknown vendor =
     (if vendor = [] then [byte 34] @ ''unknown'' @ [byte 34] @ '' (nothing established an accelerator vendor for this node '' @ em_dash @
        '' no fingerprint in-cluster, no PCI vendor match on bare metal)''
      else [byte 34] @ vendor @ [byte 34])"

definition defaultClause :: "string option \<Rightarrow> string" where
  "defaultClause e = (case e of
     None \<Rightarrow> ''this kind has no built-in default to fall back to''
   | Some v \<Rightarrow> ''the built-in default measures '' @ Quote v @ '' hardware'')"

fun image_error :: "ImageError \<Rightarrow> string" where
  "image_error (NoDefaultImage kind) =
     ''no default runner image for kind '' @ Quote (kind_string kind) @ '' '' @ em_dash @ '' set spec.runner.image''"
| "image_error (NoImageForVendor vendor kind listed d) =
     ''no image for vendor '' @ vendorOrUnknown vendor @ '' on kind '' @ Quote (kind_string kind) @ '': '' @
     (if listed \<noteq> [] then ''spec.runner.imagesByVendor lists '' @ Join listed '', '' @ '', and '' @ defaultClause d @
        ''. Add a '' @ vendorOrUnknown vendor @ '' entry, or set spec.runner.image to pin one image for every node''
      else defaultClause d @ '', and spec.runner.imagesByVendor is not set. Add a '' @ vendorOrUnknown vendor @
        '' entry to it, or set spec.runner.image to pin one image for every node'')"

section \<open>Properties\<close>

text \<open>
  No node runs an image made for other hardware. Where a test pins no image, the image
  chosen for a node of a known vendor is one its author listed for that vendor or a built-in
  default for that vendor or for any; and every kind the contract builds in either has a
  default or is declared to have none.
\<close>

theorem Resolve_never_crosses_vendors:
  "(\<forall>img. Resolve kind runner vendor = Inr img \<longrightarrow> (\<forall>r. runner = Some r \<longrightarrow> rs_image r = []) \<longrightarrow> vendor \<noteq> [] \<longrightarrow>
     (\<exists>r vi. runner = Some r \<and> vi \<in> set (rs_images_by_vendor r) \<and> vi_vendor vi = vendor \<and> vi_image vi = img) \<or>
     (\<exists>e. map_of image_defaults kind = Some e \<and> im_ref e = img \<and> im_vendor e \<in> {vendor, VendorAny})) \<and>
   (k \<in> set BuiltInKinds \<longrightarrow> (DefaultImage k = None \<longleftrightarrow> k \<in> set WithoutDefault))"
proof (intro conjI allI impI)
  fix img
  assume r: "Resolve kind runner vendor = Inr img" "\<forall>r. runner = Some r \<longrightarrow> rs_image r = []" "vendor \<noteq> []"
  have p: "(case runner of None \<Rightarrow> [] | Some r \<Rightarrow> rs_image r) = []" using r(2) by (cases runner) auto
  show "(\<exists>r vi. runner = Some r \<and> vi \<in> set (rs_images_by_vendor r) \<and> vi_vendor vi = vendor \<and> vi_image vi = img) \<or>
     (\<exists>e. map_of image_defaults kind = Some e \<and> im_ref e = img \<and> im_vendor e \<in> {vendor, VendorAny})"
    using r(1,3) p unfolding Resolve_def Let_def
    by (auto simp: find_Some_iff split: option.splits if_splits) (metis nth_mem)+
next
  assume "k \<in> set BuiltInKinds"
  then show "DefaultImage k = None \<longleftrightarrow> k \<in> set WithoutDefault"
    by (auto simp: BuiltInKinds_def DefaultImage_def image_defaults_def WithoutDefault_def)
qed

theorem Resolve_never_crosses_vendors_witness:
  "Resolve KindNCCL None ''nvidia'' = Inr ''ghcr.io/baldwinspc/glimmer-burnin-nccl:v0.9.1'' \<and>
   (\<exists>e. map_of image_defaults KindNCCL = Some e \<and> im_ref e = ''ghcr.io/baldwinspc/glimmer-burnin-nccl:v0.9.1'' \<and>
     im_vendor e \<in> {''nvidia'', VendorAny})"
proof -
  have "Resolve KindNCCL None ''nvidia'' = Inr ''ghcr.io/baldwinspc/glimmer-burnin-nccl:v0.9.1''"
    by (simp add: Resolve_def image_defaults_def VendorNVIDIA_def)
  then show ?thesis using Resolve_never_crosses_vendors[of KindNCCL None "''nvidia''" KindNCCL] by auto
qed

end
