(* ===== verification/Pods.thy ===== *)
theory Pods
  imports Runner_Images Soak Artifact
begin

text \<open>
  \<^verbatim>\<open>internal/controller/pods.go\<close>: the pod an execution runs in, its name, and what the controller
  reads off a pod afterwards. Of the pod object the record keeps the fields the controller
  writes or reads.
\<close>

section \<open>The pod object\<close>

datatype PodPhase = PodPending | PodRunning | PodSucceeded | PodFailed | PodUnknown

record ContainerStatus =
  cs_name :: string
  cs_waiting :: "(string \<times> string) option"
  cs_terminated :: "(int \<times> string \<times> string) option"

record PodCondition =
  pc_type :: string
  pc_status :: string
  pc_reason :: string
  pc_message :: string

record Volume =
  vo_name :: string
  vo_host_path :: "(string \<times> string option) option"

record VolumeMount =
  vm_name :: string
  vm_mount_path :: string
  vm_read_only :: bool

record SecurityContext =
  sc_privileged :: "bool option"
  sc_run_as_user :: "int option"
  sc_run_as_non_root :: "bool option"
  sc_capabilities :: "Capability list option"

record Container =
  co_name :: string
  co_image :: string
  co_command :: "string list"
  co_args :: "string list"
  co_env :: "KEnvVar list"
  co_limits :: "string gomap"
  co_readiness_probe :: "string option"
  co_security_context :: "SecurityContext option"
  co_volume_mounts :: "VolumeMount list"

record PodSpec =
  po_restart_policy :: string
  po_node_selector :: "string gomap"
  po_tolerations :: "Toleration list"
  po_host_network :: bool
  po_priority_class_name :: string
  po_active_deadline_seconds :: int
  po_container :: Container
  po_init_containers :: "Container list"
  po_volumes :: "Volume list"
  po_supplemental_groups :: "int list"
  po_hostname :: string
  po_subdomain :: string
  po_dns_policy :: string

record Pod =
  pod_name :: string
  pod_namespace :: string
  pod_labels :: "string gomap"
  pod_annotations :: "string gomap"
  pod_owner_uids :: "string list"
  pod_creation :: "timestamp option"
  pod_spec :: PodSpec
  pod_phase :: PodPhase
  pod_reason :: string
  pod_message :: string
  pod_start_time :: "timestamp option"
  pod_conditions :: "PodCondition list"
  pod_container_statuses :: "ContainerStatus list"

definition label_at :: "string gomap \<Rightarrow> string \<Rightarrow> string" where
  "label_at m k = (case mget m k of Some v \<Rightarrow> v | None \<Rightarrow> [])"

section \<open>Constants\<close>

definition labelRun :: string where "labelRun = ''burnin.glimmer.ai/run''"
definition labelTest :: string where "labelTest = ''burnin.glimmer.ai/test''"
definition labelNode :: string where "labelNode = ''burnin.glimmer.ai/node''"
definition labelAttempt :: string where "labelAttempt = ''burnin.glimmer.ai/attempt''"
definition labelPairRole :: string where "labelPairRole = ''burnin.glimmer.ai/pair-role''"
definition labelRank :: string where "labelRank = ''burnin.glimmer.ai/rank''"

definition annotationSafeToEvict :: string where
  "annotationSafeToEvict = ''cluster-autoscaler.kubernetes.io/safe-to-evict''"

definition deadlineGraceSeconds :: int where
  "deadlineGraceSeconds = 120"

text \<open>\<^verbatim>\<open>schedulingGracePeriod\<close> of burninrun\_controller.go, in seconds.\<close>

definition schedulingGraceSeconds :: int where
  "schedulingGraceSeconds = 300"

section \<open>Rendezvous\<close>

record rendezvous =
  rv_scope :: TestScope
  rv_role :: string
  rv_service :: string
  rv_peer_role :: string
  rv_peer_node :: string
  rv_rank :: int
  rv_nranks :: int
  rv_root_node :: string

definition groupRootRank :: int where
  "groupRootRank = 0"

definition groupRole :: "int \<Rightarrow> string" where
  "groupRole rank = ''rank-'' @ Itoa rank"

definition rendezvousGraceSeconds :: "rendezvous option \<Rightarrow> int" where
  "rendezvousGraceSeconds rv = (case rv of None \<Rightarrow> 0
     | Some r \<Rightarrow> if rv_scope r \<noteq> ScopeGroup then 0 else schedulingGraceSeconds)"

definition peerHost :: "string \<Rightarrow> string \<Rightarrow> string \<Rightarrow> string" where
  "peerHost service namespace role = role @ ''.'' @ service @ ''.'' @ namespace @ ''.svc''"

definition kenv :: "string \<Rightarrow> string \<Rightarrow> KEnvVar" where
  "kenv n v = \<lparr>ke_name = n, ke_value = v\<rparr>"

definition rendezvous_env :: "rendezvous \<Rightarrow> string \<Rightarrow> KEnvVar list" where
  "rendezvous_env r namespace =
     (if rv_scope r = ScopeGroup then
        [kenv ''BURNIN_RANK'' (Itoa (rv_rank r)), kenv ''BURNIN_NRANKS'' (Itoa (rv_nranks r)),
         kenv ''BURNIN_ROOT_HOST'' (peerHost (rv_service r) namespace (groupRole groupRootRank)),
         kenv ''BURNIN_ROOT_NODE'' (rv_root_node r)]
      else
        [kenv ''BURNIN_ROLE'' (rv_role r), kenv ''BURNIN_PEER_HOST'' (peerHost (rv_service r) namespace (rv_peer_role r)),
         kenv ''BURNIN_PEER_NODE'' (rv_peer_node r)])"

section \<open>Names\<close>

definition truncate :: "string \<Rightarrow> nat \<Rightarrow> string" where
  "truncate s n = (if length s \<le> n then s else take n s)"

definition seed_hex :: "string \<Rightarrow> string" where
  "seed_hex seed = EncodeToString (take 1 (Sum256 seed))"

definition podNameForRole :: "BurnInRun \<Rightarrow> int \<Rightarrow> string \<Rightarrow> int \<Rightarrow> string \<Rightarrow> string" where
  "podNameForRole run testIndex node attempt role =
     (let seed = run_uid run @ [byte 0] @ run_name run @ [byte 0] @ Itoa testIndex @ [byte 0] @ node @ [byte 0] @ Itoa attempt;
          seed = (if role \<noteq> [] then seed @ [byte 0] @ role else seed);
          readable = (if role \<noteq> [] then ''-'' @ role else [])
      in truncate (run_name run) 36 @ ''-t'' @ Itoa testIndex @ ''-a'' @ Itoa attempt @ readable @ ''-'' @ seed_hex seed)"

definition podName :: "BurnInRun \<Rightarrow> int \<Rightarrow> string \<Rightarrow> int \<Rightarrow> string" where
  "podName run testIndex node attempt = podNameForRole run testIndex node attempt []"

definition rendezvousServiceName :: "BurnInRun \<Rightarrow> int \<Rightarrow> int \<Rightarrow> string" where
  "rendezvousServiceName run testIndex attempt =
     ''bp-'' @ truncate (run_name run) 26 @ ''-t'' @ Itoa testIndex @ ''-a'' @ Itoa attempt @ ''-'' @
       seed_hex (run_uid run @ [byte 0] @ run_name run @ [byte 0] @ Itoa testIndex @ [byte 0] @ Itoa attempt @ [byte 0] @ ''pair'')"

section \<open>Volumes\<close>

definition hostPathReadOnly :: "HostPathMount \<Rightarrow> bool" where
  "hostPathReadOnly m = (hp_read_only m \<noteq> Some False)"

definition volume_char :: "char \<Rightarrow> char" where
  "volume_char c = (if is_lower c \<or> is_digit c then c else if is_upper c then lower_ascii c else CHR ''-'')"

definition trim_dashes :: "string \<Rightarrow> string" where
  "trim_dashes s = rev (dropWhile (\<lambda>c. c = CHR ''-'') (rev (dropWhile (\<lambda>c. c = CHR ''-'') s)))"

text \<open>
  \<^verbatim>\<open>strings.Map\<close> replaces a rune outside ASCII by one dash; its bytes are one lead byte and
  continuation bytes, of which only the lead is kept.
\<close>

definition hostPathVolumeName :: "nat \<Rightarrow> string \<Rightarrow> string" where
  "hostPathVolumeName index mountPath =
     (let name = ''host-'' @ show_nat index @ ''-'' @ map volume_char (filter RuneStart mountPath)
      in trim_dashes (if length name > 63 then take 63 name else name))"

definition hostPathVolumes :: "HostPathMount list \<Rightarrow> Volume list \<times> VolumeMount list" where
  "hostPathVolumes mounts =
     (map (\<lambda>(i, m). \<lparr>vo_name = hostPathVolumeName i (hp_mount_path m), vo_host_path = Some (hp_path m, hp_type m)\<rparr>)
        (enumerate 0 mounts),
      map (\<lambda>(i, m). \<lparr>vm_name = hostPathVolumeName i (hp_mount_path m), vm_mount_path = hp_mount_path m,
         vm_read_only = hostPathReadOnly m\<rparr>) (enumerate 0 mounts))"

definition prepareStagingPath :: string where
  "prepareStagingPath = ''/burnin-prepare-out''"

definition prepare_script :: string where
  "prepare_script = ''cp -a '' @ [byte 34] @ ''$1'' @ [byte 34] @ ''/. '' @ [byte 34] @ ''$2'' @ [byte 34] @ ''/''"

definition prepareVolumesAndContainers :: "PrepareStep list \<Rightarrow> Volume list \<times> Container list \<times> VolumeMount list" where
  "prepareVolumesAndContainers steps =
     (let name = (\<lambda>i. ''prepare-'' @ show_nat i) in
      (map (\<lambda>(i, s). \<lparr>vo_name = name i, vo_host_path = None\<rparr>) (enumerate 0 steps),
       map (\<lambda>(i, s). \<lparr>co_name = name i, co_image = ps_image s, co_command = [''sh'', ''-c'', prepare_script, ''prepare''],
          co_args = [ps_copy_from s, prepareStagingPath], co_env = [], co_limits = [], co_readiness_probe = None,
          co_security_context = None,
          co_volume_mounts = [\<lparr>vm_name = name i, vm_mount_path = prepareStagingPath, vm_read_only = False\<rparr>]\<rparr>) (enumerate 0 steps),
       map (\<lambda>(i, s). \<lparr>vm_name = name i, vm_mount_path = ps_mount_path s, vm_read_only = True\<rparr>) (enumerate 0 steps)))"

section \<open>podForTest\<close>

definition runnerTolerations :: "Toleration list \<Rightarrow> Toleration list" where
  "runnerTolerations fromTarget = fromTarget @
     [\<lparr>to_key = ''node.kubernetes.io/unschedulable'', to_operator = ''Exists'', to_value = [], to_effect = ''NoSchedule''\<rparr>]"

definition resourceLimitsEnv :: "string gomap \<Rightarrow> string" where
  "resourceLimitsEnv limits =
     Join (map (\<lambda>n. n @ ''='' @ label_at limits n) (sort_strings (mkeys limits))) '',''"

definition variantEnv :: "string gomap \<Rightarrow> KEnvVar list" where
  "variantEnv axes = map (\<lambda>v. kenv (ev_name v) (ev_value v)) (VariantEnv axes)"

definition priorityClassOf :: "BurnInTestSpec \<Rightarrow> string" where
  "priorityClassOf spec = (case ts_runner spec of None \<Rightarrow> [] | Some r \<Rightarrow> rs_priority_class_name r)"

definition injected_env :: "BurnInRun \<Rightarrow> int \<Rightarrow> BurnInTestSpec \<Rightarrow> string gomap \<Rightarrow> rendezvous option \<Rightarrow> KEnvVar list" where
  "injected_env run attempt spec axes rv =
     [kenv ''BURNIN_DURATION_SECONDS'' (Itoa (executionDurationSeconds spec)), kenv ''BURNIN_ATTEMPT'' (Itoa attempt)] @
     (let limits = resourceLimitsEnv (ts_resource_limits spec)
      in if limits \<noteq> [] then [kenv ''BURNIN_RESOURCE_LIMITS'' limits] else []) @
     variantEnv axes @
     (case rv of None \<Rightarrow> [] | Some r \<Rightarrow> rendezvous_env r (run_namespace run))"

definition security_context :: "RunnerSpec \<Rightarrow> SecurityContext option" where
  "security_context r =
     (if rs_privileged r \<or> rs_run_as_user r \<noteq> None \<or> rs_capabilities r \<noteq> [] then
        Some \<lparr>sc_privileged = (if rs_privileged r then Some True else None), sc_run_as_user = rs_run_as_user r,
          sc_run_as_non_root = map_option (\<lambda>uid. uid \<noteq> 0) (rs_run_as_user r),
          sc_capabilities = (if rs_capabilities r \<noteq> [] then Some (rs_capabilities r) else None)\<rparr>
      else None)"

definition runner_container ::
  "BurnInRun \<Rightarrow> int \<Rightarrow> BurnInTestSpec \<Rightarrow> string gomap \<Rightarrow> rendezvous option \<Rightarrow> string \<Rightarrow> Container" where
  "runner_container run attempt spec axes rv img =
     (let c = \<lparr>co_name = ''runner'', co_image = img, co_command = [], co_args = [],
            co_env = injected_env run attempt spec axes rv, co_limits = ts_resource_limits spec,
            co_readiness_probe = None, co_security_context = None, co_volume_mounts = []\<rparr>
      in case ts_runner spec of None \<Rightarrow> c
         | Some r \<Rightarrow> c\<lparr>co_command := rs_command r, co_args := rs_args r, co_env := co_env c @ rs_env r,
             co_readiness_probe := rs_readiness_probe r, co_security_context := security_context r,
             co_volume_mounts := snd (hostPathVolumes (rs_host_paths r)) @
               snd (snd (prepareVolumesAndContainers (rs_prepare r)))\<rparr>)"

definition pod_labels_for :: "BurnInRun \<Rightarrow> string \<Rightarrow> string \<Rightarrow> int \<Rightarrow> rendezvous option \<Rightarrow> string gomap" where
  "pod_labels_for run testName node attempt rv =
     (let labels = [(labelRun, run_name run), (labelTest, testName), (labelNode, node), (labelAttempt, Itoa attempt)]
      in case rv of None \<Rightarrow> labels
         | Some r \<Rightarrow> if rv_scope r = ScopeGroup then mput labelRank (Itoa (rv_rank r)) labels
                     else mput labelPairRole (rv_role r) labels)"

text \<open>
  A pod as it is built, before the API server creates it: it has no status and no creation time.
  \<open>podForTest\<close> fails when no image fits.
\<close>

definition podForTest ::
  "BurnInRun \<Rightarrow> int \<Rightarrow> int \<Rightarrow> string \<Rightarrow> BurnInTestSpec \<Rightarrow> string gomap \<Rightarrow> string \<Rightarrow> string \<Rightarrow> TargetSelector
   \<Rightarrow> rendezvous option \<Rightarrow> ImageError + Pod" where
  "podForTest run testIndex attempt testName spec axes node vendor target rv =
     (case Resolve (ts_kind spec) (ts_runner spec) vendor of
        Inl e \<Rightarrow> Inl e
      | Inr img \<Rightarrow>
          (let deadline = executionDurationSeconds spec + deadlineGraceSeconds + rendezvousGraceSeconds rv;
               role = (case rv of None \<Rightarrow> [] | Some r \<Rightarrow> rv_role r);
               hostPaths = (case ts_runner spec of None \<Rightarrow> [] | Some r \<Rightarrow> rs_host_paths r);
               prepare = (case ts_runner spec of None \<Rightarrow> [] | Some r \<Rightarrow> rs_prepare r)
           in Inr \<lparr>pod_name = podNameForRole run testIndex node attempt role, pod_namespace = run_namespace run,
                pod_labels = pod_labels_for run testName node attempt rv,
                pod_annotations = [(annotationSafeToEvict, ''false'')], pod_owner_uids = [], pod_creation = None,
                pod_spec = \<lparr>po_restart_policy = ''Never'', po_node_selector = [(''kubernetes.io/hostname'', node)],
                  po_tolerations = runnerTolerations (tg_tolerations target), po_host_network = ts_host_network spec,
                  po_priority_class_name = priorityClassOf spec, po_active_deadline_seconds = deadline,
                  po_container = runner_container run attempt spec axes rv img,
                  po_init_containers = fst (snd (prepareVolumesAndContainers prepare)),
                  po_volumes = fst (hostPathVolumes hostPaths) @ fst (prepareVolumesAndContainers prepare),
                  po_supplemental_groups = (case ts_runner spec of None \<Rightarrow> [] | Some r \<Rightarrow> rs_supplemental_groups r),
                  po_hostname = role, po_subdomain = (case rv of None \<Rightarrow> [] | Some r \<Rightarrow> rv_service r),
                  po_dns_policy = (if rv \<noteq> None \<and> ts_host_network spec then ''ClusterFirstWithHostNet'' else [])\<rparr>,
                pod_phase = PodPending, pod_reason = [], pod_message = [], pod_start_time = None,
                pod_conditions = [], pod_container_statuses = []\<rparr>))"

section \<open>Reading a pod\<close>

definition podReady :: "Pod \<Rightarrow> bool" where
  "podReady pod = (pod_phase pod = PodRunning \<and>
     (case find (\<lambda>c. pc_type c = ''Ready'') (pod_conditions pod) of
        Some c \<Rightarrow> pc_status c = ''True'' | None \<Rightarrow> False))"

definition firstPodFailure :: "Pod \<Rightarrow> string \<times> string" where
  "firstPodFailure pod =
     (case find (\<lambda>cs. case cs_waiting cs of Some (r, m) \<Rightarrow> r \<noteq> [] | None \<Rightarrow> False) (pod_container_statuses pod) of
        Some cs \<Rightarrow> (case the (cs_waiting cs) of (r, m) \<Rightarrow>
            if pod_reason pod \<noteq> [] then (pod_reason pod, m) else (r, m))
      | None \<Rightarrow> if pod_reason pod \<noteq> [] then (pod_reason pod, pod_message pod)
                else (''pod failed before the runner container terminated'', pod_message pod))"

text \<open>Exit code, whether it terminated, reason and detail.\<close>

definition podOutcome :: "Pod \<Rightarrow> int \<times> bool \<times> string \<times> string" where
  "podOutcome pod =
     (if pod_phase pod \<notin> {PodSucceeded, PodFailed} then (0, False, [], [])
      else (let podReason = (if pod_phase pod = PodFailed then pod_reason pod else []) in
        case find (\<lambda>cs. cs_name cs = ''runner'' \<and> cs_terminated cs \<noteq> None) (pod_container_statuses pod) of
          Some cs \<Rightarrow> (case the (cs_terminated cs) of (code, reason, message) \<Rightarrow>
              (code, True, (if podReason \<noteq> [] then podReason else reason), message))
        | None \<Rightarrow> if pod_phase pod = PodFailed
                  then (case firstPodFailure pod of (reason, detail) \<Rightarrow> (-1, True, reason, detail))
                  else (0, False, [], [])))"

definition terminated :: "Pod \<Rightarrow> bool" where
  "terminated pod = fst (snd (podOutcome pod))"

definition maxPodDetail :: nat where
  "maxPodDetail = 512"

definition clampPodDetail :: "string \<Rightarrow> string" where
  "clampPodDetail s = truncateAtRune (Join (Fields s) '' '') maxPodDetail (ellipsis @ '' (truncated)'')"

definition scheduler_detail :: "PodCondition \<Rightarrow> string" where
  "scheduler_detail c = (let d = TrimSpace (pc_message c) in if d = [] then pc_reason c else d)"

definition pendingDetail :: "Pod option \<Rightarrow> string" where
  "pendingDetail p = (case p of None \<Rightarrow> [] | Some pod \<Rightarrow>
     (case find (\<lambda>c. pc_type c = ''PodScheduled'' \<and> pc_status c = ''False'' \<and> scheduler_detail c \<noteq> []) (pod_conditions pod) of
        Some c \<Rightarrow> '' (scheduler: '' @ clampPodDetail (scheduler_detail c) @ '')''
      | None \<Rightarrow>
          (case find (\<lambda>cs. case cs_waiting cs of Some (r, m) \<Rightarrow> r \<noteq> [] | None \<Rightarrow> False) (pod_container_statuses pod) of
             Some cs \<Rightarrow> (case the (cs_waiting cs) of (r, m) \<Rightarrow>
                 '' (kubelet: '' @ clampPodDetail (if TrimSpace m \<noteq> [] then r @ '': '' @ TrimSpace m else r) @ '')'')
           | None \<Rightarrow> [])))"

definition podLive :: "Pod \<Rightarrow> bool" where
  "podLive pod = (pod_phase pod \<notin> {PodSucceeded, PodFailed})"

definition podStarted :: "Pod \<Rightarrow> bool" where
  "podStarted pod = (pod_start_time pod \<noteq> None \<or> pod_phase pod \<in> {PodRunning, PodSucceeded, PodFailed})"

definition attemptStart :: "Pod \<Rightarrow> timestamp \<Rightarrow> timestamp" where
  "attemptStart pod fallback = (case pod_start_time pod of Some s \<Rightarrow> s | None \<Rightarrow> fallback)"

definition podNameOf :: "Pod option \<Rightarrow> string" where
  "podNameOf pod = (case pod of None \<Rightarrow> [] | Some p \<Rightarrow> pod_name p)"

definition ownedBy :: "Pod \<Rightarrow> BurnInRun \<Rightarrow> bool" where
  "ownedBy pod run = (run_uid run \<in> set (pod_owner_uids pod))"

text \<open>\<^verbatim>\<open>podWindow\<close> and \<^verbatim>\<open>podOverdue\<close> of burninrun\_controller.go.\<close>

definition podWindow :: "BurnInTestSpec \<Rightarrow> int" where
  "podWindow spec = (executionDurationSeconds spec + deadlineGraceSeconds) * second + schedulingGraceSeconds * second"

definition podOverdue :: "timestamp \<Rightarrow> Pod \<Rightarrow> BurnInTestSpec \<Rightarrow> bool" where
  "podOverdue now pod spec = (case pod_creation pod of None \<Rightarrow> False | Some c \<Rightarrow> now - c > podWindow spec)"

end
