(* ===== verification/Attempts.thy ===== *)
theory Attempts
  imports Run_Plan Runner_Parse Pods
begin

text \<open>
  The part of \<^verbatim>\<open>internal/controller/burninrun_controller.go\<close> that turns executions into
  results: what one attempt means, how a result accumulates attempts, repeats, segments and
  retries, when it settles, and the verdict of the run. A pointer to a result of the run is
  its position in the list of results. A
  delivery to the sinks is recorded as the key it is made under.
\<close>

section \<open>Messages\<close>

text \<open>
  Whether a message is blank once rendered and trimmed. Every format in use has a visible
  character of its own.
\<close>

fun blank :: "msg \<Rightarrow> bool" where
  "blank (Text s) = (TrimSpace s = [])"
| "blank (Sprintf f args) = False"
| "blank (Cat a b) = (blank a \<and> blank b)"
| "blank (Trimmed m) = blank m"
| "blank (JoinMsg ms sep) = (list_all blank ms \<and> (length ms \<le> 1 \<or> TrimSpace sep = []))"

text \<open>\<^verbatim>\<open>strings.TrimSpace(message + " [" + extra + "]")\<close>.\<close>

definition bracketed :: "msg \<Rightarrow> msg \<Rightarrow> msg" where
  "bracketed message extra = Trimmed (Cat (Cat (Cat message (Text '' ['')) extra) (Text '']''))"

definition undeclaredSkipMessage :: string where
  "undeclaredSkipMessage = ''runner exited 2 (the skip code) without declaring a skip '' @ em_dash @
     '' it never reported that this test does not apply to this hardware. An unrecovered Go panic exits 2, as does every Go runtime fatal error (out of memory, concurrent map writes, stack exhaustion), so the likeliest cause is a crashed runner: the hardware is UNJUDGED, not out of scope''"

definition emptyHarvestMessage :: string where
  "emptyHarvestMessage = ''runner exited 0 but reported no metrics at all '' @ em_dash @
     '' it measured nothing, so the test's %d threshold(s) could not be evaluated; no verdict (a runner killed or evicted before it printed looks like this)''"

definition explainUndeclaredSkip :: "string \<Rightarrow> msg" where
  "explainUndeclaredSkip runnerSaid =
     (if TrimSpace runnerSaid \<noteq> []
      then Cat (Cat (Cat (Text undeclaredSkipMessage) (Text '' [runner said: '')) (Text (TrimSpace runnerSaid))) (Text '']'')
      else Text undeclaredSkipMessage)"

definition maxNamedInvalidMetrics :: nat where
  "maxNamedInvalidMetrics = 8"

section \<open>What one attempt means\<close>

record attemptEvidence =
  ev_violations :: "Violation list"
  ev_not_evaluated :: "NotEvaluated list"
  ev_applied :: "AppliedGate list"
  ev_unmeasurable :: "string list"

definition no_evidence :: attemptEvidence where
  "no_evidence = \<lparr>ev_violations = [], ev_not_evaluated = [], ev_applied = [], ev_unmeasurable = []\<rparr>"

definition gateOutcome ::
  "string gomap \<Rightarrow> nameset \<Rightarrow> Threshold list \<Rightarrow> string \<Rightarrow> RunPhase \<times> msg \<times> attemptEvidence" where
  "gateOutcome metrics unmeasurable thresholds runnerSaid =
     (let out = Evaluate metrics unmeasurable thresholds;
          phase = (if out_passed out then RunPassed else RunFailed);
          message = (if out_passed out then Text runnerSaid
            else (let m1 = (if TrimSpace runnerSaid \<noteq> [] then bracketed (out_message out) (Text (TrimSpace runnerSaid))
                            else out_message out)
                  in if ViolationSummary out \<noteq> Text [] then bracketed m1 (ViolationSummary out) else m1));
          message = (if NotEvaluatedMessage out \<noteq> Text [] then bracketed message (NotEvaluatedMessage out) else message)
      in (phase, message, \<lparr>ev_violations = (if out_passed out then [] else out_violations out),
            ev_not_evaluated = out_not_evaluated out, ev_applied = out_applied out, ev_unmeasurable = []\<rparr>))"

definition with_invalid_names :: "Result \<Rightarrow> msg \<Rightarrow> msg" where
  "with_invalid_names parsed message =
     (let names = res_invalid_names parsed in
      if names = [] then message
      else (let shown = take maxNamedInvalidMetrics names;
                suffix = (if length names > maxNamedInvalidMetrics
                  then Sprintf '', and %d more'' [AInt (int (length names - maxNamedInvalidMetrics))] else Text [])
            in Trimmed (Cat message (Sprintf '' [runner emitted %d metric name(s) the contract rejects: %s%s]''
                 [AInt (int (length names)), AStr (Join shown '', ''), AMsg suffix]))))"

definition attemptOutcome :: "PlanTest \<Rightarrow> Result \<Rightarrow> RunPhase \<times> msg \<times> attemptEvidence" where
  "attemptOutcome t parsed =
     (let names = sort_strings (mkeys (res_unmeasurable parsed));
          ev = no_evidence\<lparr>ev_unmeasurable := names\<rparr>;
          ths = ts_thresholds (pl_spec t);
          (phase, message, ev) =
            (case res_verdict parsed of
               VerdictPass \<Rightarrow>
                 if ths \<noteq> [] \<and> ReportedNothing parsed then
                   (RunError,
                    (let m = Sprintf emptyHarvestMessage [AInt (int (length ths))]
                     in if res_message parsed \<noteq> [] then bracketed m (Text (''runner said: '' @ res_message parsed)) else m),
                    ev)
                 else (let gates = (if segmentSeconds (pl_spec t) > 0 then [] else ths);
                           (p, m, g) = gateOutcome (res_metrics parsed) (res_unmeasurable parsed) gates (res_message parsed)
                       in (p, m, g\<lparr>ev_unmeasurable := names\<rparr>))
             | VerdictFail \<Rightarrow> (RunFailed, Text (res_message parsed), ev)
             | VerdictSkip \<Rightarrow> (RunSkipped, Text (res_message parsed), ev)
             | VerdictError \<Rightarrow> (RunError,
                 (if res_undeclared_skip parsed then explainUndeclaredSkip (res_message parsed) else Text (res_message parsed)), ev))
      in (phase, with_invalid_names parsed message, ev))"

section \<open>Segments\<close>

definition foldSegment :: "Result \<Rightarrow> TestResult \<Rightarrow> TestResult" where
  "foldSegment parsed res =
     (let agg = foldMetrics (tr_aggregated_metrics res) (res_metrics parsed);
          res = res\<lparr>tr_segments_completed := tr_segments_completed res + 1, tr_aggregated_metrics := agg,
            tr_unmeasurable := foldUnmeasurable (tr_unmeasurable res) (res_unmeasurable parsed) agg\<rparr>
      in if agg \<noteq> [] then res\<lparr>tr_metrics := agg\<rparr> else res)"

text \<open>\<open>None\<close> is "not done".\<close>

definition segmentVerdict :: "PlanTest \<Rightarrow> TestResult \<Rightarrow> Result \<Rightarrow> (RunPhase \<times> msg \<times> attemptEvidence) option" where
  "segmentVerdict t res parsed =
     (let declared = unmeasurableSet (tr_unmeasurable res); ths = ts_thresholds (pl_spec t) in
      if tr_segments_completed res \<ge> tr_segments_required res then
        (let (phase, message, ev) = gateOutcome (tr_aggregated_metrics res) declared ths (res_message parsed);
             prefix = Sprintf ''%d segment(s) of %ds completed'' [AInt (tr_segments_completed res), AInt (segmentSeconds (pl_spec t))]
         in Some (phase, (if blank message then prefix else Cat prefix (Cat (Text ''; '') (Trimmed message))),
              ev\<lparr>ev_unmeasurable := tr_unmeasurable res\<rparr>))
      else if \<not> abortEarly (pl_spec t) then None
      else (let out = Evaluate (tr_aggregated_metrics res) declared ths;
                provable = provableViolations (tr_aggregated_metrics res) out ths
            in case provable of
                 [] \<Rightarrow> None
               | v # _ \<Rightarrow>
                   (let summary = ViolationSummary (out\<lparr>out_violations := provable\<rparr>);
                        message = Sprintf ''soak aborted after segment %d of %d: %s. The aggregate already violates a gate no later segment could retract, so the remaining %d segment(s) were not burned''
                          [AInt (tr_segments_completed res), AInt (tr_segments_required res), AMsg (v_reason v),
                           AInt (tr_segments_required res - tr_segments_completed res)]
                    in Some (RunFailed, (if summary \<noteq> Text [] then bracketed message summary else message),
                         no_evidence\<lparr>ev_violations := provable, ev_unmeasurable := tr_unmeasurable res\<rparr>))))"

section \<open>The results of a run\<close>

definition triggerFor :: "TestResult \<Rightarrow> AttemptTrigger" where
  "triggerFor res = (if tr_attempts res = [] then AttemptInitial
     else if at_phase (last (tr_attempts res)) = RunError then AttemptErrorRetry
     else if tr_segments_required res > 0 then AttemptSegment else AttemptRepeat)"

definition nextAttempt :: "TestResult option \<Rightarrow> int \<times> bool" where
  "nextAttempt r = (case r of None \<Rightarrow> (1, False)
     | Some res \<Rightarrow> if tr_attempts res = [] then (1, False)
         else (let l = last (tr_attempts res) in
           if \<not> IsTerminal (at_phase l) then (at_attempt l, True) else (at_attempt l + 1, False)))"

text \<open>The position of the first result with the name, and with the node when one is given.\<close>

fun result_index :: "nat \<Rightarrow> TestResult list \<Rightarrow> string \<Rightarrow> string \<Rightarrow> nat option" where
  "result_index i [] testName node = None"
| "result_index i (res # rs) testName node =
     (if tr_name res = testName \<and> (node = [] \<or> node \<in> set (tr_nodes res)) then Some i
      else result_index (Suc i) rs testName node)"

definition resultFor :: "TestResult list \<Rightarrow> string \<Rightarrow> string \<Rightarrow> nat option" where
  "resultFor results testName node = result_index 0 results testName node"

definition executionUnits :: "plan \<Rightarrow> PlanTest \<Rightarrow> string list list" where
  "executionUnits p t = (if ts_scope (pl_spec t) \<in> {ScopePair, ScopeGroup} then [pn_targets p]
     else map (\<lambda>node. [node]) (pn_targets p))"

definition new_result :: "PlanTest \<Rightarrow> string list \<Rightarrow> TestResult" where
  "new_result t nodes = \<lparr>tr_name = pl_name t, tr_kind = Some (ts_kind (pl_spec t)), tr_scope = ts_scope (pl_spec t),
     tr_phase = RunRunning, tr_nodes = nodes, tr_started_at = None, tr_finished_at = None,
     tr_last_checkpoint_at = None, tr_metrics = [], tr_message = Text [], tr_violations = [], tr_not_evaluated = [],
     tr_applied = [], tr_unmeasurable = [], tr_artifacts = [], tr_variant_axes = CopyAxes (pl_axes t),
     tr_repeats_required = repeatsRequired (pl_spec t), tr_repeats_completed = 0, tr_error_retries = 0,
     tr_segments_required = segmentsRequired (pl_spec t), tr_segments_completed = 0,
     tr_segment_seconds = segmentSeconds (pl_spec t), tr_aggregated_metrics = [], tr_truncated_attempts = 0,
     tr_attempts = []\<rparr>"

definition ensureResult :: "TestResult list \<Rightarrow> PlanTest \<Rightarrow> string list \<Rightarrow> TestResult list \<times> nat" where
  "ensureResult results t nodes = (case resultFor results (pl_name t) (hd nodes) of
     Some i \<Rightarrow> (results, i)
   | None \<Rightarrow> (results @ [new_result t nodes], length results))"

definition count_phase :: "RunPhase \<Rightarrow> TestResult list \<Rightarrow> int" where
  "count_phase ph results = int (length (filter (\<lambda>res. tr_phase res = ph) results))"

definition recount :: "BurnInRun \<Rightarrow> BurnInRun" where
  "recount run = (let s = run_status run; rs = st_results s in
     run\<lparr>run_status := s\<lparr>st_passed := count_phase RunPassed rs, st_failed := count_phase RunFailed rs,
       st_errored := count_phase RunError rs, st_skipped := count_phase RunSkipped rs\<rparr>\<rparr>)"

section \<open>Beginning and completing an attempt\<close>

definition begin_result :: "timestamp \<Rightarrow> string list \<Rightarrow> int \<Rightarrow> Pod option \<Rightarrow> TestResult \<Rightarrow> TestResult" where
  "begin_result now nodes attempt pod res =
     (let start = (case pod of Some p \<Rightarrow> if podStarted p then Some (attemptStart p now) else None | None \<Rightarrow> None);
          res = (if start \<noteq> None \<and> tr_started_at res = None then res\<lparr>tr_started_at := start\<rparr> else res);
          (n, inProgress) = nextAttempt (Some res)
      in if inProgress \<and> n = attempt then
           (let a = last (tr_attempts res);
                a = (if at_started_at a = None \<and> start \<noteq> None then a\<lparr>at_started_at := start\<rparr> else a)
            in res\<lparr>tr_attempts := butlast (tr_attempts res) @ [a]\<rparr>)
         else res\<lparr>tr_attempts := tr_attempts res @ [\<lparr>at_attempt = attempt, at_trigger = triggerFor res,
                at_node = hd nodes, at_pod_name = podNameOf pod, at_phase = RunRunning, at_exit_code = None,
                at_started_at = start, at_finished_at = None, at_last_checkpoint_at = None, at_metrics = [],
                at_message = Text []\<rparr>]\<rparr>)"

definition settle :: "timestamp \<Rightarrow> RunPhase \<Rightarrow> msg \<Rightarrow> string gomap \<Rightarrow> attemptEvidence \<Rightarrow> TestResult \<Rightarrow> TestResult" where
  "settle now final m metrics ev res = res\<lparr>tr_phase := final, tr_finished_at := Some now, tr_message := m,
     tr_metrics := metrics, tr_violations := ev_violations ev, tr_not_evaluated := ev_not_evaluated ev,
     tr_applied := ev_applied ev, tr_unmeasurable := ev_unmeasurable ev\<rparr>"

definition record_attempt ::
  "timestamp \<Rightarrow> string \<Rightarrow> Result \<Rightarrow> RunPhase \<Rightarrow> msg \<Rightarrow> TestResult \<Rightarrow> TestResult" where
  "record_attempt now pname parsed phase message res =
     (let a = last (tr_attempts res);
          a = a\<lparr>at_phase := phase, at_exit_code := Some (res_exit_code parsed), at_finished_at := Some now,
                at_metrics := res_metrics parsed, at_message := message,
                at_pod_name := (if pname \<noteq> [] then pname else at_pod_name a)\<rparr>;
          res = truncateAttempts (res\<lparr>tr_attempts := butlast (tr_attempts res) @ [a]\<rparr>)
      in if res_metrics parsed \<noteq> [] then res\<lparr>tr_metrics := res_metrics parsed\<rparr> else res)"

text \<open>The switch on the phase of the attempt; the flag says that the result settled.\<close>

definition pass_segment :: "timestamp \<Rightarrow> PlanTest \<Rightarrow> Result \<Rightarrow> TestResult \<Rightarrow> TestResult \<times> bool" where
  "pass_segment now t parsed res0 =
     (let res = foldSegment parsed res0 in
      case segmentVerdict t res parsed of
        Some (final, m, ev) \<Rightarrow>
          (settle now final m (tr_aggregated_metrics res) ev
            (if final = RunPassed then res\<lparr>tr_repeats_completed := tr_repeats_required res\<rparr> else res), True)
      | None \<Rightarrow> (res\<lparr>tr_message := Sprintf ''segment %d/%d complete''
          [AInt (tr_segments_completed res), AInt (tr_segments_required res)]\<rparr>, False))"

definition pass_repeat :: "timestamp \<Rightarrow> Result \<Rightarrow> msg \<Rightarrow> attemptEvidence \<Rightarrow> TestResult \<Rightarrow> TestResult \<times> bool" where
  "pass_repeat now parsed message ev res0 =
     (let res = res0\<lparr>tr_repeats_completed := tr_repeats_completed res0 + 1\<rparr> in
      if tr_repeats_completed res \<ge> tr_repeats_required res
      then (settle now RunPassed message (res_metrics parsed) ev res, True)
      else (res\<lparr>tr_message := Sprintf ''attempt %d/%d passed'' [AInt (tr_repeats_completed res), AInt (tr_repeats_required res)]\<rparr>, False))"

definition error_attempt ::
  "timestamp \<Rightarrow> int \<Rightarrow> int \<Rightarrow> Result \<Rightarrow> msg \<Rightarrow> attemptEvidence \<Rightarrow> TestResult \<Rightarrow> TestResult \<times> bool" where
  "error_attempt now limit attempt parsed message ev res =
     (if tr_error_retries res < limit then
        (res\<lparr>tr_error_retries := tr_error_retries res + 1,
          tr_message := Sprintf ''attempt %d errored (%s); retrying'' [AInt attempt, AMsg message]\<rparr>, False)
      else if tr_segments_required res > 0 \<and> tr_aggregated_metrics res \<noteq> [] then
        (settle now RunError message (tr_aggregated_metrics res) (no_evidence\<lparr>ev_unmeasurable := tr_unmeasurable res\<rparr>) res, True)
      else (settle now RunError message (res_metrics parsed) ev res, True))"

definition complete_result ::
  "timestamp \<Rightarrow> int \<Rightarrow> PlanTest \<Rightarrow> int \<Rightarrow> string \<Rightarrow> Result \<Rightarrow> TestResult \<Rightarrow> TestResult \<times> bool" where
  "complete_result now limit t attempt pname parsed res0 =
     (let (phase, message, ev) = attemptOutcome t parsed;
          res = record_attempt now pname parsed phase message res0
      in case phase of
           RunPassed \<Rightarrow> if tr_segments_required res > 0 then pass_segment now t parsed res
                        else pass_repeat now parsed message ev res
         | RunFailed \<Rightarrow> (settle now RunFailed message (res_metrics parsed) ev res, True)
         | RunSkipped \<Rightarrow> (settle now RunSkipped message (res_metrics parsed) ev res, True)
         | _ \<Rightarrow> error_attempt now limit attempt parsed message ev res)"

text \<open>
  The whole handler: the run afterwards, and the key of the delivery when the result settled.
  An errored attempt that is retried returns before the recount.
\<close>

definition completeAttempt ::
  "timestamp \<Rightarrow> BurnInRun \<Rightarrow> PlanTest \<Rightarrow> string list \<Rightarrow> int \<Rightarrow> string \<Rightarrow> Pod option \<Rightarrow> Result
   \<Rightarrow> BurnInRun \<times> string option" where
  "completeAttempt now run t nodes attempt pname pod parsed =
     (let s = run_status run;
          (results, i) = ensureResult (st_results s) t nodes;
          limit = retryOnErrorLimit run;
          (res, settled) = complete_result now limit t attempt pname parsed (begin_result now nodes attempt pod (results ! i));
          run' = run\<lparr>run_status := s\<lparr>st_results := results[i := res]\<rparr>\<rparr>;
          retried = (fst (attemptOutcome t parsed) \<notin> {RunPassed, RunFailed, RunSkipped} \<and> \<not> settled)
      in (if retried then run' else recount run',
          if settled then Some (tr_name res @ ''/'' @ Join nodes ''+'') else None))"

section \<open>The verdict of a run\<close>

definition SyntheticResultResolve :: string where
  "SyntheticResultResolve = ''resolve''"

definition is_required :: "plan \<Rightarrow> string \<Rightarrow> bool" where
  "is_required p name = (mget (requiredByName p) name = Some True)"

definition hasRequiredFailure :: "TestResult list \<Rightarrow> plan \<Rightarrow> bool" where
  "hasRequiredFailure results p = list_ex (\<lambda>res. tr_phase res = RunFailed \<and> is_required p (tr_name res)) results"

definition hasRequiredError :: "TestResult list \<Rightarrow> plan \<Rightarrow> bool" where
  "hasRequiredError results p = list_ex (\<lambda>res. tr_phase res = RunError \<and>
     (IsSynthetic res \<and> tr_name res = SyntheticResultResolve \<or> is_required p (tr_name res))) results"

definition final_phase :: "TestResult list \<Rightarrow> plan \<Rightarrow> RunPhase" where
  "final_phase results p = (if hasRequiredFailure results p then RunFailed
     else if hasRequiredError results p then RunError else RunPassed)"

definition settle_one :: "timestamp \<Rightarrow> RunPhase \<Rightarrow> msg \<Rightarrow> TestResult \<Rightarrow> TestResult" where
  "settle_one now phase m res =
     (if IsTerminal (tr_phase res) then res
      else (let res = res\<lparr>tr_phase := phase, tr_finished_at := Some now, tr_message := m\<rparr> in
        if tr_attempts res \<noteq> [] \<and> \<not> IsTerminal (at_phase (last (tr_attempts res)))
        then res\<lparr>tr_attempts := butlast (tr_attempts res) @
          [(last (tr_attempts res))\<lparr>at_phase := phase, at_finished_at := Some now, at_message := m\<rparr>]\<rparr>
        else res))"

definition settle_unit :: "timestamp \<Rightarrow> RunPhase \<Rightarrow> msg \<Rightarrow> PlanTest \<Rightarrow> string list \<Rightarrow> TestResult list \<Rightarrow> TestResult list" where
  "settle_unit now phase m t nodes results =
     (let (rs, i) = ensureResult results t nodes in rs[i := settle_one now phase m (rs ! i)])"

definition settle_test :: "timestamp \<Rightarrow> RunPhase \<Rightarrow> msg \<Rightarrow> plan \<Rightarrow> PlanTest \<Rightarrow> TestResult list \<Rightarrow> TestResult list" where
  "settle_test now phase m p t results =
     (case resultFor results (pl_name t) [] of
        Some i \<Rightarrow> if tr_nodes (results ! i) = [] then results
                  else fold (settle_unit now phase m t) (executionUnits p t) results
      | None \<Rightarrow> fold (settle_unit now phase m t) (executionUnits p t) results)"

definition settleRemaining :: "timestamp \<Rightarrow> plan \<Rightarrow> RunPhase \<Rightarrow> msg \<Rightarrow> BurnInRun \<Rightarrow> BurnInRun" where
  "settleRemaining now p phase m run =
     recount (run\<lparr>run_status := (run_status run)\<lparr>st_results :=
       fold (settle_test now phase m p) (pn_tests p) (st_results (run_status run))\<rparr>\<rparr>)"

section \<open>The phase of an attempt\<close>

lemma gateOutcome_phase: "fst (gateOutcome m u ths said) = (if out_passed (Evaluate m u ths) then RunPassed else RunFailed)"
  by (simp add: gateOutcome_def Let_def)

lemma Evaluate_no_gates: "out_passed (Evaluate m u [])"
  by (simp add: Evaluate_passed_iff)

definition gates_hold :: "PlanTest \<Rightarrow> Result \<Rightarrow> bool" where
  "gates_hold t parsed = (segmentSeconds (pl_spec t) > 0 \<or>
     out_passed (Evaluate (res_metrics parsed) (res_unmeasurable parsed) (ts_thresholds (pl_spec t))))"

lemma attemptOutcome_phase:
  "fst (attemptOutcome t parsed) = (case res_verdict parsed of
     VerdictPass \<Rightarrow> if ts_thresholds (pl_spec t) \<noteq> [] \<and> ReportedNothing parsed then RunError
       else if gates_hold t parsed then RunPassed else RunFailed
   | VerdictFail \<Rightarrow> RunFailed | VerdictSkip \<Rightarrow> RunSkipped | VerdictError \<Rightarrow> RunError)"
  using gateOutcome_phase[of "res_metrics parsed" "res_unmeasurable parsed" _ "res_message parsed"]
  by (cases "res_verdict parsed")
    (auto simp: attemptOutcome_def Let_def gates_hold_def Evaluate_no_gates case_prod_unfold split: if_splits)

lemma attemptOutcome_phases: "fst (attemptOutcome t parsed) \<in> {RunPassed, RunFailed, RunSkipped, RunError}"
  by (simp add: attemptOutcome_phase split: Verdict.splits)

lemma attemptOutcome_cases:
  obtains "fst (attemptOutcome t parsed) = RunPassed" | "fst (attemptOutcome t parsed) = RunFailed"
  | "fst (attemptOutcome t parsed) = RunSkipped" | "fst (attemptOutcome t parsed) = RunError"
  using attemptOutcome_phases[of t parsed] by blast

section \<open>What an attempt leaves alone\<close>

text \<open>The counters and the phase of a result.\<close>

definition counters :: "TestResult \<Rightarrow> RunPhase \<times> int \<times> int \<times> int \<times> int \<times> int" where
  "counters res = (tr_phase res, tr_repeats_required res, tr_repeats_completed res, tr_error_retries res,
     tr_segments_required res, tr_segments_completed res)"

definition folded :: "TestResult \<Rightarrow> string gomap \<times> string list" where
  "folded res = (tr_aggregated_metrics res, tr_unmeasurable res)"

lemma truncateAttempts_counters:
  "counters (truncateAttempts res) = counters res" "folded (truncateAttempts res) = folded res" "tr_name (truncateAttempts res) = tr_name res"
  by (simp_all add: truncateAttempts_def counters_def folded_def Let_def)

lemma record_attempt_counters:
  "counters (record_attempt now pn parsed ph m res) = counters res" "folded (record_attempt now pn parsed ph m res) = folded res"
proof -
  have m: "counters (r\<lparr>tr_metrics := x\<rparr>) = counters r" "folded (r\<lparr>tr_metrics := x\<rparr>) = folded r"
    "counters (r\<lparr>tr_attempts := y\<rparr>) = counters r" "folded (r\<lparr>tr_attempts := y\<rparr>) = folded r" for r :: TestResult and x y
    by (simp_all add: counters_def folded_def)
  show "counters (record_attempt now pn parsed ph m res) = counters res" "folded (record_attempt now pn parsed ph m res) = folded res"
    by (cases "res_metrics parsed = []"; simp add: record_attempt_def Let_def m truncateAttempts_counters)+
qed

lemma begin_result_counters:
  "counters (begin_result now nodes n pod res) = counters res" "folded (begin_result now nodes n pod res) = folded res"
  by (simp_all add: begin_result_def Let_def counters_def folded_def case_prod_unfold)

lemma counters_fields:
  assumes "counters a = counters b"
  shows "tr_phase a = tr_phase b" "tr_repeats_required a = tr_repeats_required b" "tr_repeats_completed a = tr_repeats_completed b"
    "tr_error_retries a = tr_error_retries b" "tr_segments_required a = tr_segments_required b" "tr_segments_completed a = tr_segments_completed b"
  using assms by (auto simp: counters_def)

section \<open>What an attempt does\<close>

lemma foldSegment_fields:
  "tr_phase (foldSegment p r) = tr_phase r" "tr_repeats_required (foldSegment p r) = tr_repeats_required r"
  "tr_repeats_completed (foldSegment p r) = tr_repeats_completed r" "tr_error_retries (foldSegment p r) = tr_error_retries r"
  "tr_segments_required (foldSegment p r) = tr_segments_required r"
  "tr_segments_completed (foldSegment p r) = tr_segments_completed r + 1"
  "tr_aggregated_metrics (foldSegment p r) = foldMetrics (tr_aggregated_metrics r) (res_metrics p)"
  "tr_unmeasurable (foldSegment p r) = foldUnmeasurable (tr_unmeasurable r) (res_unmeasurable p) (tr_aggregated_metrics (foldSegment p r))"
  by (simp_all add: foldSegment_def Let_def)

lemma segmentVerdict_phase:
  "segmentVerdict t res parsed = Some (final, m, ev) \<Longrightarrow> final = RunPassed \<or> final = RunFailed"
  using gateOutcome_phase[of "tr_aggregated_metrics res" "unmeasurableSet (tr_unmeasurable res)" "ts_thresholds (pl_spec t)" "res_message parsed"]
  by (auto simp: segmentVerdict_def Let_def case_prod_unfold split: if_splits list.splits)

lemma segmentVerdict_last: "tr_segments_completed res \<ge> tr_segments_required res \<Longrightarrow> segmentVerdict t res parsed \<noteq> None"
  by (simp add: segmentVerdict_def Let_def case_prod_unfold)

lemma segmentVerdict_passed:
  "segmentVerdict t res parsed = Some (RunPassed, m, ev) \<Longrightarrow> tr_segments_completed res \<ge> tr_segments_required res \<and>
     out_passed (Evaluate (tr_aggregated_metrics res) (unmeasurableSet (tr_unmeasurable res)) (ts_thresholds (pl_spec t)))"
  using gateOutcome_phase[of "tr_aggregated_metrics res" "unmeasurableSet (tr_unmeasurable res)" "ts_thresholds (pl_spec t)" "res_message parsed"]
  by (auto simp: segmentVerdict_def Let_def case_prod_unfold split: if_splits list.splits)

lemma segmentVerdict_aborted:
  "segmentVerdict t res parsed = Some (final, m, ev) \<Longrightarrow> tr_segments_completed res < tr_segments_required res \<Longrightarrow>
     final = RunFailed \<and> provableViolations (tr_aggregated_metrics res)
       (Evaluate (tr_aggregated_metrics res) (unmeasurableSet (tr_unmeasurable res)) (ts_thresholds (pl_spec t))) (ts_thresholds (pl_spec t)) \<noteq> []"
  by (auto simp: segmentVerdict_def Let_def case_prod_unfold split: if_splits list.splits)

lemma complete_result_split:
  "complete_result now limit t n pn parsed res0 =
    (let (phase, message, ev) = attemptOutcome t parsed; res = record_attempt now pn parsed phase message res0 in
     if phase = RunPassed then (if tr_segments_required res > 0 then pass_segment now t parsed res else pass_repeat now parsed message ev res)
     else if phase = RunFailed then (settle now RunFailed message (res_metrics parsed) ev res, True)
     else if phase = RunSkipped then (settle now RunSkipped message (res_metrics parsed) ev res, True)
     else error_attempt now limit n parsed message ev res)"
  by (simp add: complete_result_def Let_def split: prod.splits RunPhase.splits)

text \<open>How the counters move: an attempt either settles the result or makes one unit of progress.\<close>

definition progress :: "TestResult \<Rightarrow> int" where
  "progress res = (if tr_segments_required res > 0 then tr_segments_required res - tr_segments_completed res
     else tr_repeats_required res - tr_repeats_completed res)"

lemma progress_counters: "counters a = counters b \<Longrightarrow> progress a = progress b"
  by (auto simp: progress_def counters_def)

lemma complete_result_moves:
  fixes now limit t n pn parsed res0
  defines "r \<equiv> fst (complete_result now limit t n pn parsed res0)" and "s \<equiv> snd (complete_result now limit t n pn parsed res0)"
    and "ph \<equiv> fst (attemptOutcome t parsed)"
  shows "s \<Longrightarrow> IsTerminal (tr_phase r)"
    and "\<not> s \<Longrightarrow> tr_phase r = tr_phase res0 \<and>
      (ph = RunPassed \<and> progress r = progress res0 - 1 \<and> 0 < progress r \<and> tr_error_retries r = tr_error_retries res0 \<or>
       ph = RunError \<and> progress r = progress res0 \<and> tr_error_retries r = tr_error_retries res0 + 1 \<and> tr_error_retries res0 < limit)"
    and "ph = RunFailed \<Longrightarrow> s \<and> tr_phase r = RunFailed"
    and "ph = RunSkipped \<Longrightarrow> s \<and> tr_phase r = RunSkipped"
    and "ph = RunError \<Longrightarrow> (if tr_error_retries res0 < limit then \<not> s else s \<and> tr_phase r = RunError)"
    and "ph = RunPassed \<Longrightarrow> tr_segments_required res0 \<le> 0 \<Longrightarrow>
      (s \<longleftrightarrow> tr_repeats_completed res0 + 1 \<ge> tr_repeats_required res0) \<and> (s \<longrightarrow> tr_phase r = RunPassed)"
    and "s \<Longrightarrow> tr_phase r = RunPassed \<Longrightarrow> ph = RunPassed"
proof -
  obtain phase message ev where o: "attemptOutcome t parsed = (phase, message, ev)" by (cases "attemptOutcome t parsed")
  then have ph: "ph = phase" "phase \<in> {RunPassed, RunFailed, RunSkipped, RunError}"
    using attemptOutcome_phases[of t parsed] by (auto simp: ph_def)
  define res where "res = record_attempt now pn parsed phase message res0"
  note c = counters_fields[OF record_attempt_counters(1)[of now pn parsed phase message res0], folded res_def]
  note split = complete_result_split[of now limit t n pn parsed res0, unfolded o, simplified, folded res_def]
  consider (passed_seg) "phase = RunPassed" "tr_segments_required res > 0" | (passed) "phase = RunPassed" "\<not> tr_segments_required res > 0"
    | (failed) "phase = RunFailed" | (skipped) "phase = RunSkipped" | (error) "phase = RunError" using ph(2) by blast
  then have all: "(s \<longrightarrow> IsTerminal (tr_phase r)) \<and>
      (\<not> s \<longrightarrow> tr_phase r = tr_phase res0 \<and>
        (ph = RunPassed \<and> progress r = progress res0 - 1 \<and> 0 < progress r \<and> tr_error_retries r = tr_error_retries res0 \<or>
         ph = RunError \<and> progress r = progress res0 \<and> tr_error_retries r = tr_error_retries res0 + 1 \<and> tr_error_retries res0 < limit)) \<and>
      (ph = RunFailed \<longrightarrow> s \<and> tr_phase r = RunFailed) \<and> (ph = RunSkipped \<longrightarrow> s \<and> tr_phase r = RunSkipped) \<and>
      (ph = RunError \<longrightarrow> (if tr_error_retries res0 < limit then \<not> s else s \<and> tr_phase r = RunError)) \<and>
      (ph = RunPassed \<longrightarrow> tr_segments_required res0 \<le> 0 \<longrightarrow>
        (s \<longleftrightarrow> tr_repeats_completed res0 + 1 \<ge> tr_repeats_required res0) \<and> (s \<longrightarrow> tr_phase r = RunPassed)) \<and>
      (s \<longrightarrow> tr_phase r = RunPassed \<longrightarrow> ph = RunPassed)"
  proof cases
    case passed_seg
    show ?thesis
    proof (cases "segmentVerdict t (foldSegment parsed res) parsed")
      case None
      then have "\<not> tr_segments_completed (foldSegment parsed res) \<ge> tr_segments_required (foldSegment parsed res)"
        using segmentVerdict_last by blast
      then show ?thesis using passed_seg None split ph c
        by (simp add: r_def s_def pass_segment_def Let_def progress_def foldSegment_fields)
    next
      case (Some x)
      obtain final m e where x: "x = (final, m, e)" by (cases x)
      show ?thesis using passed_seg Some x segmentVerdict_phase[OF Some[unfolded x]] split ph c
        by (auto simp: r_def s_def pass_segment_def Let_def settle_def)
    qed
  next
    case passed
    then show ?thesis using split ph c
      by (auto simp: r_def s_def pass_repeat_def Let_def settle_def progress_def)
  next
    case failed
    then show ?thesis using split ph by (auto simp: r_def s_def settle_def)
  next
    case skipped
    then show ?thesis using split ph by (auto simp: r_def s_def settle_def)
  next
    case error
    then show ?thesis using split ph c by (auto simp: r_def s_def error_attempt_def settle_def progress_def)
  qed
  show "s \<Longrightarrow> IsTerminal (tr_phase r)"
    and "\<not> s \<Longrightarrow> tr_phase r = tr_phase res0 \<and>
      (ph = RunPassed \<and> progress r = progress res0 - 1 \<and> 0 < progress r \<and> tr_error_retries r = tr_error_retries res0 \<or>
       ph = RunError \<and> progress r = progress res0 \<and> tr_error_retries r = tr_error_retries res0 + 1 \<and> tr_error_retries res0 < limit)"
    and "ph = RunFailed \<Longrightarrow> s \<and> tr_phase r = RunFailed"
    and "ph = RunSkipped \<Longrightarrow> s \<and> tr_phase r = RunSkipped"
    and "ph = RunError \<Longrightarrow> (if tr_error_retries res0 < limit then \<not> s else s \<and> tr_phase r = RunError)"
    and "ph = RunPassed \<Longrightarrow> tr_segments_required res0 \<le> 0 \<Longrightarrow>
      (s \<longleftrightarrow> tr_repeats_completed res0 + 1 \<ge> tr_repeats_required res0) \<and> (s \<longrightarrow> tr_phase r = RunPassed)"
    and "s \<Longrightarrow> tr_phase r = RunPassed \<Longrightarrow> ph = RunPassed"
    using all by blast+
qed

end
