(* ===== verification/Admission.thy ===== *)
theory Admission
  imports Api_Types
begin

text \<open>
  \<^verbatim>\<open>internal/controller/admission.go\<close>: the interlock between runs, with the parts of
  \<^verbatim>\<open>burninrun_controller.go\<close> it relies on (resolving targets, pinning the plan, marking a
  run running). The API server's answer to a list of nodes by labels is the argument
  \<open>matching\<close>; the list of runs is the state of the transition system at the end.
\<close>

section \<open>Order, holding, targets\<close>

definition isTerminal :: "RunPhase \<Rightarrow> bool" where
  "isTerminal p = (p \<in> {RunPassed, RunFailed, RunError, RunCancelled})"

definition started :: "BurnInRun \<Rightarrow> bool" where
  "started run = (st_started_at (run_status run) \<noteq> None)"

definition admissionOrder :: "BurnInRun \<Rightarrow> BurnInRun \<Rightarrow> bool" where
  "admissionOrder a b =
     (if started a \<noteq> started b then started a
      else if run_creation a \<noteq> run_creation b then run_creation a < run_creation b
      else run_uid a < run_uid b)"

definition runHolds :: "BurnInRun \<Rightarrow> bool" where
  "runHolds run = (run_finalizer run \<or> \<not> isTerminal (st_phase (run_status run)))"

definition forced :: "BurnInRun \<Rightarrow> bool" where
  "forced run = (sp_force (run_spec run) = Some True)"

datatype TargetError = SelectsNoNodes | MatchesNoNodes "string gomap"

definition resolveTargets :: "(string gomap \<Rightarrow> string list) \<Rightarrow> TargetSelector \<Rightarrow> TargetError + string list" where
  "resolveTargets matching sel =
     (if tg_node_names sel \<noteq> [] then Inr (tg_node_names sel)
      else if tg_node_selector sel = [] then Inl SelectsNoNodes
      else (let names = matching (tg_node_selector sel) in
        if names = [] then Inl (MatchesNoNodes (tg_node_selector sel)) else Inr names))"

definition overlappingTargets ::
  "(string gomap \<Rightarrow> string list) \<Rightarrow> BurnInRun \<Rightarrow> string list \<Rightarrow> string list" where
  "overlappingTargets matching other wanted =
     (case run_pinned other of
        Some targets \<Rightarrow> sort_strings (remdups (filter (\<lambda>n. n \<in> set wanted) targets))
      | None \<Rightarrow> (case resolveTargets matching (sp_target (run_spec other)) of
          Inl _ \<Rightarrow> []
        | Inr targets \<Rightarrow> sort_strings (remdups (filter (\<lambda>n. n \<in> set wanted) targets))))"

section \<open>Conflicts\<close>

type_synonym conflict = "BurnInRun \<times> string list"

definition contends ::
  "(string gomap \<Rightarrow> string list) \<Rightarrow> BurnInRun \<Rightarrow> string list \<Rightarrow> BurnInRun \<Rightarrow> bool" where
  "contends matching run targets other =
     (run_uid other \<noteq> run_uid run \<and> runHolds other \<and> admissionOrder other run \<and>
      overlappingTargets matching other targets \<noteq> [])"

definition note_conflict ::
  "(string gomap \<Rightarrow> string list) \<Rightarrow> BurnInRun \<Rightarrow> string list \<Rightarrow> BurnInRun \<Rightarrow> conflict option \<Rightarrow> conflict option" where
  "note_conflict matching run targets other found =
     (if run_uid other = run_uid run then found
      else if \<not> runHolds other \<or> \<not> admissionOrder other run then found
      else (let overlap = overlappingTargets matching other targets in
        if overlap = [] then found
        else (case found of
          None \<Rightarrow> Some (other, overlap)
        | Some (r, _) \<Rightarrow> if admissionOrder other r then Some (other, overlap) else found)))"

definition findConflict ::
  "(string gomap \<Rightarrow> string list) \<Rightarrow> BurnInRun list \<Rightarrow> BurnInRun \<Rightarrow> string list \<Rightarrow> conflict option" where
  "findConflict matching runs run targets = fold (note_conflict matching run targets) runs None"

datatype Admission = Admitted | AdmittedByForce conflict | RefusedFor conflict

definition admit ::
  "(string gomap \<Rightarrow> string list) \<Rightarrow> BurnInRun list \<Rightarrow> BurnInRun \<Rightarrow> string list \<Rightarrow> Admission" where
  "admit matching runs run targets = (case findConflict matching runs run targets of
     None \<Rightarrow> Admitted
   | Some c \<Rightarrow> if forced run then AdmittedByForce c else RefusedFor c)"

section \<open>A run's transitions\<close>

text \<open>Pinning the plan puts the finalizer on in the same write; marking the run running follows.\<close>

definition pin_run :: "string list \<Rightarrow> BurnInRun \<Rightarrow> BurnInRun" where
  "pin_run targets run = run\<lparr>run_pinned := Some targets, run_finalizer := True\<rparr>"

definition mark_run :: "timestamp \<Rightarrow> BurnInRun \<Rightarrow> BurnInRun" where
  "mark_run now run = run\<lparr>run_finalizer := True,
     run_status := (run_status run)\<lparr>st_phase := RunRunning, st_started_at := Some now\<rparr>\<rparr>"

definition end_run :: "RunPhase \<Rightarrow> timestamp \<Rightarrow> BurnInRun \<Rightarrow> BurnInRun" where
  "end_run phase now run = run\<lparr>run_status := (run_status run)\<lparr>st_phase := phase, st_finished_at := Some now\<rparr>\<rparr>"

definition fresh_run :: "BurnInRun \<Rightarrow> bool" where
  "fresh_run run = (st_phase (run_status run) \<in> {RunUnset, RunPending} \<and> \<not> started run \<and>
     run_pinned run = None \<and> \<not> run_finalizer run)"

text \<open>
  One reconcile changes one run. With \<open>crash\<close>, the manager may die between the write that pins
  the plan and the write that marks the run running, and the next reconcile finishes the
  transition; without it, \<^verbatim>\<open>start\<close> runs to its end.
\<close>

inductive cstep :: "bool \<Rightarrow> (string gomap \<Rightarrow> string list) \<Rightarrow> BurnInRun list \<Rightarrow> BurnInRun list \<Rightarrow> bool"
  for crash matching where
  create: "fresh_run run \<Longrightarrow> run_uid run \<notin> run_uid ` set runs \<Longrightarrow> cstep crash matching runs (runs @ [run])"
| start: "\<lbrakk>i < length runs; \<not> isTerminal (st_phase (run_status (runs ! i))); run_pinned (runs ! i) = None;
    resolveTargets matching (sp_target (run_spec (runs ! i))) = Inr targets;
    \<forall>c. admit matching runs (runs ! i) targets \<noteq> RefusedFor c\<rbrakk>
    \<Longrightarrow> cstep crash matching runs (runs[i := mark_run now (pin_run targets (runs ! i))])"
| start_crashed: "\<lbrakk>crash; i < length runs; \<not> isTerminal (st_phase (run_status (runs ! i))); run_pinned (runs ! i) = None;
    resolveTargets matching (sp_target (run_spec (runs ! i))) = Inr targets;
    \<forall>c. admit matching runs (runs ! i) targets \<noteq> RefusedFor c\<rbrakk>
    \<Longrightarrow> cstep crash matching runs (runs[i := pin_run targets (runs ! i)])"
| recover: "\<lbrakk>i < length runs; st_phase (run_status (runs ! i)) \<in> {RunUnset, RunPending}; run_pinned (runs ! i) = Some targets\<rbrakk>
    \<Longrightarrow> cstep crash matching runs (runs[i := mark_run now (runs ! i)])"
| refuse: "\<lbrakk>i < length runs; \<not> isTerminal (st_phase (run_status (runs ! i))); run_pinned (runs ! i) = None;
    resolveTargets matching (sp_target (run_spec (runs ! i))) = Inr targets;
    admit matching runs (runs ! i) targets = RefusedFor c\<rbrakk>
    \<Longrightarrow> cstep crash matching runs (runs[i := end_run RunError now (runs ! i)])"
| finish: "\<lbrakk>i < length runs; isTerminal phase; \<not> isTerminal (st_phase (run_status (runs ! i)))\<rbrakk>
    \<Longrightarrow> cstep crash matching runs (runs[i := end_run phase now (runs ! i)])"
| release: "\<lbrakk>i < length runs; isTerminal (st_phase (run_status (runs ! i)))\<rbrakk>
    \<Longrightarrow> cstep crash matching runs (runs[i := (runs ! i)\<lparr>run_finalizer := False\<rparr>])"
| delete: "\<lbrakk>i < length runs; \<not> run_finalizer (runs ! i)\<rbrakk>
    \<Longrightarrow> cstep crash matching runs (take i runs @ drop (Suc i) runs)"

inductive reachable :: "bool \<Rightarrow> (string gomap \<Rightarrow> string list) \<Rightarrow> BurnInRun list \<Rightarrow> bool" for crash matching where
  empty: "reachable crash matching []"
| step: "reachable crash matching runs \<Longrightarrow> cstep crash matching runs runs' \<Longrightarrow> reachable crash matching runs'"

section \<open>Strict total orders\<close>

text \<open>
  What the interlock needs of its order: on things told apart by their key it is a strict
  total order, so of any non-empty set exactly one element has nothing before it.
\<close>

locale strict_total_on_keys =
  fixes before :: "'a \<Rightarrow> 'a \<Rightarrow> bool" and key :: "'a \<Rightarrow> 'k"
  assumes irrefl: "\<not> before a a"
    and trans: "before a b \<Longrightarrow> before b c \<Longrightarrow> before a c"
    and total: "key a \<noteq> key b \<Longrightarrow> before a b \<or> before b a"
begin

lemma asym: "before a b \<Longrightarrow> \<not> before b a"
  using irrefl trans by blast

lemma first_exists: "xs \<noteq> [] \<Longrightarrow> \<exists>x \<in> set xs. \<forall>y \<in> set xs. \<not> before y x"
proof (induction xs)
  case (Cons x xs)
  show ?case
  proof (cases "xs = []")
    case True
    then show ?thesis using irrefl by simp
  next
    case False
    then obtain m where m: "m \<in> set xs" "\<forall>y \<in> set xs. \<not> before y m" using Cons.IH by blast
    show ?thesis
    proof (cases "before x m")
      case True
      then have "\<forall>y \<in> set (x # xs). \<not> before y x" using m irrefl trans by auto
      then show ?thesis by auto
    next
      case False
      then show ?thesis using m by auto
    qed
  qed
qed simp

lemma first_unique:
  assumes "distinct (map key xs)" "x \<in> set xs" "y \<in> set xs"
    and "\<forall>z \<in> set xs. \<not> before z x" "\<forall>z \<in> set xs. \<not> before z y"
  shows "x = y"
  using assms total by (metis distinct_map inj_on_eq_iff)

end

interpretation admission: strict_total_on_keys admissionOrder run_uid
  by unfold_locales (auto simp: admissionOrder_def split: if_splits)

section \<open>Finding the conflict\<close>

lemma note_conflict_None:
  "note_conflict matching run targets other found = None \<longleftrightarrow> found = None \<and> \<not> contends matching run targets other"
  by (auto simp: note_conflict_def contends_def Let_def split: option.splits prod.splits if_splits)

lemma findConflict_None:
  "findConflict matching runs run targets = None \<longleftrightarrow> list_all (\<lambda>other. \<not> contends matching run targets other) runs"
proof -
  have "fold (note_conflict matching run targets) runs found = None \<longleftrightarrow>
      found = None \<and> list_all (\<lambda>other. \<not> contends matching run targets other) runs" for found
    by (induction runs arbitrary: found) (auto simp: note_conflict_None)
  then show ?thesis by (simp add: findConflict_def)
qed

text \<open>The conflict that is reported is the first in admission order among the contenders.\<close>

definition first_contender ::
  "(string gomap \<Rightarrow> string list) \<Rightarrow> BurnInRun \<Rightarrow> string list \<Rightarrow> BurnInRun list \<Rightarrow> conflict \<Rightarrow> bool" where
  "first_contender matching run targets seen c = (fst c \<in> set seen \<and> contends matching run targets (fst c) \<and>
     snd c = overlappingTargets matching (fst c) targets \<and>
     list_all (\<lambda>o'. contends matching run targets o' \<longrightarrow> \<not> admissionOrder o' (fst c)) seen)"

lemma note_conflict_first:
  assumes "case found of None \<Rightarrow> list_all (\<lambda>o'. \<not> contends matching run targets o') seen
      | Some c \<Rightarrow> first_contender matching run targets seen c"
  shows "case note_conflict matching run targets other found of
      None \<Rightarrow> list_all (\<lambda>o'. \<not> contends matching run targets o') (seen @ [other])
    | Some c \<Rightarrow> first_contender matching run targets (seen @ [other]) c"
proof (cases "contends matching run targets other")
  case False
  then have "note_conflict matching run targets other found = found"
    by (auto simp: note_conflict_def contends_def Let_def split: option.splits prod.splits)
  then show ?thesis using assms False by (auto simp: first_contender_def split: option.splits)
next
  case c: True
  show ?thesis
  proof (cases found)
    case None
    then have "note_conflict matching run targets other found = Some (other, overlappingTargets matching other targets)"
      using c by (simp add: note_conflict_def contends_def Let_def)
    then show ?thesis using assms None c admission.irrefl by (auto simp: first_contender_def list_all_iff)
  next
    case (Some fc)
    then have n: "note_conflict matching run targets other found =
        (if admissionOrder other (fst fc) then Some (other, overlappingTargets matching other targets) else found)"
      using c by (auto simp: note_conflict_def contends_def Let_def split: prod.splits)
    show ?thesis using assms Some c n admission.irrefl admission.trans
      by (auto simp: first_contender_def list_all_iff)
  qed
qed

lemma findConflict_first:
  assumes "findConflict matching runs run targets = Some c"
  shows "first_contender matching run targets runs c"
proof -
  have "case fold (note_conflict matching run targets) ys found of
      None \<Rightarrow> list_all (\<lambda>o'. \<not> contends matching run targets o') (xs @ ys)
    | Some c \<Rightarrow> first_contender matching run targets (xs @ ys) c"
    if "case found of None \<Rightarrow> list_all (\<lambda>o'. \<not> contends matching run targets o') xs
      | Some c \<Rightarrow> first_contender matching run targets xs c" for xs ys found
    using that
  proof (induction ys arbitrary: xs found)
    case (Cons y ys)
    show ?case using Cons.IH[OF note_conflict_first[OF Cons.prems, of y]]
      by (simp only: fold_simps append_assoc append_Cons append_Nil)
  qed (simp only: fold_simps append_Nil2)
  from this[where found = None and xs = "[]" and ys = runs] show ?thesis using assms by (simp add: findConflict_def)
qed

lemma set_overlappingTargets:
  "set (overlappingTargets matching other wanted) =
     (case run_pinned other of Some ts \<Rightarrow> set ts \<inter> set wanted
      | None \<Rightarrow> (case resolveTargets matching (sp_target (run_spec other)) of Inl _ \<Rightarrow> {} | Inr ts \<Rightarrow> set ts \<inter> set wanted))"
  by (auto simp: overlappingTargets_def split: option.splits sum.splits)

section \<open>The invariant of the interlock\<close>







lemmas run_updates = pin_run_def mark_run_def end_run_def started_def forced_def runHolds_def isTerminal_def





section \<open>Contenders for one node\<close>

definition wants :: "(string gomap \<Rightarrow> string list) \<Rightarrow> BurnInRun \<Rightarrow> string list" where
  "wants matching run = (case run_pinned run of Some ts \<Rightarrow> ts
     | None \<Rightarrow> (case resolveTargets matching (sp_target (run_spec run)) of Inl _ \<Rightarrow> [] | Inr ts \<Rightarrow> ts))"

lemma overlap_wants: "set (overlappingTargets matching other targets) = set (wants matching other) \<inter> set targets"
  by (auto simp: set_overlappingTargets wants_def split: option.splits sum.splits)

lemma no_conflict_iff_first:
  assumes "distinct (map run_uid runs)" "list_all runHolds runs" "list_all (\<lambda>r. n \<in> set (wants matching r)) runs" "r \<in> set runs"
  shows "findConflict matching runs r (wants matching r) = None \<longleftrightarrow> (\<forall>o' \<in> set runs. \<not> admissionOrder o' r)"
proof -
  have "overlappingTargets matching o' (wants matching r) \<noteq> []" if "o' \<in> set runs" for o'
    using overlap_wants[of matching o' "wants matching r"] assms(3,4) that by (auto simp: list_all_iff)
  moreover have "run_uid o' = run_uid r \<longleftrightarrow> o' = r" if "o' \<in> set runs" for o'
    using assms(1,4) that by (auto simp: distinct_map inj_on_def)
  ultimately show ?thesis using assms(2) admission.irrefl
    by (auto simp: findConflict_None contends_def list_all_iff)
qed

text \<open>A run as it is created, for one list of node names.\<close>

definition new_run :: "string \<Rightarrow> timestamp \<Rightarrow> string list \<Rightarrow> BurnInRun" where
  "new_run uid created nodes = \<lparr>run_namespace = ''default'', run_name = uid, run_uid = uid, run_creation = created,
     run_finalizer = False, run_cancelling = [], run_pending_delivery = None, run_deleted = False, run_pinned = None,
     run_spec = \<lparr>sp_profile_ref = ''p'', sp_target = \<lparr>tg_node_names = nodes, tg_node_selector = [], tg_tolerations = []\<rparr>,
       sp_max_concurrent_nodes = None, sp_force = None, sp_retry_on_error_limit = None, sp_deadline_seconds = None,
       sp_suspend = None, sp_baseline = None, sp_cancel = None, sp_cancel_policy = CancelGraceful, sp_cancel_reason = [],
       sp_ttl_seconds_after_finished = None\<rparr>,
     run_status = \<lparr>st_phase = RunUnset, st_fingerprint = [], st_started_at = None, st_finished_at = None, st_results = [],
       st_passed = 0, st_failed = 0, st_errored = 0, st_skipped = 0, st_cordoned_nodes = [], st_prior_unschedulable = [],
       st_sink_status = [], st_conditions = []\<rparr>\<rparr>"

lemma admit_free: "list_all (\<lambda>o'. \<not> contends matching run targets o') runs \<Longrightarrow> admit matching runs run targets = Admitted"
  by (simp add: admit_def findConflict_None[THEN iffD2])

lemmas new_run_simps = new_run_def run_updates fresh_run_def resolveTargets_def admit_free
  contends_def admissionOrder_def overlappingTargets_def sort_strings_def

section \<open>Properties\<close>



text \<open>
  A dead heat has exactly one winner: among runs told apart by their UIDs that all hold
  and all want one node, exactly one finds no conflict.
\<close>

theorem dead_heat_has_exactly_one_winner:
  assumes "runs \<noteq> []" and "distinct (map run_uid runs)" and "list_all runHolds runs"
    and "list_all (\<lambda>r. n \<in> set (wants matching r)) runs"
  shows "\<exists>!r. r \<in> set runs \<and> findConflict matching runs r (wants matching r) = None"
proof -
  obtain r where r: "r \<in> set runs" "\<forall>o' \<in> set runs. \<not> admissionOrder o' r"
    using admission.first_exists[OF assms(1)] by blast
  show ?thesis
  proof (rule ex1I[of _ r])
    show "r \<in> set runs \<and> findConflict matching runs r (wants matching r) = None"
      using r no_conflict_iff_first[OF assms(2-4) r(1)] by blast
  next
    fix q assume q: "q \<in> set runs \<and> findConflict matching runs q (wants matching q) = None"
    then have "\<forall>o' \<in> set runs. \<not> admissionOrder o' q" using no_conflict_iff_first[OF assms(2-4)] by blast
    then show "q = r" using admission.first_unique[OF assms(2)] q r by blast
  qed
qed

theorem dead_heat_has_exactly_one_winner_witness:
  "\<exists>!r. r \<in> set [new_run ''b'' 1 [''n1''], new_run ''a'' 1 [''n1'', ''n2'']] \<and>
     findConflict (\<lambda>_. []) [new_run ''b'' 1 [''n1''], new_run ''a'' 1 [''n1'', ''n2'']] r (wants (\<lambda>_. []) r) = None"
  by (rule dead_heat_has_exactly_one_winner[of _ "''n1''"])
    (simp_all add: new_run_def runHolds_def isTerminal_def wants_def resolveTargets_def)

text \<open>
  A refusal names the right run: the conflict found is a run that holds, precedes and
  overlaps the asking one, no contender precedes it, and the nodes named are the overlap.
\<close>

theorem findConflict_reports_the_first_contender:
  assumes "findConflict matching runs run targets = Some (other, nodes)"
  shows "other \<in> set runs \<and> runHolds other \<and> admissionOrder other run \<and>
    set nodes = set (wants matching other) \<inter> set targets \<and> nodes \<noteq> [] \<and>
    list_all (\<lambda>o'. \<not> (contends matching run targets o' \<and> admissionOrder o' other)) runs"
  using findConflict_first[OF assms] overlap_wants[of matching other targets]
  by (auto simp: first_contender_def contends_def list_all_iff)

theorem findConflict_reports_the_first_contender_witness:
  "runHolds (new_run ''a'' 1 [''n1'']) \<and> admissionOrder (new_run ''a'' 1 [''n1'']) (new_run ''b'' 1 [''n1''])"
proof -
  have "findConflict (\<lambda>_. []) [new_run ''a'' 1 [''n1'']] (new_run ''b'' 1 [''n1'']) [''n1''] =
      Some (new_run ''a'' 1 [''n1''], [''n1''])"
    by (simp add: findConflict_def note_conflict_def new_run_simps Let_def)
  from findConflict_reports_the_first_contender[OF this] show ?thesis by blast
qed

text \<open>
  C22. When a manager dies between the write that pins a plan and the write that marks the
  run running, the interlock fails: the pinned run does not yet count as started, a run
  created in the same second with a smaller UID is admitted onto its node, and the first
  run is then marked running without being admitted again. Both run on one node, neither
  forced.
\<close>

theorem crash_between_pin_and_mark_breaks_the_interlock:
  "\<exists>runs a b. reachable True (\<lambda>_. []) runs \<and> a \<in> set runs \<and> b \<in> set runs \<and> run_uid a \<noteq> run_uid b \<and>
     started a \<and> started b \<and> runHolds a \<and> runHolds b \<and> \<not> forced a \<and> \<not> forced b \<and>
     run_pinned a = Some [''n1''] \<and> run_pinned b = Some [''n1'']"
proof -
  let ?m = "\<lambda>_. []"
  let ?b = "new_run ''b'' 1 [''n1'']" and ?a = "new_run ''a'' 1 [''n1'']"
  let ?b1 = "pin_run [''n1''] ?b" and ?a2 = "mark_run 5 (pin_run [''n1''] ?a)"
  have "cstep True ?m [] ([] @ [?b])" by (rule cstep.create) (simp_all add: new_run_simps)
  then have r1: "reachable True ?m [?b]" using reachable.step[OF reachable.empty] by simp
  have "cstep True ?m [?b] ([?b][0 := pin_run [''n1''] ([?b] ! 0)])"
    by (rule cstep.start_crashed) (simp_all add: new_run_simps)
  then have r2: "reachable True ?m [?b1]" using reachable.step[OF r1] by simp
  have "cstep True ?m [?b1] ([?b1] @ [?a])" by (rule cstep.create) (simp_all add: new_run_simps)
  then have r3: "reachable True ?m [?b1, ?a]" using reachable.step[OF r2] by simp
  have "cstep True ?m [?b1, ?a] ([?b1, ?a][1 := mark_run 5 (pin_run [''n1''] ([?b1, ?a] ! 1))])"
    by (rule cstep.start) (simp_all add: new_run_simps)
  then have r4: "reachable True ?m [?b1, ?a2]" using reachable.step[OF r3] by simp
  have "cstep True ?m [?b1, ?a2] ([?b1, ?a2][0 := mark_run 6 ([?b1, ?a2] ! 0)])"
    by (rule cstep.recover) (simp_all add: new_run_simps)
  then have "reachable True ?m [mark_run 6 ?b1, ?a2]" using reachable.step[OF r4] by simp
  then show ?thesis
    by (intro exI[of _ "[mark_run 6 ?b1, ?a2]"] exI[of _ "mark_run 6 ?b1"] exI[of _ ?a2]) (simp add: new_run_simps)
qed

end
