(* ===== verification/Run_Results.thy ===== *)
theory Run_Results
  imports Attempts Admission
begin

text \<open>
  What the results of a run promise: a sequence of executions against one result, as the
  reconciler makes it one attempt at a time, always settles, and settles as the phases of its
  attempts say; a soak passes on the aggregate of exactly its segments; completing an attempt
  touches one result and keeps the counts of the run; winding a run up settles every planned
  unit of work and rewrites no settled result.
\<close>

section \<open>Sequences of executions\<close>

text \<open>
  An execution as the reconciler harvests it: when, from which pod, and what was parsed.
  The attempt it counts as is the next attempt of the result.
\<close>

record execution =
  ex_now :: timestamp
  ex_pod_name :: string
  ex_pod :: "Pod option"
  ex_parsed :: Result

definition run_attempts :: "int \<Rightarrow> PlanTest \<Rightarrow> string list \<Rightarrow> execution \<Rightarrow> TestResult \<Rightarrow> TestResult" where
  "run_attempts limit t nodes e res =
     (let n = fst (nextAttempt (Some res))
      in fst (complete_result (ex_now e) limit t n (ex_pod_name e) (ex_parsed e) (begin_result (ex_now e) nodes n (ex_pod e) res)))"

fun run_attempts_all :: "int \<Rightarrow> PlanTest \<Rightarrow> string list \<Rightarrow> execution list \<Rightarrow> TestResult \<Rightarrow> TestResult" where
  "run_attempts_all limit t nodes [] res = res"
| "run_attempts_all limit t nodes (e # es) res =
     (if IsTerminal (tr_phase res) then res else run_attempts_all limit t nodes es (run_attempts limit t nodes e res))"

definition attempt_phase :: "PlanTest \<Rightarrow> execution \<Rightarrow> RunPhase" where
  "attempt_phase t e = fst (attemptOutcome t (ex_parsed e))"


lemma run_attempts_moves:
  fixes limit t nodes e res
  assumes "\<not> IsTerminal (tr_phase res)"
  defines "r \<equiv> run_attempts limit t nodes e res" and "ph \<equiv> attempt_phase t e"
  shows "\<not> IsTerminal (tr_phase r) \<Longrightarrow> tr_phase r = tr_phase res \<and>
      (ph = RunPassed \<and> progress r = progress res - 1 \<and> 0 < progress r \<and> tr_error_retries r = tr_error_retries res \<or>
       ph = RunError \<and> progress r = progress res \<and> tr_error_retries r = tr_error_retries res + 1 \<and> tr_error_retries res < limit)"
    and "ph = RunFailed \<Longrightarrow> tr_phase r = RunFailed"
    and "ph = RunSkipped \<Longrightarrow> tr_phase r = RunSkipped"
    and "ph = RunError \<Longrightarrow> (if tr_error_retries res < limit then \<not> IsTerminal (tr_phase r) else tr_phase r = RunError)"
    and "ph = RunPassed \<Longrightarrow> tr_segments_required res \<le> 0 \<Longrightarrow>
      (IsTerminal (tr_phase r) \<longleftrightarrow> tr_repeats_completed res + 1 \<ge> tr_repeats_required res) \<and>
      (IsTerminal (tr_phase r) \<longrightarrow> tr_phase r = RunPassed)"
    and "tr_phase r = RunPassed \<Longrightarrow> ph = RunPassed"
proof -
  define n where "n = fst (nextAttempt (Some res))"
  define res0 where "res0 = begin_result (ex_now e) nodes n (ex_pod e) res"
  note c = counters_fields[OF begin_result_counters(1)[of "ex_now e" nodes n "ex_pod e" res], folded res0_def]
    progress_counters[OF begin_result_counters(1)[of "ex_now e" nodes n "ex_pod e" res], folded res0_def]
  have r: "r = fst (complete_result (ex_now e) limit t n (ex_pod_name e) (ex_parsed e) res0)"
    by (simp add: r_def run_attempts_def Let_def n_def res0_def)
  note m = complete_result_moves[where now = "ex_now e" and limit = limit and t = t and n = n and pn = "ex_pod_name e" and parsed = "ex_parsed e" and ?res0.0 = res0, folded r attempt_phase_def, folded ph_def]
  let ?s = "snd (complete_result (ex_now e) limit t n (ex_pod_name e) (ex_parsed e) res0)"
  have s: "?s \<longleftrightarrow> IsTerminal (tr_phase r)" using m(1) m(2)[THEN conjunct1] assms(1) c(1) by metis
  show "\<not> IsTerminal (tr_phase r) \<Longrightarrow> tr_phase r = tr_phase res \<and>
      (ph = RunPassed \<and> progress r = progress res - 1 \<and> 0 < progress r \<and> tr_error_retries r = tr_error_retries res \<or>
       ph = RunError \<and> progress r = progress res \<and> tr_error_retries r = tr_error_retries res + 1 \<and> tr_error_retries res < limit)"
    using m(2) unfolding s c .
  show "ph = RunFailed \<Longrightarrow> tr_phase r = RunFailed" using m(3) by blast
  show "ph = RunSkipped \<Longrightarrow> tr_phase r = RunSkipped" using m(4) by blast
  show "ph = RunError \<Longrightarrow> (if tr_error_retries res < limit then \<not> IsTerminal (tr_phase r) else tr_phase r = RunError)"
    using m(5) unfolding s c by (simp split: if_splits)
  show "ph = RunPassed \<Longrightarrow> tr_segments_required res \<le> 0 \<Longrightarrow>
      (IsTerminal (tr_phase r) \<longleftrightarrow> tr_repeats_completed res + 1 \<ge> tr_repeats_required res) \<and>
      (IsTerminal (tr_phase r) \<longrightarrow> tr_phase r = RunPassed)"
    using m(6) unfolding s c .
  show "tr_phase r = RunPassed \<Longrightarrow> ph = RunPassed"
    using m(7) unfolding s by simp
qed

text \<open>What an execution keeps while the result is open.\<close>

lemma run_attempts_required:
  "tr_repeats_required (run_attempts limit t nodes e res) = tr_repeats_required res"
  "tr_segments_required (run_attempts limit t nodes e res) = tr_segments_required res"
proof -
  define n where "n = fst (nextAttempt (Some res))"
  define res0 where "res0 = begin_result (ex_now e) nodes n (ex_pod e) res"
  obtain ph m ev where o: "attemptOutcome t (ex_parsed e) = (ph, m, ev)" by (cases "attemptOutcome t (ex_parsed e)")
  note c = counters_fields[OF begin_result_counters(1)[of "ex_now e" nodes n "ex_pod e" res], folded res0_def]
  note d = counters_fields[OF record_attempt_counters(1)[of "ex_now e" "ex_pod_name e" "ex_parsed e" ph m res0], unfolded c]
  show "tr_repeats_required (run_attempts limit t nodes e res) = tr_repeats_required res"
    "tr_segments_required (run_attempts limit t nodes e res) = tr_segments_required res"
    using d unfolding run_attempts_def Let_def n_def[symmetric] res0_def[symmetric] complete_result_split o
    by (auto simp: Let_def settle_def pass_segment_def pass_repeat_def error_attempt_def foldSegment_fields
        split: option.splits prod.splits)
qed

section \<open>Settling\<close>

lemma run_attempts_all_terminal: "IsTerminal (tr_phase res) \<Longrightarrow> run_attempts_all limit t nodes es res = res"
  by (cases es) simp_all

lemma run_attempts_all_settles:
  assumes "0 < progress res" and "tr_error_retries res \<le> limit"
    and "progress res + (limit - tr_error_retries res) \<le> int (length es)"
  shows "IsTerminal (tr_phase (run_attempts_all limit t nodes es res))"
  using assms
proof (induction es arbitrary: res)
  case Nil
  then show ?case by simp
next
  case (Cons e es)
  show ?case
  proof (cases "IsTerminal (tr_phase res) \<or> IsTerminal (tr_phase (run_attempts limit t nodes e res))")
    case True
    then show ?thesis by (auto simp: run_attempts_all_terminal)
  next
    case False
    then have "\<not> IsTerminal (tr_phase res)" by simp
    from run_attempts_moves(1)[OF this, where limit = limit and t = t and nodes = nodes and e = e] False Cons.prems
    have "IsTerminal (tr_phase (run_attempts_all limit t nodes es (run_attempts limit t nodes e res)))"
      by (intro Cons.IH) auto
    then show ?thesis using False by simp
  qed
qed

section \<open>Attempts without segments\<close>




section \<open>Soaks\<close>

lemma segmentVerdict_evidence: "segmentVerdict t res parsed = Some (final, m, ev) \<Longrightarrow> ev_unmeasurable ev = tr_unmeasurable res"
  by (auto simp: segmentVerdict_def Let_def case_prod_unfold no_evidence_def split: if_splits list.splits)

text \<open>The readings the segments of a soak have put into its aggregate.\<close>

definition soak_state :: "TestResult \<Rightarrow> int \<times> string gomap" where
  "soak_state res = (tr_segments_completed res, tr_aggregated_metrics res)"

lemma run_attempts_segment:
  fixes limit t nodes e res
  assumes "\<not> IsTerminal (tr_phase res)" and "0 < tr_segments_required res"
  defines "r \<equiv> run_attempts limit t nodes e res"
  shows "attempt_phase t e = RunPassed \<Longrightarrow>
      soak_state r = (tr_segments_completed res + 1, foldMetrics (tr_aggregated_metrics res) (res_metrics (ex_parsed e)))"
    and "attempt_phase t e = RunPassed \<Longrightarrow> tr_phase r = RunPassed \<Longrightarrow> tr_segments_required r \<le> tr_segments_completed r \<and>
      tr_metrics r = tr_aggregated_metrics r \<and>
      out_passed (Evaluate (tr_metrics r) (unmeasurableSet (tr_unmeasurable r)) (ts_thresholds (pl_spec t)))"
    and "attempt_phase t e = RunError \<Longrightarrow> soak_state r = soak_state res"
proof -
  define n where "n = fst (nextAttempt (Some res))"
  define res0 where "res0 = begin_result (ex_now e) nodes n (ex_pod e) res"
  obtain ph m ev where o: "attemptOutcome t (ex_parsed e) = (ph, m, ev)" by (cases "attemptOutcome t (ex_parsed e)")
  have ph: "attempt_phase t e = ph" by (simp add: attempt_phase_def o)
  define rec where "rec = record_attempt (ex_now e) (ex_pod_name e) (ex_parsed e) ph m res0"
  note c = counters_fields[OF trans[OF record_attempt_counters(1)[of "ex_now e" "ex_pod_name e" "ex_parsed e" ph m res0, folded rec_def]
      begin_result_counters(1)[of "ex_now e" nodes n "ex_pod e" res, folded res0_def]]]
  have f: "tr_aggregated_metrics rec = tr_aggregated_metrics res"
    using record_attempt_counters(2)[of "ex_now e" "ex_pod_name e" "ex_parsed e" ph m res0]
      begin_result_counters(2)[of "ex_now e" nodes n "ex_pod e" res] by (simp add: folded_def rec_def res0_def)
  have r: "r = fst (complete_result (ex_now e) limit t n (ex_pod_name e) (ex_parsed e) res0)"
    by (simp add: r_def run_attempts_def Let_def n_def res0_def)
  have pass: "r = fst (pass_segment (ex_now e) t (ex_parsed e) rec)" if "ph = RunPassed"
    using that assms(2) c(5) unfolding r complete_result_split o rec_def by (simp add: Let_def)
  have err: "r = fst (error_attempt (ex_now e) limit n (ex_parsed e) m ev rec)" if "ph = RunError"
    using that unfolding r complete_result_split o rec_def by (simp add: Let_def)
  show "attempt_phase t e = RunPassed \<Longrightarrow>
      soak_state r = (tr_segments_completed res + 1, foldMetrics (tr_aggregated_metrics res) (res_metrics (ex_parsed e)))"
    using pass c(6) f
    by (cases "segmentVerdict t (foldSegment (ex_parsed e) rec) (ex_parsed e)")
      (auto simp: ph pass_segment_def Let_def soak_state_def settle_def foldSegment_fields split: prod.splits)
  show "attempt_phase t e = RunError \<Longrightarrow> soak_state r = soak_state res"
    using err c(6) f by (auto simp: ph error_attempt_def soak_state_def settle_def)
  show "attempt_phase t e = RunPassed \<Longrightarrow> tr_phase r = RunPassed \<Longrightarrow> tr_segments_required r \<le> tr_segments_completed r \<and>
      tr_metrics r = tr_aggregated_metrics r \<and>
      out_passed (Evaluate (tr_metrics r) (unmeasurableSet (tr_unmeasurable r)) (ts_thresholds (pl_spec t)))"
  proof -
    assume "attempt_phase t e = RunPassed" and passed: "tr_phase r = RunPassed"
    then have rp: "r = fst (pass_segment (ex_now e) t (ex_parsed e) rec)" using pass ph by simp
    show ?thesis
    proof (cases "segmentVerdict t (foldSegment (ex_parsed e) rec) (ex_parsed e)")
      case None
      then have "tr_phase r = tr_phase res" using rp c(1) by (simp add: pass_segment_def Let_def foldSegment_fields)
      then show ?thesis using passed assms(1) by simp
    next
      case (Some x)
      obtain final msg e' where x: "x = (final, msg, e')" by (cases x)
      then have fin: "final = RunPassed" using rp Some passed by (simp add: pass_segment_def Let_def settle_def)
      show ?thesis using segmentVerdict_passed[OF Some[unfolded x fin]] segmentVerdict_evidence[OF Some[unfolded x fin]] rp Some x fin
        by (simp add: pass_segment_def Let_def settle_def)
    qed
  qed
qed

definition passed_segments :: "PlanTest \<Rightarrow> execution list \<Rightarrow> string gomap list" where
  "passed_segments t es = map (\<lambda>e. res_metrics (ex_parsed e)) (filter (\<lambda>e. attempt_phase t e = RunPassed) es)"

lemma run_attempts_all_soak:
  assumes "tr_phase res = RunRunning" and "0 < tr_segments_required res"
    and "tr_segments_completed res < tr_segments_required res"
    and "tr_phase (run_attempts_all limit t nodes es res) = RunPassed"
  shows "\<exists>k \<le> length es. let segs = passed_segments t (take k es); r = run_attempts_all limit t nodes es res in
    tr_segments_completed res + int (length segs) = tr_segments_required res \<and>
    tr_metrics r = foldl foldMetrics (tr_aggregated_metrics res) segs \<and>
    out_passed (Evaluate (tr_metrics r) (unmeasurableSet (tr_unmeasurable r)) (ts_thresholds (pl_spec t)))"
  using assms
proof (induction es arbitrary: res)
  case Nil
  then show ?case by simp
next
  case (Cons e es)
  let ?r = "run_attempts limit t nodes e res"
  have nt: "\<not> IsTerminal (tr_phase res)" using Cons.prems(1) by simp
  note m = run_attempts_moves[OF nt, where limit = limit and t = t and nodes = nodes and e = e]
  note g = run_attempts_segment[OF nt Cons.prems(2), where limit = limit and t = t and nodes = nodes and e = e]
  have step: "run_attempts_all limit t nodes (e # es) res = run_attempts_all limit t nodes es ?r" using nt by simp
  show ?case
  proof (cases "IsTerminal (tr_phase ?r)")
    case True
    then have r: "run_attempts_all limit t nodes (e # es) res = ?r" using step run_attempts_all_terminal by metis
    then have passed: "tr_phase ?r = RunPassed" using Cons.prems(4) by simp
    then have ph: "attempt_phase t e = RunPassed" using m(6) by blast
    note g2 = g(2)[OF ph passed]
    show ?thesis using g(1)[OF ph] g2[THEN conjunct1] g2[THEN conjunct2, THEN conjunct1] g2[THEN conjunct2, THEN conjunct2] ph Cons.prems(3)
      by (intro exI[of _ 1]) (simp add: r Let_def passed_segments_def soak_state_def run_attempts_required del: run_attempts_all.simps)
  next
    case False
    note mm = m(1)[OF False]
    have run: "tr_phase ?r = RunRunning" "0 < tr_segments_required ?r" "tr_segments_required ?r = tr_segments_required res"
      using mm Cons.prems by (simp_all add: run_attempts_required)
    have "tr_segments_completed ?r < tr_segments_required ?r"
    proof (cases "attempt_phase t e = RunPassed")
      case True
      then show ?thesis using mm run by (auto simp: progress_def)
    next
      case nP: False
      then show ?thesis using mm g(3) Cons.prems(3) run by (auto simp: soak_state_def)
    qed
    from Cons.IH[OF run(1,2) this] Cons.prems(4) obtain k where k: "k \<le> length es"
      "tr_segments_completed ?r + int (length (passed_segments t (take k es))) = tr_segments_required ?r"
      "tr_metrics (run_attempts_all limit t nodes es ?r) = foldl foldMetrics (tr_aggregated_metrics ?r) (passed_segments t (take k es))"
      "out_passed (Evaluate (tr_metrics (run_attempts_all limit t nodes es ?r))
         (unmeasurableSet (tr_unmeasurable (run_attempts_all limit t nodes es ?r))) (ts_thresholds (pl_spec t)))"
      unfolding step by (auto simp: Let_def)
    have "attempt_phase t e = RunPassed \<or> attempt_phase t e = RunError" using mm by blast
    then show ?thesis
    proof
      assume ph: "attempt_phase t e = RunPassed"
      show ?thesis using k g(1)[OF ph] run(3) ph
        by (intro exI[of _ "Suc k"]) (simp add: step Let_def passed_segments_def soak_state_def del: run_attempts_all.simps)
    next
      assume ph: "attempt_phase t e = RunError"
      show ?thesis using k g(3)[OF ph] run(3) ph
        by (intro exI[of _ "Suc k"]) (simp add: step Let_def passed_segments_def soak_state_def del: run_attempts_all.simps)
    qed
  qed
qed

section \<open>The results of a run\<close>

text \<open>The counts of a run agree with its results.\<close>

definition counted :: "BurnInRun \<Rightarrow> bool" where
  "counted run = (let s = run_status run; rs = st_results s in
     st_passed s = count_phase RunPassed rs \<and> st_failed s = count_phase RunFailed rs \<and>
     st_errored s = count_phase RunError rs \<and> st_skipped s = count_phase RunSkipped rs)"

lemma recount_counted [simp]: "counted (recount run)"
  by (simp add: counted_def recount_def Let_def)

lemma count_phase_append: "tr_phase r \<noteq> ph \<Longrightarrow> count_phase ph (rs @ [r]) = count_phase ph rs"
  by (simp add: count_phase_def)

lemma count_phase_update:
  assumes "i < length rs" and "tr_phase r = tr_phase (rs ! i)"
  shows "count_phase ph (rs[i := r]) = count_phase ph rs"
proof -
  have "map tr_phase (rs[i := r]) = map tr_phase rs" using assms by (simp add: map_update list_update_same_conv)
  then have "length (filter (\<lambda>p. p = ph) (map tr_phase (rs[i := r]))) = length (filter (\<lambda>p. p = ph) (map tr_phase rs))" by simp
  then show ?thesis by (simp add: count_phase_def filter_map comp_def)
qed

text \<open>
  The counts only look at terminal phases, so a list of results may be replaced by another
  with as many results in each.
\<close>

lemma counted_results:
  assumes "counted run" and "\<And>ph. IsTerminal ph \<Longrightarrow> count_phase ph rs = count_phase ph (st_results (run_status run))"
  shows "counted (run\<lparr>run_status := (run_status run)\<lparr>st_results := rs\<rparr>\<rparr>)"
  using assms by (simp add: counted_def Let_def)

lemma result_index_bound: "result_index k rs name node = Some i \<Longrightarrow> k \<le> i \<and> i < k + length rs"
  by (induction k rs name node rule: result_index.induct) (fastforce split: if_splits)+

lemma ensureResult_spec:
  assumes "ensureResult rs t nodes = (rs', i)"
  shows "i < length rs'" and "rs' = rs \<or> rs' = rs @ [new_result t nodes] \<and> i = length rs"
  using assms result_index_bound[of 0 rs "pl_name t" "hd nodes"]
  by (auto simp: ensureResult_def resultFor_def split: option.splits)

lemma ensureResult_counts:
  "IsTerminal ph \<Longrightarrow> count_phase ph (fst (ensureResult rs t nodes)) = count_phase ph rs"
  by (auto simp: ensureResult_def new_result_def intro!: count_phase_append split: option.splits)

section \<open>Winding up\<close>

text \<open>
  Results only grow, keep their name and nodes, and are final once settled.
\<close>

definition extends_results :: "TestResult list \<Rightarrow> TestResult list \<Rightarrow> bool" where
  "extends_results rs rs' = (length rs \<le> length rs' \<and> (\<forall>j < length rs. tr_name (rs' ! j) = tr_name (rs ! j) \<and>
     tr_nodes (rs' ! j) = tr_nodes (rs ! j) \<and> (IsTerminal (tr_phase (rs ! j)) \<longrightarrow> rs' ! j = rs ! j)))"

lemma extends_results_refl: "extends_results rs rs"
  by (simp add: extends_results_def)

lemma extends_results_trans: "extends_results a b \<Longrightarrow> extends_results b c \<Longrightarrow> extends_results a c"
  unfolding extends_results_def by (metis order_less_le_trans order_trans)

lemma extends_results_fold: "(\<And>x rs. extends_results rs (f x rs)) \<Longrightarrow> extends_results rs (fold f xs rs)"
  by (induction xs arbitrary: rs) (auto intro: extends_results_refl extends_results_trans)

lemma result_index_cong:
  "map tr_name rs = map tr_name rs' \<Longrightarrow> map tr_nodes rs = map tr_nodes rs' \<Longrightarrow> result_index k rs name node = result_index k rs' name node"
proof (induction rs arbitrary: rs' k)
  case (Cons r rs)
  then show ?case by (cases rs') auto
qed simp

lemma result_index_append: "result_index k rs name node = Some i \<Longrightarrow> result_index k (rs @ zs) name node = Some i"
  by (induction k rs name node rule: result_index.induct) (auto split: if_splits)

lemma resultFor_extends:
  assumes "resultFor rs name node = Some i" and "extends_results rs rs'"
  shows "resultFor rs' name node = Some i"
proof -
  let ?pre = "take (length rs) rs'"
  have "map tr_name ?pre = map tr_name rs" "map tr_nodes ?pre = map tr_nodes rs"
    using assms(2) by (auto simp: extends_results_def intro: nth_equalityI)
  then have "result_index 0 ?pre name node = Some i" using assms(1) result_index_cong by (metis resultFor_def)
  from result_index_append[OF this, of "drop (length rs) rs'"] show ?thesis by (simp add: resultFor_def)
qed

lemma settle_one_keeps:
  "tr_name (settle_one now phase m res) = tr_name res" "tr_nodes (settle_one now phase m res) = tr_nodes res"
  "IsTerminal (tr_phase res) \<Longrightarrow> settle_one now phase m res = res"
  "IsTerminal phase \<Longrightarrow> IsTerminal (tr_phase (settle_one now phase m res))"
  by (simp_all add: settle_one_def Let_def)

lemma settle_at_extends: "extends_results rs (rs[i := settle_one now phase m (rs ! i)])"
  by (cases "i < length rs") (auto simp: extends_results_def settle_one_keeps nth_list_update)

lemma settle_unit_extends: "extends_results rs (settle_unit now phase m t nodes rs)"
proof -
  obtain rs' i where e: "ensureResult rs t nodes = (rs', i)" by (cases "ensureResult rs t nodes")
  have "extends_results rs rs'" using ensureResult_spec(2)[OF e] by (auto simp: extends_results_def nth_append)
  then show ?thesis using settle_at_extends extends_results_trans by (simp add: settle_unit_def e)
qed

lemma settle_test_extends: "extends_results rs (settle_test now phase m p t rs)"
  by (auto simp: settle_test_def intro!: extends_results_refl extends_results_fold settle_unit_extends split: option.splits)

lemma ensureResult_finds:
  assumes "ensureResult rs t nodes = (rs', i)" and "hd nodes = [] \<or> hd nodes \<in> set nodes"
  shows "resultFor rs' (pl_name t) (hd nodes) = Some i"
proof (cases "resultFor rs (pl_name t) (hd nodes)")
  case None
  have "result_index k (rs @ [new_result t nodes]) (pl_name t) (hd nodes) = Some (k + length rs)"
    if "result_index k rs (pl_name t) (hd nodes) = None" for k
    using that assms(2) by (induction rs arbitrary: k) (auto simp: new_result_def split: if_splits)
  from this[of 0] show ?thesis using assms(1) None by (auto simp: ensureResult_def resultFor_def)
qed (use assms(1) in \<open>simp add: ensureResult_def\<close>)

lemma settle_unit_settles:
  assumes "IsTerminal phase" and "nodes \<noteq> []"
  shows "\<exists>i < length (settle_unit now phase m t nodes rs). resultFor (settle_unit now phase m t nodes rs) (pl_name t) (hd nodes) = Some i \<and>
    IsTerminal (tr_phase (settle_unit now phase m t nodes rs ! i))"
proof -
  obtain rs' i where e: "ensureResult rs t nodes = (rs', i)" by (cases "ensureResult rs t nodes")
  have u: "settle_unit now phase m t nodes rs = rs'[i := settle_one now phase m (rs' ! i)]" by (simp add: settle_unit_def e)
  have "resultFor rs' (pl_name t) (hd nodes) = Some i" using ensureResult_finds[OF e] assms(2) by simp
  from resultFor_extends[OF this settle_at_extends] show ?thesis unfolding u using ensureResult_spec(1)[OF e] assms(1)
    by (auto simp: settle_one_keeps intro!: exI[of _ i])
qed

text \<open>Whether the wind-up has dealt with a unit of work.\<close>

definition unit_settled :: "TestResult list \<Rightarrow> PlanTest \<Rightarrow> string list \<Rightarrow> bool" where
  "unit_settled rs t nodes =
     ((case resultFor rs (pl_name t) [] of Some i \<Rightarrow> tr_nodes (rs ! i) = [] | None \<Rightarrow> False) \<or>
      (case resultFor rs (pl_name t) (hd nodes) of Some i \<Rightarrow> IsTerminal (tr_phase (rs ! i)) | None \<Rightarrow> False))"

lemma resultFor_bound: "resultFor rs name node = Some i \<Longrightarrow> i < length rs"
  using result_index_bound[of 0] by (simp add: resultFor_def)

lemma unit_settled_extends:
  assumes "unit_settled rs t nodes" and "extends_results rs rs'"
  shows "unit_settled rs' t nodes"
proof -
  have keep: "resultFor rs' name node = Some i \<and> tr_nodes (rs' ! i) = tr_nodes (rs ! i) \<and> (IsTerminal (tr_phase (rs ! i)) \<longrightarrow> rs' ! i = rs ! i)"
    if "resultFor rs name node = Some i" for name node i
    using resultFor_extends[OF that assms(2)] resultFor_bound[OF that] assms(2) by (simp add: extends_results_def)
  show ?thesis using assms(1) unfolding unit_settled_def
    by (auto split: option.splits dest!: keep)
qed

lemma fold_settles:
  assumes "\<And>x rs. extends_results rs (f x rs)" and "x \<in> set xs" and "\<And>rs. unit_settled (f x rs) t nodes"
  shows "unit_settled (fold f xs rs) t nodes"
  using assms(2)
proof (induction xs arbitrary: rs)
  case (Cons y ys)
  show ?case
  proof (cases "x = y")
    case True
    then show ?thesis using assms(3) unit_settled_extends extends_results_fold[of f, OF assms(1)] by (simp; blast)
  next
    case False
    then show ?thesis using Cons by simp
  qed
qed simp

lemma settle_test_settles:
  assumes "IsTerminal phase" and "nodes \<in> set (executionUnits p t)" and "nodes \<noteq> []"
  shows "unit_settled (settle_test now phase m p t rs) t nodes"
proof -
  have "unit_settled (settle_unit now phase m t nodes rs) t nodes" for rs
    using settle_unit_settles[OF assms(1,3), of now m t rs] by (auto simp: unit_settled_def)
  then have "unit_settled (fold (settle_unit now phase m t) (executionUnits p t) rs) t nodes"
    by (intro fold_settles[OF settle_unit_extends assms(2)])
  then show ?thesis by (auto simp: settle_test_def unit_settled_def split: option.splits)
qed

section \<open>Properties\<close>

text \<open>A test, an execution, a plan and a run for the instances below.\<close>

definition sample_test :: PlanTest where
  "sample_test = \<lparr>pl_name = ''t'', pl_required = True, pl_spec = \<lparr>ts_kind = KindThermalSoak, ts_scope = ScopeNode,
     ts_duration_seconds = 300, ts_repeat_count = None, ts_checkpoint_interval_seconds = None,
     ts_soak = None, ts_runner = None, ts_thresholds = [], ts_resource_limits = [], ts_host_network = False\<rparr>, pl_axes = [], pl_parent = []\<rparr>"

definition sample_soak :: PlanTest where
  "sample_soak = sample_test\<lparr>pl_spec := (pl_spec sample_test)\<lparr>ts_soak := Some \<lparr>sk_segment_seconds = 300, sk_abort_early = None\<rparr>\<rparr>\<rparr>"

definition sample_execution :: execution where
  "sample_execution = \<lparr>ex_now = 1, ex_pod_name = ''pod'', ex_pod = None,
     ex_parsed = empty_result\<lparr>res_verdict := VerdictPass, res_metrics := [(''gpuTempC'', ''60'')]\<rparr>\<rparr>"

definition sample_plan :: plan where
  "sample_plan = \<lparr>pn_version = 1, pn_targets = [''n''], pn_sinks = [], pn_fail_fast = False, pn_baseline = False,
     pn_profile_entries = 1, pn_tests = [sample_test]\<rparr>"

lemma sample_soak_spec: "segmentsRequired (pl_spec sample_soak) = 1" "segmentSeconds (pl_spec sample_soak) = 300"
  by (simp_all add: sample_soak_def sample_test_def segmentsRequired_def segmentSeconds_def)

lemma sample_test_spec: "segmentsRequired (pl_spec sample_test) = 0" "repeatsRequired (pl_spec sample_test) = 1"
  by (simp_all add: sample_test_def segmentsRequired_def segmentSeconds_def repeatsRequired_def)

lemma segmentsRequired_nonneg: "0 \<le> segmentsRequired spec"
  by (simp add: segmentsRequired_def Let_def)

lemma new_result_fields:
  "tr_phase (new_result t nodes) = RunRunning" "tr_repeats_required (new_result t nodes) = repeatsRequired (pl_spec t)"
  "tr_repeats_completed (new_result t nodes) = 0" "tr_error_retries (new_result t nodes) = 0"
  "tr_segments_required (new_result t nodes) = segmentsRequired (pl_spec t)" "tr_segments_completed (new_result t nodes) = 0"
  "tr_aggregated_metrics (new_result t nodes) = []"
  by (simp_all add: new_result_def)

text \<open>How many executions a test asks for when none of them errors.\<close>

definition units_required :: "PlanTest \<Rightarrow> int" where
  "units_required t = (if segmentsRequired (pl_spec t) > 0 then segmentsRequired (pl_spec t) else repeatsRequired (pl_spec t))"

text \<open>
  C8. Every result settles. Whatever its executions report, a result is terminal after
  at most as many executions as the test has repeats or segments, plus the run's limit of
  error retries: no sequence of passes, failures, skips and errors keeps it open.
\<close>

theorem executions_always_settle:
  assumes "0 \<le> limit" and "units_required t + limit \<le> int (length es)"
  shows "IsTerminal (tr_phase (run_attempts_all limit t nodes es (new_result t nodes)))"
  using assms segmentsRequired_nonneg[of "pl_spec t"] repeatsRequired_pos[of "pl_spec t"]
  by (intro run_attempts_all_settles) (auto simp: progress_def new_result_fields units_required_def)

theorem executions_always_settle_witness:
  "IsTerminal (tr_phase (run_attempts_all 1 sample_test [''n''] [sample_execution, sample_execution] (new_result sample_test [''n''])))"
  by (rule executions_always_settle) (simp_all add: units_required_def sample_test_spec)



text \<open>
  A soak passes on all of its segments and on nothing else. When the result of a soak
  settles Passed, exactly the required number of segments passed, its metrics are the fold of
  the readings of exactly those segments, and the thresholds of the test hold of that
  aggregate.
\<close>

theorem soak_passes_on_all_its_segments:
  assumes "0 < segmentsRequired (pl_spec t)"
    and "tr_phase (run_attempts_all limit t nodes es (new_result t nodes)) = RunPassed"
  shows "\<exists>k \<le> length es. let segs = passed_segments t (take k es); r = run_attempts_all limit t nodes es (new_result t nodes) in
    int (length segs) = segmentsRequired (pl_spec t) \<and> tr_metrics r = foldl foldMetrics [] segs \<and>
    out_passed (Evaluate (tr_metrics r) (unmeasurableSet (tr_unmeasurable r)) (ts_thresholds (pl_spec t)))"
  using run_attempts_all_soak[of "new_result t nodes" limit t nodes es] assms by (simp add: new_result_fields)

theorem soak_passes_on_all_its_segments_witness:
  "let r = run_attempts_all 0 sample_soak [''n''] [sample_execution] (new_result sample_soak [''n'']) in
     \<exists>k \<le> 1. let segs = passed_segments sample_soak (take k [sample_execution]) in
       length segs = 1 \<and> tr_metrics r = foldl foldMetrics [] segs"
proof -
  have "tr_phase (run_attempts_all 0 sample_soak [''n''] [sample_execution] (new_result sample_soak [''n''])) = RunPassed"
    by code_simp
  from soak_passes_on_all_its_segments[OF _ this] show ?thesis by (auto simp: Let_def sample_soak_spec)
qed

text \<open>
  Completing an attempt is local. It changes the result of its own unit of work only,
  leaves the counts of the run exact, and delivers the result to the sinks exactly when
  this attempt settles it.
\<close>

theorem completeAttempt_is_local:
  assumes "counted run" and "ensureResult (st_results (run_status run)) t nodes = (rs, i)"
    and "\<not> IsTerminal (tr_phase (rs ! i))"
    and "completeAttempt now run t nodes n pname pod parsed = (run', key)"
  shows "counted run' \<and> length (st_results (run_status run')) = length rs \<and>
    (\<forall>j < length rs. j \<noteq> i \<longrightarrow> st_results (run_status run') ! j = rs ! j) \<and>
    (key \<noteq> None \<longleftrightarrow> IsTerminal (tr_phase (st_results (run_status run') ! i)))"
proof -
  let ?c = "complete_result now (retryOnErrorLimit run) t n pname parsed (begin_result now nodes n pod (rs ! i))"
  note b = counters_fields(1)[OF begin_result_counters(1), of now nodes n pod "rs ! i"]
  note m = complete_result_moves[where now = now and limit = "retryOnErrorLimit run" and t = t and n = n and pn = pname and
      parsed = parsed and ?res0.0 = "begin_result now nodes n pod (rs ! i)"]
  define run1 where "run1 = run\<lparr>run_status := (run_status run)\<lparr>st_results := rs[i := fst ?c]\<rparr>\<rparr>"
  have i: "i < length rs" by (rule ensureResult_spec(1)[OF assms(2)])
  have rs: "count_phase ph rs = count_phase ph (st_results (run_status run))" if "IsTerminal ph" for ph
    using ensureResult_counts[OF that, of "st_results (run_status run)" t nodes] by (simp add: assms(2))
  have s: "snd ?c \<longleftrightarrow> IsTerminal (tr_phase (fst ?c))" using m(1) m(2)[THEN conjunct1] assms(3) b by metis
  have "counted run1" if "\<not> snd ?c"
    unfolding run1_def using assms(1) count_phase_update[OF i] m(2)[OF that] b rs by (intro counted_results) auto
  moreover have "run' = run1 \<and> \<not> snd ?c \<or> run' = recount run1" "key \<noteq> None \<longleftrightarrow> snd ?c"
    using assms(2,4) by (auto simp: completeAttempt_def Let_def run1_def case_prod_unfold split: if_splits)
  moreover have "st_results (run_status (recount run1)) = rs[i := fst ?c]" "st_results (run_status run1) = rs[i := fst ?c]"
    by (simp_all add: recount_def run1_def Let_def)
  ultimately show ?thesis using s i by auto
qed

theorem completeAttempt_is_local_witness:
  "counted (fst (completeAttempt 1 (new_run ''u'' 0 [''n'']) sample_test [''n''] 1 ''pod'' None (ex_parsed sample_execution)))"
proof -
  have "counted (new_run ''u'' 0 [''n''])" by (simp add: counted_def new_run_def Let_def count_phase_def)
  moreover have "ensureResult (st_results (run_status (new_run ''u'' 0 [''n'']))) sample_test [''n''] = ([new_result sample_test [''n'']], 0)"
    by (simp add: new_run_def ensureResult_def resultFor_def)
  moreover have "\<not> IsTerminal (tr_phase ([new_result sample_test [''n'']] ! 0))" by (simp add: new_result_fields)
  ultimately show ?thesis by (rule completeAttempt_is_local[OF _ _ _ prod.collapse[symmetric], THEN conjunct1])
qed

text \<open>
  C23. Winding a run up leaves nothing open. When a run is cancelled, expires or stops at a
  failure, \<^verbatim>\<open>settleRemaining\<close> gives every planned unit of work a terminal result (unless the whole
  test was settled without a node), never rewrites a result that was settled, keeps the
  name and the nodes of every result, and leaves the counts exact.
\<close>

theorem settleRemaining_leaves_nothing_open:
  assumes "IsTerminal phase" and "t \<in> set (pn_tests p)" and "nodes \<in> set (executionUnits p t)" and "nodes \<noteq> []"
  shows "unit_settled (st_results (run_status (settleRemaining now p phase m run))) t nodes \<and>
    extends_results (st_results (run_status run)) (st_results (run_status (settleRemaining now p phase m run))) \<and>
    counted (settleRemaining now p phase m run)"
proof -
  have "st_results (run_status (settleRemaining now p phase m run)) =
      fold (settle_test now phase m p) (pn_tests p) (st_results (run_status run))"
    by (simp add: settleRemaining_def recount_def Let_def)
  then show ?thesis
    using fold_settles[of "settle_test now phase m p", OF settle_test_extends assms(2) settle_test_settles[OF assms(1,3,4)]]
      extends_results_fold[of "settle_test now phase m p", OF settle_test_extends]
    by (simp add: settleRemaining_def[of now p phase m run])
qed

theorem settleRemaining_leaves_nothing_open_witness:
  "unit_settled (st_results (run_status (settleRemaining 5 sample_plan RunCancelled (Text ''stop'') (new_run ''u'' 0 [''n'']))))
     sample_test [''n'']"
  using settleRemaining_leaves_nothing_open[of RunCancelled sample_test sample_plan "[''n'']"]
  by (simp add: sample_plan_def sample_test_def executionUnits_def)

end
