(* ===== verification/Group_Fold.thy ===== *)
theory Group_Fold
  imports Runner_Parse
begin

text \<open>
  \<^verbatim>\<open>pkg/group/group.go\<close>: the reports of the ranks of a collective folded into one. Ranks are
  listed as the caller hands them over. Each of the three passes of \<^verbatim>\<open>Combine\<close> is a fold;
  below them, \<open>group_value\<close> says per metric what they compute.
\<close>

definition RootRank :: int where
  "RootRank = 0"

record Rank =
  rk_rank :: int
  rk_node :: string
  rk_result :: "Result option"

record Reading =
  rd_rank :: int
  rd_value :: string

record Combined =
  cb_metrics :: "string gomap"
  cb_unmeasurable :: nameset
  cb_invalid_names :: "string list"
  cb_verdict :: Verdict
  cb_exit_code :: int
  cb_readings :: "Reading list gomap"

section \<open>The verdict of the group\<close>

fun exitCodeOf :: "Rank list \<Rightarrow> int \<Rightarrow> int" where
  "exitCodeOf [] want = -1"
| "exitCodeOf (m # ranks) want = (case rk_result m of
     Some r \<Rightarrow> if rk_rank m = want then res_exit_code r else exitCodeOf ranks want
   | None \<Rightarrow> exitCodeOf ranks want)"

fun first_with :: "Verdict \<Rightarrow> Rank list \<Rightarrow> int option" where
  "first_with want [] = None"
| "first_with want (m # ranks) = (case rk_result m of
     Some r \<Rightarrow> if res_verdict r = want then Some (res_exit_code r) else first_with want ranks
   | None \<Rightarrow> first_with want ranks)"

definition reported :: "Rank list \<Rightarrow> nat" where
  "reported ranks = length (filter (\<lambda>m. rk_result m \<noteq> None) ranks)"

definition group_Verdict :: "Rank list \<Rightarrow> Verdict \<times> int" where
  "group_Verdict ranks =
     (if reported ranks = 0 \<or> ranks = [] then (VerdictError, -1)
      else (case first_with VerdictError ranks of
        Some code \<Rightarrow> (VerdictError, code)
      | None \<Rightarrow> (case first_with VerdictFail ranks of
          Some code \<Rightarrow> (VerdictFail, code)
        | None \<Rightarrow>
            if reported ranks \<noteq> length ranks then (VerdictError, exitCodeOf ranks RootRank)
            else (case first_with VerdictSkip ranks of
              Some code \<Rightarrow> (VerdictSkip, code)
            | None \<Rightarrow> (VerdictPass, exitCodeOf ranks RootRank)))))"

definition Missing :: "Rank list \<Rightarrow> int list" where
  "Missing ranks = sort (map rk_rank (filter (\<lambda>m. rk_result m = None) ranks))"

section \<open>Electing a value\<close>

definition combine_step :: "Combination \<Rightarrow> float64 \<Rightarrow> float64 \<Rightarrow> float64" where
  "combine_step c acc f = (case c of
     CombineSum \<Rightarrow> fadd acc f
   | CombineMax \<Rightarrow> if flt acc f then f else acc
   | CombineMin \<Rightarrow> if flt f acc then f else acc
   | _ \<Rightarrow> acc)"

fun combine_rest :: "Combination \<Rightarrow> float64 \<Rightarrow> Reading list \<Rightarrow> float64 option" where
  "combine_rest c acc [] = Some acc"
| "combine_rest c acc (rv # rest) = (case ParseFloat (rd_value rv) of
     None \<Rightarrow> None | Some f \<Rightarrow> combine_rest c (combine_step c acc f) rest)"

fun combineNumeric :: "Combination \<Rightarrow> Reading list \<Rightarrow> string option" where
  "combineNumeric c [] = None"
| "combineNumeric c (rv # rest) = (case ParseFloat (rd_value rv) of
     None \<Rightarrow> None
   | Some acc \<Rightarrow> map_option FormatFloat (combine_rest c acc rest))"

definition lowest_reading :: "Reading \<Rightarrow> Reading list \<Rightarrow> Reading" where
  "lowest_reading v rest = foldl (\<lambda>lo rv. if rd_rank rv < rd_rank lo then rv else lo) v rest"

definition Elect :: "string \<Rightarrow> Reading list \<Rightarrow> string option" where
  "Elect key vals = (case vals of
     [] \<Rightarrow> None
   | v # rest \<Rightarrow>
       if list_ex (\<lambda>rv. rd_value rv = Unmeasurable) vals then None
       else (case CombinationFor key of
         CombineCollective \<Rightarrow> Some (rd_value (lowest_reading v rest))
       | CombineUnclassified \<Rightarrow>
           if list_all (\<lambda>rv. rd_value rv = rd_value v) rest then Some (rd_value (lowest_reading v rest)) else None
       | c \<Rightarrow> combineNumeric c vals))"

section \<open>Combine\<close>

definition readings_at :: "Reading list gomap \<Rightarrow> string \<Rightarrow> Reading list" where
  "readings_at m k = (case mget m k of Some rs \<Rightarrow> rs | None \<Rightarrow> [])"

definition add_reading :: "int \<Rightarrow> string \<times> string \<Rightarrow> Combined \<Rightarrow> Combined" where
  "add_reading rank kv out = (case kv of (k, v) \<Rightarrow> out\<lparr>
     cb_readings := mput k (readings_at (cb_readings out) k @ [\<lparr>rd_rank = rank, rd_value = v\<rparr>]) (cb_readings out),
     cb_metrics := mput k v (cb_metrics out)\<rparr>)"

definition collect_rank :: "Rank \<Rightarrow> Combined \<Rightarrow> Combined" where
  "collect_rank m out = (case rk_result m of
     None \<Rightarrow> out
   | Some r \<Rightarrow> (let out' = fold (add_reading (rk_rank m)) (res_metrics r) out
       in out'\<lparr>cb_invalid_names := cb_invalid_names out' @ res_invalid_names r\<rparr>))"

definition declare_key :: "int \<Rightarrow> string \<Rightarrow> Combined \<Rightarrow> Combined" where
  "declare_key rank k out =
     (if \<not> mhas (cb_metrics out) k then out\<lparr>cb_unmeasurable := mput k True (cb_unmeasurable out)\<rparr>
      else out\<lparr>cb_readings := mput k (readings_at (cb_readings out) k @ [\<lparr>rd_rank = rank, rd_value = Unmeasurable\<rparr>])
        (cb_readings out)\<rparr>)"

definition declare_rank :: "Rank \<Rightarrow> Combined \<Rightarrow> Combined" where
  "declare_rank m out = (case rk_result m of
     None \<Rightarrow> out | Some r \<Rightarrow> fold (declare_key (rk_rank m)) (mkeys (res_unmeasurable r)) out)"

definition elect_key :: "string \<times> Reading list \<Rightarrow> Combined \<Rightarrow> Combined" where
  "elect_key kv out = (case kv of (k, vals) \<Rightarrow> (case Elect k vals of
     None \<Rightarrow> out\<lparr>cb_metrics := mdel k (cb_metrics out), cb_unmeasurable := mput k True (cb_unmeasurable out)\<rparr>
   | Some merged \<Rightarrow> out\<lparr>cb_metrics := mput k merged (cb_metrics out)\<rparr>))"

definition combined_init :: Combined where
  "combined_init = \<lparr>cb_metrics = [], cb_unmeasurable = [], cb_invalid_names = [],
     cb_verdict = VerdictError, cb_exit_code = 0, cb_readings = []\<rparr>"

definition dedupe :: "string list \<Rightarrow> string list" where
  "dedupe xs = sort_strings (remdups xs)"

definition Combine :: "Rank list \<Rightarrow> Combined" where
  "Combine ranks =
     (let c1 = fold collect_rank (rev ranks) combined_init;
          c2 = fold declare_rank ranks c1;
          c3 = fold elect_key (cb_readings c2) c2
      in c3\<lparr>cb_invalid_names := dedupe (cb_invalid_names c3),
            cb_verdict := fst (group_Verdict ranks), cb_exit_code := snd (group_Verdict ranks)\<rparr>)"

section \<open>What the passes compute, key by key\<close>

text \<open>
  \<open>measured ranks k\<close> are the ranks' values for \<open>k\<close> in the order of the list, \<open>declared\<close> the
  declarations that it is unmeasurable.
\<close>

definition measured :: "Rank list \<Rightarrow> string \<Rightarrow> Reading list" where
  "measured ranks k = concat (map (\<lambda>m. case rk_result m of None \<Rightarrow> []
     | Some r \<Rightarrow> (case mget (res_metrics r) k of None \<Rightarrow> [] | Some v \<Rightarrow> [\<lparr>rd_rank = rk_rank m, rd_value = v\<rparr>])) ranks)"

definition declared :: "Rank list \<Rightarrow> string \<Rightarrow> Reading list" where
  "declared ranks k = concat (map (\<lambda>m. case rk_result m of None \<Rightarrow> []
     | Some r \<Rightarrow> if mhas (res_unmeasurable r) k then [\<lparr>rd_rank = rk_rank m, rd_value = Unmeasurable\<rparr>] else []) ranks)"

definition group_value :: "Rank list \<Rightarrow> string \<Rightarrow> string option" where
  "group_value ranks k = (if measured ranks k = [] then None else Elect k (measured (rev ranks) k @ declared ranks k))"

definition rank_ok :: "Rank \<Rightarrow> bool" where
  "rank_ok m = (case rk_result m of None \<Rightarrow> True | Some r \<Rightarrow> wf_map (res_metrics r) \<and> wf_map (res_unmeasurable r))"

lemma measured_rev: "measured (rev ranks) k = [] \<longleftrightarrow> measured ranks k = []"
  by (auto simp: measured_def)

lemma measured_Cons: "measured (m # ms) k = measured [m] k @ measured ms k"
  and declared_Cons: "declared (m # ms) k = declared [m] k @ declared ms k"
  by (simp_all add: measured_def declared_def)

text \<open>What a pass says of one key.\<close>

definition key_view :: "string \<Rightarrow> Combined \<Rightarrow> Reading list \<times> bool \<times> bool \<times> bool" where
  "key_view k out = (readings_at (cb_readings out) k, mhas (cb_metrics out) k, mhas (cb_readings out) k,
     flagged (cb_unmeasurable out) k)"

lemma add_readings_view:
  assumes "distinct (map fst ms)" "key_view k out = (rs, b, c, d)"
  shows "key_view k (fold (add_reading rank) ms out) =
    (rs @ (case mget ms k of None \<Rightarrow> [] | Some v \<Rightarrow> [\<lparr>rd_rank = rank, rd_value = v\<rparr>]),
     b \<or> mhas ms k, c \<or> mhas ms k, d)"
  using assms
proof (induction ms arbitrary: out rs b c)
  case Nil
  then show ?case by simp
next
  case (Cons kv ms)
  obtain j v where kv: "kv = (j, v)" by (cases kv)
  have step: "key_view k (add_reading rank kv out) =
      (if k = j then (rs @ [\<lparr>rd_rank = rank, rd_value = v\<rparr>], True, True, d) else (rs, b, c, d))"
    using Cons.prems(2) by (auto simp: key_view_def add_reading_def kv readings_at_def mget_put mhas_def)
  show ?case
  proof (cases "k = j")
    case True
    then have "mget ms k = None" using Cons.prems(1) kv by (auto simp: mget_def map_of_eq_None_iff)
    then show ?thesis using Cons.IH[of "add_reading rank kv out"] step Cons.prems(1) True
      by (simp add: kv mget_Cons mhas_def)
  next
    case False
    then show ?thesis using Cons.IH[of "add_reading rank kv out"] step Cons.prems(1)
      by (simp add: kv mget_Cons mhas_def)
  qed
qed

lemma collect_view:
  assumes "list_all rank_ok ms" "key_view k out = (rs, b, c, d)"
  shows "key_view k (fold collect_rank ms out) =
    (rs @ measured ms k, b \<or> measured ms k \<noteq> [], c \<or> measured ms k \<noteq> [], d)"
  using assms
proof (induction ms arbitrary: out rs b c)
  case Nil
  then show ?case by (simp add: measured_def)
next
  case (Cons m ms)
  have "key_view k (collect_rank m out) = (rs @ measured [m] k, b \<or> measured [m] k \<noteq> [], c \<or> measured [m] k \<noteq> [], d)"
  proof (cases "rk_result m")
    case None
    then show ?thesis using Cons.prems(2) by (simp add: collect_rank_def measured_def)
  next
    case (Some r)
    then have "distinct (map fst (res_metrics r))" using Cons.prems(1) by (simp add: rank_ok_def wf_map_def)
    from add_readings_view[OF this Cons.prems(2)] Some show ?thesis
      by (auto simp: collect_rank_def measured_def Let_def key_view_def mhas_def split: option.splits)
  qed
  from Cons.IH[OF _ this] Cons.prems(1) show ?case by (auto simp: measured_Cons[of m ms])
qed

lemma declare_keys_view:
  assumes "distinct ks" "key_view k out = (rs, b, c, d)"
  shows "key_view k (fold (declare_key rank) ks out) =
    (rs @ (if b \<and> k \<in> set ks then [\<lparr>rd_rank = rank, rd_value = Unmeasurable\<rparr>] else []),
     b, c \<or> (b \<and> k \<in> set ks), d \<or> (\<not> b \<and> k \<in> set ks))"
  using assms
proof (induction ks arbitrary: out rs c d)
  case (Cons j ks)
  have "key_view k (declare_key rank j out) =
      (if k = j then (if b then (rs @ [\<lparr>rd_rank = rank, rd_value = Unmeasurable\<rparr>], b, True, d) else (rs, b, c, True))
       else (rs, b, c, d))"
    using Cons.prems(2) by (auto simp: key_view_def declare_key_def readings_at_def mget_put mhas_put flagged_put)
  then show ?case using Cons.IH[of "declare_key rank j out"] Cons.prems(1) by (auto split: if_splits)
qed simp

lemma declare_view:
  assumes "list_all rank_ok ms" "key_view k out = (rs, b, c, d)"
  shows "key_view k (fold declare_rank ms out) =
    (rs @ (if b then declared ms k else []), b, c \<or> (b \<and> declared ms k \<noteq> []), d \<or> (\<not> b \<and> declared ms k \<noteq> []))"
  using assms
proof (induction ms arbitrary: out rs c d)
  case Nil
  then show ?case by (simp add: declared_def)
next
  case (Cons m ms)
  have "key_view k (declare_rank m out) =
    (rs @ (if b then declared [m] k else []), b, c \<or> (b \<and> declared [m] k \<noteq> []), d \<or> (\<not> b \<and> declared [m] k \<noteq> []))"
  proof (cases "rk_result m")
    case None
    then show ?thesis using Cons.prems(2) by (simp add: declare_rank_def declared_def)
  next
    case (Some r)
    then have "distinct (mkeys (res_unmeasurable r))" using Cons.prems(1) by (simp add: rank_ok_def wf_map_def mkeys_def)
    from declare_keys_view[OF this Cons.prems(2), of "rk_rank m"] Some show ?thesis
      by (auto simp: declare_rank_def declared_def set_mkeys)
  qed
  from Cons.IH[OF _ this] Cons.prems(1) show ?case by (auto simp: declared_Cons[of m ms])
qed

lemma elect_keys:
  assumes "distinct (map fst rs)"
  shows "mget (cb_metrics (fold elect_key rs out)) k =
      (case mget rs k of None \<Rightarrow> mget (cb_metrics out) k | Some vals \<Rightarrow> Elect k vals) \<and>
    (flagged (cb_unmeasurable (fold elect_key rs out)) k \<longleftrightarrow>
      flagged (cb_unmeasurable out) k \<or> (\<exists>vals. mget rs k = Some vals \<and> Elect k vals = None))"
  using assms
proof (induction rs arbitrary: out)
  case (Cons kv rs)
  obtain j vals where kv: "kv = (j, vals)" by (cases kv)
  have n: "mget rs j = None" using Cons.prems by (auto simp: kv mget_def map_of_eq_None_iff)
  show ?case using Cons.IH[of "elect_key kv out"] Cons.prems n
    by (auto simp: kv elect_key_def mget_Cons mget_put mget_del flagged_put split: option.splits)
qed auto

lemmas elect_metrics = elect_keys[THEN conjunct1] and elect_unmeasurable = elect_keys[THEN conjunct2]

text \<open>The map of readings never repeats a key.\<close>

interpretation collect_wf: loop_invariant collect_rank "\<lambda>out. wf_map (cb_readings out)"
proof
  fix out :: Combined and m assume wf: "wf_map (cb_readings out)"
  have "wf_map (cb_readings (fold (add_reading rank) ms out))" for rank ms
    using wf by (induction ms arbitrary: out) (auto simp: add_reading_def split: prod.splits)
  then show "wf_map (cb_readings (collect_rank m out))"
    using wf by (auto simp: collect_rank_def Let_def split: option.splits)
qed

interpretation declare_wf: loop_invariant declare_rank "\<lambda>out. wf_map (cb_readings out)"
proof
  fix out :: Combined and m assume wf: "wf_map (cb_readings out)"
  have "wf_map (cb_readings (fold (declare_key rank) ks out))" for rank ks
    using wf by (induction ks arbitrary: out) (auto simp: declare_key_def)
  then show "wf_map (cb_readings (declare_rank m out))"
    using wf by (auto simp: declare_rank_def split: option.splits)
qed

lemma Combine_key:
  assumes "list_all rank_ok ranks"
  shows "mget (cb_metrics (Combine ranks)) k = group_value ranks k"
    and "flagged (cb_unmeasurable (Combine ranks)) k \<longleftrightarrow>
      (if measured ranks k = [] then declared ranks k \<noteq> [] else group_value ranks k = None)"
proof -
  define c1 c2 where "c1 = fold collect_rank (rev ranks) combined_init" and "c2 = fold declare_rank ranks c1"
  have wf: "distinct (map fst (cb_readings c2))"
    using declare_wf.fold_inv[OF collect_wf.fold_inv, of combined_init ranks "rev ranks"]
    by (simp add: c1_def c2_def wf_map_def combined_init_def)
  have "key_view k combined_init = ([], False, False, False)"
    by (simp add: key_view_def combined_init_def readings_at_def)
  from declare_view[OF assms collect_view[OF _ this, of "rev ranks"]]
  have v: "key_view k c2 = (measured (rev ranks) k @ (if measured ranks k \<noteq> [] then declared ranks k else []),
      measured ranks k \<noteq> [], measured ranks k \<noteq> [], measured ranks k = [] \<and> declared ranks k \<noteq> [])"
    using assms by (auto simp: c1_def c2_def measured_rev)
  have rd: "mget (cb_readings c2) k =
      (if measured ranks k = [] then None else Some (measured (rev ranks) k @ declared ranks k))"
    using v by (auto simp: key_view_def readings_at_def mhas_def split: option.splits if_splits)
  have mt: "measured ranks k = [] \<Longrightarrow> mget (cb_metrics c2) k = None" using v by (simp add: key_view_def mhas_def)
  show "mget (cb_metrics (Combine ranks)) k = group_value ranks k"
    using elect_metrics[OF wf, of c2 k] rd mt
    by (auto simp: Combine_def Let_def c1_def[symmetric] c2_def[symmetric] group_value_def)
  show "flagged (cb_unmeasurable (Combine ranks)) k \<longleftrightarrow>
      (if measured ranks k = [] then declared ranks k \<noteq> [] else group_value ranks k = None)"
    using elect_unmeasurable[OF wf, of c2 k] rd v
    by (auto simp: Combine_def Let_def c1_def[symmetric] c2_def[symmetric] group_value_def key_view_def)
qed

section \<open>Electing bounds every rank\<close>

interpretation rank_max: bounding_fold "combine_step CombineMax" is_finite fle
  by unfold_locales (auto simp: combine_step_def float_order)

interpretation rank_min: bounding_fold "combine_step CombineMin" is_finite "\<lambda>x y. fle y x"
  by unfold_locales (auto simp: combine_step_def float_order)

lemma finite_readings:
  "list_all (\<lambda>rv. finite_reading (rd_value rv) \<noteq> None) vals \<Longrightarrow>
   \<exists>fs. list_all is_finite fs \<and> list_all2 (\<lambda>rv f. ParseFloat (rd_value rv) = Some f) vals fs"
proof (induction vals)
  case (Cons rv vals)
  then obtain fs f where "list_all is_finite fs" "list_all2 (\<lambda>rv f. ParseFloat (rd_value rv) = Some f) vals fs"
    "ParseFloat (rd_value rv) = Some f" "is_finite f" using finite_reading_Some by fastforce
  then show ?case by (intro exI[of _ "f # fs"]) simp
qed simp

lemma combine_rest_foldl:
  "list_all2 (\<lambda>rv f. ParseFloat (rd_value rv) = Some f) vals fs \<Longrightarrow>
   combine_rest c acc vals = Some (foldl (combine_step c) acc fs)"
  by (induction vals fs arbitrary: acc rule: list_all2_induct) auto

lemma combineNumeric_foldl:
  "list_all2 (\<lambda>rv f. ParseFloat (rd_value rv) = Some f) (v # vals) (f # fs) \<Longrightarrow>
   combineNumeric c (v # vals) = Some (FormatFloat (foldl (combine_step c) f fs))"
  by (simp add: combine_rest_foldl[of vals fs])

lemma FormatFloat_finite:
  assumes "ParseFloat s = Some x" "is_finite x"
  shows "finite_reading (FormatFloat x) = Some x"
  using FormatFloat_reads[OF assms(1)] assms(2) by (simp add: finite_reading_def)

lemma foldl_pick: "(\<And>a b. step a b = a \<or> step a b = b) \<Longrightarrow> foldl step a xs \<in> set (a # xs)"
  by (induction xs arbitrary: a) force+

lemma combineNumeric_bounds:
  assumes c: "c = CombineMax \<or> c = CombineMin" and fin: "list_all (\<lambda>rv. finite_reading (rd_value rv) \<noteq> None) vals"
    and e: "combineNumeric c vals = Some s"
  obtains x where "finite_reading s = Some x"
    and "\<And>rv y. rv \<in> set vals \<Longrightarrow> finite_reading (rd_value rv) = Some y \<Longrightarrow> (if c = CombineMax then fle y x else fle x y)"
proof -
  obtain fs where fs: "list_all is_finite fs" "list_all2 (\<lambda>rv f. ParseFloat (rd_value rv) = Some f) vals fs"
    using finite_readings[OF fin] by blast
  obtain v vals' f fs' where l: "vals = v # vals'" "fs = f # fs'" using fs(2) e by (cases vals; cases fs) auto
  define x where "x = foldl (combine_step c) f fs'"
  have s: "s = FormatFloat x" using combineNumeric_foldl[OF fs(2)[unfolded l], of c] e unfolding l x_def by simp
  have b: "is_finite x \<and> list_all (\<lambda>y. if c = CombineMax then fle y x else fle x y) (f # fs')"
    using c rank_max.foldl_bound[of f fs'] rank_min.foldl_bound[of f fs'] fs(1) l by (auto simp: x_def)
  have "x \<in> set fs" using foldl_pick[of "combine_step c" f fs'] c l by (auto simp: x_def combine_step_def)
  then obtain i where "i < length fs" "fs ! i = x" by (auto simp: in_set_conv_nth)
  then have "ParseFloat (rd_value (vals ! i)) = Some x" using fs(2) by (auto simp: list_all2_conv_all_nth)
  then have "finite_reading s = Some x" using FormatFloat_finite b s by blast
  moreover have "if c = CombineMax then fle y x else fle x y"
    if a: "rv \<in> set vals" "finite_reading (rd_value rv) = Some y" for rv y
  proof -
    obtain i where i: "i < length vals" "vals ! i = rv" using a(1) by (auto simp: in_set_conv_nth)
    then have "ParseFloat (rd_value rv) = Some (fs ! i)" "i < length fs" using fs(2) by (auto simp: list_all2_conv_all_nth)
    then have "y \<in> set fs" using finite_reading_Some[OF a(2)] by auto
    then show ?thesis using b l by (auto simp: list_all_iff)
  qed
  ultimately show thesis using that by blast
qed

lemma group_value_measured:
  "group_value ranks k = Some s \<Longrightarrow> declared ranks k = [] \<and> measured ranks k \<noteq> [] \<and> Elect k (measured (rev ranks) k) = Some s"
proof -
  assume g: "group_value ranks k = Some s"
  have "\<forall>rv \<in> set (declared ranks k). rd_value rv = Unmeasurable"
    by (auto simp: declared_def split: option.splits if_splits)
  moreover have "Elect k (vs @ d) = None" if "d \<noteq> []" "\<forall>rv \<in> set d. rd_value rv = Unmeasurable" for vs d
  proof -
    have "list_ex (\<lambda>rv. rd_value rv = Unmeasurable) (vs @ d)" using that by (cases d) auto
    then show ?thesis by (simp only: Elect_def if_True split: list.splits) simp
  qed
  ultimately show ?thesis using g by (cases "declared ranks k = []") (auto simp: group_value_def split: if_splits)
qed

lemma measured_in: "m \<in> set ranks \<Longrightarrow> rk_result m = Some r \<Longrightarrow> mget (res_metrics r) k = Some v \<Longrightarrow>
    \<lparr>rd_rank = rk_rank m, rd_value = v\<rparr> \<in> set (measured ranks k)"
  by (force simp: measured_def)

lemma declared_in: "m \<in> set ranks \<Longrightarrow> rk_result m = Some r \<Longrightarrow> mhas (res_unmeasurable r) k \<Longrightarrow> declared ranks k \<noteq> []"
  by (force simp: declared_def)

lemma set_measured_rev: "set (measured (rev ranks) k) = set (measured ranks k)"
  by (auto simp: measured_def)

lemma Elect_extremum:
  assumes "Elect k vals = Some s" "CombinationFor k = c" "c = CombineMax \<or> c = CombineMin"
  shows "combineNumeric c vals = Some s"
  using assms(3)
proof
  assume "c = CombineMax"
  then show ?thesis using assms(1,2) by (auto simp: Elect_def simp del: combineNumeric.simps split: list.splits if_splits)
next
  assume "c = CombineMin"
  then show ?thesis using assms(1,2) by (auto simp: Elect_def simp del: combineNumeric.simps split: list.splits if_splits)
qed

lemma group_gate_bounds_rank:
  assumes g: "group_value ranks k = Some s" and fin: "list_all (\<lambda>rv. finite_reading (rd_value rv) \<noteq> None) (measured ranks k)"
    and d: "CombinationFor k = CombineMax \<and> op = LTE \<or> CombinationFor k = CombineMin \<and> op = GTE"
    and rv: "rv \<in> set (measured ranks k)" and w: "finite_reading s = Some x" "is_finite want" "compare_f x op want"
  obtains y where "finite_reading (rd_value rv) = Some y" "compare_f y op want"
proof -
  have c: "CombinationFor k = CombineMax \<or> CombinationFor k = CombineMin" using d by auto
  have fin': "list_all (\<lambda>rv. finite_reading (rd_value rv) \<noteq> None) (measured (rev ranks) k)"
    using fin by (simp add: list_all_iff set_measured_rev)
  have e: "combineNumeric (CombinationFor k) (measured (rev ranks) k) = Some s"
    using Elect_extremum[OF _ refl c] group_value_measured[OF g] by blast
  obtain x' where x': "finite_reading s = Some x'"
    "\<And>rv y. rv \<in> set (measured (rev ranks) k) \<Longrightarrow> finite_reading (rd_value rv) = Some y \<Longrightarrow>
      (if CombinationFor k = CombineMax then fle y x' else fle x' y)"
    using combineNumeric_bounds[OF c fin' e] by blast
  obtain y where y: "finite_reading (rd_value rv) = Some y" using fin rv by (auto simp: list_all_iff)
  have f: "is_finite x" "is_finite y" "x' = x" using w(1) y x'(1) finite_reading_Some by auto
  have "compare_f y op want"
    using x'(2)[of rv y] rv y d w(2,3) f by (auto simp: set_measured_rev float_order)
  then show thesis using that y by blast
qed

section \<open>The verdict, characterised\<close>

definition says :: "Verdict \<Rightarrow> Rank \<Rightarrow> bool" where
  "says v m = (case rk_result m of None \<Rightarrow> False | Some r \<Rightarrow> res_verdict r = v)"

lemma first_with_None: "first_with v ranks = None \<longleftrightarrow> list_all (\<lambda>m. \<not> says v m) ranks"
  by (induction ranks) (auto simp: says_def split: option.splits)

lemma first_with_Some: "first_with v ranks = Some c \<Longrightarrow> \<exists>m \<in> set ranks. says v m"
  by (induction ranks) (auto simp: says_def split: option.splits if_splits)

lemma reported_Cons: "reported (m # ranks) = (if rk_result m = None then 0 else 1) + reported ranks"
  by (simp add: reported_def)

lemma reported_le: "reported ranks \<le> length ranks"
  by (simp add: reported_def)

lemma reported_all: "reported ranks = length ranks \<longleftrightarrow> list_all (\<lambda>m. rk_result m \<noteq> None) ranks"
proof (induction ranks)
  case (Cons m ranks)
  then show ?case using reported_le[of ranks] by (auto simp: reported_Cons)
qed (simp add: reported_def)

lemma reported_some: "says v m \<Longrightarrow> m \<in> set ranks \<Longrightarrow> reported ranks \<noteq> 0"
  by (auto simp: reported_def says_def filter_empty_conv split: option.splits)

lemma says_cases: "rk_result m \<noteq> None \<Longrightarrow> \<exists>v. says v m"
  by (auto simp: says_def)

lemma says_unique: "says v m \<Longrightarrow> says w m \<Longrightarrow> v = w"
  by (auto simp: says_def split: option.splits)

lemma first_with_cases: "list_ex (says v) ranks \<longleftrightarrow> (\<exists>c. first_with v ranks = Some c)"
  using first_with_None[of v ranks] by (auto simp: list_all_iff list_ex_iff)

lemma group_verdict_fst:
  "fst (group_Verdict ranks) = (if list_ex (says VerdictError) ranks then VerdictError
     else if list_ex (says VerdictFail) ranks then VerdictFail
     else if ranks = [] \<or> \<not> list_all (\<lambda>m. rk_result m \<noteq> None) ranks then VerdictError
     else if list_ex (says VerdictSkip) ranks then VerdictSkip else VerdictPass)"
proof (cases "reported ranks = 0")
  case True
  then have "\<not> list_ex (says v) ranks" for v unfolding list_ex_iff using reported_some by metis
  moreover have "ranks = [] \<or> \<not> list_all (\<lambda>m. rk_result m \<noteq> None) ranks" using True reported_all[of ranks] by auto
  ultimately show ?thesis using True by (simp add: group_Verdict_def)
next
  case False
  then have "ranks \<noteq> []" by (auto simp: reported_def)
  then show ?thesis using False
    by (auto simp: group_Verdict_def first_with_cases reported_all split: option.splits)
qed

lemma all_says: "list_all (says v) ranks \<Longrightarrow> v \<noteq> w \<Longrightarrow> \<not> list_ex (says w) ranks"
  using says_unique by (auto simp: list_all_iff list_ex_iff)

lemma says_reported: "says v m \<Longrightarrow> rk_result m \<noteq> None"
  by (cases "rk_result m") (auto simp: says_def)

lemma says_pass:
  "rk_result m \<noteq> None \<Longrightarrow> \<not> says VerdictError m \<Longrightarrow> \<not> says VerdictFail m \<Longrightarrow> \<not> says VerdictSkip m \<Longrightarrow> says VerdictPass m"
  using says_cases[of m] by (metis Verdict.exhaust)

lemma group_verdict_pass:
  "fst (group_Verdict ranks) = VerdictPass \<longleftrightarrow> ranks \<noteq> [] \<and> list_all (says VerdictPass) ranks"
proof
  assume "fst (group_Verdict ranks) = VerdictPass"
  then show "ranks \<noteq> [] \<and> list_all (says VerdictPass) ranks"
    using says_pass by (auto simp: group_verdict_fst list_all_iff list_ex_iff split: if_splits)
next
  assume p: "ranks \<noteq> [] \<and> list_all (says VerdictPass) ranks"
  then have "list_all (\<lambda>m. rk_result m \<noteq> None) ranks" using says_reported by (simp only: list_all_iff) blast
  then show "fst (group_Verdict ranks) = VerdictPass" using p all_says by (auto simp: group_verdict_fst)
qed

lemma group_verdict_skip:
  "fst (group_Verdict ranks) = VerdictSkip \<longleftrightarrow>
     list_all (\<lambda>m. says VerdictPass m \<or> says VerdictSkip m) ranks \<and> list_ex (says VerdictSkip) ranks"
proof
  assume "fst (group_Verdict ranks) = VerdictSkip"
  then show "list_all (\<lambda>m. says VerdictPass m \<or> says VerdictSkip m) ranks \<and> list_ex (says VerdictSkip) ranks"
    using says_pass by (auto simp: group_verdict_fst list_all_iff list_ex_iff split: if_splits)
next
  assume p: "list_all (\<lambda>m. says VerdictPass m \<or> says VerdictSkip m) ranks \<and> list_ex (says VerdictSkip) ranks"
  then have "list_all (\<lambda>m. rk_result m \<noteq> None) ranks" using says_reported by (simp only: list_all_iff) blast
  moreover have "\<not> list_ex (says VerdictError) ranks" "\<not> list_ex (says VerdictFail) ranks"
    using p says_unique by (fastforce simp: list_all_iff list_ex_iff)+
  ultimately show "fst (group_Verdict ranks) = VerdictSkip" using p by (auto simp: group_verdict_fst)
qed

lemma group_verdict_fail:
  "fst (group_Verdict ranks) = VerdictFail \<longleftrightarrow> list_ex (says VerdictFail) ranks \<and> \<not> list_ex (says VerdictError) ranks"
  by (auto simp: group_verdict_fst)

section \<open>Properties\<close>

text \<open>
  C19. The verdict of a collective: Pass exactly when there are ranks and every one of
  them reported a Pass, so never with a rank missing; Skip exactly when every rank
  reported, none erred or failed and one skipped; Fail exactly when a rank failed and
  none erred; Error in every other case.
\<close>

theorem group_verdict_needs_full_turnout:
  "(fst (group_Verdict ranks) = VerdictPass \<longleftrightarrow> ranks \<noteq> [] \<and> list_all (says VerdictPass) ranks) \<and>
   (fst (group_Verdict ranks) = VerdictSkip \<longleftrightarrow>
      list_all (\<lambda>m. says VerdictPass m \<or> says VerdictSkip m) ranks \<and> list_ex (says VerdictSkip) ranks) \<and>
   (fst (group_Verdict ranks) = VerdictFail \<longleftrightarrow>
      list_ex (says VerdictFail) ranks \<and> \<not> list_ex (says VerdictError) ranks)"
  using group_verdict_pass group_verdict_skip group_verdict_fail by blast

text \<open>
  C20. The three passes of the fold compute, for every metric, its election over the ranks
  that measured it (highest position first) and those that declared it unmeasurable; a
  metric is unmeasurable for the group when the election refuses it, or when no rank
  measured it and one declared it. So the two sets are disjoint.
\<close>

theorem Combine_elects_each_metric:
  assumes "list_all rank_ok ranks"
  shows "mget (cb_metrics (Combine ranks)) k = group_value ranks k \<and>
    (flagged (cb_unmeasurable (Combine ranks)) k \<longleftrightarrow>
      (if measured ranks k = [] then declared ranks k \<noteq> [] else group_value ranks k = None)) \<and>
    \<not> (flagged (cb_unmeasurable (Combine ranks)) k \<and> mhas (cb_metrics (Combine ranks)) k)"
  using Combine_key[OF assms, of k] by (auto simp: mhas_def group_value_def)

theorem Combine_elects_each_metric_witness:
  "let r = \<lparr>rk_rank = 0, rk_node = ''a'', rk_result = Some (empty_result\<lparr>res_metrics := [(''driver'', ''570'')]\<rparr>)\<rparr>
   in mget (cb_metrics (Combine [r])) ''driver'' = group_value [r] ''driver''"
proof -
  have "list_all rank_ok [\<lparr>rk_rank = 0, rk_node = ''a'', rk_result = Some (empty_result\<lparr>res_metrics := [(''driver'', ''570'')]\<rparr>)\<rparr>]"
    by (simp add: rank_ok_def wf_map_def empty_result_def parse_init_def)
  from Combine_elects_each_metric[OF this] show ?thesis by (simp add: Let_def)
qed

text \<open>
  A rank that declares a metric unmeasurable is never certified on another rank's
  number: the metric has no value in the group's report and is unmeasurable there.
\<close>

theorem Combine_keeps_every_declaration:
  assumes "list_all rank_ok ranks" and "m \<in> set ranks" and "rk_result m = Some r"
    and "mhas (res_unmeasurable r) k"
  shows "\<not> mhas (cb_metrics (Combine ranks)) k \<and> flagged (cb_unmeasurable (Combine ranks)) k"
  using Combine_key[OF assms(1), of k] declared_in[OF assms(2-4)] group_value_measured[of ranks k]
  by (cases "group_value ranks k") (auto simp: mhas_def)

theorem Combine_keeps_every_declaration_witness:
  "let r0 = \<lparr>rk_rank = 0, rk_node = ''a'', rk_result = Some (empty_result\<lparr>res_metrics := [(''eccErrors'', ''0'')]\<rparr>)\<rparr>;
       r1 = \<lparr>rk_rank = 1, rk_node = ''b'', rk_result = Some (empty_result\<lparr>res_unmeasurable := [(''eccErrors'', True)]\<rparr>)\<rparr>
   in \<not> mhas (cb_metrics (Combine [r0, r1])) ''eccErrors'' \<and> flagged (cb_unmeasurable (Combine [r0, r1])) ''eccErrors''"
proof -
  let ?r0 = "\<lparr>rk_rank = 0, rk_node = ''a'', rk_result = Some (empty_result\<lparr>res_metrics := [(''eccErrors'', ''0'')]\<rparr>)\<rparr>"
  let ?r1 = "\<lparr>rk_rank = 1, rk_node = ''b'', rk_result = Some (empty_result\<lparr>res_unmeasurable := [(''eccErrors'', True)]\<rparr>)\<rparr>"
  have "list_all rank_ok [?r0, ?r1]" by (simp add: rank_ok_def wf_map_def empty_result_def parse_init_def)
  from Combine_keeps_every_declaration[OF this, of ?r1 "the (rk_result ?r1)" "''eccErrors''"]
  show ?thesis by (simp add: Let_def mhas_def[of "[_]"] mget_def[of "[_]"])
qed

text \<open>
  A passing ceiling on a metric whose ranks combine by maximum, or floor on one that
  combines by minimum, certifies every rank: each rank that measured the metric satisfies
  the gate on its own report. The readings are assumed finite.
\<close>

theorem group_pass_certifies_every_rank:
  assumes "list_all rank_ok ranks" and "th \<in> set ths" and "th_applicability th = Required"
    and "CombinationFor (th_metric th) = CombineMax \<and> th_comparison th = LTE \<or>
      CombinationFor (th_metric th) = CombineMin \<and> th_comparison th = GTE"
    and "list_all (\<lambda>rv. finite_reading (rd_value rv) \<noteq> None) (measured ranks (th_metric th))"
    and "out_passed (Evaluate (cb_metrics (Combine ranks)) (cb_unmeasurable (Combine ranks)) ths)"
    and "m \<in> set ranks" and "rk_result m = Some r" and "mhas (res_metrics r) (th_metric th)"
  shows "satisfied (res_metrics r) (res_unmeasurable r) th"
proof -
  have "satisfied (cb_metrics (Combine ranks)) (cb_unmeasurable (Combine ranks)) th"
    using assms(2,3,6) Evaluate_passed_iff by (fastforce simp: violated_def waived_def)
  then obtain s x want where s: "group_value ranks (th_metric th) = Some s" "finite_reading s = Some x"
    "finite_reading (th_value th) = Some want" "compare_f x (th_comparison th) want"
    using Combine_key(1)[OF assms(1)] by (auto simp: satisfied_def split: option.splits)
  obtain v where v: "mget (res_metrics r) (th_metric th) = Some v" using assms(9) by (auto simp: mhas_def)
  have "is_finite want" using s(3) finite_reading_Some by blast
  from group_gate_bounds_rank[OF s(1) assms(5,4) measured_in[OF assms(7,8) v] s(2) this s(4)]
  obtain y where "finite_reading v = Some y" "compare_f y (th_comparison th) want" by auto
  moreover have "\<not> flagged (res_unmeasurable r) (th_metric th)"
    using declared_in[OF assms(7,8)] group_value_measured[OF s(1)] flagged_mhas by blast
  ultimately show ?thesis using v s(3) by (simp add: satisfied_def)
qed

lemma gpuTempC_max: "CombinationFor ''gpuTempC'' = CombineMax"
  by code_simp

lemma sixty: "finite_reading ''60'' = Some (Fin 60)" "finite_reading (FormatFloat (Fin 60)) = Some (Fin 60)"
proof -
  have "''60'' = show_nat 60" by code_simp
  then have p: "ParseFloat ''60'' = Some (Fin 60)" using ParseFloat_nat[of "''60''" 60] by simp
  then show "finite_reading ''60'' = Some (Fin 60)" by (simp add: finite_reading_def)
  show "finite_reading (FormatFloat (Fin 60)) = Some (Fin 60)" using FormatFloat_finite[OF p] by simp
qed

theorem group_pass_certifies_every_rank_witness:
  "satisfied [(''gpuTempC'', ''60'')] []
     \<lparr>th_metric = ''gpuTempC'', th_comparison = LTE, th_value = ''60'', th_applicability = Required\<rparr>"
proof -
  let ?th = "\<lparr>th_metric = ''gpuTempC'', th_comparison = LTE, th_value = ''60'', th_applicability = Required\<rparr>"
  let ?r = "empty_result\<lparr>res_metrics := [(''gpuTempC'', ''60'')]\<rparr>"
  let ?m = "\<lparr>rk_rank = 0, rk_node = ''a'', rk_result = Some ?r\<rparr>"
  have ok: "list_all rank_ok [?m]" by (simp add: rank_ok_def wf_map_def empty_result_def parse_init_def)
  have ms: "measured [?m] ''gpuTempC'' = [\<lparr>rd_rank = 0, rd_value = ''60''\<rparr>]" "declared [?m] ''gpuTempC'' = []"
    by (simp_all add: measured_def declared_def mget_def mhas_def empty_result_def parse_init_def)
  have "group_value [?m] ''gpuTempC'' = Some (FormatFloat (Fin 60))"
    using ms finite_reading_Some[OF sixty(1)]
    by (simp add: group_value_def Elect_def gpuTempC_max Unmeasurable_def)
  then have "out_passed (Evaluate (cb_metrics (Combine [?m])) (cb_unmeasurable (Combine [?m])) [?th])"
    using Combine_key[OF ok, of "''gpuTempC''"] ms sixty
    by (simp add: Evaluate_passed_iff violated_def satisfied_def fle_refl_finite)
  from group_pass_certifies_every_rank[OF ok _ _ _ _ this, of ?th ?m ?r]
  show ?thesis using ms sixty
    by (simp add: gpuTempC_max mhas_def mget_def empty_result_def parse_init_def Let_def)
qed

text \<open>
  The finiteness assumption is needed. With two ranks, where the second reads 60 and the
  first reads NaN, the group's maximum is 60: a ceiling of 60 passes for the group, although
  the first rank's own report fails it.
\<close>

theorem group_max_drops_a_NaN:
  "let r0 = empty_result\<lparr>res_metrics := [(''gpuTempC'', ''NaN'')]\<rparr>;
       r1 = empty_result\<lparr>res_metrics := [(''gpuTempC'', ''60'')]\<rparr>;
       ranks = [\<lparr>rk_rank = 0, rk_node = ''a'', rk_result = Some r0\<rparr>, \<lparr>rk_rank = 1, rk_node = ''b'', rk_result = Some r1\<rparr>];
       ths = [\<lparr>th_metric = ''gpuTempC'', th_comparison = LTE, th_value = ''60'', th_applicability = Required\<rparr>]
   in out_passed (Evaluate (cb_metrics (Combine ranks)) (cb_unmeasurable (Combine ranks)) ths) \<and>
      \<not> out_passed (Evaluate (res_metrics r0) (res_unmeasurable r0) ths)"
proof -
  let ?r0 = "empty_result\<lparr>res_metrics := [(''gpuTempC'', ''NaN'')]\<rparr>"
  let ?r1 = "empty_result\<lparr>res_metrics := [(''gpuTempC'', ''60'')]\<rparr>"
  let ?ranks = "[\<lparr>rk_rank = 0, rk_node = ''a'', rk_result = Some ?r0\<rparr>, \<lparr>rk_rank = 1, rk_node = ''b'', rk_result = Some ?r1\<rparr>]"
  have ok: "list_all rank_ok ?ranks" by (simp add: rank_ok_def wf_map_def empty_result_def parse_init_def)
  have ms: "measured (rev ?ranks) ''gpuTempC'' = [\<lparr>rd_rank = 1, rd_value = ''60''\<rparr>, \<lparr>rd_rank = 0, rd_value = ''NaN''\<rparr>]"
    "measured ?ranks ''gpuTempC'' \<noteq> []" "declared ?ranks ''gpuTempC'' = []"
    by (simp_all add: measured_def declared_def mget_def mhas_def empty_result_def parse_init_def)
  have nan: "ParseFloat ''NaN'' = Some NaN" by code_simp
  have "group_value ?ranks ''gpuTempC'' = Some (FormatFloat (Fin 60))"
    using ms finite_reading_Some[OF sixty(1)] nan
    by (simp add: group_value_def Elect_def gpuTempC_max Unmeasurable_def combine_step_def)
  then show ?thesis
    using Combine_key[OF ok, of "''gpuTempC''"] ms sixty nan
    by (simp add: Let_def Evaluate_passed_iff violated_def satisfied_def waived_def fle_refl_finite mget_def
        finite_reading_def empty_result_def parse_init_def is_finite_def)
qed

text \<open>The exit code of an Error is that of the first rank of the list that erred, whatever its number.\<close>

lemma error_exit_code_is_first_in_list:
  "group_Verdict [\<lparr>rk_rank = 1, rk_node = ''b'', rk_result = Some (empty_result\<lparr>res_verdict := VerdictError, res_exit_code := 5\<rparr>)\<rparr>,
     \<lparr>rk_rank = 0, rk_node = ''a'', rk_result = Some (empty_result\<lparr>res_verdict := VerdictError, res_exit_code := 3\<rparr>)\<rparr>] = (VerdictError, 5)"
  by (simp add: group_Verdict_def reported_def)

end
