(* ===== verification/Kube_Api.thy ===== *)
theory Kube_Api
  imports Go_Strings
begin

text \<open>
  What the controllers ask of the API server. The objects are maps in the state of the model; what
  the server answers to a call beyond their presence is the parameter \<open>api\<close>: \<open>None\<close> is
  success. The number of an update tells the updates of one pass apart.
\<close>

datatype ApiErr = ApiNotFound | ApiOther string

datatype ApiCall =
    GetNode string | UpdateNode string nat | ListNodes | GetRun string string
  | GetPod string | ListPods | CreatePod string | DeletePod string | CreateService string
  | GetConfigMap string | WriteConfigMap string
  | UpdateRun nat | UpdateStatus nat | DeleteRun

type_synonym api = "ApiCall \<Rightarrow> ApiErr option"

text \<open>An error as \<^verbatim>\<open>%v\<close> prints it, for a resource and a name.\<close>

fun err_text :: "string \<Rightarrow> string \<Rightarrow> ApiErr \<Rightarrow> string" where
  "err_text resource name ApiNotFound = resource @ '' '' @ Quote name @ '' not found''"
| "err_text resource name (ApiOther e) = e"

text \<open>\<^verbatim>\<open>client.IgnoreNotFound\<close>.\<close>

definition ignore_not_found :: "ApiErr option \<Rightarrow> ApiErr option" where
  "ignore_not_found e = (if e = Some ApiNotFound then None else e)"

end
