(* ===== verification/Artifact_Store.thy ===== *)
theory Artifact_Store
  imports Attempts Admission Kube_Api
begin

text \<open>
  \<^verbatim>\<open>internal/controller/artifacts.go\<close>: the artifacts of a harvested pod go into one ConfigMap of the
  run, within a budget, and references to them into the result. ConfigMaps are a map
  from names.
\<close>

section \<open>utf8.ValidString\<close>

text \<open>For a lead byte of a multi-byte rune: the range of the second byte and how many more follow.\<close>

definition utf8_lead :: "int \<Rightarrow> (int \<times> int \<times> nat) option" where
  "utf8_lead n =
     (if 194 \<le> n \<and> n \<le> 223 then Some (128, 191, 0)
      else if n = 224 then Some (160, 191, 1)
      else if n = 237 then Some (128, 159, 1)
      else if 225 \<le> n \<and> n \<le> 239 then Some (128, 191, 1)
      else if n = 240 then Some (144, 191, 2)
      else if 241 \<le> n \<and> n \<le> 243 then Some (128, 191, 2)
      else if n = 244 then Some (128, 143, 2)
      else None)"

definition continues :: "char \<Rightarrow> bool" where
  "continues c = (128 \<le> (of_char c :: int) \<and> (of_char c :: int) \<le> 191)"

fun ValidString :: "string \<Rightarrow> bool" where
  "ValidString [] = True"
| "ValidString (b # bs) =
     (if (of_char b :: int) < 128 then ValidString bs
      else (case utf8_lead (of_char b) of
        None \<Rightarrow> False
      | Some (lo, hi, k) \<Rightarrow> (case bs of
          [] \<Rightarrow> False
        | c # cs \<Rightarrow> lo \<le> (of_char c :: int) \<and> (of_char c :: int) \<le> hi \<and> k \<le> length cs \<and>
            list_all continues (take k cs) \<and> ValidString (drop k cs))))"

section \<open>The store\<close>

record ConfigMap =
  cm_data :: "string gomap"
  cm_binary :: "string gomap"
  cm_labels :: "string gomap"
  cm_owner_uid :: string

definition maxRunArtifactBytes :: nat where
  "maxRunArtifactBytes = 900 * 1024"

definition artifactConfigMapSuffix :: string where
  "artifactConfigMapSuffix = ''-artifacts''"

definition artifactConfigMapName :: "BurnInRun \<Rightarrow> string" where
  "artifactConfigMapName run = run_name run @ artifactConfigMapSuffix"

definition new_config_map :: "BurnInRun \<Rightarrow> ConfigMap" where
  "new_config_map run = \<lparr>cm_data = [], cm_binary = [], cm_labels = [(labelRun, run_name run)], cm_owner_uid = run_uid run\<rparr>"

definition setArtifactData :: "string \<Rightarrow> string \<Rightarrow> ConfigMap \<Rightarrow> ConfigMap" where
  "setArtifactData key payload cm =
     (if ValidString payload then cm\<lparr>cm_data := mput key payload (cm_data cm), cm_binary := mdel key (cm_binary cm)\<rparr>
      else cm\<lparr>cm_binary := mput key payload (cm_binary cm), cm_data := mdel key (cm_data cm)\<rparr>)"

definition entry_bytes :: "string gomap \<Rightarrow> nat" where
  "entry_bytes m = sum_list (map (\<lambda>(k, v). length k + length v) m)"

definition configMapBytes :: "ConfigMap \<Rightarrow> nat" where
  "configMapBytes cm = entry_bytes (cm_data cm) + entry_bytes (cm_binary cm)"

definition validConfigMapKey :: "string \<Rightarrow> bool" where
  "validConfigMapKey s = (s \<noteq> ''.'' \<and> s \<noteq> ''..'' \<and>
     list_all (\<lambda>c. is_lower c \<or> is_upper c \<or> is_digit c \<or> c = CHR ''-'' \<or> c = CHR ''_'' \<or> c = CHR ''.'') s)"

definition artifactKey :: "string \<Rightarrow> string \<Rightarrow> string \<Rightarrow> string + string" where
  "artifactKey testName pname artifactName =
     (if artifactName = [] then Inl ''the artifact has no name''
      else if \<not> validConfigMapKey artifactName then
        Inl (''the runner's artifact name '' @ Quote artifactName @ '' is not usable as a ConfigMap key (alphanumerics, '' @
          [byte 39] @ ''-'' @ [byte 39] @ '', '' @ [byte 39] @ ''_'' @ [byte 39] @ '' and '' @ [byte 39] @ ''.'' @ [byte 39] @ '' only)'')
      else (let key = testName @ ''.'' @ pname @ ''.'' @ artifactName in
        if length key > 253 then Inl (''the artifact's key would be '' @ show_nat (length key) @ '' bytes, over the 253-byte limit'')
        else Inr key))"

text \<open>Why the parser refused an artifact, as the text of pkg/runner/artifact.go.\<close>

fun dropped_text :: "Dropped \<Rightarrow> string" where
  "dropped_text Kept = []"
| "dropped_text (BadHeader name) = ''the fence header '' @ Quote name @ '' is not '' @ [byte 34] @ ''<name> <mediaType>'' @ [byte 34] @
     ''; both are required and neither may contain a space''"
| "dropped_text NestedBegin = ''a BEGIN marker appeared inside the payload; encode it or split the artifact''"
| "dropped_text NeverClosed = ''the fence was never closed; a partial payload is not evidence''"
| "dropped_text (Oversized n) = ''payload is '' @ show_nat n @ '' bytes, over the '' @ show_nat MaxArtifactBytes @ ''-byte cap''"

definition ref_of :: "Artifact \<Rightarrow> ArtifactRef" where
  "ref_of a = \<lparr>ar_name = art_name a, ar_media_type = art_media_type a, ar_size_bytes = int (art_size a), ar_digest = [],
     ar_config_map = [], ar_key = [], ar_dropped = []\<rparr>"

definition dropAll :: "Artifact list \<Rightarrow> string \<Rightarrow> ArtifactRef list" where
  "dropAll artifacts reason = map (\<lambda>a. (ref_of a)\<lparr>ar_dropped := (if dropped_text (art_dropped a) = [] then reason
     else dropped_text (art_dropped a))\<rparr>) artifacts"

record storing =
  so_cm :: ConfigMap
  so_used :: nat
  so_refs :: "ArtifactRef list"
  so_wrote :: bool

definition drop_ref :: "Artifact \<Rightarrow> string \<Rightarrow> storing \<Rightarrow> storing" where
  "drop_ref a why s = s\<lparr>so_refs := so_refs s @ [(ref_of a)\<lparr>ar_dropped := why\<rparr>]\<rparr>"

definition store_one :: "string \<Rightarrow> string \<Rightarrow> string \<Rightarrow> Artifact \<Rightarrow> storing \<Rightarrow> storing" where
  "store_one cmName testName pname a s =
     (if dropped_text (art_dropped a) \<noteq> [] then drop_ref a (dropped_text (art_dropped a)) s
      else (case artifactKey testName pname (art_name a) of
        Inl e \<Rightarrow> drop_ref a e s
      | Inr key \<Rightarrow>
          if length (art_payload a) > MaxArtifactBytes
          then drop_ref a (''payload is '' @ show_nat (length (art_payload a)) @ '' bytes, over the '' @ show_nat MaxArtifactBytes @
                 ''-byte per-artifact cap'') s
          else if so_used s + length key + length (art_payload a) > maxRunArtifactBytes
          then drop_ref a (''the run's '' @ show_nat maxRunArtifactBytes @ ''-byte artifact budget is exhausted ('' @
                 show_nat (so_used s) @ '' used); evidence not kept'') s
          else \<lparr>so_cm = setArtifactData key (art_payload a) (so_cm s),
                 so_used = so_used s + length key + length (art_payload a),
                 so_refs = so_refs s @ [(ref_of a)\<lparr>ar_digest := art_digest a, ar_config_map := cmName, ar_key := key\<rparr>],
                 so_wrote = True\<rparr>))"

definition unwritten :: "string \<Rightarrow> ArtifactRef \<Rightarrow> ArtifactRef" where
  "unwritten why r = (if ar_dropped r = [] then r\<lparr>ar_config_map := [], ar_key := [], ar_digest := [], ar_dropped := why\<rparr> else r)"

text \<open>\<^verbatim>\<open>upsertConfigMap\<close>: a map read before is updated, another is created, which fails when one exists.\<close>

definition upsert_error :: "api \<Rightarrow> bool \<Rightarrow> string \<Rightarrow> ConfigMap gomap \<Rightarrow> ApiErr option" where
  "upsert_error api create cmName cms = (case api (WriteConfigMap cmName) of
     Some e \<Rightarrow> Some e
   | None \<Rightarrow> if create \<and> mhas cms cmName then Some (ApiOther (''configmaps '' @ Quote cmName @ '' already exists'')) else None)"

definition storeArtifacts ::
  "api \<Rightarrow> BurnInRun \<Rightarrow> string \<Rightarrow> string \<Rightarrow> Artifact list \<Rightarrow> ConfigMap gomap \<Rightarrow> ArtifactRef list \<times> ConfigMap gomap" where
  "storeArtifacts api run testName pname artifacts cms =
     (let cmName = artifactConfigMapName run;
          store = (\<lambda>cm. fold (store_one cmName testName pname) artifacts
            \<lparr>so_cm = cm, so_used = configMapBytes cm, so_refs = [], so_wrote = False\<rparr>);
          finish = (\<lambda>create s. if \<not> so_wrote s then (so_refs s, cms)
            else (case upsert_error api create cmName cms of
              Some e \<Rightarrow> (map (unwritten (''could not write '' @ cmName @ '': '' @ err_text ''configmaps'' cmName e)) (so_refs s), cms)
            | None \<Rightarrow> (so_refs s, mput cmName (so_cm s) cms)))
      in if artifacts = [] then ([], cms)
         else (case api (GetConfigMap cmName) of
           Some ApiNotFound \<Rightarrow> finish True (store (new_config_map run))
         | Some e \<Rightarrow> (dropAll artifacts (''could not read '' @ cmName @ '': '' @ err_text ''configmaps'' cmName e), cms)
         | None \<Rightarrow> (case mget cms cmName of
             Some cm \<Rightarrow> finish False (store cm) | None \<Rightarrow> finish True (store (new_config_map run)))))"

section \<open>References\<close>

definition artifactIdentity :: "ArtifactRef \<Rightarrow> string" where
  "artifactIdentity a = (if ar_key a \<noteq> [] then ''k/'' @ ar_key a else ''d/'' @ ar_name a @ [byte 0] @ ar_dropped a)"

definition add_ref :: "ArtifactRef \<Rightarrow> ArtifactRef list \<Rightarrow> ArtifactRef list" where
  "add_ref a recorded = (if artifactIdentity a \<in> set (map artifactIdentity recorded) then recorded else recorded @ [a])"

definition recordArtifacts :: "ArtifactRef list \<Rightarrow> TestResult \<Rightarrow> TestResult" where
  "recordArtifacts refs res = res\<lparr>tr_artifacts := fold add_ref refs (tr_artifacts res)\<rparr>"

definition harvestArtifacts ::
  "api \<Rightarrow> string \<Rightarrow> string list \<Rightarrow> string \<Rightarrow> Artifact list \<Rightarrow> ConfigMap gomap \<times> BurnInRun \<Rightarrow> ConfigMap gomap \<times> BurnInRun" where
  "harvestArtifacts api testName nodes pname artifacts s = (case s of (cms, run) \<Rightarrow>
     if artifacts = [] \<or> pname = [] then (cms, run)
     else (let node = (case nodes of [] \<Rightarrow> [] | n # _ \<Rightarrow> n);
               (refs, cms') = storeArtifacts api run testName pname artifacts cms;
               rs = st_results (run_status run)
           in (cms', case resultFor rs testName node of None \<Rightarrow> run
                | Some i \<Rightarrow> run\<lparr>run_status := (run_status run)\<lparr>st_results := rs[i := recordArtifacts refs (rs ! i)]\<rparr>\<rparr>)))"

section \<open>The budget\<close>

lemma entry_bytes_put: "entry_bytes (mput k v m) \<le> entry_bytes m + length k + length v"
  by (induction m) (auto simp: entry_bytes_def mput_def)

lemma entry_bytes_del: "entry_bytes (mdel k m) \<le> entry_bytes m"
  by (induction m) (auto simp: entry_bytes_def mdel_def)

lemma set_data_bytes: "configMapBytes (setArtifactData key payload cm) \<le> configMapBytes cm + length key + length payload"
  using entry_bytes_put[of key payload "cm_data cm"] entry_bytes_put[of key payload "cm_binary cm"]
    entry_bytes_del[of key "cm_data cm"] entry_bytes_del[of key "cm_binary cm"]
  by (simp add: setArtifactData_def configMapBytes_def)

definition in_budget :: "storing \<Rightarrow> bool" where
  "in_budget s = (configMapBytes (so_cm s) \<le> so_used s \<and> so_used s \<le> maxRunArtifactBytes)"

lemma store_one_budget: "in_budget s \<Longrightarrow> in_budget (store_one cmName testName pname a s)"
  using set_data_bytes by (fastforce simp: in_budget_def store_one_def drop_ref_def split: sum.splits intro: order_trans)

interpretation storing_loop: loop_invariant "store_one cmName testName pname" in_budget for cmName testName pname
  by unfold_locales (rule store_one_budget)

definition store_all :: "string \<Rightarrow> string \<Rightarrow> string \<Rightarrow> Artifact list \<Rightarrow> ConfigMap \<Rightarrow> storing" where
  "store_all cmName testName pname artifacts cm = fold (store_one cmName testName pname) artifacts
     \<lparr>so_cm = cm, so_used = configMapBytes cm, so_refs = [], so_wrote = False\<rparr>"

section \<open>What a reference says\<close>

definition entry :: "ConfigMap \<Rightarrow> string \<Rightarrow> string option" where
  "entry cm key = (case mget (cm_data cm) key of Some v \<Rightarrow> Some v | None \<Rightarrow> mget (cm_binary cm) key)"

definition digest_of :: "string \<Rightarrow> string" where
  "digest_of payload = ''sha256:'' @ EncodeToString (Sum256 payload)"

definition refusal :: "ArtifactRef \<Rightarrow> bool" where
  "refusal r = (ar_dropped r \<noteq> [] \<and> ar_key r = [] \<and> ar_config_map r = [] \<and> ar_digest r = [])"

definition points_at :: "string \<Rightarrow> ConfigMap \<Rightarrow> ArtifactRef \<Rightarrow> bool" where
  "points_at cmName cm r = (ar_dropped r = [] \<and> ar_config_map r = cmName \<and>
     (\<exists>payload. entry cm (ar_key r) = Some payload \<and> ar_digest r = digest_of payload \<and> ar_size_bytes r = int (length payload)))"

lemma entry_set: "entry (setArtifactData key payload cm) k = (if k = key then Some payload else entry cm k)"
  by (simp add: entry_def setArtifactData_def mget_put mget_del split: option.splits)

lemma artifactKey_error: "artifactKey testName pname n = Inl e \<Longrightarrow> e \<noteq> []"
  by (auto simp: artifactKey_def Let_def split: if_splits)

lemma artifactKey_key: "artifactKey testName pname n = Inr key \<Longrightarrow> key = testName @ ''.'' @ pname @ ''.'' @ n"
  by (auto simp: artifactKey_def Let_def split: if_splits)

text \<open>One artifact adds one reference, a refusal or the key of what it stored.\<close>

lemma store_one_cases:
  obtains (drop) why where "store_one cmName testName pname a s = drop_ref a why s" "why \<noteq> []"
  | (keep) key where "key = testName @ ''.'' @ pname @ ''.'' @ art_name a" "dropped_text (art_dropped a) = []"
      "store_one cmName testName pname a s = \<lparr>so_cm = setArtifactData key (art_payload a) (so_cm s),
         so_used = so_used s + length key + length (art_payload a),
         so_refs = so_refs s @ [(ref_of a)\<lparr>ar_digest := art_digest a, ar_config_map := cmName, ar_key := key\<rparr>], so_wrote = True\<rparr>"
proof (cases "dropped_text (art_dropped a) = []")
  case True
  show ?thesis
  proof (cases "artifactKey testName pname (art_name a)")
    case (Inl e)
    then show ?thesis using True artifactKey_error[OF Inl] that(1)[of e] by (simp add: store_one_def)
  next
    case (Inr key)
    show ?thesis
    proof (cases "length (art_payload a) > MaxArtifactBytes \<or> so_used s + length key + length (art_payload a) > maxRunArtifactBytes")
      case over: True
      then have "\<exists>why. store_one cmName testName pname a s = drop_ref a why s \<and> why \<noteq> []"
        using True Inr by (auto simp: store_one_def simp del: append_Cons append_Nil)
      then show ?thesis using that(1) by blast
    next
      case False
      then show ?thesis using that(2)[OF artifactKey_key[OF Inr] True] True Inr by (simp add: store_one_def)
    qed
  qed
next
  case False
  then show ?thesis using that(1) by (simp add: store_one_def)
qed

lemma store_one_refs:
  "\<exists>r. so_refs (store_one cmName testName pname a s) = so_refs s @ [r] \<and> ar_name r = art_name a \<and> ar_media_type r = art_media_type a \<and>
     (so_wrote (store_one cmName testName pname a s) \<longleftrightarrow> so_wrote s \<or> \<not> refusal r)"
  by (rule store_one_cases[of cmName testName pname a s]) (auto simp: drop_ref_def refusal_def ref_of_def)

lemma store_all_refs:
  assumes "s' = fold (store_one cmName testName pname) artifacts s"
  shows "\<exists>rs. so_refs s' = so_refs s @ rs \<and> map ar_name rs = map art_name artifacts \<and>
     (so_wrote s' \<longleftrightarrow> so_wrote s \<or> \<not> list_all refusal rs)"
  using assms
proof (induction artifacts arbitrary: s)
  case (Cons a as)
  obtain r where r: "so_refs (store_one cmName testName pname a s) = so_refs s @ [r]" "ar_name r = art_name a"
    "so_wrote (store_one cmName testName pname a s) \<longleftrightarrow> so_wrote s \<or> \<not> refusal r"
    using store_one_refs by blast
  obtain rs where "so_refs s' = so_refs (store_one cmName testName pname a s) @ rs" "map ar_name rs = map art_name as"
    "so_wrote s' \<longleftrightarrow> so_wrote (store_one cmName testName pname a s) \<or> \<not> list_all refusal rs"
    using Cons.IH[of "store_one cmName testName pname a s"] Cons.prems by auto
  then show ?case using r by (intro exI[of _ "r # rs"]) auto
qed simp

lemma store_all_shape: "list_all (\<lambda>r. ar_dropped r = [] \<or> refusal r) (so_refs (store_all cmName testName pname artifacts cm))"
proof -
  have "list_all (\<lambda>r. ar_dropped r = [] \<or> refusal r) (so_refs (store_one cmName testName pname a s))"
    if "list_all (\<lambda>r. ar_dropped r = [] \<or> refusal r) (so_refs s)" for a s
    using that by (cases rule: store_one_cases[of cmName testName pname a s]) (auto simp: drop_ref_def refusal_def ref_of_def)
  then have "list_all (\<lambda>r. ar_dropped r = [] \<or> refusal r) (so_refs (fold (store_one cmName testName pname) artifacts s))"
    if "list_all (\<lambda>r. ar_dropped r = [] \<or> refusal r) (so_refs s)" for s
    using that by (induction artifacts arbitrary: s) auto
  then show ?thesis by (simp add: store_all_def)
qed

lemma unwritten_name: "map (ar_name \<circ> unwritten why) rs = map ar_name rs"
  by (simp add: unwritten_def)

lemma dropAll_refusals:
  "list_all refusal (dropAll artifacts (''could not read '' @ x))" "map ar_name (dropAll artifacts reason) = map art_name artifacts"
  by (auto simp: dropAll_def refusal_def ref_of_def list_all_iff)

text \<open>
  Names that are kept once each are never overwritten, so that what the references point at is what
  was stored for them.
\<close>

definition kept_names :: "Artifact list \<Rightarrow> string list" where
  "kept_names artifacts = map art_name (filter (\<lambda>a. art_dropped a = Kept) artifacts)"

definition sound_refs :: "string \<Rightarrow> storing \<Rightarrow> bool" where
  "sound_refs cmName s = list_all (\<lambda>r. refusal r \<or> points_at cmName (so_cm s) r) (so_refs s)"

definition fresh_key :: "storing \<Rightarrow> string \<Rightarrow> bool" where
  "fresh_key s key = list_all (\<lambda>r. ar_dropped r = [] \<longrightarrow> ar_key r \<noteq> key) (so_refs s)"

lemma dropped_text_Nil: "dropped_text d = [] \<longleftrightarrow> d = Kept"
  by (cases d) auto

lemma store_one_sound:
  assumes "sound_refs cmName s" and "artifact_ok a" and "art_dropped a = Kept \<longrightarrow> fresh_key s (testName @ ''.'' @ pname @ ''.'' @ art_name a)"
  shows "sound_refs cmName (store_one cmName testName pname a s)"
proof (cases rule: store_one_cases[of cmName testName pname a s])
  case (drop why)
  then show ?thesis using assms(1) by (simp add: sound_refs_def drop_ref_def refusal_def ref_of_def)
next
  case (keep key)
  have k: "art_dropped a = Kept" using keep(2) dropped_text_Nil by simp
  then have "list_all (\<lambda>r. refusal r \<or> points_at cmName (setArtifactData key (art_payload a) (so_cm s)) r) (so_refs s)"
    using assms(1,3) keep(1) by (auto simp: sound_refs_def fresh_key_def list_all_iff points_at_def entry_set)
  then show ?thesis using keep(3) k assms(2) by (simp add: sound_refs_def points_at_def entry_set artifact_ok_def digest_of_def ref_of_def)
qed

lemma store_one_fresh:
  "fresh_key s key \<Longrightarrow> key \<noteq> testName @ ''.'' @ pname @ ''.'' @ art_name a \<or> art_dropped a \<noteq> Kept \<Longrightarrow>
   fresh_key (store_one cmName testName pname a s) key"
  by (rule store_one_cases[of cmName testName pname a s]) (auto simp: fresh_key_def drop_ref_def ref_of_def dropped_text_Nil)

lemma store_all_sound:
  assumes "sound_refs cmName s" and "list_all artifact_ok artifacts" and "distinct (kept_names artifacts)"
    and "\<forall>n \<in> set (kept_names artifacts). fresh_key s (testName @ ''.'' @ pname @ ''.'' @ n)"
  shows "sound_refs cmName (fold (store_one cmName testName pname) artifacts s)"
  using assms
proof (induction artifacts arbitrary: s)
  case (Cons a as)
  let ?s = "store_one cmName testName pname a s"
  have "sound_refs cmName ?s" using Cons.prems by (intro store_one_sound) (auto simp: kept_names_def)
  moreover have "\<forall>n \<in> set (kept_names as). fresh_key ?s (testName @ ''.'' @ pname @ ''.'' @ n)"
    using Cons.prems(3,4) by (auto simp: kept_names_def intro!: store_one_fresh) (metis (mono_tags, lifting) imageI mem_Collect_eq)
  ultimately show ?case using Cons.IH[of ?s] Cons.prems(2,3) by (auto simp: kept_names_def split: if_splits)
qed simp

text \<open>What a call amounts to: nothing is stored and every reference is a refusal, or the pass over a map.\<close>

lemma storeArtifacts_cases:
  assumes "storeArtifacts api run testName pname artifacts cms = (refs, cms')"
  obtains (nothing) "cms' = cms" "list_all refusal refs" "map ar_name refs = map art_name artifacts"
  | (stored) cm s where "cm = new_config_map run \<or> mget cms (artifactConfigMapName run) = Some cm"
      "s = store_all (artifactConfigMapName run) testName pname artifacts cm"
      "refs = so_refs s" "cms' = mput (artifactConfigMapName run) (so_cm s) cms" "map ar_name refs = map art_name artifacts"
proof -
  let ?n = "artifactConfigMapName run"
  let ?s = "store_all ?n testName pname artifacts"
  define fin where "fin create s = (if \<not> so_wrote s then (so_refs s, cms)
      else (case upsert_error api create ?n cms of
        Some e \<Rightarrow> (map (unwritten (''could not write '' @ ?n @ '': '' @ err_text ''configmaps'' ?n e)) (so_refs s), cms)
      | None \<Rightarrow> (so_refs s, mput ?n (so_cm s) cms)))" for create and s :: storing
  have refs: "map ar_name (so_refs (?s cm)) = map art_name artifacts" "so_wrote (?s cm) \<longleftrightarrow> \<not> list_all refusal (so_refs (?s cm))" for cm
    using store_all_refs[OF refl, of ?n testName pname artifacts "\<lparr>so_cm = cm, so_used = configMapBytes cm, so_refs = [], so_wrote = False\<rparr>"]
    by (auto simp: store_all_def)
  have un: "refusal (unwritten (''could not write '' @ x) r)" if "ar_dropped r = [] \<or> refusal r" for x r
    using that by (auto simp: unwritten_def refusal_def)
  have sh: "ar_dropped r = [] \<or> refusal r" if "r \<in> set (so_refs (?s cm))" for r cm
    using store_all_shape[of ?n testName pname artifacts cm] that by (auto simp: list_all_iff)
  have fin_cases: thesis if "fin create (?s cm) = (refs, cms')" "cm = new_config_map run \<or> mget cms ?n = Some cm" for create cm
  proof (cases "so_wrote (?s cm) \<and> upsert_error api create ?n cms = None")
    case True
    then show thesis using that stored[OF that(2) refl] refs(1)[of cm] by (auto simp: fin_def)
  next
    case False
    then have "(refs, cms') = (so_refs (?s cm), cms) \<and> \<not> so_wrote (?s cm) \<or>
        (\<exists>x. (refs, cms') = (map (unwritten (''could not write '' @ x)) (so_refs (?s cm)), cms))"
      using that(1) by (auto simp: fin_def simp del: append_Cons append_Nil split: if_splits)
    then have "cms' = cms" "list_all refusal refs" "map ar_name refs = map art_name artifacts"
      using refs[of cm] un sh by (auto simp: list_all_iff unwritten_name simp del: append_Cons append_Nil)
    then show thesis by (rule nothing)
  qed
  have "storeArtifacts api run testName pname artifacts cms =
     (if artifacts = [] then ([], cms)
      else (case api (GetConfigMap ?n) of
        Some ApiNotFound \<Rightarrow> fin True (?s (new_config_map run))
      | Some e \<Rightarrow> (dropAll artifacts (''could not read '' @ ?n @ '': '' @ err_text ''configmaps'' ?n e), cms)
      | None \<Rightarrow> (case mget cms ?n of Some cm \<Rightarrow> fin False (?s cm) | None \<Rightarrow> fin True (?s (new_config_map run)))))"
    unfolding storeArtifacts_def Let_def fin_def store_all_def by (simp split: option.splits ApiErr.splits)
  then have "artifacts = [] \<and> (refs, cms') = ([], cms) \<or> (\<exists>x. (refs, cms') = (dropAll artifacts (''could not read '' @ x), cms)) \<or>
      (\<exists>create cm. fin create (?s cm) = (refs, cms') \<and> (cm = new_config_map run \<or> mget cms ?n = Some cm))"
    using assms by (auto simp del: append_Cons append_Nil split: if_splits option.splits ApiErr.splits)
  then consider (none) "artifacts = []" "refs = []" "cms' = cms" | (unread) x where "refs = dropAll artifacts (''could not read '' @ x)" "cms' = cms"
    | (pass) create cm where "fin create (?s cm) = (refs, cms')" "cm = new_config_map run \<or> mget cms ?n = Some cm" by blast
  then show ?thesis
  proof cases
    case none
    show ?thesis by (rule nothing) (simp_all add: none)
  next
    case (unread x)
    show ?thesis by (rule nothing) (simp_all only: unread dropAll_refusals)
  next
    case (pass create cm)
    then show ?thesis by (rule fin_cases)
  qed
qed

section \<open>Properties\<close>

text \<open>
  C24. The artifacts of a run fit its budget: whatever is harvested, in whatever order and however
  often, the ConfigMap of a run never grows past 900 KiB, and each artifact of a pod gets
  one reference, in order.
\<close>

theorem artifacts_stay_in_budget:
  assumes "\<forall>name cm. mget cms name = Some cm \<longrightarrow> configMapBytes cm \<le> maxRunArtifactBytes"
    and "storeArtifacts api run testName pname artifacts cms = (refs, cms')"
  shows "(\<forall>name cm. mget cms' name = Some cm \<longrightarrow> configMapBytes cm \<le> maxRunArtifactBytes) \<and> map ar_name refs = map art_name artifacts"
  using assms(2)
proof (cases rule: storeArtifacts_cases)
  case nothing
  then show ?thesis using assms(1) by simp
next
  case (stored cm s)
  have "configMapBytes cm \<le> maxRunArtifactBytes"
    using stored(1) assms(1) by (auto simp: new_config_map_def configMapBytes_def entry_bytes_def)
  then have "in_budget s" unfolding stored(2) store_all_def by (intro storing_loop.fold_inv) (simp add: in_budget_def)
  then show ?thesis using assms(1) stored(4,5) by (auto simp: mget_put in_budget_def)
qed

theorem artifacts_stay_in_budget_witness:
  "\<exists>cm. mget (snd (storeArtifacts (\<lambda>_. None) (new_run ''r'' 0 [''n'']) ''t'' ''p'' [accepted ''log'' ''text/plain'' ''x''] [])) ''r-artifacts'' = Some cm \<and>
     configMapBytes cm \<le> maxRunArtifactBytes"
proof -
  let ?s = "storeArtifacts (\<lambda>_. None) (new_run ''r'' 0 [''n'']) ''t'' ''p'' [accepted ''log'' ''text/plain'' ''x''] []"
  have "\<exists>cm. mget (snd ?s) ''r-artifacts'' = Some cm"
    by (simp add: storeArtifacts_def upsert_error_def artifactConfigMapName_def new_run_def artifactConfigMapSuffix_def new_config_map_def
      configMapBytes_def entry_bytes_def store_one_def accepted_def artifactKey_def validConfigMapKey_def is_lower_def is_upper_def is_digit_def
      ref_of_def MaxArtifactBytes_def maxRunArtifactBytes_def mget_def mput_def Let_def)
  moreover have "\<forall>name cm. mget ([] :: ConfigMap gomap) name = Some cm \<longrightarrow> configMapBytes cm \<le> maxRunArtifactBytes" by (simp add: mget_def)
  ultimately show ?thesis using artifacts_stay_in_budget[OF _ surjective_pairing] by blast
qed

text \<open>
  A reference is proof of what was captured. For the artifacts a runner printed, when no two it
  kept share a name: each reference is a refusal with a reason and points nowhere, or it points
  at an entry of the run's ConfigMap whose bytes have exactly the size and the SHA-256 digest it states.
\<close>

theorem stored_artifacts_match_their_digests:
  assumes "distinct (kept_names (fst (extractArtifacts stdout)))"
    and "storeArtifacts api run testName pname (fst (extractArtifacts stdout)) cms = (refs, cms')" and "r \<in> set refs"
  shows "refusal r \<or> (\<exists>cm. mget cms' (ar_config_map r) = Some cm \<and> points_at (artifactConfigMapName run) cm r)"
  using assms(2)
proof (cases rule: storeArtifacts_cases)
  case nothing
  then show ?thesis using assms(3) by (auto simp: list_all_iff)
next
  case (stored cm s)
  have "sound_refs (artifactConfigMapName run) s" unfolding stored(2) store_all_def
    using extract_artifacts_ok assms(1)
    by (intro store_all_sound) (auto simp: sound_refs_def fresh_key_def extractArtifacts_def)
  then have "refusal r \<or> points_at (artifactConfigMapName run) (so_cm s) r" using assms(3) stored(3) by (auto simp: sound_refs_def list_all_iff)
  then show ?thesis using stored(4) by (auto simp: points_at_def mget_put)
qed

theorem stored_artifacts_match_their_digests_witness:
  "let r = hd (fst (storeArtifacts (\<lambda>_. None) (new_run ''r'' 0 [''n'']) ''t'' ''p'' (fst (extractArtifacts
       (unlines [''-----BEGIN BURNIN ARTIFACT a.json text/json-----'', ''{}'', ''-----END BURNIN ARTIFACT-----'']))) []))
   in refusal r \<or> ar_config_map r = ''r-artifacts''"
proof -
  let ?ls = "[''-----BEGIN BURNIN ARTIFACT a.json text/json-----'', ''{}'', ''-----END BURNIN ARTIFACT-----'']"
  let ?arts = "fst (extractArtifacts (unlines ?ls))"
  let ?s = "storeArtifacts (\<lambda>_. None) (new_run ''r'' 0 [''n'']) ''t'' ''p'' ?arts []"
  have ls: "split_on (byte 10) (unlines ?ls) = ?ls" by (rule split_unlines) code_simp+
  have o: "opens (hd ?ls)" using header_opens[of "'' a.json text/json''"] by (simp add: artifactBegin_def markerSuffix_def isSpace_def)
  have "snd (snd (scan_fence (tl ?ls) [])) = []" by code_simp
  then have one: "\<exists>a. ?arts = [a]" using o by (auto simp: extractArtifacts_def ls extract_Cons Let_def case_prod_unfold)
  then have d: "distinct (kept_names ?arts)" by (auto simp: kept_names_def)
  have "map ar_name (fst ?s) = map art_name ?arts" by (rule storeArtifacts_cases[OF surjective_pairing[of ?s]]) auto
  then have "hd (fst ?s) \<in> set (fst ?s)" using one by (cases "fst ?s") auto
  from stored_artifacts_match_their_digests[OF d surjective_pairing this] show ?thesis
    by (auto simp: points_at_def artifactConfigMapName_def new_run_def artifactConfigMapSuffix_def Let_def)
qed

text \<open>
  A name printed twice breaks that: both payloads go to one key, the second overwrites the first,
  and of the two references the one that is recorded states the digest of the first.
\<close>

theorem repeated_artifact_name_keeps_the_wrong_digest:
  "let arts = [accepted ''log'' ''text/plain'' ''one'', accepted ''log'' ''text/plain'' ''two'']; run = new_run ''r'' 0 [''n''];
       (refs, cms) = storeArtifacts (\<lambda>_. None) run ''t'' ''p'' arts [];
       recorded = fold add_ref refs []
   in map ar_digest recorded = [digest_of ''one''] \<and> map ar_key recorded = [''t.p.log''] \<and>
      (\<exists>cm. mget cms (artifactConfigMapName run) = Some cm \<and> entry cm ''t.p.log'' = Some ''two'')"
  by (simp add: storeArtifacts_def upsert_error_def artifactConfigMapName_def new_run_def artifactConfigMapSuffix_def new_config_map_def
      configMapBytes_def entry_bytes_def store_one_def accepted_def artifactKey_def validConfigMapKey_def is_lower_def is_upper_def is_digit_def
      setArtifactData_def ref_of_def MaxArtifactBytes_def maxRunArtifactBytes_def add_ref_def artifactIdentity_def digest_of_def
      entry_def mget_def mput_def mdel_def mhas_def Let_def)

end
