(* ===== verification/Harvest.thy ===== *)
theory Harvest
  imports Pods Runner_Parse Group_Fold
begin

text \<open>
  What the controller makes of the pods of one execution: \<^verbatim>\<open>harvestPod\<close> of
  burninrun\_controller.go for one pod, \<^verbatim>\<open>combinePair\<close> of pair.go for the two ends of a link and
  \<^verbatim>\<open>combineGroup\<close> of group.go for the ranks of a collective. The log of a pod is a parameter: its
  text, or the text of the error that reading it gave. The clamped and composed messages are
  the strings the code builds.
\<close>

section \<open>One pod\<close>

definition runnerChoseExitCode :: "int \<Rightarrow> bool" where
  "runnerChoseExitCode exitCode = (0 \<le> exitCode \<and> exitCode \<le> 3)"

type_synonym logs = "string \<Rightarrow> string + string"

definition log_text :: "string + string \<Rightarrow> string" where
  "log_text l = (case l of Inl e \<Rightarrow> [] | Inr out \<Rightarrow> out)"

definition log_error :: "string + string \<Rightarrow> string option" where
  "log_error l = (case l of Inl e \<Rightarrow> Some e | Inr out \<Rightarrow> None)"

definition abnormal_account :: "int \<Rightarrow> string \<Rightarrow> string \<Rightarrow> string" where
  "abnormal_account exitCode reason detail =
     ''runner terminated abnormally (exit '' @ Itoa exitCode @ '', reason '' @ Quote reason @ '')'' @
     (if TrimSpace detail \<noteq> [] then '': '' @ clampPodDetail (TrimSpace detail) else [])"

definition harvestPod :: "logs \<Rightarrow> PlanTest \<Rightarrow> Pod \<Rightarrow> Result \<times> string option" where
  "harvestPod logs t pod =
     (let (exitCode, done, reason, detail) = podOutcome pod;
          l = logs (pod_name pod);
          parsed = Parse (kind_string (ts_kind (pl_spec t))) (log_text l) exitCode;
          parsed = (if res_verdict parsed = VerdictError then
              (let account = abnormal_account exitCode reason detail in
               if res_message parsed = [] then parsed\<lparr>res_message := account\<rparr>
               else if \<not> runnerChoseExitCode exitCode
                 then parsed\<lparr>res_message := res_message parsed @ '' ['' @ account @ '']''\<rparr>
               else parsed)
            else parsed);
          parsed = (if reason = ''DeadlineExceeded''
            then parsed\<lparr>res_verdict := VerdictError,
                   res_message := ''test exceeded its deadline and was killed '' @ em_dash @ '' no verdict''\<rparr>
            else parsed)
      in (parsed, log_error l))"

definition missingThresholdMetric :: "Result \<Rightarrow> Threshold list \<Rightarrow> bool" where
  "missingThresholdMetric res thresholds =
     list_ex (\<lambda>th. \<not> mhas (res_metrics res) (th_metric th) \<and> \<not> flagged (res_unmeasurable res) (th_metric th)) thresholds"

definition logs_unavailable :: "string \<Rightarrow> string" where
  "logs_unavailable err = ''runner logs unavailable ('' @ err @ '') '' @ em_dash @ '' thresholds cannot be evaluated; no verdict''"

text \<open>The Node-scope guard of \<^verbatim>\<open>advance\<close> on a log that could not be read.\<close>

definition without_logs :: "PlanTest \<Rightarrow> Result \<times> string option \<Rightarrow> Result" where
  "without_logs t h = (case h of (parsed, logErr) \<Rightarrow> (case logErr of
     Some err \<Rightarrow>
       if res_verdict parsed = VerdictPass \<and> ts_thresholds (pl_spec t) \<noteq> [] \<and>
          missingThresholdMetric parsed (ts_thresholds (pl_spec t))
       then parsed\<lparr>res_verdict := VerdictError, res_message := logs_unavailable err\<rparr> else parsed
   | None \<Rightarrow> parsed))"

text \<open>\<^verbatim>\<open>runner.Result{Verdict: VerdictError, Message: m}\<close>.\<close>

definition error_result :: "string \<Rightarrow> Result" where
  "error_result m = \<lparr>res_verdict = VerdictError, res_exit_code = 0, res_metrics = [], res_unmeasurable = [],
     res_message = m, res_invalid_names = [], res_artifacts = [], res_undeclared_skip = False\<rparr>"

section \<open>The two ends of a link\<close>

definition pairRoleServer :: string where
  "pairRoleServer = ''server''"

definition pairRoleClient :: string where
  "pairRoleClient = ''client''"

record pairSide =
  sd_role :: string
  sd_node :: string
  sd_pod :: string
  sd_result :: "Result option"
  sd_condemned_log :: string

fun verdict_string :: "Verdict \<Rightarrow> string" where
  "verdict_string VerdictPass = ''Pass''"
| "verdict_string VerdictFail = ''Fail''"
| "verdict_string VerdictSkip = ''Skip''"
| "verdict_string VerdictError = ''Error''"

definition undeclaredSkipBrief :: string where
  "undeclaredSkipBrief = ''exited 2 without declaring a skip '' @ em_dash @ '' likely a crashed runner, hardware unjudged''"

definition maxCondemnedLog :: nat where
  "maxCondemnedLog = 2000"

definition condemnedLogHeadLines :: nat where
  "condemnedLogHeadLines = 10"

definition condemnedLogTailLines :: nat where
  "condemnedLogTailLines = 10"

definition clampCondemnedLog :: "string \<Rightarrow> string" where
  "clampCondemnedLog s =
     (let lines = split_on (byte 10) (rev (dropWhile (\<lambda>c. c = byte 10) (rev s)));
          lines = (if length lines > condemnedLogHeadLines + condemnedLogTailLines
            then take condemnedLogHeadLines lines @
              [ellipsis @ '' ('' @ show_nat (length lines - condemnedLogHeadLines - condemnedLogTailLines) @ '' lines omitted) '' @ ellipsis] @
              drop (length lines - condemnedLogTailLines) lines
            else lines)
      in truncateAtRune (Join (Fields (Join lines [byte 10])) '' '') maxCondemnedLog (ellipsis @ '' (truncated)''))"

definition pair_summary :: "pairSide \<Rightarrow> string" where
  "pair_summary s = (case sd_result s of
     None \<Rightarrow>
       if TrimSpace (sd_condemned_log s) \<noteq> []
       then sd_role s @ '' '' @ sd_node s @ '' did not report (log before it was condemned: '' @
              clampCondemnedLog (TrimSpace (sd_condemned_log s)) @ '')''
       else sd_role s @ '' '' @ sd_node s @ '' did not report''
   | Some r \<Rightarrow>
       (let out = sd_role s @ '' '' @ sd_node s @ '' '' @ ToLower (verdict_string (res_verdict r)) @ '' (exit '' @ Itoa (res_exit_code r) @ '')'';
            m = TrimSpace (res_message r)
        in if res_undeclared_skip r
           then out @ '': '' @ undeclaredSkipBrief @ (if m \<noteq> [] then '' [runner said: '' @ m @ '']'' else [])
           else if m \<noteq> [] then out @ '': '' @ m else out))"

definition pairMessage :: "pairSide \<Rightarrow> pairSide \<Rightarrow> string" where
  "pairMessage server client =
     ''pair '' @ sd_node server @ '' <-> '' @ sd_node client @ '' (this verdict is about the LINK, not about either endpoint): '' @
     pair_summary server @ ''; '' @ pair_summary client"

definition pair_precedence :: "Result \<Rightarrow> Result \<Rightarrow> Verdict \<Rightarrow> (Verdict \<times> int) option" where
  "pair_precedence client server v =
     (if res_verdict client = v then Some (v, res_exit_code client)
      else if res_verdict server = v then Some (v, res_exit_code server) else None)"

definition pairVerdict :: "pairSide \<Rightarrow> pairSide \<Rightarrow> Verdict \<times> int" where
  "pairVerdict server client = (case (sd_result server, sd_result client) of
     (None, None) \<Rightarrow> (VerdictError, -1)
   | (Some s, None) \<Rightarrow> if res_verdict s = VerdictPass then (VerdictError, res_exit_code s) else (res_verdict s, res_exit_code s)
   | (None, Some c) \<Rightarrow> (res_verdict c, res_exit_code c)
   | (Some s, Some c) \<Rightarrow>
       (case List.map_filter (pair_precedence c s) [VerdictError, VerdictFail, VerdictSkip] of
          r # _ \<Rightarrow> r | [] \<Rightarrow> (VerdictPass, res_exit_code c)))"

text \<open>\<^verbatim>\<open>dedupeStrings\<close> keeps the first of each.\<close>

definition dedupeStrings :: "string list \<Rightarrow> string list" where
  "dedupeStrings xs = rev (remdups (rev xs))"

definition side_metrics :: "pairSide \<Rightarrow> string gomap \<Rightarrow> string gomap" where
  "side_metrics s out = (case sd_result s of None \<Rightarrow> out | Some r \<Rightarrow> fold (\<lambda>(k, v) m. mput k v m) (res_metrics r) out)"

definition side_unmeasurable :: "string gomap \<Rightarrow> pairSide \<Rightarrow> nameset \<Rightarrow> nameset" where
  "side_unmeasurable metrics s out = (case sd_result s of None \<Rightarrow> out
     | Some r \<Rightarrow> fold (\<lambda>k m. if mhas metrics k then m else mput k True m) (mkeys (res_unmeasurable r)) out)"

definition side_invalid :: "pairSide \<Rightarrow> string list" where
  "side_invalid s = (case sd_result s of None \<Rightarrow> [] | Some r \<Rightarrow> res_invalid_names r)"

text \<open>The guard both combinations end with.\<close>

definition guard_logs :: "string option \<Rightarrow> BurnInTestSpec \<Rightarrow> Result \<Rightarrow> Result" where
  "guard_logs logErr spec out = (case logErr of
     Some err \<Rightarrow>
       if res_verdict out = VerdictPass \<and> ts_thresholds spec \<noteq> [] \<and> missingThresholdMetric out (ts_thresholds spec)
       then out\<lparr>res_verdict := VerdictError,
              res_message := logs_unavailable err @ '' ['' @ res_message out @ '']''\<rparr> else out
   | None \<Rightarrow> out)"

definition combinePair :: "pairSide \<Rightarrow> pairSide \<Rightarrow> string option \<Rightarrow> BurnInTestSpec \<Rightarrow> Result" where
  "combinePair server client logErr spec =
     (let metrics = side_metrics client (side_metrics server []);
          unmeasurable = side_unmeasurable metrics client (side_unmeasurable metrics server [])
      in guard_logs logErr spec
           \<lparr>res_verdict = fst (pairVerdict server client), res_exit_code = snd (pairVerdict server client),
            res_metrics = metrics, res_unmeasurable = unmeasurable, res_message = pairMessage server client,
            res_invalid_names = dedupeStrings (side_invalid server @ side_invalid client),
            res_artifacts = [], res_undeclared_skip = False\<rparr>)"

section \<open>The ranks of a collective\<close>

record groupMember =
  gm_rank :: int
  gm_node :: string
  gm_pod :: string
  gm_result :: "Result option"

definition maxRankLine :: nat where
  "maxRankLine = 300"

definition clampRunnerLine :: "string \<Rightarrow> string" where
  "clampRunnerLine s = truncateAtRune (Join (Fields s) '' '') maxRankLine ellipsis"

definition member_summary :: "groupMember \<Rightarrow> string" where
  "member_summary m = (case gm_result m of
     None \<Rightarrow> ''rank '' @ Itoa (gm_rank m) @ '' ('' @ gm_node m @ '') did not report''
   | Some r \<Rightarrow>
       (let out = ''rank '' @ Itoa (gm_rank m) @ '' ('' @ gm_node m @ '') '' @ ToLower (verdict_string (res_verdict r)) @
              '' (exit '' @ Itoa (res_exit_code r) @ '')'';
            s = TrimSpace (res_message r)
        in if res_undeclared_skip r
           then out @ '': '' @ undeclaredSkipBrief @ (if s \<noteq> [] then '' [runner said: '' @ clampRunnerLine s @ '']'' else [])
           else if s \<noteq> [] then out @ '': '' @ clampRunnerLine s else out))"

definition groupMaxNamedRanks :: nat where
  "groupMaxNamedRanks = 4"

definition member_key :: "groupMember \<Rightarrow> string" where
  "member_key m = (case gm_result m of None \<Rightarrow> ''did not report'' | Some r \<Rightarrow> ToLower (verdict_string (res_verdict r)))"

definition verdict_part :: "groupMember list \<Rightarrow> string \<Rightarrow> string" where
  "verdict_part members key =
     (let lines = map member_summary (filter (\<lambda>m. member_key m = key) members) in
      if length lines = length members \<and> length members > groupMaxNamedRanks
      then ''all '' @ show_nat (length members) @ '' ranks '' @ key @ '', e.g. '' @ hd lines
      else if length lines > groupMaxNamedRanks
      then show_nat (length lines) @ '' ranks '' @ key @ '' ('' @ Join (take groupMaxNamedRanks lines) ''; '' @ '', and '' @
             show_nat (length lines - groupMaxNamedRanks) @ '' more)''
      else Join lines ''; '')"

definition groupMessage :: "groupMember list \<Rightarrow> string" where
  "groupMessage members =
     ''group of '' @ show_nat (length members) @ '' (this verdict is about the COLLECTIVE, not about any one rank): '' @
     Join (map (verdict_part members) (sort_strings (remdups (map member_key members)))) ''; ''"

definition rankReports :: "groupMember list \<Rightarrow> Rank list" where
  "rankReports members = map (\<lambda>m. \<lparr>rk_rank = gm_rank m, rk_node = gm_node m, rk_result = gm_result m\<rparr>) members"

definition rank_entry :: "Reading \<Rightarrow> string" where
  "rank_entry rv = ''rank '' @ Itoa (rd_rank rv) @ ''='' @ rd_value rv"

definition named_ranks :: "string list \<Rightarrow> string list" where
  "named_ranks xs = (if length xs > groupMaxNamedRanks
     then take groupMaxNamedRanks xs @ [''and '' @ show_nat (length xs - groupMaxNamedRanks) @ '' more''] else xs)"

definition leading :: "(Reading \<Rightarrow> bool) \<Rightarrow> Reading list \<Rightarrow> string list" where
  "leading P rvs = sort_strings (map rank_entry (filter P rvs)) @ sort_strings (map rank_entry (filter (\<lambda>rv. \<not> P rv) rvs))"

fun combination_string :: "Combination \<Rightarrow> string" where
  "combination_string CombineSum = ''Sum''"
| "combination_string CombineMax = ''Max''"
| "combination_string CombineMin = ''Min''"
| "combination_string CombineCollective = ''Collective''"
| "combination_string CombineUnclassified = []"

definition kept_by :: "string \<Rightarrow> Reading list \<Rightarrow> int" where
  "kept_by v rvs = foldl (\<lambda>k rv. if rd_value rv = v \<and> (k < 0 \<or> rd_rank rv < k) then rd_rank rv else k) (-1) rvs"

definition disagreement_part :: "Reading list gomap \<Rightarrow> string gomap \<Rightarrow> string \<Rightarrow> string" where
  "disagreement_part readings kept k =
     (let rvs = readings_at readings k;
          keptV = (case mget kept k of Some v \<Rightarrow> v | None \<Rightarrow> []);
          others = named_ranks (sort_strings (map rank_entry (filter (\<lambda>rv. rd_value rv \<noteq> keptV) rvs)))
      in case mget kept k of
           Some v \<Rightarrow>
             if CombinationFor k \<in> {CombineSum, CombineMax, CombineMin}
             then k @ '' combined to '' @ v @ '' by '' @ combination_string (CombinationFor k) @ '' across '' @
                    Join (named_ranks (leading (\<lambda>rv. rd_value rv = v) rvs)) '', ''
             else k @ '' recorded as '' @ v @ '' (rank '' @ Itoa (kept_by v rvs) @ '') but '' @ Join others '', ''
         | None \<Rightarrow>
             k @ '' DROPPED as unmeasurable ('' @
               (if list_ex (\<lambda>rv. rd_value rv = Unmeasurable) rvs then ''a rank could not measure it'' else ''no across-rank rule'') @
               ''; ranks reported '' @ Join (named_ranks (leading (\<lambda>rv. rd_value rv = Unmeasurable) rvs)) '', '' @ '')'')"

definition disagreementNote :: "Reading list gomap \<Rightarrow> string gomap \<Rightarrow> string" where
  "disagreementNote readings kept =
     (let keys = sort_strings (map fst (filter (\<lambda>(k, vals). list_ex (\<lambda>rv.
            rd_value rv \<noteq> (case mget kept k of Some v \<Rightarrow> v | None \<Rightarrow> [])) vals) readings));
          shown = take groupMaxNamedRanks keys;
          parts = map (disagreement_part readings kept) shown;
          parts = (if length keys > length shown then parts @ [''and '' @ show_nat (length keys - length shown) @ '' more metric(s)''] else parts)
      in if keys = [] then []
         else ''ranks DISAGREED about '' @ show_nat (length keys) @ '' metric(s), combined by each metric's registered rule: '' @
           Join parts ''; '' @ ''. A per-node reading cannot be attributed to a group '' @ em_dash @ '' see issue #121'')"

definition maxGroupMessage :: nat where
  "maxGroupMessage = 4096"

definition clampRankSummaries :: "string \<Rightarrow> string" where
  "clampRankSummaries s = truncateAtRune s maxGroupMessage
     (ellipsis @ '' (rank detail truncated; see the pods' logs while the run's TTL holds them)'')"

definition combineGroup :: "groupMember list \<Rightarrow> string option \<Rightarrow> BurnInTestSpec \<Rightarrow> Result" where
  "combineGroup members logErr spec =
     (let c = Combine (rankReports members);
          note = disagreementNote (cb_readings c) (cb_metrics c);
          m = clampRankSummaries (groupMessage members)
      in guard_logs logErr spec
           \<lparr>res_verdict = cb_verdict c, res_exit_code = cb_exit_code c, res_metrics = cb_metrics c,
            res_unmeasurable = cb_unmeasurable c,
            res_message = (if note \<noteq> [] then TrimSpace (m @ '' ['' @ note @ '']'') else m),
            res_invalid_names = cb_invalid_names c, res_artifacts = [], res_undeclared_skip = False\<rparr>)"

definition anyOverdue :: "timestamp \<Rightarrow> Pod option list \<Rightarrow> BurnInTestSpec \<Rightarrow> bool" where
  "anyOverdue now pods spec = list_ex (\<lambda>p. case p of None \<Rightarrow> False | Some pod \<Rightarrow> podOverdue now pod spec) pods"

definition harvest_member :: "logs \<Rightarrow> PlanTest \<Rightarrow> int \<Rightarrow> string \<Rightarrow> Pod option \<Rightarrow> groupMember \<times> string option" where
  "harvest_member logs t rank node p =
     (let m = \<lparr>gm_rank = rank, gm_node = node, gm_pod = podNameOf p, gm_result = None\<rparr>
      in case p of None \<Rightarrow> (m, None)
         | Some pod \<Rightarrow> if terminated pod
             then (case harvestPod logs t pod of (parsed, logErr) \<Rightarrow> (m\<lparr>gm_result := Some parsed\<rparr>, logErr))
             else (m, None))"

text \<open>The members, and the first error a log gave.\<close>

definition harvestMembers :: "logs \<Rightarrow> PlanTest \<Rightarrow> string list \<Rightarrow> Pod option list \<Rightarrow> groupMember list \<times> string option" where
  "harvestMembers logs t nodes pods =
     (let hs = map (\<lambda>(rank, node, p). harvest_member logs t (int rank) node p) (enumerate 0 (zip nodes pods))
      in (map fst hs, case List.map_filter snd hs of [] \<Rightarrow> None | e # _ \<Rightarrow> Some e))"

definition groupRendezvous :: "int \<Rightarrow> string list \<Rightarrow> string \<Rightarrow> rendezvous" where
  "groupRendezvous rank nodes service = \<lparr>rv_scope = ScopeGroup, rv_role = groupRole rank, rv_service = service,
     rv_peer_role = [], rv_peer_node = [], rv_rank = rank, rv_nranks = int (length nodes), rv_root_node = nodes ! 0\<rparr>"

end
