(* ===== verification/Go_Time.thy ===== *)
theory Go_Time
  imports Go_Strings
begin

text \<open>
  What the sources use of package \<^verbatim>\<open>time\<close>: a time is a number of nanoseconds since the epoch,
  \<^verbatim>\<open>Format(time.RFC3339)\<close> prints it in UTC to the second, and \<^verbatim>\<open>Parse(time.RFC3339, s)\<close> reads
  it back, with a fraction of a second and a zone offset when there is one. The calendar is
  counted forward from 1970, so times are not before the epoch; years have four digits. Of the readings that only the
  lenient fallback of \<^verbatim>\<open>time.Parse\<close> accepts (an hour of one digit, a comma before the
  fraction) the model has none.
\<close>

section \<open>The calendar\<close>

definition leap :: "nat \<Rightarrow> bool" where
  "leap y = (y mod 4 = 0 \<and> (y mod 100 \<noteq> 0 \<or> y mod 400 = 0))"

definition year_days :: "nat \<Rightarrow> nat" where
  "year_days y = (if leap y then 366 else 365)"

definition month_days :: "nat \<Rightarrow> nat \<Rightarrow> nat" where
  "month_days y m = (if m = 2 then (if leap y then 29 else 28) else if m \<in> {4, 6, 9, 11} then 30 else 31)"

function year_of :: "nat \<Rightarrow> nat \<Rightarrow> nat \<times> nat" where
  "year_of y d = (if d < year_days y then (y, d) else year_of (Suc y) (d - year_days y))"
  by pat_completeness auto
termination by (relation "measure snd") (auto simp: year_days_def split: if_splits)

declare year_of.simps [simp del]

function month_of :: "nat \<Rightarrow> nat \<Rightarrow> nat \<Rightarrow> nat \<times> nat" where
  "month_of y m d = (if d < month_days y m then (m, d) else month_of y (Suc m) (d - month_days y m))"
  by pat_completeness auto
termination by (relation "measure (\<lambda>(y, m, d). d)") (auto simp: month_days_def split: if_splits)

declare month_of.simps [simp del]

definition days_before_year :: "nat \<Rightarrow> nat" where
  "days_before_year y = sum_list (map year_days [1970..<y])"

definition days_before_month :: "nat \<Rightarrow> nat \<Rightarrow> nat" where
  "days_before_month y m = sum_list (map (month_days y) [1..<m])"

lemma year_of_spec:
  assumes "year_of y d = (y', d')" and "1970 \<le> y"
  shows "y \<le> y' \<and> d' < year_days y' \<and> days_before_year y' + d' = days_before_year y + d"
  using assms
proof (induction y d arbitrary: y' d' rule: year_of.induct)
  case (1 y d)
  show ?case
  proof (cases "d < year_days y")
    case True
    then show ?thesis using 1(2) by (subst (asm) year_of.simps) auto
  next
    case False
    then have "year_of (Suc y) (d - year_days y) = (y', d')" using 1(2) by (subst (asm) year_of.simps) simp
    from 1(1)[OF False this] 1(3) have "Suc y \<le> y'" "d' < year_days y'"
      "days_before_year y' + d' = days_before_year (Suc y) + (d - year_days y)" by auto
    moreover have "days_before_year (Suc y) = days_before_year y + year_days y" using 1(3) by (simp add: days_before_year_def)
    ultimately show ?thesis using False by auto
  qed
qed

lemma month_of_spec:
  assumes "month_of y m d = (m', d')" and "1 \<le> m" and "days_before_month y m + d < year_days y"
  shows "m \<le> m' \<and> m' \<le> 12 \<and> d' < month_days y m' \<and> days_before_month y m' + d' = days_before_month y m + d"
  using assms
proof (induction y m d arbitrary: m' d' rule: month_of.induct)
  case (1 y m d)
  have month: "m \<le> 12"
  proof (rule ccontr)
    assume "\<not> m \<le> 12"
    then have "[1..<m] = [1..<13] @ [13..<m]" using upt_add_eq_append[of 1 13 "m - 13"] by simp
    moreover have "sum_list (map (month_days y) [1..<13]) = year_days y" by (simp add: upt_rec month_days_def year_days_def)
    ultimately have "year_days y \<le> days_before_month y m" by (simp add: days_before_month_def)
    then show False using 1(4) by simp
  qed
  show ?case
  proof (cases "d < month_days y m")
    case True
    then show ?thesis using 1(2) month by (subst (asm) month_of.simps) auto
  next
    case False
    then have e: "month_of y (Suc m) (d - month_days y m) = (m', d')" using 1(2) by (subst (asm) month_of.simps) simp
    have s: "days_before_month y (Suc m) = days_before_month y m + month_days y m" using 1(3) by (simp add: days_before_month_def)
    have "Suc m \<le> m' \<and> m' \<le> 12 \<and> d' < month_days y m' \<and>
        days_before_month y m' + d' = days_before_month y (Suc m) + (d - month_days y m)"
      by (rule 1(1)[OF False e]) (use s False 1(4) in auto)
    then show ?thesis using s False by auto
  qed
qed

section \<open>RFC 3339\<close>

definition nanosecond :: int where
  "nanosecond = 1000000000"

definition pad2 :: "nat \<Rightarrow> string" where
  "pad2 n = [digit_char (n div 10), digit_char (n mod 10)]"

definition pad4 :: "nat \<Rightarrow> string" where
  "pad4 n = pad2 (n div 100) @ pad2 (n mod 100)"

definition FormatRFC3339 :: "int \<Rightarrow> string" where
  "FormatRFC3339 t =
     (let secs = nat (t div nanosecond); days = secs div 86400; sod = secs mod 86400;
          (y, yd) = year_of 1970 days; (m, d) = month_of y 1 yd
      in pad4 y @ ''-'' @ pad2 m @ ''-'' @ pad2 (d + 1) @ ''T'' @ pad2 (sod div 3600) @ '':'' @ pad2 (sod mod 3600 div 60) @ '':'' @
         pad2 (sod mod 60) @ ''Z'')"

definition num2 :: "char \<Rightarrow> char \<Rightarrow> nat option" where
  "num2 a b = (if is_digit a \<and> is_digit b then Some (digit_val a * 10 + digit_val b) else None)"

text \<open>A fraction: the nanoseconds of the first nine digits, and the rest of the text.\<close>

definition read_fraction :: "string \<Rightarrow> (int \<times> string) option" where
  "read_fraction s = (case s of
     c # r \<Rightarrow> if c = CHR ''.'' then
         (let ds = takeWhile is_digit r in
          if ds = [] then None
          else Some (int (dval 0 (take 9 (ds @ replicate 9 (CHR ''0'')))), dropWhile is_digit r))
       else Some (0, s)
   | [] \<Rightarrow> Some (0, s))"

definition read_zone :: "string \<Rightarrow> int option" where
  "read_zone s = (case s of
     [z] \<Rightarrow> if z = CHR ''Z'' then Some 0 else None
   | [g, h1, h2, c, m1, m2] \<Rightarrow>
       (case (num2 h1 h2, num2 m1 m2) of
          (Some h, Some m) \<Rightarrow>
            if c = CHR '':'' \<and> h < 24 \<and> m < 60 then
              (if g = CHR ''+'' then Some (int (h * 3600 + m * 60))
               else if g = CHR ''-'' then Some (- int (h * 3600 + m * 60)) else None)
            else None
        | _ \<Rightarrow> None)
   | _ \<Rightarrow> None)"

definition civil_seconds :: "nat \<Rightarrow> nat \<Rightarrow> nat \<Rightarrow> nat \<Rightarrow> nat \<Rightarrow> nat \<Rightarrow> nat option" where
  "civil_seconds y m d hh mm ss =
     (if 1970 \<le> y \<and> 1 \<le> m \<and> m \<le> 12 \<and> 1 \<le> d \<and> d \<le> month_days y m \<and> hh < 24 \<and> mm < 60 \<and> ss < 60
      then Some ((days_before_year y + days_before_month y m + (d - 1)) * 86400 + hh * 3600 + mm * 60 + ss) else None)"

fun ParseRFC3339 :: "string \<Rightarrow> int option" where
  "ParseRFC3339 (y1 # y2 # y3 # y4 # c1 # m1 # m2 # c2 # d1 # d2 # c3 # h1 # h2 # c4 # n1 # n2 # c5 # s1 # s2 # rest) =
     (if [c1, c2, c3, c4, c5] \<noteq> ''--T::'' then None
      else (case (num2 y1 y2, num2 y3 y4, num2 m1 m2, num2 d1 d2, num2 h1 h2, num2 n1 n2, num2 s1 s2) of
        (Some yh, Some yl, Some m, Some d, Some hh, Some mm, Some ss) \<Rightarrow>
          (case civil_seconds (yh * 100 + yl) m d hh mm ss of
             None \<Rightarrow> None
           | Some secs \<Rightarrow> (case read_fraction rest of
               None \<Rightarrow> None
             | Some (ns, zone) \<Rightarrow> map_option (\<lambda>off. (int secs - off) * nanosecond + ns) (read_zone zone)))
      | _ \<Rightarrow> None))"
| "ParseRFC3339 _ = None"

lemma num2_pad2: "n < 100 \<Longrightarrow> num2 (digit_char (n div 10)) (digit_char (n mod 10)) = Some n"
  by (simp add: num2_def)

definition four_digit_year :: "int \<Rightarrow> bool" where
  "four_digit_year t = (0 \<le> t \<and> fst (year_of 1970 (nat (t div nanosecond) div 86400)) < 10000)"

lemma FormatRFC3339_fields:
  assumes "four_digit_year t"
  obtains y m d hh mm ss where
    "FormatRFC3339 t = pad4 y @ ''-'' @ pad2 m @ ''-'' @ pad2 d @ ''T'' @ pad2 hh @ '':'' @ pad2 mm @ '':'' @ pad2 ss @ ''Z''"
    "y < 10000" "m < 100" "d < 100" "hh < 100" "mm < 100" "ss < 100"
    "civil_seconds y m d hh mm ss = Some (nat (t div nanosecond))"
proof -
  define secs where "secs = nat (t div nanosecond)"
  define days sod where "days = secs div 86400" and "sod = secs mod 86400"
  obtain y yd where y: "year_of 1970 days = (y, yd)" by (cases "year_of 1970 days")
  obtain m d where m: "month_of y 1 yd = (m, d)" by (cases "month_of y 1 yd")
  have ys: "1970 \<le> y" "yd < year_days y" "days_before_year y + yd = days"
    using year_of_spec[OF y] by (auto simp: days_before_year_def)
  have ms: "1 \<le> m" "m \<le> 12" "d < month_days y m" "days_before_month y m + d = yd"
    using month_of_spec[OF m] ys(2) by (auto simp: days_before_month_def)
  have b: "y < 10000" "d + 1 < 100" "sod < 86400" using assms y ms(3)
    by (auto simp: four_digit_year_def secs_def days_def sod_def month_days_def split: if_splits)
  have h: "sod div 3600 < 24" "sod mod 3600 div 60 < 60" "sod mod 60 < 60" using b(3) by (auto simp: div_less_iff_less_mult)
  have hms: "sod div 3600 * 3600 + sod mod 3600 div 60 * 60 + sod mod 60 = sod"
  proof -
    have "sod mod 3600 mod 60 = sod mod 60" by (simp add: mod_mod_cancel)
    then have "sod mod 3600 div 60 * 60 + sod mod 60 = sod mod 3600" using div_mult_mod_eq[of "sod mod 3600" 60] by simp
    then show ?thesis using div_mult_mod_eq[of sod 3600] by linarith
  qed
  have "civil_seconds y m (d + 1) (sod div 3600) (sod mod 3600 div 60) (sod mod 60) = Some secs"
    using ys ms h hms div_mult_mod_eq[of secs 86400] by (auto simp: civil_seconds_def days_def[symmetric] sod_def[symmetric])
  moreover have "FormatRFC3339 t = pad4 y @ ''-'' @ pad2 m @ ''-'' @ pad2 (d + 1) @ ''T'' @ pad2 (sod div 3600) @ '':'' @
      pad2 (sod mod 3600 div 60) @ '':'' @ pad2 (sod mod 60) @ ''Z''"
    by (simp add: FormatRFC3339_def Let_def secs_def[symmetric] days_def[symmetric] sod_def[symmetric] y m del: One_nat_def)
  moreover have "m < 100" "sod div 3600 < 100" "sod mod 3600 div 60 < 100" "sod mod 60 < 100" using ms(2) h by linarith+
  ultimately show thesis using that b(1,2) unfolding secs_def by blast
qed

text \<open>A time reads back to the second, and its text has no slash.\<close>

lemma ParseRFC3339_Format:
  assumes "four_digit_year t"
  shows "ParseRFC3339 (FormatRFC3339 t) = Some (t div nanosecond * nanosecond)"
proof -
  obtain y m d hh mm ss where f:
    "FormatRFC3339 t = pad4 y @ ''-'' @ pad2 m @ ''-'' @ pad2 d @ ''T'' @ pad2 hh @ '':'' @ pad2 mm @ '':'' @ pad2 ss @ ''Z''"
    "y < 10000" "m < 100" "d < 100" "hh < 100" "mm < 100" "ss < 100"
    "civil_seconds y m d hh mm ss = Some (nat (t div nanosecond))" using FormatRFC3339_fields[OF assms] .
  have "ParseRFC3339 (FormatRFC3339 t) = Some (int (nat (t div nanosecond)) * nanosecond)"
    using f(2-8) by (simp add: f(1) pad4_def pad2_def num2_pad2[of "y div 100"] num2_pad2 read_fraction_def read_zone_def)
  moreover have "0 \<le> t" using assms by (simp add: four_digit_year_def)
  ultimately show ?thesis by (simp add: nanosecond_def pos_imp_zdiv_nonneg_iff)
qed

lemma digit_char_not_slash: "d < 10 \<Longrightarrow> digit_char d \<noteq> CHR ''/''"
  using is_digit_char[of d] by (auto simp: is_digit_def)

lemma pad2_no_slash: "n < 100 \<Longrightarrow> CHR ''/'' \<notin> set (pad2 n)"
  using digit_char_not_slash[of "n div 10"] digit_char_not_slash[of "n mod 10"]
  by (auto simp: pad2_def div_less_iff_less_mult dest: sym)

lemma FormatRFC3339_no_slash:
  assumes "four_digit_year t"
  shows "CHR ''/'' \<notin> set (FormatRFC3339 t)"
proof -
  obtain y m d hh mm ss where f:
    "FormatRFC3339 t = pad4 y @ ''-'' @ pad2 m @ ''-'' @ pad2 d @ ''T'' @ pad2 hh @ '':'' @ pad2 mm @ '':'' @ pad2 ss @ ''Z''"
    "y < 10000" "m < 100" "d < 100" "hh < 100" "mm < 100" "ss < 100" using FormatRFC3339_fields[OF assms] .
  have "y div 100 < 100" using f(2) by (simp add: div_less_iff_less_mult)
  then show ?thesis unfolding f(1) pad4_def using f(3-7) pad2_no_slash by simp
qed

end
