(* ===== verification/Cordon.thy ===== *)
theory Cordon
  imports Admission Pods Go_Time Kube_Api
begin

text \<open>
  \<^verbatim>\<open>internal/controller/cordon.go\<close> and \<^verbatim>\<open>cordonreaper.go\<close>: a run takes a node out of scheduling while it
  loads it, marks on the node who did so and how the node was found, and gives it back. Nodes are
  a map from names.
\<close>

section \<open>Nodes\<close>

record Node =
  nd_unschedulable :: bool
  nd_annotations :: "string gomap"
  nd_labels :: "string gomap"
  nd_kernel :: string
  nd_os_image :: string
  nd_architecture :: string

definition AnnotationCordonOwner :: string where
  "AnnotationCordonOwner = ''burnin.glimmer.ai/cordon-owner''"

definition AnnotationPriorUnschedulable :: string where
  "AnnotationPriorUnschedulable = ''burnin.glimmer.ai/prior-unschedulable''"

definition AnnotationHeatExpected :: string where
  "AnnotationHeatExpected = ''burnin.glimmer.ai/heat-expected''"

definition PriorUnschedulableTrue :: string where
  "PriorUnschedulableTrue = ''true''"

definition FormatBool :: "bool \<Rightarrow> string" where
  "FormatBool b = (if b then ''true'' else ''false'')"

section \<open>Who holds a node\<close>

definition cordonOwnerID :: "BurnInRun \<Rightarrow> string" where
  "cordonOwnerID run = run_namespace run @ ''/'' @ run_name run @ ''/'' @ run_uid run"

record cordonOwner =
  ow_namespace :: string
  ow_name :: string
  ow_uid :: string

definition parseCordonOwner :: "string \<Rightarrow> cordonOwner option" where
  "parseCordonOwner value = (case split_on (CHR ''/'') value of
     [ns, name, uid] \<Rightarrow> if ns = [] \<or> name = [] \<or> uid = [] then None
       else Some \<lparr>ow_namespace = ns, ow_name = name, ow_uid = uid\<rparr>
   | _ \<Rightarrow> None)"

section \<open>Declared heat\<close>

text \<open>\<^verbatim>\<open>settledPollInterval\<close>, in nanoseconds.\<close>

definition heatReleaseMargin :: int where
  "heatReleaseMargin = 300 * second"

definition heatExpiry :: "timestamp \<Rightarrow> BurnInTestSpec \<Rightarrow> timestamp" where
  "heatExpiry now spec = now + (podWindow spec + heatReleaseMargin)"

definition heatExpectedID :: "BurnInRun \<Rightarrow> timestamp \<Rightarrow> string" where
  "heatExpectedID run expiry = cordonOwnerID run @ ''/'' @ FormatRFC3339 expiry"

record heatMarker =
  hm_owner :: cordonOwner
  hm_expiry :: timestamp

definition parseHeatExpected :: "string \<Rightarrow> heatMarker option" where
  "parseHeatExpected value = (case split_on (CHR ''/'') value of
     [ns, name, uid, expiry] \<Rightarrow> (case parseCordonOwner (Join [ns, name, uid] ''/'') of
        None \<Rightarrow> None
      | Some owner \<Rightarrow> map_option (\<lambda>e. \<lparr>hm_owner = owner, hm_expiry = e\<rparr>) (ParseRFC3339 expiry))
   | _ \<Rightarrow> None)"

definition annotate :: "string \<Rightarrow> string \<Rightarrow> Node \<Rightarrow> Node" where
  "annotate k v node = node\<lparr>nd_annotations := mput k v (nd_annotations node)\<rparr>"

definition unannotate :: "string \<Rightarrow> Node \<Rightarrow> Node" where
  "unannotate k node = node\<lparr>nd_annotations := mdel k (nd_annotations node)\<rparr>"

definition stampHeatExpected :: "BurnInRun \<Rightarrow> timestamp \<Rightarrow> Node \<Rightarrow> bool \<times> Node" where
  "stampHeatExpected run expiry node =
     (let raw = label_at (nd_annotations node) AnnotationHeatExpected;
          stamp = (True, annotate AnnotationHeatExpected (heatExpectedID run expiry) node)
      in if raw = [] then stamp
         else (case parseHeatExpected raw of
           None \<Rightarrow> (False, node)
         | Some existing \<Rightarrow>
             if ow_uid (hm_owner existing) \<noteq> run_uid run then (False, node)
             else if \<not> hm_expiry existing < expiry then (False, node)
             else stamp))"

definition dropHeatExpected :: "string \<Rightarrow> Node \<Rightarrow> bool \<times> Node" where
  "dropHeatExpected uid node = (case mget (nd_annotations node) AnnotationHeatExpected of
     None \<Rightarrow> (False, node)
   | Some raw \<Rightarrow> (case parseHeatExpected raw of
       None \<Rightarrow> (False, node)
     | Some marker \<Rightarrow> if ow_uid (hm_owner marker) \<noteq> uid then (False, node)
                      else (True, unannotate AnnotationHeatExpected node)))"

section \<open>How a node was found\<close>

definition preBurnInSchedulability :: "Node \<Rightarrow> bool" where
  "preBurnInSchedulability node =
     (if mhas (nd_annotations node) AnnotationCordonOwner
      then label_at (nd_annotations node) AnnotationPriorUnschedulable = PriorUnschedulableTrue
      else nd_unschedulable node)"

definition capturePriorSchedulability :: "api \<Rightarrow> Node gomap \<Rightarrow> string list \<Rightarrow> nameset" where
  "capturePriorSchedulability api nodes targets =
     fold (\<lambda>name prior. if api (GetNode name) \<noteq> None then prior
         else (case mget nodes name of None \<Rightarrow> prior
           | Some node \<Rightarrow> mput name (preBurnInSchedulability node) prior)) targets []"

definition priorUnschedulable :: "BurnInRun \<Rightarrow> string \<Rightarrow> bool \<Rightarrow> bool" where
  "priorUnschedulable run name observed =
     (case mget (st_prior_unschedulable (run_status run)) name of Some recorded \<Rightarrow> recorded | None \<Rightarrow> observed)"

definition restoredUnschedulable :: "BurnInRun \<Rightarrow> string \<Rightarrow> Node \<Rightarrow> bool" where
  "restoredUnschedulable run name node =
     priorUnschedulable run name (label_at (nd_annotations node) AnnotationPriorUnschedulable = PriorUnschedulableTrue)"

section \<open>Taking a node\<close>

definition set_cordoned :: "string list \<Rightarrow> BurnInRun \<Rightarrow> BurnInRun" where
  "set_cordoned names run = run\<lparr>run_status := (run_status run)\<lparr>st_cordoned_nodes := names\<rparr>\<rparr>"

definition sortedNames :: "string list \<Rightarrow> string list" where
  "sortedNames names = sort_strings (remdups names)"

text \<open>The end of \<^verbatim>\<open>cordonNode\<close>: whether the list of held nodes changed.\<close>

definition note_held :: "string list \<Rightarrow> BurnInRun \<Rightarrow> bool \<times> BurnInRun" where
  "note_held held run =
     (let updated = sortedNames held in
      if st_cordoned_nodes (run_status run) = updated then (False, run) else (True, set_cordoned updated run))"

definition reassert :: "timestamp \<Rightarrow> BurnInRun \<Rightarrow> BurnInTestSpec \<Rightarrow> Node \<Rightarrow> bool \<times> Node" where
  "reassert now run spec node =
     (let (r, node) = (if DrivesSustainedLoad (ts_kind spec) then stampHeatExpected run (heatExpiry now spec) node
            else dropHeatExpected (run_uid run) node)
      in if \<not> nd_unschedulable node then (True, node\<lparr>nd_unschedulable := True\<rparr>) else (r, node))"

definition stamp_owner :: "timestamp \<Rightarrow> BurnInRun \<Rightarrow> string \<Rightarrow> BurnInTestSpec \<Rightarrow> Node \<Rightarrow> Node" where
  "stamp_owner now run name spec node =
     (let stamped = annotate AnnotationPriorUnschedulable (FormatBool (priorUnschedulable run name (nd_unschedulable node)))
            (annotate AnnotationCordonOwner (cordonOwnerID run) node)
      in snd (if DrivesSustainedLoad (ts_kind spec) then stampHeatExpected run (heatExpiry now spec) stamped
              else dropHeatExpected (run_uid run) stamped))"

type_synonym 'a cordon_result = "(ApiErr + 'a) \<times> Node gomap \<times> BurnInRun"

definition cordonNode ::
  "api \<Rightarrow> timestamp \<Rightarrow> string \<Rightarrow> BurnInTestSpec \<Rightarrow> Node gomap \<times> BurnInRun \<Rightarrow> bool cordon_result" where
  "cordonNode api now name spec nr = (case nr of (nodes, run) \<Rightarrow>
     (let held = st_cordoned_nodes (run_status run) in
      case api (GetNode name) of
        Some ApiNotFound \<Rightarrow> (Inr False, nodes, run)
      | Some e \<Rightarrow> (Inl e, nodes, run)
      | None \<Rightarrow> (case mget nodes name of
          None \<Rightarrow> (Inr False, nodes, run)
        | Some node \<Rightarrow>
            (let existing = label_at (nd_annotations node) AnnotationCordonOwner in
             if existing = cordonOwnerID run then
               (let (reasserted, node') = reassert now run spec node in
                if reasserted then
                  (case api (UpdateNode name 0) of
                     Some e \<Rightarrow> (Inl e, nodes, run)
                   | None \<Rightarrow> (let (c, run') = note_held (name # held) run in (Inr c, mput name node' nodes, run')))
                else (let (c, run') = note_held (name # held) run in (Inr c, nodes, run')))
             else if existing \<noteq> [] then (let (c, run') = note_held held run in (Inr c, nodes, run'))
             else
               (let node1 = stamp_owner now run name spec node in
                case api (UpdateNode name 0) of
                  Some e \<Rightarrow> (Inl e, nodes, run)
                | None \<Rightarrow>
                    (let nodes1 = mput name node1 nodes in
                     if \<not> nd_unschedulable node1 then
                       (case api (UpdateNode name 1) of
                          Some e \<Rightarrow> (Inl e, nodes1, run)
                        | None \<Rightarrow> (let (c, run') = note_held (name # held) run
                                   in (Inr c, mput name (node1\<lparr>nd_unschedulable := True\<rparr>) nodes1, run')))
                     else (let (c, run') = note_held (name # held) run in (Inr c, nodes1, run'))))))))"

fun cordonWave ::
  "api \<Rightarrow> timestamp \<Rightarrow> BurnInTestSpec \<Rightarrow> string list \<Rightarrow> bool \<Rightarrow> Node gomap \<times> BurnInRun \<Rightarrow> (ApiErr option \<times> bool) \<times> Node gomap \<times> BurnInRun" where
  "cordonWave api now spec [] changed nr = ((None, changed), nr)"
| "cordonWave api now spec (n # ns) changed nr =
     (case cordonNode api now n spec nr of
        (Inl e, nr') \<Rightarrow> ((Some e, changed), nr')
      | (Inr c, nr') \<Rightarrow> cordonWave api now spec ns (changed \<or> c) nr')"

section \<open>Giving it back\<close>

definition restore_node :: "bool \<Rightarrow> string \<Rightarrow> Node \<Rightarrow> Node" where
  "restore_node prior uid node =
     snd (dropHeatExpected uid (unannotate AnnotationPriorUnschedulable (unannotate AnnotationCordonOwner
       (node\<lparr>nd_unschedulable := prior\<rparr>))))"

definition forget_held :: "string \<Rightarrow> BurnInRun \<Rightarrow> bool \<times> BurnInRun" where
  "forget_held name run =
     (let kept = filter (\<lambda>n. n \<noteq> name) (st_cordoned_nodes (run_status run)) in
      if length kept = length (st_cordoned_nodes (run_status run)) then (False, run) else (True, set_cordoned kept run))"

definition releaseNode :: "api \<Rightarrow> string \<Rightarrow> Node gomap \<times> BurnInRun \<Rightarrow> bool cordon_result" where
  "releaseNode api name nr = (case nr of (nodes, run) \<Rightarrow>
     (case api (GetNode name) of
        Some (ApiOther e) \<Rightarrow> (Inl (ApiOther e), nodes, run)
      | Some ApiNotFound \<Rightarrow> (let (c, run') = forget_held name run in (Inr c, nodes, run'))
      | None \<Rightarrow> (case mget nodes name of
          None \<Rightarrow> (let (c, run') = forget_held name run in (Inr c, nodes, run'))
        | Some node \<Rightarrow>
            if label_at (nd_annotations node) AnnotationCordonOwner \<noteq> cordonOwnerID run
            then (let (c, run') = forget_held name run in (Inr c, nodes, run'))
            else (let node' = restore_node (restoredUnschedulable run name node) (run_uid run) node in
              case api (UpdateNode name 0) of
                Some (ApiOther e) \<Rightarrow> (Inl (ApiOther e), nodes, run)
              | Some ApiNotFound \<Rightarrow> (let (c, run') = forget_held name run in (Inr c, nodes, run'))
              | None \<Rightarrow> (let (c, run') = forget_held name run in (Inr c, mput name node' nodes, run'))))))"

fun release_names ::
  "api \<Rightarrow> nameset \<Rightarrow> string list \<Rightarrow> bool \<Rightarrow> Node gomap \<times> BurnInRun \<Rightarrow> (ApiErr option \<times> bool) \<times> Node gomap \<times> BurnInRun" where
  "release_names api held [] changed nr = ((None, changed), nr)"
| "release_names api held (name # names) changed nr =
     (if flagged held name then release_names api held names changed nr
      else (case releaseNode api name nr of
        (Inl e, nr') \<Rightarrow> ((Some e, changed), nr')
      | (Inr c, nr') \<Rightarrow> release_names api held names (changed \<or> c) nr'))"

definition releaseHeldNodes ::
  "api \<Rightarrow> nameset \<Rightarrow> Node gomap \<times> BurnInRun \<Rightarrow> (ApiErr option \<times> bool) \<times> Node gomap \<times> BurnInRun" where
  "releaseHeldNodes api held nr = release_names api held (st_cordoned_nodes (run_status (snd nr))) False nr"

text \<open>The loop of \<^verbatim>\<open>releaseCordons\<close> over all nodes; a node that is gone counts as released.\<close>

fun release_owned ::
  "api \<Rightarrow> BurnInRun \<Rightarrow> (string \<times> Node) list \<Rightarrow> bool \<Rightarrow> Node gomap \<Rightarrow> (ApiErr option \<times> bool) \<times> Node gomap" where
  "release_owned api run [] changed nodes = ((None, changed), nodes)"
| "release_owned api run ((name, node) # rest) changed nodes =
     (if label_at (nd_annotations node) AnnotationCordonOwner \<noteq> cordonOwnerID run
      then release_owned api run rest changed nodes
      else (let node' = restore_node (restoredUnschedulable run name node) (run_uid run) node in
        case api (UpdateNode name 0) of
          Some ApiNotFound \<Rightarrow> release_owned api run rest True nodes
        | Some e \<Rightarrow> ((Some e, changed), nodes)
        | None \<Rightarrow> release_owned api run rest True (mput name node' nodes)))"

definition releaseCordons :: "api \<Rightarrow> Node gomap \<times> BurnInRun \<Rightarrow> (ApiErr option \<times> bool) \<times> Node gomap \<times> BurnInRun" where
  "releaseCordons api nr = (case nr of (nodes, run) \<Rightarrow>
     (case api ListNodes of
        Some e \<Rightarrow> ((Some e, False), nodes, run)
      | None \<Rightarrow> (case release_owned api run nodes False nodes of
          ((Some e, changed), nodes') \<Rightarrow> ((Some e, changed), nodes', run)
        | ((None, changed), nodes') \<Rightarrow>
            if st_cordoned_nodes (run_status run) \<noteq> [] then ((None, True), nodes', set_cordoned [] run)
            else ((None, changed), nodes', run))))"

section \<open>Reaping\<close>

text \<open>
  \<open>live\<close> is the lookup of a run by namespace and name, uncached. The answer says whether the stamp
  is live.
\<close>

definition reapOrphanedCordon ::
  "api \<Rightarrow> (string \<Rightarrow> string \<Rightarrow> BurnInRun option) \<Rightarrow> string \<Rightarrow> Node gomap \<Rightarrow> (ApiErr option \<times> bool) \<times> Node gomap" where
  "reapOrphanedCordon api live name nodes = (case mget nodes name of
     None \<Rightarrow> ((None, False), nodes)
   | Some node \<Rightarrow> (case mget (nd_annotations node) AnnotationCordonOwner of
       None \<Rightarrow> ((None, False), nodes)
     | Some stamp \<Rightarrow> (case parseCordonOwner stamp of
         None \<Rightarrow> ((None, False), nodes)
       | Some owner \<Rightarrow>
           (let found = (case api (GetRun (ow_namespace owner) (ow_name owner)) of
                  Some e \<Rightarrow> Inl e
                | None \<Rightarrow> (case live (ow_namespace owner) (ow_name owner) of None \<Rightarrow> Inl ApiNotFound | Some r \<Rightarrow> Inr r));
                reap = (let prior = label_at (nd_annotations node) AnnotationPriorUnschedulable = PriorUnschedulableTrue;
                            node' = restore_node prior (ow_uid owner) node
                        in case api (UpdateNode name 0) of
                             None \<Rightarrow> ((None, False), mput name node' nodes)
                           | Some ApiNotFound \<Rightarrow> ((None, False), nodes)
                           | Some e \<Rightarrow> ((Some e, True), nodes))
            in case found of
                 Inr r \<Rightarrow> if run_uid r = ow_uid owner then ((None, True), nodes) else reap
               | Inl ApiNotFound \<Rightarrow> reap
               | Inl e \<Rightarrow> ((Some e, True), nodes)))))"

section \<open>Marks read back\<close>

text \<open>The parts of an owner, as Kubernetes names are: not empty and without a slash.\<close>

definition plain :: "string \<Rightarrow> bool" where
  "plain s = (s \<noteq> [] \<and> CHR ''/'' \<notin> set s)"

definition named :: "BurnInRun \<Rightarrow> bool" where
  "named run = (plain (run_namespace run) \<and> plain (run_name run) \<and> plain (run_uid run))"

definition owner_of :: "BurnInRun \<Rightarrow> cordonOwner" where
  "owner_of run = \<lparr>ow_namespace = run_namespace run, ow_name = run_name run, ow_uid = run_uid run\<rparr>"

lemma split_on_none: "c \<notin> set a \<Longrightarrow> split_on c a = [a]"
  by (induction a) auto

lemma split_on_first: "c \<notin> set a \<Longrightarrow> split_on c (a @ c # b) = a # split_on c b"
  by (induction a) auto

lemma cordonOwnerID_split: "named run \<Longrightarrow> split_on (CHR ''/'') (cordonOwnerID run) = [run_namespace run, run_name run, run_uid run]"
  by (simp add: cordonOwnerID_def named_def plain_def split_on_first split_on_none)

lemma parse_owner: "named run \<Longrightarrow> parseCordonOwner (cordonOwnerID run) = Some (owner_of run)"
  by (simp add: parseCordonOwner_def cordonOwnerID_split) (simp add: named_def plain_def owner_of_def)

lemma parse_heat:
  assumes "named run" and "four_digit_year expiry"
  shows "parseHeatExpected (heatExpectedID run expiry) = Some \<lparr>hm_owner = owner_of run, hm_expiry = expiry div second * second\<rparr>"
proof -
  have "split_on (CHR ''/'') (heatExpectedID run expiry) = [run_namespace run, run_name run, run_uid run, FormatRFC3339 expiry]"
    using assms(1) FormatRFC3339_no_slash[OF assms(2)]
    by (simp add: heatExpectedID_def cordonOwnerID_def named_def plain_def split_on_first split_on_none)
  moreover have "Join [run_namespace run, run_name run, run_uid run] ''/'' = cordonOwnerID run" by (simp add: cordonOwnerID_def)
  ultimately show ?thesis using parse_owner[OF assms(1)] ParseRFC3339_Format[OF assms(2)]
    by (simp add: parseHeatExpected_def nanosecond_def second_def)
qed

section \<open>What each write leaves alone\<close>

definition owned :: "Node \<Rightarrow> bool" where
  "owned node = mhas (nd_annotations node) AnnotationCordonOwner"

lemma annotation_names:
  "AnnotationHeatExpected \<noteq> AnnotationCordonOwner" "AnnotationHeatExpected \<noteq> AnnotationPriorUnschedulable"
  "AnnotationCordonOwner \<noteq> AnnotationPriorUnschedulable"
  by (simp_all add: AnnotationHeatExpected_def AnnotationCordonOwner_def AnnotationPriorUnschedulable_def)

text \<open>The heat marks touch one annotation.\<close>

definition heat_only :: "Node \<Rightarrow> Node \<Rightarrow> bool" where
  "heat_only node node' = (nd_unschedulable node' = nd_unschedulable node \<and> nd_labels node' = nd_labels node \<and>
     (\<forall>k. k \<noteq> AnnotationHeatExpected \<longrightarrow> mget (nd_annotations node') k = mget (nd_annotations node) k))"

lemma stampHeat_only: "heat_only node (snd (stampHeatExpected run e node))"
  by (auto simp: stampHeatExpected_def heat_only_def Let_def annotate_def mget_put split: option.splits)

lemma dropHeat_only: "heat_only node (snd (dropHeatExpected uid node))"
  by (auto simp: dropHeatExpected_def heat_only_def unannotate_def mget_del split: option.splits)

lemma heat_only_pre:
  assumes "heat_only node node'"
  shows "preBurnInSchedulability node' = preBurnInSchedulability node" "owned node' = owned node"
    "mget (nd_annotations node') AnnotationCordonOwner = mget (nd_annotations node) AnnotationCordonOwner"
    "nd_unschedulable node' = nd_unschedulable node"
  using assms annotation_names by (auto simp: heat_only_def preBurnInSchedulability_def owned_def mhas_def label_at_def)

lemma label_at_put: "label_at (mput k v m) j = (if j = k then v else label_at m j)"
  by (simp add: label_at_def mget_put)

section \<open>Nodes stay as they were found\<close>

text \<open>
  \<open>base\<close> says how the nodes were before any run touched them. A node agrees with it when its
  mark says so, or when it has no mark and is in that state; a run agrees when what it has
  recorded does.
\<close>

definition node_as_found :: "(string \<Rightarrow> bool) \<Rightarrow> string \<Rightarrow> Node \<Rightarrow> bool" where
  "node_as_found base name node = (preBurnInSchedulability node = base name \<and>
     mget (nd_annotations node) AnnotationCordonOwner \<noteq> Some [])"

definition nodes_as_found :: "(string \<Rightarrow> bool) \<Rightarrow> Node gomap \<Rightarrow> bool" where
  "nodes_as_found base nodes = (\<forall>name node. mget nodes name = Some node \<longrightarrow> node_as_found base name node)"

definition run_as_found :: "(string \<Rightarrow> bool) \<Rightarrow> BurnInRun \<Rightarrow> bool" where
  "run_as_found base run = (\<forall>name b. mget (st_prior_unschedulable (run_status run)) name = Some b \<longrightarrow> b = base name)"

lemma nodes_as_found_put: "nodes_as_found base nodes \<Longrightarrow> node_as_found base name node \<Longrightarrow> nodes_as_found base (mput name node nodes)"
  by (auto simp: nodes_as_found_def mget_put)

lemma prior_as_found: "run_as_found base run \<Longrightarrow> observed = base name \<Longrightarrow> priorUnschedulable run name observed = base name"
  by (auto simp: priorUnschedulable_def run_as_found_def split: option.splits)

lemma owner_id_not_Nil: "cordonOwnerID run \<noteq> []"
  by (simp add: cordonOwnerID_def)

lemma reassert_as_found:
  assumes "node_as_found base name node" and "owned node"
  shows "node_as_found base name (snd (reassert now run spec node))"
proof -
  define n1 where "n1 = snd (if DrivesSustainedLoad (ts_kind spec) then stampHeatExpected run (heatExpiry now spec) node
      else dropHeatExpected (run_uid run) node)"
  have n1: "heat_only node n1" "snd (reassert now run spec node) = (if \<not> nd_unschedulable n1 then n1\<lparr>nd_unschedulable := True\<rparr> else n1)"
    using stampHeat_only dropHeat_only by (simp_all add: reassert_def Let_def case_prod_unfold n1_def)
  then show ?thesis using assms heat_only_pre[OF n1(1)]
    by (auto simp: node_as_found_def preBurnInSchedulability_def owned_def)
qed

lemma stamp_owner_as_found:
  assumes "node_as_found base name node" and "\<not> owned node" and "run_as_found base run"
  shows "node_as_found base name (stamp_owner now run name spec node)" "owned (stamp_owner now run name spec node)"
    "nd_unschedulable (stamp_owner now run name spec node) = nd_unschedulable node"
proof -
  let ?p = "priorUnschedulable run name (nd_unschedulable node)"
  let ?s = "annotate AnnotationPriorUnschedulable (FormatBool ?p) (annotate AnnotationCordonOwner (cordonOwnerID run) node)"
  have h: "heat_only ?s (stamp_owner now run name spec node)"
    using stampHeat_only dropHeat_only by (simp add: stamp_owner_def Let_def)
  have "nd_unschedulable node = base name" using assms(1,2) by (simp add: node_as_found_def preBurnInSchedulability_def owned_def)
  then have "?p = base name" by (rule prior_as_found[OF assms(3)])
  moreover have "mget (nd_annotations ?s) AnnotationCordonOwner = Some (cordonOwnerID run)"
    using annotation_names by (simp add: annotate_def mget_put)
  moreover have "preBurnInSchedulability ?s = ?p"
    using annotation_names by (auto simp: preBurnInSchedulability_def annotate_def mhas_def mget_put label_at_put FormatBool_def PriorUnschedulableTrue_def)
  ultimately show "node_as_found base name (stamp_owner now run name spec node)" "owned (stamp_owner now run name spec node)"
    "nd_unschedulable (stamp_owner now run name spec node) = nd_unschedulable node"
    using heat_only_pre[OF h] owner_id_not_Nil by (auto simp: node_as_found_def owned_def mhas_def annotate_def)
qed

lemma restore_node_as_found:
  "prior = base name \<Longrightarrow> node_as_found base name (restore_node prior uid node)" "\<not> owned (restore_node prior uid node)"
proof -
  let ?s = "unannotate AnnotationPriorUnschedulable (unannotate AnnotationCordonOwner (node\<lparr>nd_unschedulable := prior\<rparr>))"
  have h: "heat_only ?s (restore_node prior uid node)" using dropHeat_only by (simp add: restore_node_def)
  have s: "\<not> owned ?s" "nd_unschedulable ?s = prior" "mget (nd_annotations ?s) AnnotationCordonOwner = None"
    by (simp_all add: owned_def unannotate_def mhas_def mget_del)
  show "\<not> owned (restore_node prior uid node)" using heat_only_pre(2)[OF h] s(1) by simp
  show "prior = base name \<Longrightarrow> node_as_found base name (restore_node prior uid node)"
    using heat_only_pre[OF h] s by (simp add: node_as_found_def preBurnInSchedulability_def owned_def[symmetric])
qed

lemma restored_as_found:
  assumes "node_as_found base name node" and "owned node" and "run_as_found base run"
  shows "restoredUnschedulable run name node = base name"
  unfolding restoredUnschedulable_def
  by (rule prior_as_found[OF assms(3)]) (use assms(1,2) in \<open>simp add: node_as_found_def preBurnInSchedulability_def owned_def\<close>)

lemma owned_by: "label_at (nd_annotations node) AnnotationCordonOwner = cordonOwnerID run \<Longrightarrow> owned node"
  using owner_id_not_Nil[of run] by (auto simp: owned_def mhas_def label_at_def split: option.splits)

lemma not_owned: "node_as_found base name node \<Longrightarrow> label_at (nd_annotations node) AnnotationCordonOwner = [] \<Longrightarrow> \<not> owned node"
  by (auto simp: owned_def mhas_def label_at_def node_as_found_def split: option.splits)

lemma run_as_found_cordoned [simp]: "run_as_found base (set_cordoned names run) = run_as_found base run"
  by (simp add: run_as_found_def set_cordoned_def)

lemma note_held_as_found: "run_as_found base run \<Longrightarrow> run_as_found base (snd (note_held held run))"
  by (simp add: note_held_def Let_def)

lemma forget_held_as_found: "run_as_found base run \<Longrightarrow> run_as_found base (snd (forget_held name run))"
  by (simp add: forget_held_def Let_def)

definition kept :: "(string \<Rightarrow> bool) \<Rightarrow> Node gomap \<times> BurnInRun \<Rightarrow> bool" where
  "kept base nr = (nodes_as_found base (fst nr) \<and> run_as_found base (snd nr))"

lemma cordonNode_keeps:
  assumes "kept base nr"
  shows "kept base (snd (cordonNode api now name spec nr))"
proof -
  obtain nodes run where nr: "nr = (nodes, run)" by (cases nr)
  have k: "nodes_as_found base nodes" "run_as_found base run" using assms by (simp_all add: kept_def nr)
  show ?thesis
  proof (cases "mget nodes name")
    case None
    then show ?thesis using k by (auto simp: nr cordonNode_def kept_def Let_def split: option.splits ApiErr.splits)
  next
    case (Some node)
    have n: "node_as_found base name node" using k(1) Some by (simp add: nodes_as_found_def)
    have re: "node_as_found base name (snd (reassert now run spec node))"
      if "label_at (nd_annotations node) AnnotationCordonOwner = cordonOwnerID run"
      using reassert_as_found[OF n owned_by[OF that]] .
    have st: "node_as_found base name (stamp_owner now run name spec node)" "owned (stamp_owner now run name spec node)"
      if "label_at (nd_annotations node) AnnotationCordonOwner = []"
      using stamp_owner_as_found[OF n not_owned[OF n that] k(2)] by blast+
    have up: "node_as_found base name (m\<lparr>nd_unschedulable := True\<rparr>)" if "node_as_found base name m" "owned m" for m
      using that by (simp add: node_as_found_def preBurnInSchedulability_def owned_def)
    show ?thesis using k re st up Some note_held_as_found[OF k(2)]
      by (auto simp: nr cordonNode_def kept_def Let_def case_prod_unfold intro!: nodes_as_found_put split: option.splits ApiErr.splits)
  qed
qed

lemma releaseNode_keeps:
  assumes "kept base nr"
  shows "kept base (snd (releaseNode api name nr))"
proof -
  obtain nodes run where nr: "nr = (nodes, run)" by (cases nr)
  have k: "nodes_as_found base nodes" "run_as_found base run" using assms by (simp_all add: kept_def nr)
  have "node_as_found base name (restore_node (restoredUnschedulable run name node) (run_uid run) node)"
    if "mget nodes name = Some node" "label_at (nd_annotations node) AnnotationCordonOwner = cordonOwnerID run" for node
    using restored_as_found[OF _ owned_by[OF that(2)] k(2)] restore_node_as_found(1) k(1) that(1) by (simp add: nodes_as_found_def)
  then show ?thesis using k forget_held_as_found[OF k(2)]
    by (auto simp: nr releaseNode_def kept_def Let_def case_prod_unfold intro!: nodes_as_found_put split: option.splits ApiErr.splits)
qed

lemma release_owned_keeps:
  assumes "run_as_found base run" and "nodes_as_found base nodes" and "\<forall>(name, node) \<in> set ns. node_as_found base name node"
  shows "nodes_as_found base (snd (release_owned api run ns changed nodes))"
  using assms(2,3)
proof (induction ns arbitrary: changed nodes)
  case (Cons x rest)
  obtain name node where x: "x = (name, node)" by (cases x)
  have "node_as_found base name (restore_node (restoredUnschedulable run name node) (run_uid run) node)"
    if "label_at (nd_annotations node) AnnotationCordonOwner = cordonOwnerID run"
    using restored_as_found[OF _ owned_by[OF that] assms(1)] restore_node_as_found(1) Cons.prems(2) x by auto
  then show ?case using Cons x by (auto simp: Let_def intro!: Cons.IH nodes_as_found_put split: option.splits ApiErr.splits)
qed simp

lemma releaseCordons_keeps:
  assumes "kept base nr" and "wf_map (fst nr)"
  shows "kept base (snd (releaseCordons api nr))"
proof -
  obtain nodes run where nr: "nr = (nodes, run)" by (cases nr)
  have k: "nodes_as_found base nodes" "run_as_found base run" using assms by (simp_all add: kept_def nr)
  have "\<forall>(name, node) \<in> set nodes. node_as_found base name node"
    using k(1) assms(2) by (auto simp: nodes_as_found_def nr dest: mget_in_wf)
  note r = release_owned_keeps[OF k(2,1) this, of api False]
  show ?thesis using r k
    by (auto simp: nr releaseCordons_def kept_def split: option.splits prod.splits)
qed

lemma reap_keeps:
  assumes "nodes_as_found base nodes"
  shows "nodes_as_found base (snd (reapOrphanedCordon api live name nodes))"
proof (cases "mget nodes name")
  case None
  then show ?thesis using assms by (simp add: reapOrphanedCordon_def)
next
  case (Some node)
  have n: "node_as_found base name node" using assms Some by (simp add: nodes_as_found_def)
  have "node_as_found base name (restore_node (label_at (nd_annotations node) AnnotationPriorUnschedulable = PriorUnschedulableTrue) uid node)"
    if "mget (nd_annotations node) AnnotationCordonOwner = Some stamp" for uid stamp
    using n that by (intro restore_node_as_found(1)) (simp add: node_as_found_def preBurnInSchedulability_def mhas_def)
  then show ?thesis using assms Some
    by (auto simp: reapOrphanedCordon_def Let_def intro!: nodes_as_found_put split: option.splits ApiErr.splits sum.splits)
qed

lemma capture_as_found:
  assumes "nodes_as_found base nodes" and "mget (capturePriorSchedulability api nodes targets) name = Some b"
  shows "b = base name"
proof -
  have "\<forall>name b. mget (fold (\<lambda>name prior. if api (GetNode name) \<noteq> None then prior
         else (case mget nodes name of None \<Rightarrow> prior
           | Some node \<Rightarrow> mput name (preBurnInSchedulability node) prior)) targets prior) name = Some b \<longrightarrow> b = base name"
    if "\<forall>name b. mget prior name = Some b \<longrightarrow> b = base name" for prior
    using that
  proof (induction targets arbitrary: prior)
    case (Cons t ts)
    have "\<forall>name b. mget (if api (GetNode t) \<noteq> None then prior else (case mget nodes t of None \<Rightarrow> prior
        | Some node \<Rightarrow> mput t (preBurnInSchedulability node) prior)) name = Some b \<longrightarrow> b = base name"
      using Cons.prems assms(1) by (auto simp: mget_put nodes_as_found_def node_as_found_def split: option.splits)
    from Cons.IH[OF this] show ?case by simp
  qed simp
  from this[of "[]"] show ?thesis using assms(2) by (simp add: capturePriorSchedulability_def)
qed

section \<open>Every interleaving\<close>

text \<open>
  What can happen to the nodes of a cluster: a run starts and records how it found its targets, a
  run takes or gives back nodes (any of its writes may fail, and its object may be lost from one
  moment to the next), the reaper visits a node. Runs may overlap.
\<close>

datatype NodeEvent =
    Appear BurnInRun
  | Capture nat api "string list"
  | TakeNode nat api timestamp string BurnInTestSpec
  | GiveNode nat api string
  | GiveAll nat api
  | Reap api string
  | Lose nat

definition find_run :: "BurnInRun list \<Rightarrow> string \<Rightarrow> string \<Rightarrow> BurnInRun option" where
  "find_run runs ns name = find (\<lambda>r. run_namespace r = ns \<and> run_name r = name) runs"

definition at_run :: "nat \<Rightarrow> (Node gomap \<times> BurnInRun \<Rightarrow> 'r \<times> Node gomap \<times> BurnInRun) \<Rightarrow> Node gomap \<times> BurnInRun list \<Rightarrow> Node gomap \<times> BurnInRun list" where
  "at_run i f s = (case s of (nodes, runs) \<Rightarrow>
     if i < length runs then (case f (nodes, runs ! i) of (_, nodes', run') \<Rightarrow> (nodes', runs[i := run'])) else s)"

fun node_event :: "NodeEvent \<Rightarrow> Node gomap \<times> BurnInRun list \<Rightarrow> Node gomap \<times> BurnInRun list" where
  "node_event (Appear run) s = (if st_prior_unschedulable (run_status run) = [] then (fst s, snd s @ [run]) else s)"
| "node_event (Capture i api targets) s = at_run i (\<lambda>(nodes, run). ((), nodes,
     if st_prior_unschedulable (run_status run) = []
     then run\<lparr>run_status := (run_status run)\<lparr>st_prior_unschedulable := capturePriorSchedulability api nodes targets\<rparr>\<rparr> else run)) s"
| "node_event (TakeNode i api now name spec) s = at_run i (cordonNode api now name spec) s"
| "node_event (GiveNode i api name) s = at_run i (releaseNode api name) s"
| "node_event (GiveAll i api) s = at_run i (releaseCordons api) s"
| "node_event (Reap api name) s = (snd (reapOrphanedCordon api (find_run (snd s)) name (fst s)), snd s)"
| "node_event (Lose i) s = (fst s, take i (snd s) @ drop (Suc i) (snd s))"

definition cluster_as_found :: "(string \<Rightarrow> bool) \<Rightarrow> Node gomap \<times> BurnInRun list \<Rightarrow> bool" where
  "cluster_as_found base s = (wf_map (fst s) \<and> nodes_as_found base (fst s) \<and> list_all (run_as_found base) (snd s))"

lemma at_run_as_found:
  assumes "cluster_as_found base s"
    and "\<And>nr. kept base nr \<Longrightarrow> wf_map (fst nr) \<Longrightarrow> kept base (snd (f nr)) \<and> wf_map (fst (snd (f nr)))"
  shows "cluster_as_found base (at_run i f s)"
proof (cases "i < length (snd s)")
  case True
  have "kept base (fst s, snd s ! i)" "wf_map (fst s)" using assms(1) True by (auto simp: cluster_as_found_def kept_def list_all_length)
  from assms(2)[OF this(1)] this(2) show ?thesis using assms(1) True
    by (auto simp: at_run_def cluster_as_found_def kept_def list_all_length nth_list_update split: prod.splits)
next
  case False
  then show ?thesis using assms(1) by (cases s) (auto simp: at_run_def)
qed

lemma cordonNode_wf: "wf_map (fst nr) \<Longrightarrow> wf_map (fst (snd (cordonNode api now name spec nr)))"
  by (auto simp: cordonNode_def Let_def case_prod_unfold split: option.splits ApiErr.splits)

lemma releaseNode_wf: "wf_map (fst nr) \<Longrightarrow> wf_map (fst (snd (releaseNode api name nr)))"
  by (auto simp: releaseNode_def Let_def case_prod_unfold split: option.splits ApiErr.splits)

lemma release_owned_wf: "wf_map nodes \<Longrightarrow> wf_map (snd (release_owned api run ns changed nodes))"
  by (induction ns arbitrary: changed nodes) (auto simp: Let_def split: option.splits ApiErr.splits)

lemma releaseCordons_wf: "wf_map (fst nr) \<Longrightarrow> wf_map (fst (snd (releaseCordons api nr)))"
  using release_owned_wf[of "fst nr" api "snd nr" "fst nr" False]
  by (auto simp: releaseCordons_def case_prod_unfold split: option.splits prod.splits)

lemma reap_wf: "wf_map nodes \<Longrightarrow> wf_map (snd (reapOrphanedCordon api live name nodes))"
  by (auto simp: reapOrphanedCordon_def Let_def split: option.splits ApiErr.splits sum.splits)

lemma node_event_as_found:
  assumes "cluster_as_found base s"
  shows "cluster_as_found base (node_event e s)"
proof (cases e)
  case (Capture i api targets)
  show ?thesis unfolding Capture node_event.simps
    by (rule at_run_as_found[OF assms]) (auto simp: kept_def run_as_found_def case_prod_unfold dest: capture_as_found split: if_splits)
next
  case (TakeNode i api now name spec)
  show ?thesis unfolding TakeNode node_event.simps
    by (rule at_run_as_found[OF assms]) (simp add: cordonNode_keeps cordonNode_wf)
next
  case (GiveNode i api name)
  show ?thesis unfolding GiveNode node_event.simps
    by (rule at_run_as_found[OF assms]) (simp add: releaseNode_keeps releaseNode_wf)
next
  case (GiveAll i api)
  show ?thesis unfolding GiveAll node_event.simps
    by (rule at_run_as_found[OF assms]) (simp add: releaseCordons_keeps releaseCordons_wf)
next
  case (Reap api name)
  then show ?thesis using assms by (simp add: cluster_as_found_def reap_keeps reap_wf)
next
  case (Appear run)
  then show ?thesis using assms by (simp add: cluster_as_found_def run_as_found_def)
next
  case (Lose i)
  then show ?thesis using assms by (auto simp: cluster_as_found_def list_all_iff dest: in_set_takeD in_set_dropD)
qed

interpretation node_events: loop_invariant node_event "cluster_as_found base" for base
  by unfold_locales (rule node_event_as_found)

section \<open>Taking a node and giving it back\<close>

definition unmarked :: "Node \<Rightarrow> bool" where
  "unmarked node = (\<forall>k \<in> {AnnotationCordonOwner, AnnotationPriorUnschedulable, AnnotationHeatExpected}. mget (nd_annotations node) k = None)"

definition same_node :: "Node \<Rightarrow> Node \<Rightarrow> bool" where
  "same_node a b = (nd_unschedulable a = nd_unschedulable b \<and> nd_labels a = nd_labels b \<and>
     (\<forall>k. mget (nd_annotations a) k = mget (nd_annotations b) k))"

lemma stamp_owner_marks:
  assumes "unmarked node"
  shows "mget (nd_annotations (stamp_owner now run name spec node)) k =
    (if k = AnnotationCordonOwner then Some (cordonOwnerID run)
     else if k = AnnotationPriorUnschedulable then Some (FormatBool (priorUnschedulable run name (nd_unschedulable node)))
     else if k = AnnotationHeatExpected then (if DrivesSustainedLoad (ts_kind spec) then Some (heatExpectedID run (heatExpiry now spec)) else None)
     else mget (nd_annotations node) k)" (is ?marks)
    and "nd_labels (stamp_owner now run name spec node) = nd_labels node"
proof -
  let ?s = "annotate AnnotationPriorUnschedulable (FormatBool (priorUnschedulable run name (nd_unschedulable node)))
      (annotate AnnotationCordonOwner (cordonOwnerID run) node)"
  have h: "mget (nd_annotations ?s) AnnotationHeatExpected = None" using assms annotation_names by (simp add: unmarked_def annotate_def mget_put)
  have "heat_only ?s (stamp_owner now run name spec node)" using stampHeat_only dropHeat_only by (simp add: stamp_owner_def Let_def)
  moreover have "mget (nd_annotations (stamp_owner now run name spec node)) AnnotationHeatExpected =
      (if DrivesSustainedLoad (ts_kind spec) then Some (heatExpectedID run (heatExpiry now spec)) else None)"
    using h by (simp add: stamp_owner_def Let_def stampHeatExpected_def dropHeatExpected_def label_at_def annotate_def mget_put)
  moreover have "mget (nd_annotations ?s) k = (if k = AnnotationCordonOwner then Some (cordonOwnerID run)
     else if k = AnnotationPriorUnschedulable then Some (FormatBool (priorUnschedulable run name (nd_unschedulable node)))
     else mget (nd_annotations node) k)" for k using annotation_names by (simp add: annotate_def mget_put)
  ultimately show ?marks "nd_labels (stamp_owner now run name spec node) = nd_labels node"
    using annotation_names by (auto simp: heat_only_def annotate_def)
qed

lemma restore_node_unmarks:
  assumes "named run" and "four_digit_year e"
    and "mget (nd_annotations node) AnnotationHeatExpected = None \<or> mget (nd_annotations node) AnnotationHeatExpected = Some (heatExpectedID run e)"
  shows "mget (nd_annotations (restore_node prior (run_uid run) node)) k =
     (if k \<in> {AnnotationCordonOwner, AnnotationPriorUnschedulable, AnnotationHeatExpected} then None else mget (nd_annotations node) k)"
    and "nd_unschedulable (restore_node prior (run_uid run) node) = prior" "nd_labels (restore_node prior (run_uid run) node) = nd_labels node"
  using assms(3) parse_heat[OF assms(1,2)] annotation_names
  by (auto simp: restore_node_def dropHeatExpected_def unannotate_def mget_del owner_of_def split: option.splits)

lemma note_held_frame:
  "run_namespace (snd (note_held held run)) = run_namespace run" "run_name (snd (note_held held run)) = run_name run"
  "run_uid (snd (note_held held run)) = run_uid run"
  "st_prior_unschedulable (run_status (snd (note_held held run))) = st_prior_unschedulable (run_status run)"
  by (simp_all add: note_held_def set_cordoned_def Let_def)

lemma note_held_id: "cordonOwnerID (snd (note_held held run)) = cordonOwnerID run" "named (snd (note_held held run)) = named run"
  by (simp_all add: cordonOwnerID_def named_def note_held_frame)

lemma cordon_fresh:
  assumes "mget nodes name = Some node" and "unmarked node"
  shows "snd (cordonNode (\<lambda>_. None) now name spec (nodes, run)) =
    (mput name ((stamp_owner now run name spec node)\<lparr>nd_unschedulable := True\<rparr>) nodes,
     snd (note_held (name # st_cordoned_nodes (run_status run)) run))"
proof -
  let ?n = "stamp_owner now run name spec node"
  have free: "label_at (nd_annotations node) AnnotationCordonOwner = []" using assms(2) by (simp add: unmarked_def label_at_def)
  show ?thesis
  proof (cases "nd_unschedulable ?n")
    case True
    then have e: "?n\<lparr>nd_unschedulable := True\<rparr> = ?n" by simp
    show ?thesis unfolding e using True free owner_id_not_Nil[of run] assms(1) by (simp add: cordonNode_def Let_def case_prod_unfold)
  next
    case False
    have "mput name (?n\<lparr>nd_unschedulable := True\<rparr>) (mput name ?n nodes) = mput name (?n\<lparr>nd_unschedulable := True\<rparr>) nodes"
      by (induction nodes) (auto simp: mput_def)
    then show ?thesis using False free owner_id_not_Nil[of run] assms(1) by (simp add: cordonNode_def Let_def case_prod_unfold)
  qed
qed

lemma forget_held_forgets: "name \<notin> set (st_cordoned_nodes (run_status (snd (forget_held name run))))"
proof -
  let ?held = "st_cordoned_nodes (run_status run)"
  have "name \<notin> set ?held" if "length (filter (\<lambda>n. n \<noteq> name) ?held) = length ?held"
    using that length_filter_less[of name ?held "\<lambda>n. n \<noteq> name"] by auto
  then show ?thesis by (simp add: forget_held_def Let_def set_cordoned_def)
qed

lemma release_own:
  assumes "mget nodes name = Some node" and "label_at (nd_annotations node) AnnotationCordonOwner = cordonOwnerID run"
  shows "snd (releaseNode (\<lambda>_. None) name (nodes, run)) =
    (mput name (restore_node (restoredUnschedulable run name node) (run_uid run) node) nodes, snd (forget_held name run))"
  using assms by (simp add: releaseNode_def Let_def case_prod_unfold)

text \<open>A node that was out of scheduling already, and a test that heats it.\<close>

definition spare_node :: Node where
  "spare_node = \<lparr>nd_unschedulable = True, nd_annotations = [(''team'', ''a'')], nd_labels = [], nd_kernel = [], nd_os_image = [], nd_architecture = []\<rparr>"

definition soak_spec :: BurnInTestSpec where
  "soak_spec = \<lparr>ts_kind = KindThermalSoak, ts_scope = ScopeNode, ts_duration_seconds = 600, ts_repeat_count = None,
     ts_checkpoint_interval_seconds = None, ts_soak = None, ts_runner = None, ts_thresholds = [], ts_resource_limits = [], ts_host_network = False\<rparr>"

lemma first_day_year: "0 \<le> t \<Longrightarrow> t < 86400 * second \<Longrightarrow> four_digit_year t"
proof -
  assume "0 \<le> t" "t < 86400 * second"
  then have "nat (t div nanosecond) div 86400 = 0" by (simp add: second_def nanosecond_def nat_less_iff zdiv_int)
  then show ?thesis using \<open>0 \<le> t\<close> by (simp add: four_digit_year_def year_of.simps[of 1970 0] year_days_def)
qed

section \<open>Properties\<close>

text \<open>
  The marks on a node read back: the owner a run stamps parses to its namespace, name and
  uid, and a heat declaration to its owner and its expiry, to the second.
\<close>

theorem marks_read_back:
  assumes "named run" and "four_digit_year expiry"
  shows "parseCordonOwner (cordonOwnerID run) = Some (owner_of run) \<and>
    parseHeatExpected (heatExpectedID run expiry) = Some \<lparr>hm_owner = owner_of run, hm_expiry = expiry div second * second\<rparr>"
  using parse_owner[OF assms(1)] parse_heat[OF assms] by blast

theorem marks_read_back_witness:
  "parseHeatExpected (heatExpectedID (new_run ''u'' 0 []) (60 * second)) = Some \<lparr>hm_owner = owner_of (new_run ''u'' 0 []), hm_expiry = 60 * second\<rparr>"
proof -
  have "named (new_run ''u'' 0 [])" by (simp add: named_def plain_def new_run_def)
  from marks_read_back[OF this first_day_year[of "60 * second"]] show ?thesis by (simp add: second_def)
qed

text \<open>
  C9. A node is given back as it was found. Whatever runs overlap on it, whichever of their writes
  fail, whatever the reaper does in between and whoever goes missing: a node that carries no
  burn-in mark is schedulable exactly when it was before any run touched it, and the mark on
  a node that carries one says how it was found.
\<close>

theorem nodes_are_given_back_as_found:
  assumes "wf_map nodes" and "\<forall>name node. mget nodes name = Some node \<longrightarrow> \<not> owned node"
    and "mget nodes name = Some node" and "mget (fst (fold node_event es (nodes, []))) name = Some node'"
  shows "preBurnInSchedulability node' = nd_unschedulable node \<and> (\<not> owned node' \<longrightarrow> nd_unschedulable node' = nd_unschedulable node)"
proof -
  define base where "base = (\<lambda>n. case mget nodes n of Some m \<Rightarrow> nd_unschedulable m | None \<Rightarrow> False)"
  have "cluster_as_found base (nodes, [])"
    using assms(1,2) by (auto simp: cluster_as_found_def nodes_as_found_def node_as_found_def preBurnInSchedulability_def base_def owned_def mhas_def)
  from node_events.fold_inv[OF this, of es] assms(3,4) have "preBurnInSchedulability node' = nd_unschedulable node"
    by (auto simp: cluster_as_found_def nodes_as_found_def node_as_found_def base_def)
  then show ?thesis by (auto simp: preBurnInSchedulability_def owned_def)
qed

theorem nodes_are_given_back_as_found_witness:
  "\<exists>node'. mget (fst (fold node_event [Appear (new_run ''a'' 0 [''n'']), TakeNode 0 (\<lambda>_. None) 0 ''n'' soak_spec, GiveNode 0 (\<lambda>_. None) ''n'']
       ([(''n'', spare_node)], []))) ''n'' = Some node' \<and> preBurnInSchedulability node'"
proof -
  let ?run = "new_run ''a'' 0 [''n'']" and ?nodes = "[(''n'', spare_node)]"
  let ?n1 = "(stamp_owner 0 ?run ''n'' soak_spec spare_node)\<lparr>nd_unschedulable := True\<rparr>"
  let ?es = "[Appear ?run, TakeNode 0 (\<lambda>_. None) 0 ''n'' soak_spec, GiveNode 0 (\<lambda>_. None) ''n'']"
  have given: "wf_map ?nodes" "\<forall>name node. mget ?nodes name = Some node \<longrightarrow> \<not> owned node" "mget ?nodes ''n'' = Some spare_node"
    by (auto simp: wf_map_def mget_def owned_def mhas_def spare_node_def AnnotationCordonOwner_def)
  have u: "unmarked spare_node"
    by (simp add: unmarked_def spare_node_def mget_def AnnotationHeatExpected_def AnnotationCordonOwner_def AnnotationPriorUnschedulable_def)
  define run1 where "run1 = snd (note_held (''n'' # st_cordoned_nodes (run_status ?run)) ?run)"
  have c: "snd (cordonNode (\<lambda>_. None) 0 ''n'' soak_spec (?nodes, ?run)) = (mput ''n'' ?n1 ?nodes, run1)"
    unfolding run1_def by (rule cordon_fresh[OF given(3) u])
  have "mget (mput ''n'' ?n1 ?nodes) ''n'' = Some ?n1" "label_at (nd_annotations ?n1) AnnotationCordonOwner = cordonOwnerID run1"
    using stamp_owner_marks(1)[OF u, of 0 ?run "''n''" soak_spec AnnotationCordonOwner] by (simp_all add: mget_put label_at_def note_held_id run1_def)
  note r = release_own[OF this]
  have "st_prior_unschedulable (run_status ?run) = []" by (simp add: new_run_def)
  then have "mget (fst (fold node_event ?es (?nodes, []))) ''n'' \<noteq> None"
    using c r by (auto simp: at_run_def mget_put split: prod.splits)
  then obtain node' where n: "mget (fst (fold node_event ?es (?nodes, []))) ''n'' = Some node'" by blast
  have "nd_unschedulable spare_node" by (simp add: spare_node_def)
  then show ?thesis using nodes_are_given_back_as_found[OF given n] n by blast
qed

text \<open>
  Taking a node and giving it back is the identity. From an unmarked node, \<^verbatim>\<open>cordonNode\<close> and then
  \<^verbatim>\<open>releaseNode\<close> of the same run leave its schedulability, its labels and every annotation as they
  were, the heat declaration included, touch no other node, and the run no longer lists it.
\<close>

theorem cordon_then_release_is_identity:
  assumes "named run" and "four_digit_year (heatExpiry now spec)" and "mget nodes name = Some node" and "unmarked node"
    and "mget (st_prior_unschedulable (run_status run)) name \<in> {None, Some (nd_unschedulable node)}"
    and "snd (cordonNode (\<lambda>_. None) now name spec (nodes, run)) = (nodes1, run1)"
    and "snd (releaseNode (\<lambda>_. None) name (nodes1, run1)) = (nodes2, run2)"
  shows "(\<exists>node2. mget nodes2 name = Some node2 \<and> same_node node2 node) \<and>
    (\<forall>other. other \<noteq> name \<longrightarrow> mget nodes2 other = mget nodes other) \<and> name \<notin> set (st_cordoned_nodes (run_status run2))"
proof -
  let ?n1 = "(stamp_owner now run name spec node)\<lparr>nd_unschedulable := True\<rparr>"
  note marks = stamp_owner_marks[OF assms(4), where now = now and run = run and name = name and spec = spec]
  have c: "nodes1 = mput name ?n1 nodes" "run1 = snd (note_held (name # st_cordoned_nodes (run_status run)) run)"
    using cordon_fresh[OF assms(3,4), of now spec run] assms(6) by simp_all
  have "mget nodes1 name = Some ?n1" "label_at (nd_annotations ?n1) AnnotationCordonOwner = cordonOwnerID run1"
    using marks(1)[of AnnotationCordonOwner] c by (simp_all add: mget_put label_at_def note_held_id)
  from release_own[OF this] assms(7)
  have r: "nodes2 = mput name (restore_node (restoredUnschedulable run1 name ?n1) (run_uid run1) ?n1) nodes1" "run2 = snd (forget_held name run1)"
    by simp_all
  have prior: "restoredUnschedulable run1 name ?n1 = nd_unschedulable node"
    using assms(5) marks(1)[of AnnotationPriorUnschedulable] annotation_names
    by (auto simp: restoredUnschedulable_def priorUnschedulable_def c(2) note_held_frame label_at_def FormatBool_def PriorUnschedulableTrue_def)
  have heat: "mget (nd_annotations ?n1) AnnotationHeatExpected = None \<or>
      mget (nd_annotations ?n1) AnnotationHeatExpected = Some (heatExpectedID run1 (heatExpiry now spec))"
    using marks(1)[of AnnotationHeatExpected] annotation_names by (auto simp: heatExpectedID_def c(2) note_held_id)
  have "named run1" using assms(1) by (simp add: c(2) note_held_id)
  note given = restore_node_unmarks[OF this assms(2) heat]
  have "same_node (restore_node (restoredUnschedulable run1 name ?n1) (run_uid run1) ?n1) node"
    using assms(4) by (auto simp: same_node_def given prior marks unmarked_def)
  then show ?thesis using r c(1) forget_held_forgets by (auto simp: mget_put)
qed

theorem cordon_then_release_is_identity_witness:
  "\<exists>node2. mget (fst (snd (releaseNode (\<lambda>_. None) ''n''
      (snd (cordonNode (\<lambda>_. None) 0 ''n'' soak_spec ([(''n'', spare_node)], new_run ''u'' 0 [''n''])))))) ''n'' = Some node2 \<and>
    same_node node2 spare_node"
proof -
  let ?run = "new_run ''u'' 0 [''n'']" and ?nodes = "[(''n'', spare_node)]"
  have a: "named ?run" by (simp add: named_def plain_def new_run_def)
  have b: "four_digit_year (heatExpiry 0 soak_spec)"
    by (rule first_day_year) (simp_all add: soak_spec_def heatExpiry_def heatReleaseMargin_def podWindow_def
      executionDurationSeconds_def segmentSeconds_def deadlineGraceSeconds_def schedulingGraceSeconds_def second_def)
  have c: "mget ?nodes ''n'' = Some spare_node" "unmarked spare_node"
    by (simp_all add: unmarked_def spare_node_def mget_def AnnotationHeatExpected_def AnnotationCordonOwner_def AnnotationPriorUnschedulable_def)
  have d: "mget (st_prior_unschedulable (run_status ?run)) ''n'' \<in> {None, Some (nd_unschedulable spare_node)}"
    by (simp add: new_run_def mget_def)
  obtain nodes1 run1 where e: "snd (cordonNode (\<lambda>_. None) 0 ''n'' soak_spec (?nodes, ?run)) = (nodes1, run1)" by fastforce
  obtain nodes2 run2 where f: "snd (releaseNode (\<lambda>_. None) ''n'' (nodes1, run1)) = (nodes2, run2)" by fastforce
  show ?thesis unfolding e f fst_conv using cordon_then_release_is_identity[OF a b c d e f] by (rule conjunct1)
qed

end
