(* ===== verification/Advance.thy ===== *)
theory Advance
  imports Artifact_Store Harvest Cordon
begin

text \<open>
  One execution moved on by one pass: \<^verbatim>\<open>advance\<close> of burninrun\_controller.go for a node, \<^verbatim>\<open>advancePair\<close> of
  pair.go for a link, \<^verbatim>\<open>advanceGroup\<close> of group.go for a collective. The cluster is a \<open>World\<close>, what the
  pass is given from outside (the clock, the answers of the API server, the vendor of a node,
  the logs of a pod) an \<open>Env\<close>. The state \<open>Loop\<close> holds the cluster, the run in memory, the set \<^verbatim>\<open>busy\<close>
  of the interlock and the keys of the results delivered. Reads see the objects as they are; a cache
  that lags behind is outside the model.
\<close>

section \<open>The cluster and a pass over it\<close>

record Service =
  sv_name :: string
  sv_namespace :: string
  sv_labels :: "string gomap"
  sv_cluster_ip :: string
  sv_publish_not_ready :: bool
  sv_selector :: "string gomap"

definition headlessServiceForRendezvous :: "BurnInRun \<Rightarrow> int \<Rightarrow> int \<Rightarrow> string \<Rightarrow> Service" where
  "headlessServiceForRendezvous run testIndex attempt testName =
     (let labels = [(labelRun, run_name run), (labelTest, testName), (labelAttempt, Itoa attempt)]
      in \<lparr>sv_name = rendezvousServiceName run testIndex attempt, sv_namespace = run_namespace run, sv_labels = labels,
          sv_cluster_ip = ''None'', sv_publish_not_ready = True, sv_selector = labels\<rparr>)"

record World =
  w_nodes :: "Node gomap"
  w_pods :: "Pod gomap"
  w_services :: "Service gomap"
  w_config_maps :: "ConfigMap gomap"

record Env =
  en_now :: timestamp
  en_api :: api
  en_vendor :: "string \<Rightarrow> string"
  en_logs :: logs
  en_deliver :: "RunPhase \<Rightarrow> bool"

record Loop =
  lp_world :: World
  lp_run :: BurnInRun
  lp_busy :: nameset
  lp_sent :: "string list"

datatype advanceState = advanceDone | advanceRunning | advancePending | advanceHarvested

record advanceEffect =
  ef_dirty :: bool
  ef_checkpointed :: bool
  ef_rendezvous :: bool
  ef_kill :: "Pod list"

definition no_effect :: advanceEffect where
  "no_effect = \<lparr>ef_dirty = False, ef_checkpointed = False, ef_rendezvous = False, ef_kill = []\<rparr>"

definition dirty :: "bool \<Rightarrow> advanceEffect" where
  "dirty d = no_effect\<lparr>ef_dirty := d\<rparr>"

type_synonym advanced = "(ApiErr + advanceState \<times> advanceEffect) \<times> Loop"

section \<open>What a pass does to the cluster and the run\<close>

definition mark_busy :: "string list \<Rightarrow> Loop \<Rightarrow> Loop" where
  "mark_busy nodes lp = lp\<lparr>lp_busy := fold (\<lambda>n. mput n True) nodes (lp_busy lp)\<rparr>"

definition get_pod :: "Env \<Rightarrow> Loop \<Rightarrow> string \<Rightarrow> ApiErr + Pod option" where
  "get_pod en lp name = (case en_api en (GetPod name) of
     Some ApiNotFound \<Rightarrow> Inr None | Some e \<Rightarrow> Inl e | None \<Rightarrow> Inr (mget (w_pods (lp_world lp)) name))"

text \<open>
  The server sets the creation time, the reference to the owner is set before. An object
  that exists already is left alone, and the call counts as done.
\<close>

definition create_pod :: "Env \<Rightarrow> Pod \<Rightarrow> Loop \<Rightarrow> ApiErr option \<times> Loop" where
  "create_pod en pod lp = (case en_api en (CreatePod (pod_name pod)) of
     Some e \<Rightarrow> (Some e, lp)
   | None \<Rightarrow> (None, if mhas (w_pods (lp_world lp)) (pod_name pod) then lp
       else lp\<lparr>lp_world := (lp_world lp)\<lparr>w_pods := mput (pod_name pod)
         (pod\<lparr>pod_owner_uids := [run_uid (lp_run lp)], pod_creation := Some (en_now en)\<rparr>) (w_pods (lp_world lp))\<rparr>\<rparr>))"

definition create_service :: "Env \<Rightarrow> Service \<Rightarrow> Loop \<Rightarrow> ApiErr option \<times> Loop" where
  "create_service en svc lp = (case en_api en (CreateService (sv_name svc)) of
     Some e \<Rightarrow> (Some e, lp)
   | None \<Rightarrow> (None, if mhas (w_services (lp_world lp)) (sv_name svc) then lp
       else lp\<lparr>lp_world := (lp_world lp)\<lparr>w_services := mput (sv_name svc) svc (w_services (lp_world lp))\<rparr>\<rparr>))"

definition cordon :: "Env \<Rightarrow> BurnInTestSpec \<Rightarrow> string list \<Rightarrow> Loop \<Rightarrow> (ApiErr option \<times> bool) \<times> Loop" where
  "cordon en spec nodes lp =
     (case cordonWave (en_api en) (en_now en) spec nodes False (w_nodes (lp_world lp), lp_run lp) of
        (r, ns, run) \<Rightarrow> (r, lp\<lparr>lp_world := (lp_world lp)\<lparr>w_nodes := ns\<rparr>, lp_run := run\<rparr>))"

definition complete :: "Env \<Rightarrow> PlanTest \<Rightarrow> string list \<Rightarrow> int \<Rightarrow> string \<Rightarrow> Pod option \<Rightarrow> Result \<Rightarrow> Loop \<Rightarrow> Loop" where
  "complete en t nodes attempt pname pod parsed lp =
     (case completeAttempt (en_now en) (lp_run lp) t nodes attempt pname pod parsed of
        (run, key) \<Rightarrow> lp\<lparr>lp_run := run, lp_sent := lp_sent lp @ (case key of None \<Rightarrow> [] | Some k \<Rightarrow> [k])\<rparr>)"

definition keep_artifacts :: "Env \<Rightarrow> PlanTest \<Rightarrow> string list \<Rightarrow> string \<Rightarrow> Artifact list \<Rightarrow> Loop \<Rightarrow> Loop" where
  "keep_artifacts en t nodes pname artifacts lp =
     (case harvestArtifacts (en_api en) (pl_name t) nodes pname artifacts (w_config_maps (lp_world lp), lp_run lp) of
        (cms, run) \<Rightarrow> lp\<lparr>lp_world := (lp_world lp)\<lparr>w_config_maps := cms\<rparr>, lp_run := run\<rparr>)"

text \<open>\<^verbatim>\<open>beginAttempt\<close>; the flag says whether it changed the run.\<close>

definition beginAttempt :: "timestamp \<Rightarrow> PlanTest \<Rightarrow> string list \<Rightarrow> int \<Rightarrow> Pod option \<Rightarrow> BurnInRun \<Rightarrow> bool \<times> BurnInRun" where
  "beginAttempt now t nodes attempt pod run =
     (let s = run_status run;
          (results, i) = ensureResult (st_results s) t nodes;
          res = results ! i;
          start = (case pod of Some p \<Rightarrow> if podStarted p then Some (attemptStart p now) else None | None \<Rightarrow> None);
          (n, inProgress) = nextAttempt (Some res);
          changed = (length results \<noteq> length (st_results s) \<or> start \<noteq> None \<and> tr_started_at res = None \<or>
            (if inProgress \<and> n = attempt then at_started_at (last (tr_attempts res)) = None \<and> start \<noteq> None else True))
      in (changed, run\<lparr>run_status := s\<lparr>st_results := results[i := begin_result now nodes attempt pod res]\<rparr>\<rparr>))"

definition begin_attempt :: "Env \<Rightarrow> PlanTest \<Rightarrow> string list \<Rightarrow> int \<Rightarrow> Pod \<Rightarrow> Loop \<Rightarrow> bool \<times> Loop" where
  "begin_attempt en t nodes attempt pod lp =
     (case beginAttempt (en_now en) t nodes attempt (Some pod) (lp_run lp) of (changed, run) \<Rightarrow> (changed, lp\<lparr>lp_run := run\<rparr>))"

text \<open>The result of \<^verbatim>\<open>checkpoint\<close> on the metrics a pod has printed so far.\<close>

definition checkpoint_result :: "timestamp \<Rightarrow> string gomap \<Rightarrow> TestResult \<Rightarrow> TestResult" where
  "checkpoint_result now metrics res =
     (let published = (if tr_segments_required res > 0 \<and> tr_aggregated_metrics res \<noteq> []
            then foldMetrics (tr_aggregated_metrics res) metrics else metrics);
          res = res\<lparr>tr_metrics := published, tr_last_checkpoint_at := Some now\<rparr>
      in if tr_attempts res \<noteq> [] \<and> \<not> IsTerminal (at_phase (last (tr_attempts res)))
         then res\<lparr>tr_attempts := butlast (tr_attempts res) @
           [(last (tr_attempts res))\<lparr>at_metrics := metrics, at_last_checkpoint_at := Some now\<rparr>]\<rparr>
         else res)"

definition checkpoint :: "Env \<Rightarrow> PlanTest \<Rightarrow> string \<Rightarrow> Pod \<Rightarrow> BurnInRun \<Rightarrow> bool \<times> BurnInRun" where
  "checkpoint en t node pod run =
     (let interval = checkpointInterval (pl_spec t); rs = st_results (run_status run) in
      if interval \<le> 0 then (False, run)
      else (case resultFor rs (pl_name t) node of
        None \<Rightarrow> (False, run)
      | Some i \<Rightarrow>
          (let res = rs ! i;
               since = (case tr_last_checkpoint_at res of Some c \<Rightarrow> Some c | None \<Rightarrow> tr_started_at res)
           in if IsTerminal (tr_phase res) then (False, run)
              else if (case since of Some c \<Rightarrow> en_now en - c < interval | None \<Rightarrow> False) then (False, run)
              else (case en_logs en (pod_name pod) of
                Inl e \<Rightarrow> (False, run)
              | Inr stdout \<Rightarrow>
                  (let metrics = res_metrics (Parse (kind_string (ts_kind (pl_spec t))) stdout 0) in
                   if metrics = [] then (False, run)
                   else (True, run\<lparr>run_status := (run_status run)\<lparr>st_results :=
                          rs[i := checkpoint_result (en_now en) metrics res]\<rparr>\<rparr>))))))"

definition take_checkpoint :: "Env \<Rightarrow> PlanTest \<Rightarrow> string \<Rightarrow> Pod \<Rightarrow> Loop \<Rightarrow> bool \<times> Loop" where
  "take_checkpoint en t node pod lp = (case checkpoint en t node pod (lp_run lp) of (c, run) \<Rightarrow> (c, lp\<lparr>lp_run := run\<rparr>))"

fun phase_string :: "PodPhase \<Rightarrow> string" where
  "phase_string PodPending = ''Pending''"
| "phase_string PodRunning = ''Running''"
| "phase_string PodSucceeded = ''Succeeded''"
| "phase_string PodFailed = ''Failed''"
| "phase_string PodUnknown = ''Unknown''"

definition last_phase :: "Pod \<Rightarrow> string" where
  "last_phase pod = ''(last phase '' @ Quote (phase_string (pod_phase pod)) @ '') '' @ em_dash"

section \<open>A node\<close>

definition open_attempt :: "BurnInRun \<Rightarrow> PlanTest \<Rightarrow> string \<Rightarrow> int option" where
  "open_attempt run t node =
     (let rs = st_results (run_status run) in
      case resultFor rs (pl_name t) node of
        None \<Rightarrow> Some (fst (nextAttempt None))
      | Some i \<Rightarrow> if IsTerminal (tr_phase (rs ! i)) then None else Some (fst (nextAttempt (Some (rs ! i)))))"

definition launch_node :: "Env \<Rightarrow> int \<Rightarrow> PlanTest \<Rightarrow> string \<Rightarrow> bool \<Rightarrow> int \<Rightarrow> int \<Rightarrow> Loop \<Rightarrow> advanced" where
  "launch_node en index t node launch capNodes attempt lp =
     (if \<not> launch then (Inr (advancePending, no_effect), lp)
      else if \<not> flagged (lp_busy lp) node \<and> int (length (lp_busy lp)) \<ge> capNodes then (Inr (advancePending, no_effect), lp)
      else (case podForTest (lp_run lp) index attempt (pl_name t) (pl_spec t) (pl_axes t) node (en_vendor en node)
                  (sp_target (run_spec (lp_run lp))) None of
        Inl e \<Rightarrow> (Inr (advanceHarvested, dirty True), complete en t [node] attempt [] None (error_result (image_error e)) lp)
      | Inr pod \<Rightarrow>
          (case cordon en (pl_spec t) [node] lp of
             ((Some e, c), lp) \<Rightarrow> (Inl e, lp)
           | ((None, c), lp) \<Rightarrow> (case create_pod en pod lp of
               (Some e, lp) \<Rightarrow> (Inl e, lp)
             | (None, lp) \<Rightarrow> (Inr (advanceRunning, dirty c), mark_busy [node] lp)))))"

definition follow_node :: "Env \<Rightarrow> PlanTest \<Rightarrow> string \<Rightarrow> int \<Rightarrow> Pod \<Rightarrow> Loop \<Rightarrow> advanced" where
  "follow_node en t node attempt pod lp =
     (let lp = (if podLive pod then mark_busy [node] lp else lp) in
      if \<not> terminated pod then
        (if podOverdue (en_now en) pod (pl_spec t) then
           (Inr (advanceHarvested, (dirty True)\<lparr>ef_kill := [pod]\<rparr>),
            complete en t [node] attempt (pod_name pod) (Some pod)
              (error_result (''pod never completed within its window '' @ last_phase pod @
                '' unschedulable target or stuck image pull; no verdict'' @ pendingDetail (Some pod))) lp)
         else if \<not> podStarted pod then (Inr (advanceRunning, no_effect), lp)
         else (let (opened, lp) = begin_attempt en t [node] attempt pod lp;
                   (checkpointed, lp) = take_checkpoint en t node pod lp
               in (Inr (advanceRunning, (dirty (opened \<or> checkpointed))\<lparr>ef_checkpointed := checkpointed\<rparr>), lp)))
      else (let (opened, lp) = begin_attempt en t [node] attempt pod lp;
                parsed = without_logs t (harvestPod (en_logs en) t pod);
                lp = complete en t [node] attempt (pod_name pod) (Some pod) parsed lp
            in (Inr (advanceHarvested, dirty True), keep_artifacts en t [node] (pod_name pod) (res_artifacts parsed) lp)))"

definition advance :: "Env \<Rightarrow> int \<Rightarrow> PlanTest \<Rightarrow> string \<Rightarrow> bool \<Rightarrow> int \<Rightarrow> Loop \<Rightarrow> advanced" where
  "advance en index t node launch capNodes lp =
     (case open_attempt (lp_run lp) t node of
        None \<Rightarrow> (Inr (advanceDone, no_effect), lp)
      | Some attempt \<Rightarrow> (case get_pod en lp (podName (lp_run lp) index node attempt) of
          Inl e \<Rightarrow> (Inl e, lp)
        | Inr None \<Rightarrow> launch_node en index t node launch capNodes attempt lp
        | Inr (Some pod) \<Rightarrow> follow_node en t node attempt pod lp))"

section \<open>A link\<close>

definition new_busy :: "string list \<Rightarrow> nameset \<Rightarrow> int" where
  "new_busy nodes busy = int (length (filter (\<lambda>n. \<not> flagged busy n) nodes))"

definition pair_rendezvous :: "string \<Rightarrow> string \<Rightarrow> string \<Rightarrow> string \<Rightarrow> rendezvous" where
  "pair_rendezvous role service peerRole peerNode = \<lparr>rv_scope = ScopePair, rv_role = role, rv_service = service,
     rv_peer_role = peerRole, rv_peer_node = peerNode, rv_rank = 0, rv_nranks = 0, rv_root_node = []\<rparr>"

text \<open>What \<^verbatim>\<open>startPair\<close> and \<^verbatim>\<open>startGroup\<close> share: the first pod of an execution of several, given its role.\<close>

definition start_unit :: "Env \<Rightarrow> int \<Rightarrow> PlanTest \<Rightarrow> string list \<Rightarrow> bool \<Rightarrow> int \<Rightarrow> int \<Rightarrow> (string \<Rightarrow> rendezvous) \<Rightarrow> Loop \<Rightarrow> advanced" where
  "start_unit en index t nodes launch capNodes attempt rv lp =
     (if \<not> launch then (Inr (advancePending, no_effect), lp)
      else if int (length (lp_busy lp)) + new_busy nodes (lp_busy lp) > capNodes then (Inr (advancePending, no_effect), lp)
      else (let svc = headlessServiceForRendezvous (lp_run lp) index attempt (pl_name t) in
        case create_service en svc lp of
          (Some e, lp) \<Rightarrow> (Inl e, lp)
        | (None, lp) \<Rightarrow>
            (case podForTest (lp_run lp) index attempt (pl_name t) (pl_spec t) (pl_axes t) (nodes ! 0) (en_vendor en (nodes ! 0))
                    (sp_target (run_spec (lp_run lp))) (Some (rv (sv_name svc))) of
               Inl e \<Rightarrow> (Inr (advanceHarvested, dirty True), complete en t nodes attempt [] None (error_result (image_error e)) lp)
             | Inr pod \<Rightarrow>
                 (case cordon en (pl_spec t) nodes lp of
                    ((Some e, c), lp) \<Rightarrow> (Inl e, lp)
                  | ((None, c), lp) \<Rightarrow> (case create_pod en pod lp of
                      (Some e, lp) \<Rightarrow> (Inl e, lp)
                    | (None, lp) \<Rightarrow> (Inr (advanceRunning, (dirty c)\<lparr>ef_rendezvous := True\<rparr>), mark_busy nodes lp))))))"

definition startPair :: "Env \<Rightarrow> int \<Rightarrow> PlanTest \<Rightarrow> string list \<Rightarrow> bool \<Rightarrow> int \<Rightarrow> int \<Rightarrow> Loop \<Rightarrow> advanced" where
  "startPair en index t nodes launch capNodes attempt lp =
     start_unit en index t nodes launch capNodes attempt (\<lambda>service. pair_rendezvous pairRoleServer service pairRoleClient (nodes ! 1)) lp"

definition harvested_side :: "string \<Rightarrow> string \<Rightarrow> string \<Rightarrow> Result \<Rightarrow> pairSide" where
  "harvested_side role node pname r = \<lparr>sd_role = role, sd_node = node, sd_pod = pname, sd_result = Some r, sd_condemned_log = []\<rparr>"

definition silent_side :: "string \<Rightarrow> string \<Rightarrow> string \<Rightarrow> string \<Rightarrow> pairSide" where
  "silent_side role node pname said = \<lparr>sd_role = role, sd_node = node, sd_pod = pname, sd_result = None, sd_condemned_log = said\<rparr>"

definition gateClientOnServer :: "Env \<Rightarrow> int \<Rightarrow> PlanTest \<Rightarrow> string list \<Rightarrow> bool \<Rightarrow> int \<Rightarrow> Pod \<Rightarrow> Loop \<Rightarrow> advanced" where
  "gateClientOnServer en index t nodes launch attempt serverPod lp =
     (let serverNode = nodes ! 0; clientNode = nodes ! 1 in
      if terminated serverPod then
        (case harvestPod (en_logs en) t serverPod of (parsed, logErr) \<Rightarrow>
          (let combined = combinePair (harvested_side pairRoleServer serverNode (pod_name serverPod) parsed)
                 (silent_side pairRoleClient clientNode [] []) logErr (pl_spec t);
               lp = complete en t nodes attempt (pod_name serverPod) (Some serverPod) combined lp
           in (Inr (advanceHarvested, dirty True), keep_artifacts en t nodes (pod_name serverPod) (res_artifacts parsed) lp)))
      else if podOverdue (en_now en) serverPod (pl_spec t) then
        (Inr (advanceHarvested, (dirty True)\<lparr>ef_kill := [serverPod]\<rparr>),
         complete en t nodes attempt (pod_name serverPod) (Some serverPod)
           (error_result (''the '' @ pairRoleServer @ '' endpoint on '' @ serverNode @ '' never became ready within its window '' @
             last_phase serverPod @ '' the client was never started and the link was not measured; no verdict'' @
             pendingDetail (Some serverPod))) lp)
      else if \<not> podStarted serverPod then (Inr (advanceRunning, no_effect\<lparr>ef_rendezvous := True\<rparr>), lp)
      else (let (opened, lp) = begin_attempt en t nodes attempt serverPod lp in
        if \<not> podReady serverPod then (Inr (advanceRunning, (dirty opened)\<lparr>ef_rendezvous := True\<rparr>), lp)
        else if \<not> launch then (Inr (advancePending, dirty opened), lp)
        else (case podForTest (lp_run lp) index attempt (pl_name t) (pl_spec t) (pl_axes t) clientNode (en_vendor en clientNode)
                (sp_target (run_spec (lp_run lp)))
                (Some (pair_rendezvous pairRoleClient (rendezvousServiceName (lp_run lp) index attempt) pairRoleServer serverNode)) of
          Inl e \<Rightarrow> (Inr (advanceHarvested, dirty True),
            complete en t nodes attempt (pod_name serverPod) (Some serverPod) (error_result (image_error e)) lp)
        | Inr pod \<Rightarrow> (case create_pod en pod lp of
            (Some e, lp) \<Rightarrow> (Inl e, lp)
          | (None, lp) \<Rightarrow> (Inr (advanceRunning, dirty opened), lp)))))"

definition harvestPair :: "Env \<Rightarrow> PlanTest \<Rightarrow> string list \<Rightarrow> int \<Rightarrow> Pod \<Rightarrow> Pod \<Rightarrow> Loop \<Rightarrow> advanced" where
  "harvestPair en t nodes attempt serverPod clientPod lp =
     (let serverNode = nodes ! 0; clientNode = nodes ! 1 in
      if \<not> terminated clientPod then
        (if podOverdue (en_now en) clientPod (pl_spec t) then
           (Inr (advanceHarvested, (dirty True)\<lparr>ef_kill := [serverPod, clientPod]\<rparr>),
            complete en t nodes attempt (pod_name serverPod) (Some serverPod)
              (error_result (''the '' @ pairRoleClient @ '' endpoint on '' @ clientNode @ '' never completed within its window '' @
                last_phase clientPod @ '' the link was not measured; no verdict'' @ pendingDetail (Some clientPod))) lp)
         else (let (opened, lp) = begin_attempt en t nodes attempt serverPod lp;
                   (checkpointed, lp) = take_checkpoint en t clientNode clientPod lp
               in (Inr (advanceRunning, (dirty (opened \<or> checkpointed))\<lparr>ef_checkpointed := checkpointed\<rparr>), lp)))
      else
        (let (opened, lp) = begin_attempt en t nodes attempt serverPod lp;
             (clientParsed, clientLogErr) = harvestPod (en_logs en) t clientPod;
             client = harvested_side pairRoleClient clientNode (pod_name clientPod) clientParsed;
             (server, logErr, condemned) =
               (if terminated serverPod then
                  (let (parsed, serverLogErr) = harvestPod (en_logs en) t serverPod
                   in (harvested_side pairRoleServer serverNode (pod_name serverPod) parsed,
                       (if clientLogErr = None then serverLogErr else clientLogErr), []))
                else (silent_side pairRoleServer serverNode (pod_name serverPod) (log_text (en_logs en (pod_name serverPod))),
                      clientLogErr, [serverPod]));
             lp = complete en t nodes attempt (pod_name serverPod) (Some serverPod) (combinePair server client logErr (pl_spec t)) lp;
             lp = keep_artifacts en t nodes (pod_name clientPod) (res_artifacts clientParsed) lp;
             lp = (case sd_result server of None \<Rightarrow> lp | Some r \<Rightarrow> keep_artifacts en t nodes (pod_name serverPod) (res_artifacts r) lp)
         in (Inr (advanceHarvested, (dirty True)\<lparr>ef_kill := condemned\<rparr>), lp)))"

definition advancePair :: "Env \<Rightarrow> plan \<Rightarrow> int \<Rightarrow> PlanTest \<Rightarrow> bool \<Rightarrow> int \<Rightarrow> Loop \<Rightarrow> advanced" where
  "advancePair en p index t launch capNodes lp =
     (let serverNode = pn_targets p ! 0; clientNode = pn_targets p ! 1; nodes = [serverNode, clientNode] in
      case open_attempt (lp_run lp) t serverNode of
        None \<Rightarrow> (Inr (advanceDone, no_effect), lp)
      | Some attempt \<Rightarrow>
          (case get_pod en lp (podNameForRole (lp_run lp) index serverNode attempt pairRoleServer) of
             Inl e \<Rightarrow> (Inl e, lp)
           | Inr serverPod \<Rightarrow>
               (case get_pod en lp (podNameForRole (lp_run lp) index clientNode attempt pairRoleClient) of
                  Inl e \<Rightarrow> (Inl e, lp)
                | Inr clientPod \<Rightarrow>
                    (let lp = (if list_ex podLive (List.map_filter id [serverPod, clientPod]) then mark_busy nodes lp else lp) in
                     case serverPod of
                       None \<Rightarrow> startPair en index t nodes launch capNodes attempt lp
                     | Some sp \<Rightarrow> (case clientPod of
                         None \<Rightarrow> gateClientOnServer en index t nodes launch attempt sp lp
                       | Some cp \<Rightarrow> harvestPair en t nodes attempt sp cp lp)))))"

section \<open>A collective\<close>

fun group_pods :: "Env \<Rightarrow> int \<Rightarrow> int \<Rightarrow> nat \<Rightarrow> string list \<Rightarrow> Loop \<Rightarrow> ApiErr + Pod option list" where
  "group_pods en index attempt rank [] lp = Inr []"
| "group_pods en index attempt rank (node # nodes) lp =
     (case get_pod en lp (podNameForRole (lp_run lp) index node attempt (groupRole (int rank))) of
        Inl e \<Rightarrow> Inl e
      | Inr pod \<Rightarrow> (case group_pods en index attempt (Suc rank) nodes lp of
          Inl e \<Rightarrow> Inl e | Inr pods \<Rightarrow> Inr (pod # pods)))"

definition startGroup :: "Env \<Rightarrow> int \<Rightarrow> PlanTest \<Rightarrow> string list \<Rightarrow> bool \<Rightarrow> int \<Rightarrow> int \<Rightarrow> Loop \<Rightarrow> advanced" where
  "startGroup en index t nodes launch capNodes attempt lp =
     start_unit en index t nodes launch capNodes attempt (groupRendezvous groupRootRank nodes) lp"

text \<open>The loop that creates the workers; \<open>Inr None\<close> is success, \<open>Inr (Some e)\<close> a pod that cannot be built.\<close>

fun start_workers :: "Env \<Rightarrow> int \<Rightarrow> PlanTest \<Rightarrow> string list \<Rightarrow> int \<Rightarrow> string \<Rightarrow> (nat \<times> Pod option) list \<Rightarrow> Loop
    \<Rightarrow> (ApiErr + ImageError option) \<times> Loop" where
  "start_workers en index t nodes attempt service [] lp = (Inr None, lp)"
| "start_workers en index t nodes attempt service ((rank, Some pod) # rest) lp = start_workers en index t nodes attempt service rest lp"
| "start_workers en index t nodes attempt service ((rank, None) # rest) lp =
     (case podForTest (lp_run lp) index attempt (pl_name t) (pl_spec t) (pl_axes t) (nodes ! rank) (en_vendor en (nodes ! rank))
             (sp_target (run_spec (lp_run lp))) (Some (groupRendezvous (int rank) nodes service)) of
        Inl e \<Rightarrow> (Inr (Some e), lp)
      | Inr pod \<Rightarrow> (case create_pod en pod lp of
          (Some e, lp) \<Rightarrow> (Inl e, lp)
        | (None, lp) \<Rightarrow> start_workers en index t nodes attempt service rest lp))"

definition gateWorkersOnRoot :: "Env \<Rightarrow> int \<Rightarrow> PlanTest \<Rightarrow> string list \<Rightarrow> bool \<Rightarrow> int \<Rightarrow> Pod \<Rightarrow> Pod option list \<Rightarrow> Loop \<Rightarrow> advanced" where
  "gateWorkersOnRoot en index t nodes launch attempt rootPod pods lp =
     (if terminated rootPod then
        (case harvestMembers (en_logs en) t nodes pods of (members, logErr) \<Rightarrow>
          (Inr (advanceHarvested, (dirty True)\<lparr>ef_kill := List.map_filter id pods\<rparr>),
           complete en t nodes attempt (pod_name rootPod) (Some rootPod) (combineGroup members logErr (pl_spec t)) lp))
      else if podOverdue (en_now en) rootPod (pl_spec t) then
        (Inr (advanceHarvested, (dirty True)\<lparr>ef_kill := List.map_filter id pods\<rparr>),
         complete en t nodes attempt (pod_name rootPod) (Some rootPod)
           (error_result (''rank '' @ Itoa groupRootRank @ '' (the root) on '' @ nodes ! 0 @ '' never became ready within its window '' @
             last_phase rootPod @ '' the other '' @ show_nat (length nodes - 1) @
             '' rank(s) were never started and the collective was not measured; no verdict'' @ pendingDetail (Some rootPod))) lp)
      else if \<not> podStarted rootPod then (Inr (advanceRunning, no_effect\<lparr>ef_rendezvous := True\<rparr>), lp)
      else (let (opened, lp) = begin_attempt en t nodes attempt rootPod lp in
        if \<not> podReady rootPod then (Inr (advanceRunning, (dirty opened)\<lparr>ef_rendezvous := True\<rparr>), lp)
        else if \<not> launch then (Inr (advancePending, dirty opened), lp)
        else (case start_workers en index t nodes attempt (rendezvousServiceName (lp_run lp) index attempt)
                (enumerate 1 (tl pods)) lp of
          (Inl e, lp) \<Rightarrow> (Inl e, lp)
        | (Inr (Some e), lp) \<Rightarrow> (Inr (advanceHarvested, dirty True),
            complete en t nodes attempt (pod_name rootPod) (Some rootPod) (error_result (image_error e)) lp)
        | (Inr None, lp) \<Rightarrow> (Inr (advanceRunning, dirty opened), lp))))"

definition still_running :: "string list \<Rightarrow> Pod list \<Rightarrow> string list" where
  "still_running nodes pods =
     map (\<lambda>(rank, pod). ''rank '' @ show_nat rank @ '' ('' @ nodes ! rank @ '') '' @
         (if podStarted pod then ''never finished'' else ''never started'' @ pendingDetail (Some pod)))
       (filter (\<lambda>(rank, pod). \<not> terminated pod) (enumerate 0 pods))"

definition member_artifacts :: "Env \<Rightarrow> PlanTest \<Rightarrow> string list \<Rightarrow> groupMember \<Rightarrow> Loop \<Rightarrow> Loop" where
  "member_artifacts en t nodes m lp = (case gm_result m of None \<Rightarrow> lp
     | Some r \<Rightarrow> keep_artifacts en t nodes (gm_pod m) (res_artifacts r) lp)"

definition harvestGroup :: "Env \<Rightarrow> PlanTest \<Rightarrow> string list \<Rightarrow> int \<Rightarrow> Pod list \<Rightarrow> Loop \<Rightarrow> advanced" where
  "harvestGroup en t nodes attempt pods lp =
     (let rootPod = pods ! 0; stillRunning = still_running nodes pods in
      if stillRunning \<noteq> [] then
        (if anyOverdue (en_now en) (map Some pods) (pl_spec t) then
           (Inr (advanceHarvested, (dirty True)\<lparr>ef_kill := pods\<rparr>),
            complete en t nodes attempt (pod_name rootPod) (Some rootPod)
              (error_result (''the collective did not complete within its window '' @ em_dash @ '' '' @ show_nat (length stillRunning) @ '' of '' @
                show_nat (length nodes) @ '' rank(s) did not report ('' @ Join stillRunning '', '' @
                ''); every other rank blocks on a rank that never arrives, so this names the ones that did not; no verdict'')) lp)
         else (let (opened, lp) = begin_attempt en t nodes attempt rootPod lp;
                   (checkpointed, lp) = take_checkpoint en t (nodes ! 0) rootPod lp
               in (Inr (advanceRunning, (dirty (opened \<or> checkpointed))\<lparr>ef_checkpointed := checkpointed\<rparr>), lp)))
      else
        (let (opened, lp) = begin_attempt en t nodes attempt rootPod lp;
             (members, logErr) = harvestMembers (en_logs en) t nodes (map Some pods);
             lp = complete en t nodes attempt (pod_name rootPod) (Some rootPod) (combineGroup members logErr (pl_spec t)) lp
         in (Inr (advanceHarvested, dirty True), fold (member_artifacts en t nodes) members lp)))"

definition advanceGroup :: "Env \<Rightarrow> plan \<Rightarrow> int \<Rightarrow> PlanTest \<Rightarrow> bool \<Rightarrow> int \<Rightarrow> Loop \<Rightarrow> advanced" where
  "advanceGroup en p index t launch capNodes lp =
     (let nodes = pn_targets p in
      case open_attempt (lp_run lp) t (nodes ! 0) of
        None \<Rightarrow> (Inr (advanceDone, no_effect), lp)
      | Some attempt \<Rightarrow>
          (case group_pods en index attempt 0 nodes lp of
             Inl e \<Rightarrow> (Inl e, lp)
           | Inr pods \<Rightarrow>
               (let lp = (if list_ex podLive (List.map_filter id pods) then mark_busy nodes lp else lp) in
                case pods ! 0 of
                  None \<Rightarrow> startGroup en index t nodes launch capNodes attempt lp
                | Some rootPod \<Rightarrow> if None \<in> set (tl pods) then gateWorkersOnRoot en index t nodes launch attempt rootPod pods lp
                    else harvestGroup en t nodes attempt (List.map_filter id pods) lp)))"

end
