(* ===== verification/Execute.thy ===== *)
theory Execute
  imports Advance
begin

text \<open>
  A pass over the plan and what follows it: \<^verbatim>\<open>execute\<close>, \<^verbatim>\<open>step\<close>, \<^verbatim>\<open>cancel\<close>, \<^verbatim>\<open>expire\<close>, \<^verbatim>\<open>finalize\<close>, \<^verbatim>\<open>terminate\<close> and the
  reconciles of a terminal and of a deleted run, of burninrun\_controller.go. The run as stored and the
  run in memory are apart: a status write copies the status, a metadata write the finalizer
  and the annotations, and what was not written is lost with an error. A deletion takes an object
  away at once. Envelopes are not part of the state; \<open>en_deliver\<close> says whether every sink took
  the terminal one.
\<close>

section \<open>What is loaded\<close>

definition run_pods :: "BurnInRun \<Rightarrow> World \<Rightarrow> Pod list" where
  "run_pods run w = filter (\<lambda>pod. label_at (pod_labels pod) labelRun = run_name run) (map snd (w_pods w))"

definition live_pods :: "BurnInRun \<Rightarrow> World \<Rightarrow> Pod list" where
  "live_pods run w = filter (\<lambda>pod. ownedBy pod run \<and> podLive pod) (run_pods run w)"

definition busyNodes :: "Env \<Rightarrow> BurnInRun \<Rightarrow> World \<Rightarrow> ApiErr + nameset \<times> bool" where
  "busyNodes en run w = (case en_api en ListPods of
     Some e \<Rightarrow> Inl e
   | None \<Rightarrow> Inr (fold (\<lambda>pod. mput (label_at (pod_labels pod) labelNode) True) (live_pods run w) [],
       list_ex (\<lambda>pod. \<not> podStarted pod) (live_pods run w)))"

definition open_nodes :: "BurnInRun \<Rightarrow> string list" where
  "open_nodes run = concat (map (\<lambda>res. filter (\<lambda>n. n \<noteq> []) (tr_nodes res))
     (filter (\<lambda>res. \<not> IsTerminal (tr_phase res)) (st_results (run_status run))))"

definition holdingNodes :: "BurnInRun \<Rightarrow> nameset" where
  "holdingNodes run = fold (\<lambda>n. mput n True) (open_nodes run) []"

section \<open>execute\<close>

record passResult =
  pa_running :: bool
  pa_pending :: bool
  pa_harvested :: bool
  pa_checkpointed :: bool
  pa_dirty :: bool
  pa_rendezvous :: bool
  pa_kill :: "Pod list"
  pa_checkpoint_every :: int
  pa_awaiting_start :: bool

definition empty_pass :: passResult where
  "empty_pass = \<lparr>pa_running = False, pa_pending = False, pa_harvested = False, pa_checkpointed = False, pa_dirty = False,
     pa_rendezvous = False, pa_kill = [], pa_checkpoint_every = 0, pa_awaiting_start = False\<rparr>"

definition shorter :: "int \<Rightarrow> int \<Rightarrow> int" where
  "shorter cp every = (if cp > 0 \<and> (every = 0 \<or> cp < every) then cp else every)"

definition apply_advance :: "PlanTest \<Rightarrow> advanceState \<Rightarrow> advanceEffect \<Rightarrow> passResult \<Rightarrow> passResult" where
  "apply_advance t state effect test = \<lparr>
     pa_running = (pa_running test \<or> state = advanceRunning),
     pa_pending = (pa_pending test \<or> state = advancePending),
     pa_harvested = (pa_harvested test \<or> state = advanceHarvested),
     pa_checkpointed = (pa_checkpointed test \<or> ef_checkpointed effect),
     pa_dirty = (pa_dirty test \<or> ef_dirty effect),
     pa_rendezvous = (pa_rendezvous test \<or> ef_rendezvous effect),
     pa_kill = pa_kill test @ ef_kill effect,
     pa_checkpoint_every = (if state = advanceRunning then shorter (checkpointInterval (pl_spec t)) (pa_checkpoint_every test)
       else pa_checkpoint_every test),
     pa_awaiting_start = pa_awaiting_start test\<rparr>"

definition merge_pass :: "passResult \<Rightarrow> passResult \<Rightarrow> passResult" where
  "merge_pass out test = \<lparr>
     pa_running = (pa_running out \<or> pa_running test), pa_pending = (pa_pending out \<or> pa_pending test),
     pa_harvested = (pa_harvested out \<or> pa_harvested test), pa_checkpointed = (pa_checkpointed out \<or> pa_checkpointed test),
     pa_dirty = (pa_dirty out \<or> pa_dirty test), pa_rendezvous = (pa_rendezvous out \<or> pa_rendezvous test),
     pa_kill = pa_kill out @ pa_kill test, pa_checkpoint_every = shorter (pa_checkpoint_every test) (pa_checkpoint_every out),
     pa_awaiting_start = pa_awaiting_start out\<rparr>"

fun scope_string :: "TestScope \<Rightarrow> string" where
  "scope_string ScopeNode = ''Node''"
| "scope_string ScopePair = ''Pair''"
| "scope_string ScopeGroup = ''Group''"
| "scope_string ScopeUnset = []"
| "scope_string (OtherScope s) = s"

definition appendSettled :: "TestResult \<Rightarrow> Loop \<Rightarrow> Loop" where
  "appendSettled res lp =
     (let run = lp_run lp;
          run = recount (run\<lparr>run_status := (run_status run)\<lparr>st_results := st_results (run_status run) @ [res]\<rparr>\<rparr>);
          key = (if tr_nodes res \<noteq> [] then tr_name res @ ''/'' @ Join (tr_nodes res) ''+'' else tr_name res)
      in lp\<lparr>lp_run := run, lp_sent := lp_sent lp @ [key]\<rparr>)"

definition unrecognised_result :: "timestamp \<Rightarrow> PlanTest \<Rightarrow> TestResult" where
  "unrecognised_result now t = (new_result t [])\<lparr>tr_phase := RunError, tr_finished_at := Some now, tr_variant_axes := [],
     tr_repeats_required := 0, tr_segments_required := 0, tr_segment_seconds := 0,
     tr_message := Text (''scope '' @ Quote (scope_string (ts_scope (pl_spec t))) @
       '' is not a scope this operator version recognises (it runs Node, Pair and Group scope) '' @ em_dash @
       '' the test was NOT run; treat this hardware as unjudged for it'')\<rparr>"

definition settleWithoutPod :: "timestamp \<Rightarrow> PlanTest \<Rightarrow> Loop \<Rightarrow> bool \<times> Loop" where
  "settleWithoutPod now t lp =
     (if ts_scope (pl_spec t) \<in> {ScopeUnset, ScopeNode, ScopePair, ScopeGroup} then (False, lp)
      else (True, if resultFor (st_results (run_status (lp_run lp))) (pl_name t) [] = None
        then appendSettled (unrecognised_result now t) lp else lp))"

fun advance_targets :: "Env \<Rightarrow> int \<Rightarrow> PlanTest \<Rightarrow> bool \<Rightarrow> int \<Rightarrow> string list \<Rightarrow> passResult \<Rightarrow> Loop \<Rightarrow> (ApiErr + passResult) \<times> Loop" where
  "advance_targets en index t launch capNodes [] test lp = (Inr test, lp)"
| "advance_targets en index t launch capNodes (node # nodes) test lp =
     (case advance en index t node launch capNodes lp of
        (Inl e, lp) \<Rightarrow> (Inl e, lp)
      | (Inr (state, effect), lp) \<Rightarrow> advance_targets en index t launch capNodes nodes (apply_advance t state effect test) lp)"

definition advance_test :: "Env \<Rightarrow> plan \<Rightarrow> int \<Rightarrow> PlanTest \<Rightarrow> bool \<Rightarrow> int \<Rightarrow> Loop \<Rightarrow> (ApiErr + passResult) \<times> Loop" where
  "advance_test en p index t launch capNodes lp =
     (let unit = (\<lambda>r. case r of (Inl e, lp) \<Rightarrow> (Inl e, lp)
            | (Inr (state, effect), lp) \<Rightarrow> (Inr (apply_advance t state effect empty_pass), lp))
      in case ts_scope (pl_spec t) of
           ScopePair \<Rightarrow> unit (advancePair en p index t launch capNodes lp)
         | ScopeGroup \<Rightarrow> unit (advanceGroup en p index t launch capNodes lp)
         | _ \<Rightarrow> advance_targets en index t launch capNodes (pn_targets p) empty_pass lp)"

fun execute_tests :: "Env \<Rightarrow> plan \<Rightarrow> bool \<Rightarrow> int \<Rightarrow> (nat \<times> PlanTest) list \<Rightarrow> passResult \<Rightarrow> Loop \<Rightarrow> (ApiErr + passResult) \<times> Loop" where
  "execute_tests en p launch capNodes [] out lp = (Inr out, lp)"
| "execute_tests en p launch capNodes ((i, t) # rest) out lp =
     (if pn_fail_fast p \<and> hasRequiredFailure (st_results (run_status (lp_run lp))) p then (Inr out, lp)
      else (case settleWithoutPod (en_now en) t lp of
        (True, lp) \<Rightarrow> execute_tests en p launch capNodes rest out lp
      | (False, lp) \<Rightarrow> (case advance_test en p (int i) t launch capNodes lp of
          (Inl e, lp) \<Rightarrow> (Inl e, lp)
        | (Inr test, lp) \<Rightarrow>
            if pa_running test \<or> pa_pending test \<or> pa_harvested test then (Inr (merge_pass out test), lp)
            else execute_tests en p launch capNodes rest (merge_pass out test) lp)))"

definition execute :: "Env \<Rightarrow> plan \<Rightarrow> bool \<Rightarrow> World \<Rightarrow> BurnInRun \<Rightarrow> (ApiErr + passResult) \<times> Loop" where
  "execute en p launch w run =
     (case busyNodes en run w of
        Inl e \<Rightarrow> (Inl e, \<lparr>lp_world = w, lp_run = run, lp_busy = [], lp_sent = []\<rparr>)
      | Inr (live, awaiting) \<Rightarrow>
          (let busy = fold (\<lambda>n. mput n True) (mkeys (holdingNodes run)) live;
               lp = \<lparr>lp_world = w, lp_run = run, lp_busy = busy, lp_sent = []\<rparr>
           in case execute_tests en p launch (maxConcurrentNodes run) (enumerate 0 (pn_tests p))
                  (empty_pass\<lparr>pa_awaiting_start := awaiting\<rparr>) lp of
                (Inl e, lp) \<Rightarrow> (Inl e, lp)
              | (Inr out, lp) \<Rightarrow>
                  (case releaseHeldNodes (en_api en) (lp_busy lp) (w_nodes (lp_world lp), lp_run lp) of
                     ((err, released), ns, run) \<Rightarrow>
                       (let lp = lp\<lparr>lp_world := (lp_world lp)\<lparr>w_nodes := ns\<rparr>, lp_run := run\<rparr>
                        in (case err of Some e \<Rightarrow> Inl e | None \<Rightarrow> Inr (out\<lparr>pa_dirty := (pa_dirty out \<or> released)\<rparr>), lp)))))"

section \<open>When to look again\<close>

definition settledPollInterval :: int where "settledPollInterval = 300 * second"
definition waitingPollInterval :: int where "waitingPollInterval = 30 * second"
definition rendezvousPollInterval :: int where "rendezvousPollInterval = 5 * second"
definition terminalDeliveryRetryInterval :: int where "terminalDeliveryRetryInterval = 300 * second"

definition nextWake :: "timestamp \<Rightarrow> BurnInRun \<Rightarrow> passResult \<Rightarrow> int" where
  "nextWake now run pass =
     (let wake = (if pa_awaiting_start pass then waitingPollInterval else settledPollInterval);
          cp = pa_checkpoint_every pass;
          wake = (if cp > 0 \<and> cp < wake then cp else wake);
          d = runDeadline run
      in case st_started_at (run_status run) of
           Some start \<Rightarrow> if d > 0 \<and> start + d - now > 0 \<and> start + d - now < wake then start + d - now else wake
         | None \<Rightarrow> wake)"

definition checkpointSequence :: "timestamp \<Rightarrow> BurnInRun \<Rightarrow> plan \<Rightarrow> int" where
  "checkpointSequence now run p =
     (let interval = plan_checkpointInterval p in
      case st_started_at (run_status run) of
        None \<Rightarrow> 0
      | Some start \<Rightarrow> if interval \<le> 0 \<or> now - start \<le> 0 then 0 else (now - start) div interval)"

definition deadlineExceeded :: "timestamp \<Rightarrow> BurnInRun \<Rightarrow> bool" where
  "deadlineExceeded now run = (runDeadline run > 0 \<and>
     (case st_started_at (run_status run) of None \<Rightarrow> False | Some start \<Rightarrow> now - start > runDeadline run))"

section \<open>Writing back\<close>

datatype StepResult = Requeue | RequeueAfter int | Idle | Failed ApiErr

type_synonym stepped = "StepResult \<times> World \<times> BurnInRun option"

definition store_status :: "BurnInRun \<Rightarrow> BurnInRun \<Rightarrow> BurnInRun" where
  "store_status mem stored = stored\<lparr>run_status := run_status mem\<rparr>"

definition store_meta :: "BurnInRun \<Rightarrow> BurnInRun \<Rightarrow> BurnInRun" where
  "store_meta mem stored = stored\<lparr>run_finalizer := run_finalizer mem, run_cancelling := run_cancelling mem,
     run_pending_delivery := run_pending_delivery mem\<rparr>"

fun delete_pods :: "Env \<Rightarrow> Pod list \<Rightarrow> World \<Rightarrow> ApiErr option \<times> World" where
  "delete_pods en [] w = (None, w)"
| "delete_pods en (pod # pods) w =
     (case en_api en (DeletePod (pod_name pod)) of
        Some (ApiOther e) \<Rightarrow> (Some (ApiOther e), w)
      | _ \<Rightarrow> delete_pods en pods (w\<lparr>w_pods := mdel (pod_name pod) (w_pods w)\<rparr>))"

definition killPods :: "Env \<Rightarrow> Pod list \<Rightarrow> World \<Rightarrow> ApiErr option \<times> World" where
  "killPods en pods w = delete_pods en (filter podLive pods) w"

definition deleteLivePods :: "Env \<Rightarrow> BurnInRun \<Rightarrow> World \<Rightarrow> ApiErr option \<times> World" where
  "deleteLivePods en run w = (case en_api en ListPods of Some e \<Rightarrow> (Some e, w) | None \<Rightarrow> delete_pods en (live_pods run w) w)"

definition handleTTL :: "Env \<Rightarrow> World \<Rightarrow> BurnInRun \<Rightarrow> stepped" where
  "handleTTL en w run =
     (case (sp_ttl_seconds_after_finished (run_spec run), st_finished_at (run_status run)) of
        (Some ttl, Some finished) \<Rightarrow>
          if ttl \<le> 0 then (Idle, w, Some run)
          else if finished + ttl * second - en_now en > 0 then (RequeueAfter (finished + ttl * second - en_now en), w, Some run)
          else (case en_api en DeleteRun of
            Some (ApiOther e) \<Rightarrow> (Failed (ApiOther e), w, Some run)
          | Some ApiNotFound \<Rightarrow> (Idle, w, None)
          | None \<Rightarrow> (Idle, w, if run_finalizer run then Some (run\<lparr>run_deleted := True\<rparr>) else None))
      | _ \<Rightarrow> (Idle, w, Some run))"

section \<open>The end of a run\<close>

definition deliver_phase :: "Env \<Rightarrow> string list \<Rightarrow> RunPhase \<Rightarrow> bool" where
  "deliver_phase en sinks phase = (sinks = [] \<or> en_deliver en phase)"

definition close_result :: "timestamp \<Rightarrow> TestResult \<Rightarrow> TestResult" where
  "close_result now res = (if IsTerminal (tr_phase res) then res
     else res\<lparr>tr_phase := RunError, tr_finished_at := Some now,
       tr_message := Text (''the run reached a terminal phase before this execution completed '' @ em_dash @ '' no verdict'')\<rparr>)"

definition close_run :: "timestamp \<Rightarrow> RunPhase \<Rightarrow> BurnInRun \<Rightarrow> BurnInRun" where
  "close_run now phase run = (let run = end_run phase now run in
     recount (run\<lparr>run_status := (run_status run)\<lparr>st_results := map (close_result now) (st_results (run_status run))\<rparr>\<rparr>))"

text \<open>The pods go before the nodes: what \<^verbatim>\<open>terminate\<close> and \<^verbatim>\<open>reconcileTerminal\<close> share.\<close>

definition clean_up :: "Env \<Rightarrow> World \<Rightarrow> BurnInRun \<Rightarrow> (ApiErr + bool) \<times> World \<times> BurnInRun" where
  "clean_up en w run =
     (case deleteLivePods en run w of
        (Some e, w) \<Rightarrow> (Inl e, w, run)
      | (None, w) \<Rightarrow> (case releaseCordons (en_api en) (w_nodes w, run) of
          ((Some e, released), ns, run) \<Rightarrow> (Inl e, w\<lparr>w_nodes := ns\<rparr>, run)
        | ((None, released), ns, run) \<Rightarrow> (Inr released, w\<lparr>w_nodes := ns\<rparr>, run)))"

definition finish_terminate :: "Env \<Rightarrow> string list \<Rightarrow> RunPhase \<Rightarrow> World \<Rightarrow> BurnInRun \<Rightarrow> BurnInRun \<Rightarrow> stepped" where
  "finish_terminate en sinks phase w mem stored =
     (let delivered = deliver_phase en sinks phase;
          mem1 = (if delivered then mem\<lparr>run_pending_delivery := None\<rparr> else mem);
          mem2 = mem1\<lparr>run_finalizer := False\<rparr>;
          e1 = (if delivered then en_api en (UpdateRun 2) else None);
          stored1 = (if delivered then store_meta mem1 stored else stored)
      in case e1 of Some e \<Rightarrow> (Failed e, w, Some stored)
         | None \<Rightarrow>
             (case (if run_finalizer mem1 then en_api en (UpdateRun 3) else None) of
                Some e \<Rightarrow> (Failed e, w, Some stored1)
              | None \<Rightarrow>
                  (let stored2 = (if run_finalizer mem1 then store_meta mem2 stored1 else stored1) in
                   if \<not> delivered then (RequeueAfter terminalDeliveryRetryInterval, w, Some stored2)
                   else handleTTL en w stored2)))"

definition terminate :: "Env \<Rightarrow> string list \<Rightarrow> RunPhase \<Rightarrow> World \<Rightarrow> BurnInRun \<Rightarrow> BurnInRun \<Rightarrow> stepped" where
  "terminate en sinks phase w mem stored =
     (let mem = close_run (en_now en) phase mem in
      case en_api en (UpdateStatus 1) of
        Some e \<Rightarrow> (Failed e, w, Some stored)
      | None \<Rightarrow>
          (let stored = store_status mem stored; mem = mem\<lparr>run_pending_delivery := Some phase\<rparr> in
           case en_api en (UpdateRun 1) of
             Some e \<Rightarrow> (Failed e, w, Some stored)
           | None \<Rightarrow>
               (let stored = store_meta mem stored in
                case clean_up en w mem of
                  (Inl e, w, mem) \<Rightarrow> (Failed e, w, Some stored)
                | (Inr released, w, mem) \<Rightarrow>
                    (case (if released then en_api en (UpdateStatus 2) else None) of
                       Some e \<Rightarrow> (Failed e, w, Some stored)
                     | None \<Rightarrow> finish_terminate en sinks phase w mem (if released then store_status mem stored else stored)))))"

definition finalize :: "Env \<Rightarrow> plan \<Rightarrow> World \<Rightarrow> BurnInRun \<Rightarrow> BurnInRun \<Rightarrow> stepped" where
  "finalize en p w mem stored = terminate en (pn_sinks p) (final_phase (st_results (run_status mem)) p) w mem stored"

definition finalizeError :: "Env \<Rightarrow> string list \<Rightarrow> string \<Rightarrow> World \<Rightarrow> BurnInRun \<Rightarrow> stepped" where
  "finalizeError en sinks cause w run =
     (let res = \<lparr>tr_name = SyntheticResultResolve, tr_kind = None, tr_scope = ScopeUnset, tr_phase = RunError, tr_nodes = [],
            tr_started_at = None, tr_finished_at = Some (en_now en), tr_last_checkpoint_at = None, tr_metrics = [],
            tr_message = Text cause, tr_violations = [], tr_not_evaluated = [], tr_applied = [], tr_unmeasurable = [],
            tr_artifacts = [], tr_variant_axes = [], tr_repeats_required = 0, tr_repeats_completed = 0, tr_error_retries = 0,
            tr_segments_required = 0, tr_segments_completed = 0, tr_segment_seconds = 0, tr_aggregated_metrics = [],
            tr_truncated_attempts = 0, tr_attempts = []\<rparr>
      in terminate en sinks RunError w
           (run\<lparr>run_status := (run_status run)\<lparr>st_results := st_results (run_status run) @ [res]\<rparr>\<rparr>) run)"

section \<open>step\<close>

definition persistPass :: "Env \<Rightarrow> passResult \<Rightarrow> Loop \<Rightarrow> BurnInRun \<Rightarrow> stepped" where
  "persistPass en pass lp stored =
     (let write = (pa_dirty pass \<or> pa_harvested pass \<or> pa_checkpointed pass) in
      case (if write then en_api en (UpdateStatus 0) else None) of
        Some e \<Rightarrow> (Failed e, lp_world lp, Some stored)
      | None \<Rightarrow>
          (let wake = nextWake (en_now en) (lp_run lp) pass;
               wake = (if pa_rendezvous pass \<and> wake > rendezvousPollInterval then rendezvousPollInterval else wake)
           in (RequeueAfter wake, lp_world lp, Some (if write then store_status (lp_run lp) stored else stored))))"

definition expire :: "Env \<Rightarrow> plan \<Rightarrow> World \<Rightarrow> BurnInRun \<Rightarrow> stepped" where
  "expire en p w run =
     (let m = Text (''run deadline of '' @ Itoa (case sp_deadline_seconds (run_spec run) of Some n \<Rightarrow> n | None \<Rightarrow> 0) @
            ''s expired before this execution completed '' @ em_dash @ '' the hardware was not judged'')
      in terminate en (pn_sinks p) RunError w (settleRemaining (en_now en) p RunError m run) run)"

definition cancel_reason :: "BurnInRun \<Rightarrow> string" where
  "cancel_reason run = (if sp_cancel_reason (run_spec run) = [] then ''cancelled with no reason given''
     else sp_cancel_reason (run_spec run))"

definition cancel :: "Env \<Rightarrow> plan \<Rightarrow> World \<Rightarrow> BurnInRun \<Rightarrow> stepped" where
  "cancel en p w run =
     (let fresh = (run_cancelling run = []);
          run1 = (if fresh then run\<lparr>run_cancelling := cancel_reason run\<rparr> else run);
          message = Text (''run cancelled: '' @ run_cancelling run1)
      in case (if fresh then en_api en (UpdateRun 0) else None) of
           Some e \<Rightarrow> (Failed e, w, Some run)
         | None \<Rightarrow>
             (case execute en p False w run1 of
                (Inl e, lp) \<Rightarrow> (Failed e, lp_world lp, Some run1)
              | (Inr pass, lp) \<Rightarrow>
                  if sp_cancel_policy (run_spec run) \<noteq> CancelImmediate \<and> pa_running pass then persistPass en pass lp run1
                  else if sp_cancel_policy (run_spec run) \<noteq> CancelImmediate \<and> (pa_harvested pass \<or> pa_dirty pass) then
                    (case en_api en (UpdateStatus 0) of
                       Some e \<Rightarrow> (Failed e, lp_world lp, Some run1)
                     | None \<Rightarrow> (Requeue, lp_world lp, Some (store_status (lp_run lp) run1)))
                  else terminate en (pn_sinks p) RunCancelled (lp_world lp)
                         (settleRemaining (en_now en) p RunCancelled message (lp_run lp)) run1))"

definition run_pass :: "Env \<Rightarrow> plan \<Rightarrow> World \<Rightarrow> BurnInRun \<Rightarrow> stepped" where
  "run_pass en p w run =
     (case execute en p (\<not> suspended run) w run of
        (Inl e, lp) \<Rightarrow> (Failed e, lp_world lp, Some run)
      | (Inr pass, lp) \<Rightarrow>
          if pa_running pass \<or> pa_pending pass then persistPass en pass lp run
          else if pa_harvested pass then
            (case en_api en (UpdateStatus 0) of
               Some e \<Rightarrow> (Failed e, lp_world lp, Some run)
             | None \<Rightarrow>
                 (let stored = store_status (lp_run lp) run in
                  case killPods en (pa_kill pass) (lp_world lp) of
                    (Some e, w) \<Rightarrow> (Failed e, w, Some stored)
                  | (None, w) \<Rightarrow> (Requeue, w, Some stored)))
          else if suspended run then (RequeueAfter (nextWake (en_now en) (lp_run lp) empty_pass), lp_world lp, Some run)
          else finalize en p (lp_world lp) (lp_run lp) run)"

definition step :: "Env \<Rightarrow> plan \<Rightarrow> World \<Rightarrow> BurnInRun \<Rightarrow> stepped" where
  "step en p w run =
     (if cancelRequested run \<or> run_cancelling run \<noteq> [] then cancel en p w run
      else if deadlineExceeded (en_now en) run then expire en p w run
      else run_pass en p w run)"

section \<open>Terminal and deleted runs\<close>

text \<open>\<open>p\<close> is the pinned plan, when it can be read.\<close>

definition reconcileTerminal :: "Env \<Rightarrow> plan option \<Rightarrow> World \<Rightarrow> BurnInRun \<Rightarrow> stepped" where
  "reconcileTerminal en p w run =
     (let deliver = (\<lambda>w run. case run_pending_delivery run of
            None \<Rightarrow> handleTTL en w run
          | Some phase \<Rightarrow>
              (let run' = run\<lparr>run_pending_delivery := None\<rparr> in
               if (case p of None \<Rightarrow> True | Some pl \<Rightarrow> deliver_phase en (pn_sinks pl) phase)
               then (case en_api en (UpdateRun 4) of Some e \<Rightarrow> (Failed e, w, Some run) | None \<Rightarrow> handleTTL en w run')
               else (RequeueAfter terminalDeliveryRetryInterval, w, Some run)))
      in if \<not> run_finalizer run then deliver w run
         else (case clean_up en w run of
           (Inl e, w, mem) \<Rightarrow> (Failed e, w, Some run)
         | (Inr released, w, mem) \<Rightarrow>
             (case (if released then en_api en (UpdateStatus 2) else None) of
                Some e \<Rightarrow> (Failed e, w, Some run)
              | None \<Rightarrow>
                  (let stored = (if released then store_status mem run else run); mem = mem\<lparr>run_finalizer := False\<rparr> in
                   case en_api en (UpdateRun 3) of
                     Some e \<Rightarrow> (Failed e, w, Some stored)
                   | None \<Rightarrow> deliver w (store_meta mem stored)))))"

definition reconcileDeleted :: "Env \<Rightarrow> World \<Rightarrow> BurnInRun \<Rightarrow> stepped" where
  "reconcileDeleted en w run =
     (if \<not> run_finalizer run then (Idle, w, Some run)
      else (case clean_up en w run of
        (Inl e, w, mem) \<Rightarrow> (Failed e, w, Some run)
      | (Inr released, w, mem) \<Rightarrow>
          (case en_api en (UpdateRun 3) of
             Some (ApiOther e) \<Rightarrow> (Failed (ApiOther e), w, Some run)
           | _ \<Rightarrow> (Idle, w, None))))"

end
