(* ===== verification/Run_Safety.thy ===== *)
theory Run_Safety
  imports Execute
begin

text \<open>
  What holds of every pass and of every step of a run, whatever the cluster looks like and
  whichever calls to the API server fail.
\<close>

section \<open>What every pass keeps\<close>

text \<open>
  A pass is a sequence of a few operations on the cluster, the run and the busy set. A relation that
  composes and that each of them respects holds between the states before and after a pass.
\<close>

locale pass_relation =
  fixes R :: "Loop \<Rightarrow> Loop \<Rightarrow> bool"
  assumes refl: "R lp lp"
    and trans: "R a b \<Longrightarrow> R b c \<Longrightarrow> R a c"
    and complete: "R lp (complete en t nodes attempt pname pod parsed lp)"
    and begins: "R lp (snd (begin_attempt en t nodes attempt pod' lp))"
    and checkpoints: "R lp (snd (take_checkpoint en t node pod' lp))"
    and artifacts: "R lp (keep_artifacts en t nodes pname arts lp)"
    and cordons: "R lp (snd (cordon en spec nodes lp))"
    and pods: "R lp (snd (create_pod en pod' lp))"
    and services: "R lp (snd (create_service en svc lp))"
    and marks: "R lp (mark_busy nodes lp)"
    and settles: "R lp (appendSettled res lp)"
begin

lemmas ops = complete[THEN trans[rotated]] begins[THEN trans[rotated]] checkpoints[THEN trans[rotated]]
  artifacts[THEN trans[rotated]] cordons[THEN trans[rotated]] pods[THEN trans[rotated]] services[THEN trans[rotated]]
  marks[THEN trans[rotated]] settles[THEN trans[rotated]]

lemma launch_node: "R lp (snd (launch_node en index t node launch capNodes attempt lp))"
  unfolding launch_node_def by (auto simp: case_prod_unfold split: sum.splits option.splits intro!: ops refl)

lemma follow_node: "R lp (snd (follow_node en t node attempt pod lp))"
  unfolding follow_node_def Let_def case_prod_unfold by (auto intro!: ops refl)

lemma advance: "R lp (snd (advance en index t node launch capNodes lp))"
  unfolding advance_def by (auto split: sum.splits option.splits intro!: launch_node follow_node refl)

lemma start_unit: "R lp (snd (start_unit en index t nodes launch capNodes attempt rv lp))"
  unfolding start_unit_def Let_def by (auto simp: case_prod_unfold split: sum.splits option.splits intro!: ops refl)

lemma gateClient: "R lp (snd (gateClientOnServer en index t nodes launch attempt serverPod lp))"
  unfolding gateClientOnServer_def Let_def by (auto simp: case_prod_unfold split: sum.splits option.splits intro!: ops refl)

lemma harvestPair: "R lp (snd (harvestPair en t nodes attempt serverPod clientPod lp))"
  unfolding harvestPair_def Let_def case_prod_unfold by (auto split: option.splits intro!: ops refl)

lemma marked: "R lp (snd (f (mark_busy nodes lp)))" if "\<And>lp. R lp (snd (f lp))"
  by (rule trans[OF marks that])

lemma advancePair: "R lp (snd (advancePair en p index t launch capNodes lp))"
  unfolding advancePair_def Let_def startPair_def
  by (auto split: sum.splits option.splits intro!: marked start_unit gateClient harvestPair refl)

lemma start_workers: "R lp (snd (start_workers en index t nodes attempt service ranks lp))"
proof (induction ranks arbitrary: lp)
  case (Cons x ranks)
  obtain rank pod where x: "x = (rank, pod)" by (cases x)
  show ?case
  proof (cases pod)
    case None
    show ?thesis unfolding x None start_workers.simps case_prod_unfold
      by (auto split: sum.splits option.splits intro!: refl pods intro: trans[OF pods Cons.IH])
  qed (simp add: x Cons.IH)
qed (simp add: refl)

lemma gateWorkers: "R lp (snd (gateWorkersOnRoot en index t nodes launch attempt rootPod ps lp))"
  unfolding gateWorkersOnRoot_def Let_def case_prod_unfold
  by (auto split: sum.splits option.splits intro!: ops refl start_workers[THEN trans[rotated]])

lemma fold_members: "R lp lp' \<Longrightarrow> R lp (fold (member_artifacts en t nodes) ms lp')"
  by (induction ms arbitrary: lp') (auto simp: member_artifacts_def intro: ops split: option.splits)

lemma harvestGroup: "R lp (snd (harvestGroup en t nodes attempt ps lp))"
  unfolding harvestGroup_def Let_def case_prod_unfold by (auto intro!: ops fold_members refl)

lemma advanceGroup: "R lp (snd (advanceGroup en p index t launch capNodes lp))"
  unfolding advanceGroup_def Let_def startGroup_def
  by (auto split: sum.splits option.splits intro!: marked start_unit gateWorkers harvestGroup refl)

lemma advance_targets: "R lp (snd (advance_targets en index t launch capNodes nodes test lp))"
proof (induction nodes arbitrary: test lp)
  case (Cons n ns)
  obtain r lp1 where a: "advance en index t n launch capNodes lp = (r, lp1)" by fastforce
  have "R lp lp1" using advance[of lp en index t n launch capNodes] a by simp
  then show ?case using Cons.IH by (auto simp: a split: sum.splits intro: trans)
qed (simp add: refl)

lemma advance_test: "R lp (snd (advance_test en p index t launch capNodes lp))"
  using advancePair[of lp en p index t launch capNodes] advanceGroup[of lp en p index t launch capNodes] advance_targets
  unfolding advance_test_def Let_def by (auto split: TestScope.splits sum.splits prod.splits)

lemma settleWithoutPod: "R lp (snd (settleWithoutPod now t lp))"
  unfolding settleWithoutPod_def by (auto intro!: ops refl)

lemma execute_tests: "R lp (snd (execute_tests en p launch capNodes ts out lp))"
proof (induction ts arbitrary: out lp)
  case (Cons x ts)
  obtain i t where x: "x = (i, t)" by (cases x)
  obtain b lp1 where b: "settleWithoutPod (en_now en) t lp = (b, lp1)" by fastforce
  obtain r lp2 where r: "advance_test en p (int i) t launch capNodes lp1 = (r, lp2)" by fastforce
  have "R lp lp1" "R lp lp2"
    using settleWithoutPod[of lp "en_now en" t] advance_test[of lp1 en p "int i" t launch capNodes] b r by (auto intro: trans)
  then show ?case using Cons.IH by (auto simp: x b r split: bool.splits sum.splits intro: trans refl)
qed (simp add: refl)

end

section \<open>The run keeps its identity\<close>

definition frame :: "BurnInRun \<Rightarrow> BurnInRun \<Rightarrow> bool" where
  "frame a b = (run_namespace b = run_namespace a \<and> run_name b = run_name a \<and> run_uid b = run_uid a \<and> run_spec b = run_spec a \<and>
     run_finalizer b = run_finalizer a \<and> run_cancelling b = run_cancelling a \<and> run_pending_delivery b = run_pending_delivery a \<and>
     run_deleted b = run_deleted a \<and> run_pinned b = run_pinned a \<and> run_creation b = run_creation a \<and>
     st_phase (run_status b) = st_phase (run_status a) \<and> st_started_at (run_status b) = st_started_at (run_status a) \<and>
     st_finished_at (run_status b) = st_finished_at (run_status a) \<and>
     st_prior_unschedulable (run_status b) = st_prior_unschedulable (run_status a))"

lemma frame_refl [simp]: "frame a a"
  by (simp add: frame_def)

lemma frame_trans: "frame a b \<Longrightarrow> frame b c \<Longrightarrow> frame a c"
  by (simp add: frame_def)

lemma frame_results [simp]: "frame a (run\<lparr>run_status := (run_status run)\<lparr>st_results := rs\<rparr>\<rparr>) = frame a run"
  by (simp add: frame_def)

lemma frame_recount [simp]: "frame a (recount run) = frame a run"
  by (simp add: frame_def recount_def Let_def)

lemma frame_cordoned [simp]: "frame a (set_cordoned ns run) = frame a run"
  by (simp add: frame_def set_cordoned_def)

lemma frame_cordonNode: "frame (snd nr) (snd (snd (cordonNode api now name spec nr)))"
  by (cases nr) (auto simp: cordonNode_def Let_def note_held_def case_prod_unfold split: option.splits ApiErr.splits)

lemma frame_cordonWave: "frame (snd nr) (snd (snd (cordonWave api now spec names changed nr)))"
proof (induction names arbitrary: changed nr)
  case (Cons n ns)
  obtain r nr1 where c: "cordonNode api now n spec nr = (r, nr1)" by (metis surj_pair)
  have "frame (snd nr) (snd nr1)" using frame_cordonNode[of nr api now n spec] c by simp
  then show ?case using Cons.IH[where nr = nr1] Cons.IH[where nr = nr] by (auto simp: c split: sum.splits intro: frame_trans)
qed simp

interpretation identity: pass_relation "\<lambda>a b. frame (lp_run a) (lp_run b)"
proof unfold_locales
  fix lp en t nodes attempt pname pod parsed
  show "frame (lp_run lp) (lp_run (complete en t nodes attempt pname pod parsed lp))"
    by (simp add: complete_def completeAttempt_def Let_def case_prod_unfold)
next
  fix lp en spec nodes
  show "frame (lp_run lp) (lp_run (snd (cordon en spec nodes lp)))"
    using frame_cordonWave[of "(w_nodes (lp_world lp), lp_run lp)" "en_api en" "en_now en" spec nodes False]
    by (simp add: cordon_def case_prod_unfold)
next
  fix lp en t node pod'
  show "frame (lp_run lp) (lp_run (snd (take_checkpoint en t node pod' lp)))"
    by (auto simp: take_checkpoint_def checkpoint_def Let_def case_prod_unfold split: option.splits sum.splits)
qed (auto simp: frame_trans begin_attempt_def beginAttempt_def keep_artifacts_def harvestArtifacts_def create_pod_def create_service_def
    mark_busy_def appendSettled_def Let_def case_prod_unfold split: option.splits intro: frame_trans)

section \<open>A pass destroys nothing\<close>

definition pods_kept :: "World \<Rightarrow> World \<Rightarrow> bool" where
  "pods_kept w w' = (\<forall>name pod. mget (w_pods w) name = Some pod \<longrightarrow> mget (w_pods w') name = Some pod)"

lemma pods_kept_refl [simp]: "pods_kept w w"
  by (simp add: pods_kept_def)

lemma pods_kept_trans: "pods_kept a b \<Longrightarrow> pods_kept b c \<Longrightarrow> pods_kept a c"
  by (simp add: pods_kept_def)

interpretation pods_survive: pass_relation "\<lambda>a b. pods_kept (lp_world a) (lp_world b)"
  by unfold_locales (auto simp: pods_kept_def complete_def begin_attempt_def take_checkpoint_def keep_artifacts_def cordon_def create_pod_def
    create_service_def mark_busy_def appendSettled_def Let_def mget_put mhas_def case_prod_unfold split: option.splits)

section \<open>A whole pass\<close>

lemma frame_forget: "frame run (snd (forget_held name run))"
  by (simp add: forget_held_def Let_def)

lemma frame_releaseNode: "frame (snd nr) (snd (snd (releaseNode api name nr)))"
  using frame_forget by (cases nr) (auto simp: releaseNode_def Let_def case_prod_unfold split: option.splits ApiErr.splits)

lemma results_releaseNode: "st_results (run_status (snd (snd (releaseNode api name nr)))) = st_results (run_status (snd nr))"
  by (cases nr) (auto simp: releaseNode_def forget_held_def set_cordoned_def Let_def case_prod_unfold split: option.splits ApiErr.splits)

lemma release_names_run:
  "frame (snd nr) (snd (snd (release_names api held names changed nr))) \<and>
   st_results (run_status (snd (snd (release_names api held names changed nr)))) = st_results (run_status (snd nr))"
proof (induction names arbitrary: changed nr)
  case (Cons n ns)
  obtain r nr1 where c: "releaseNode api n nr = (r, nr1)" by (metis surj_pair)
  have "frame (snd nr) (snd nr1)" "st_results (run_status (snd nr1)) = st_results (run_status (snd nr))"
    using frame_releaseNode[of nr api n] results_releaseNode[of api n nr] c by simp_all
  then show ?case using Cons.IH[where nr = nr1] Cons.IH[where nr = nr] by (auto simp: c split: sum.splits intro: frame_trans)
qed simp

text \<open>The state a pass starts in: busy are the nodes with a live pod and the nodes of open results.\<close>

definition loop0 :: "BurnInRun \<Rightarrow> World \<Rightarrow> Loop" where
  "loop0 run w = \<lparr>lp_world = w, lp_run = run, lp_busy = fold (\<lambda>n. mput n True) (mkeys (holdingNodes run))
     (fold (\<lambda>pod. mput (label_at (pod_labels pod) labelNode) True) (live_pods run w) []), lp_sent = []\<rparr>"

definition pass0 :: "BurnInRun \<Rightarrow> World \<Rightarrow> passResult" where
  "pass0 run w = empty_pass\<lparr>pa_awaiting_start := list_ex (\<lambda>pod. \<not> podStarted pod) (live_pods run w)\<rparr>"

lemma loop0_simps [simp]: "lp_world (loop0 run w) = w" "lp_run (loop0 run w) = run"
  by (simp_all add: loop0_def)

text \<open>\<open>execute\<close> is its loop over the tests and the release of the nodes that are no longer busy.\<close>

lemma execute_cases:
  assumes "execute en p launch w run = (r, lp')"
  obtains (unlisted) e where "r = Inl e" "lp_world lp' = w" "lp_run lp' = run"
  | (ran) r1 lp where "execute_tests en p launch (maxConcurrentNodes run) (enumerate 0 (pn_tests p)) (pass0 run w) (loop0 run w) = (r1, lp)"
      "lp_busy lp' = lp_busy lp" "w_pods (lp_world lp') = w_pods (lp_world lp)" "frame (lp_run lp) (lp_run lp')"
      "st_results (run_status (lp_run lp')) = st_results (run_status (lp_run lp))"
      "\<And>pass. r = Inr pass \<Longrightarrow> \<exists>out d. r1 = Inr out \<and> pass = out\<lparr>pa_dirty := d\<rparr>"
proof (cases "busyNodes en run w")
  case (Inl e)
  then show ?thesis using assms unlisted by (auto simp: execute_def)
next
  case (Inr b)
  obtain r1 lp where t: "execute_tests en p launch (maxConcurrentNodes run) (enumerate 0 (pn_tests p)) (pass0 run w) (loop0 run w) = (r1, lp)"
    by (metis surj_pair)
  have e: "execute en p launch w run = (case (r1, lp) of (Inl e, lp) \<Rightarrow> (Inl e, lp)
      | (Inr out, lp) \<Rightarrow>
          (case releaseHeldNodes (en_api en) (lp_busy lp) (w_nodes (lp_world lp), lp_run lp) of
             ((err, released), ns, run) \<Rightarrow>
               (let lp = lp\<lparr>lp_world := (lp_world lp)\<lparr>w_nodes := ns\<rparr>, lp_run := run\<rparr>
                in (case err of Some e \<Rightarrow> Inl e | None \<Rightarrow> Inr (out\<lparr>pa_dirty := (pa_dirty out \<or> released)\<rparr>), lp))))"
    using Inr unfolding t[symmetric] by (auto simp: execute_def busyNodes_def Let_def pass0_def loop0_def split: option.splits)
  obtain err released ns run' where rel:
    "releaseHeldNodes (en_api en) (lp_busy lp) (w_nodes (lp_world lp), lp_run lp) = ((err, released), ns, run')" by (metis surj_pair)
  have f: "frame (lp_run lp) run'" "st_results (run_status run') = st_results (run_status (lp_run lp))"
    using release_names_run[of "(w_nodes (lp_world lp), lp_run lp)" "en_api en" "lp_busy lp" "st_cordoned_nodes (run_status (lp_run lp))" False] rel
    by (simp_all add: releaseHeldNodes_def)
  show ?thesis using assms f by (auto simp: e rel Let_def split: sum.splits option.splits intro!: ran[OF t])
qed

lemma execute_keeps:
  assumes "execute en p launch w run = (r, lp)"
  shows frame_execute: "frame run (lp_run lp)" and pods_kept_execute: "pods_kept w (lp_world lp)"
proof -
  show "frame run (lp_run lp)" using assms
  proof (cases rule: execute_cases)
    case (ran r1 lp1)
    have "frame run (lp_run lp1)"
      using identity.execute_tests[of "loop0 run w" en p launch "maxConcurrentNodes run" "enumerate 0 (pn_tests p)" "pass0 run w"] ran(1) by simp
    then show ?thesis using ran(4) by (rule frame_trans)
  qed simp
  show "pods_kept w (lp_world lp)" using assms
  proof (cases rule: execute_cases)
    case (ran r1 lp1)
    show ?thesis
      using pods_survive.execute_tests[of "loop0 run w" en p launch "maxConcurrentNodes run" "enumerate 0 (pn_tests p)" "pass0 run w"] ran(1,3)
      by (simp add: pods_kept_def)
  qed simp
qed

section \<open>Quiet passes\<close>

text \<open>A pass that neither runs, waits nor harvests anything found every execution settled.\<close>

definition quiet :: "passResult \<Rightarrow> bool" where
  "quiet pass = (\<not> pa_running pass \<and> \<not> pa_pending pass \<and> \<not> pa_harvested pass)"

lemma quiet_apply: "quiet (apply_advance t state effect test) \<longleftrightarrow> quiet test \<and> state = advanceDone"
  by (cases state) (auto simp: quiet_def apply_advance_def)

lemma quiet_merge: "quiet (merge_pass out test) \<longleftrightarrow> quiet out \<and> quiet test"
  by (auto simp: quiet_def merge_pass_def)

lemma launch_not_done: "fst (launch_node en index t node launch capNodes attempt lp) \<noteq> Inr (advanceDone, effect)"
  by (auto simp: launch_node_def case_prod_unfold split: sum.splits option.splits)

lemma follow_not_done: "fst (follow_node en t node attempt pod lp) \<noteq> Inr (advanceDone, effect)"
  by (auto simp: follow_node_def Let_def case_prod_unfold)

lemma start_unit_not_done: "fst (start_unit en index t nodes launch capNodes attempt rv lp) \<noteq> Inr (advanceDone, effect)"
  by (auto simp: start_unit_def Let_def case_prod_unfold split: sum.splits option.splits)

lemma gateClient_not_done: "fst (gateClientOnServer en index t nodes launch attempt serverPod lp) \<noteq> Inr (advanceDone, effect)"
  by (auto simp: gateClientOnServer_def Let_def case_prod_unfold split: sum.splits option.splits)

lemma harvestPair_not_done: "fst (harvestPair en t nodes attempt serverPod clientPod lp) \<noteq> Inr (advanceDone, effect)"
  by (auto simp: harvestPair_def Let_def case_prod_unfold)

lemma gateWorkers_not_done: "fst (gateWorkersOnRoot en index t nodes launch attempt rootPod ps lp) \<noteq> Inr (advanceDone, effect)"
  by (auto simp: gateWorkersOnRoot_def Let_def case_prod_unfold split: sum.splits option.splits)

lemma harvestGroup_not_done: "fst (harvestGroup en t nodes attempt ps lp) \<noteq> Inr (advanceDone, effect)"
  by (auto simp: harvestGroup_def Let_def case_prod_unfold)

lemmas not_done = launch_not_done follow_not_done start_unit_not_done gateClient_not_done harvestPair_not_done
  gateWorkers_not_done harvestGroup_not_done

lemma advance_done:
  "advance en index t node launch capNodes lp = (Inr (advanceDone, effect), lp') \<Longrightarrow> open_attempt (lp_run lp) t node = None \<and> lp' = lp"
  using not_done(1,2) by (fastforce simp: advance_def dest: arg_cong[where f = fst] split: option.splits sum.splits)

lemma advancePair_done:
  "advancePair en p index t launch capNodes lp = (Inr (advanceDone, effect), lp') \<Longrightarrow> open_attempt (lp_run lp) t (pn_targets p ! 0) = None \<and> lp' = lp"
  using not_done by (fastforce simp: advancePair_def startPair_def Let_def dest: arg_cong[where f = fst] split: option.splits sum.splits)

lemma advanceGroup_done:
  "advanceGroup en p index t launch capNodes lp = (Inr (advanceDone, effect), lp') \<Longrightarrow> open_attempt (lp_run lp) t (pn_targets p ! 0) = None \<and> lp' = lp"
  using not_done by (fastforce simp: advanceGroup_def startGroup_def Let_def dest: arg_cong[where f = fst] split: option.splits sum.splits if_splits)

lemma advance_targets_quiet:
  assumes "advance_targets en index t launch capNodes nodes test lp = (Inr test', lp')" and "quiet test'"
  shows "lp' = lp \<and> quiet test \<and> (\<forall>n \<in> set nodes. open_attempt (lp_run lp) t n = None)"
  using assms
proof (induction nodes arbitrary: test lp)
  case (Cons n ns)
  obtain state effect lp1 where a: "advance en index t n launch capNodes lp = (Inr (state, effect), lp1)"
    using Cons.prems(1) by (auto split: sum.splits prod.splits)
  have ih: "lp' = lp1" "quiet test" "state = advanceDone" "\<forall>m \<in> set ns. open_attempt (lp_run lp1) t m = None"
    using Cons.IH[of "apply_advance t state effect test" lp1] Cons.prems a by (auto simp: quiet_apply)
  then show ?case using advance_done[of en index t n launch capNodes lp effect lp1] a by auto
qed simp

definition recognised :: "PlanTest \<Rightarrow> bool" where
  "recognised t = (ts_scope (pl_spec t) \<in> {ScopeUnset, ScopeNode, ScopePair, ScopeGroup})"

definition settled :: "BurnInRun \<Rightarrow> plan \<Rightarrow> PlanTest \<Rightarrow> bool" where
  "settled run p t = (\<forall>u \<in> set (executionUnits p t). open_attempt run t (hd u) = None)"

lemma advance_test_quiet:
  assumes "advance_test en p index t launch capNodes lp = (Inr test, lp')" and "quiet test" and "recognised t" and "pn_targets p \<noteq> []"
  shows "lp' = lp \<and> settled (lp_run lp) p t"
proof -
  have h: "hd (pn_targets p) = pn_targets p ! 0" using assms(4) by (simp add: hd_conv_nth)
  consider "ts_scope (pl_spec t) = ScopePair" | "ts_scope (pl_spec t) = ScopeGroup" | "ts_scope (pl_spec t) \<in> {ScopeUnset, ScopeNode}"
    using assms(3) by (auto simp: recognised_def)
  then show ?thesis
  proof cases
    case 1
    then obtain state effect where a: "advancePair en p index t launch capNodes lp = (Inr (state, effect), lp')"
        "test = apply_advance t state effect empty_pass"
      using assms(1) by (auto simp: advance_test_def Let_def split: sum.splits prod.splits)
    then show ?thesis using 1 h assms(2) advancePair_done[of en p index t launch capNodes lp effect lp']
      by (simp add: quiet_apply settled_def executionUnits_def)
  next
    case 2
    then obtain state effect where a: "advanceGroup en p index t launch capNodes lp = (Inr (state, effect), lp')"
        "test = apply_advance t state effect empty_pass"
      using assms(1) by (auto simp: advance_test_def Let_def split: sum.splits prod.splits)
    then show ?thesis using 2 h assms(2) advanceGroup_done[of en p index t launch capNodes lp effect lp']
      by (simp add: quiet_apply settled_def executionUnits_def)
  next
    case 3
    then have "advance_targets en index t launch capNodes (pn_targets p) empty_pass lp = (Inr test, lp')"
      using assms(1) by (auto simp: advance_test_def Let_def)
    from advance_targets_quiet[OF this assms(2)] 3 show ?thesis by (auto simp: settled_def executionUnits_def)
  qed
qed

lemma result_index_snoc: "result_index k rs n node = Some i \<Longrightarrow> result_index k (rs @ xs) n node = Some i"
  by (induction rs arbitrary: k) (auto split: if_splits)

lemma result_index_less: "result_index k rs n node = Some i \<Longrightarrow> k \<le> i \<and> i < k + length rs"
  by (induction rs arbitrary: k) (fastforce split: if_splits)+

lemma open_attempt_append:
  assumes "open_attempt run t node = None" and "st_results (run_status run') = st_results (run_status run) @ xs"
  shows "open_attempt run' t node = None"
proof -
  obtain i where i: "resultFor (st_results (run_status run)) (pl_name t) node = Some i"
    "IsTerminal (tr_phase (st_results (run_status run) ! i))"
    using assms(1) by (auto simp: open_attempt_def Let_def split: option.splits if_splits)
  then have "i < length (st_results (run_status run))" using result_index_less by (fastforce simp: resultFor_def)
  then show ?thesis using i assms(2) result_index_snoc by (simp add: open_attempt_def resultFor_def nth_append)
qed

lemma settleWithoutPod_open:
  assumes "settleWithoutPod now t lp = (b, lp')" and "open_attempt (lp_run lp) t' node = None"
  shows "open_attempt (lp_run lp') t' node = None"
proof -
  have "\<exists>xs. st_results (run_status (lp_run lp')) = st_results (run_status (lp_run lp)) @ xs"
    using assms(1) by (auto simp: settleWithoutPod_def appendSettled_def recount_def Let_def split: if_splits)
  then show ?thesis using open_attempt_append assms(2) by blast
qed

lemma settleWithoutPod_flag: "settleWithoutPod now t lp = (b, lp') \<Longrightarrow> b \<longleftrightarrow> \<not> recognised t"
  by (auto simp: settleWithoutPod_def recognised_def split: if_splits)

lemma settleWithoutPod_recognised: "settleWithoutPod now t lp = (False, lp') \<Longrightarrow> lp' = lp"
  by (auto simp: settleWithoutPod_def split: if_splits)

lemma execute_tests_quiet:
  assumes "execute_tests en p launch capNodes ts out lp = (Inr out', lp')" and "quiet out'" and "pn_targets p \<noteq> []"
  shows "(\<forall>t node. open_attempt (lp_run lp) t node = None \<longrightarrow> open_attempt (lp_run lp') t node = None) \<and>
    (pn_fail_fast p \<and> hasRequiredFailure (st_results (run_status (lp_run lp'))) p \<or>
     (\<forall>(i, t) \<in> set ts. recognised t \<longrightarrow> settled (lp_run lp') p t))"
  using assms(1,2)
proof (induction ts arbitrary: out lp)
  case (Cons x ts)
  obtain i t where x: "x = (i, t)" by (cases x)
  obtain b lp1 where b: "settleWithoutPod (en_now en) t lp = (b, lp1)" by (metis surj_pair)
  show ?case
  proof (cases "pn_fail_fast p \<and> hasRequiredFailure (st_results (run_status (lp_run lp))) p")
    case True
    then show ?thesis using Cons.prems by (auto simp: x)
  next
    case False
    show ?thesis
    proof (cases b)
      case True
      then have "execute_tests en p launch capNodes ts out lp1 = (Inr out', lp')" using Cons.prems(1) False by (simp add: x b)
      from Cons.IH[OF this Cons.prems(2)] show ?thesis
        using settleWithoutPod_open[OF b] settleWithoutPod_flag[OF b] True by (auto simp: x)
    next
      case nb: False
      then have lp1: "lp1 = lp" using settleWithoutPod_recognised b by simp
      obtain r lp2 where r: "advance_test en p (int i) t launch capNodes lp = (r, lp2)" by (metis surj_pair)
      obtain test where t: "r = Inr test" "quiet test"
        using Cons.prems False nb by (cases r) (auto simp: x b lp1 r quiet_def merge_pass_def split: if_splits)
      have q: "lp2 = lp" "settled (lp_run lp) p t"
        using advance_test_quiet r t assms(3) settleWithoutPod_flag[OF b] nb by blast+
      have "execute_tests en p launch capNodes ts (merge_pass out test) lp = (Inr out', lp')"
        using Cons.prems(1) False nb t by (simp add: x b lp1 r q quiet_def)
      from Cons.IH[OF this Cons.prems(2)] q(2) show ?thesis by (auto simp: x settled_def)
    qed
  qed
qed simp

section \<open>The end of a run\<close>

lemma handleTTL_keeps:
  "handleTTL en w run = (r, w', s') \<Longrightarrow> w' = w \<and> (\<forall>run'. s' = Some run' \<longrightarrow> run_status run' = run_status run \<and> run_finalizer run' = run_finalizer run)"
  by (auto simp: handleTTL_def split: option.splits if_splits ApiErr.splits)

lemma releaseCordons_run:
  assumes "releaseCordons api (nodes, run) = (r, nodes', run')"
  shows "frame run run'" "st_results (run_status run') = st_results (run_status run)"
  using assms by (auto simp: releaseCordons_def set_cordoned_def frame_def split: option.splits prod.splits if_splits)

lemma clean_up_run:
  assumes "clean_up en w run = (r, w', run')"
  shows "frame run run'" "st_results (run_status run') = st_results (run_status run)"
  using assms releaseCordons_run by (fastforce simp: clean_up_def split: option.splits prod.splits)+

lemma close_run_status:
  "st_phase (run_status (close_run now phase run)) = phase"
  "st_results (run_status (close_run now phase run)) = map (close_result now) (st_results (run_status run))"
  by (simp_all add: close_run_def end_run_def recount_def Let_def)

lemma finish_terminate_keeps:
  assumes "finish_terminate en sinks phase w mem stored = (r, w', s')"
  shows finish_world: "w' = w" and finish_status: "s' = Some run' \<Longrightarrow> run_status run' = run_status stored"
  using assms by (auto simp: finish_terminate_def Let_def store_meta_def split: option.splits if_splits dest!: handleTTL_keeps)

text \<open>What is stored afterwards: the status as it was, or the closed one.\<close>

lemma terminate_status:
  assumes "terminate en sinks phase w mem stored = (r, w', Some run')"
  shows "run_status run' = run_status stored \<or>
    st_phase (run_status run') = phase \<and> st_results (run_status run') = map (close_result (en_now en)) (st_results (run_status mem))"
proof -
  let ?m = "(close_run (en_now en) phase mem)\<lparr>run_pending_delivery := Some phase\<rparr>"
  obtain c w1 m1 where c: "clean_up en w ?m = (c, w1, m1)" by (metis surj_pair)
  have m1: "st_phase (run_status m1) = phase" "st_results (run_status m1) = map (close_result (en_now en)) (st_results (run_status mem))"
    using clean_up_run[OF c] by (auto simp: frame_def close_run_status)
  show ?thesis using assms m1
    by (auto simp: terminate_def Let_def c store_status_def store_meta_def close_run_status
      split: option.splits sum.splits if_splits dest!: finish_status[OF _ refl])
qed

lemma result_index_name: "result_index k rs n node = Some i \<Longrightarrow> tr_name (rs ! (i - k)) = n \<and> (node = [] \<or> node \<in> set (tr_nodes (rs ! (i - k))))"
proof (induction rs arbitrary: k)
  case (Cons res rs)
  show ?case
  proof (cases "tr_name res = n \<and> (node = [] \<or> node \<in> set (tr_nodes res))")
    case False
    then have s: "result_index (Suc k) rs n node = Some i" using Cons.prems by auto
    from Cons.IH[OF s] result_index_less[OF s] show ?thesis by (auto simp: nth_Cons split: nat.splits) (metis Suc_diff_Suc Suc_le_eq diff_Suc_eq_diff_pred nat.inject)+
  qed (use Cons.prems in auto)
qed simp

lemma resultFor_name: "resultFor rs n node = Some i \<Longrightarrow> i < length rs \<and> tr_name (rs ! i) = n"
  using result_index_name[of 0 rs n node i] result_index_less[of 0 rs n node i] by (simp add: resultFor_def)

lemma result_index_map:
  assumes "\<And>res. tr_name (f res) = tr_name res" "\<And>res. tr_nodes (f res) = tr_nodes res"
  shows "result_index k (map f rs) n node = result_index k rs n node"
  by (induction rs arbitrary: k) (auto simp: assms)

lemma close_result_frame: "tr_name (close_result now res) = tr_name res" "tr_nodes (close_result now res) = tr_nodes res"
  "IsTerminal (tr_phase res) \<Longrightarrow> close_result now res = res" "IsTerminal (tr_phase (close_result now res))"
  by (simp_all add: close_result_def)

lemma resultFor_closed: "resultFor (map (close_result now) rs) n node = resultFor rs n node"
  unfolding resultFor_def by (rule result_index_map) (simp_all add: close_result_frame)

section \<open>What a step can come to\<close>

definition renamed :: "BurnInRun \<Rightarrow> BurnInRun \<Rightarrow> bool" where
  "renamed run run1 = (\<exists>c. run1 = run\<lparr>run_cancelling := c\<rparr>)"

lemma renamed_simps:
  assumes "renamed run run1"
  shows "run_status run1 = run_status run" "run_finalizer run1 = run_finalizer run" "run_uid run1 = run_uid run"
    "run_name run1 = run_name run" "run_namespace run1 = run_namespace run"
  using assms by (auto simp: renamed_def)

lemma renamed_refl: "renamed run run"
  unfolding renamed_def by (rule exI[of _ "run_cancelling run"]) simp

text \<open>
  Every step fails early and changes nothing, or makes a pass (\<open>launch\<close> says whether it may start
  pods) and then fails, writes the status, or writes it and kills, or it ends the run.
\<close>

inductive comes_to :: "Env \<Rightarrow> plan \<Rightarrow> World \<Rightarrow> BurnInRun \<Rightarrow> stepped \<Rightarrow> bool" for en p w run where
  stopped: "comes_to en p w run (Failed e, w, Some run)"
| pass_failed: "\<lbrakk>renamed run run1; execute en p launch w run1 = (Inl e, lp)\<rbrakk> \<Longrightarrow> comes_to en p w run (Failed e, lp_world lp, Some run1)"
| persist: "\<lbrakk>renamed run run1; execute en p launch w run1 = (Inr pass, lp)\<rbrakk> \<Longrightarrow> comes_to en p w run (persistPass en pass lp run1)"
| unwritten: "\<lbrakk>renamed run run1; execute en p launch w run1 = (Inr pass, lp); en_api en (UpdateStatus 0) = Some e\<rbrakk>
    \<Longrightarrow> comes_to en p w run (Failed e, lp_world lp, Some run1)"
| wrote: "\<lbrakk>renamed run run1; execute en p launch w run1 = (Inr pass, lp); en_api en (UpdateStatus 0) = None; kill \<in> {[], pa_kill pass};
      killPods en kill (lp_world lp) = (err, w1)\<rbrakk>
    \<Longrightarrow> comes_to en p w run (case err of None \<Rightarrow> Requeue | Some e \<Rightarrow> Failed e, w1, Some (store_status (lp_run lp) run1))"
| idle: "\<lbrakk>execute en p launch w run = (Inr pass, lp); suspended run\<rbrakk> \<Longrightarrow> comes_to en p w run (RequeueAfter d, lp_world lp, Some run)"
| expired: "comes_to en p w run (terminate en (pn_sinks p) RunError w (settleRemaining (en_now en) p RunError m run) run)"
| cancelled: "\<lbrakk>renamed run run1; execute en p False w run1 = (Inr pass, lp)\<rbrakk> \<Longrightarrow> comes_to en p w run
    (terminate en (pn_sinks p) RunCancelled (lp_world lp) (settleRemaining (en_now en) p RunCancelled m (lp_run lp)) run1)"
| finalized: "\<lbrakk>execute en p True w run = (Inr pass, lp); quiet pass\<rbrakk> \<Longrightarrow> comes_to en p w run (finalize en p (lp_world lp) (lp_run lp) run)"

lemma cancel_comes_to: "comes_to en p w run (cancel en p w run)"
proof (cases "if run_cancelling run = [] then en_api en (UpdateRun 0) else None")
  case (Some e)
  then show ?thesis by (auto simp: cancel_def Let_def split: if_splits intro: stopped)
next
  case None
  define run1 where "run1 = (if run_cancelling run = [] then run\<lparr>run_cancelling := cancel_reason run\<rparr> else run)"
  have r1: "renamed run run1" using renamed_refl by (auto simp: run1_def renamed_def)
  obtain x lp where e: "execute en p False w run1 = (x, lp)" by (metis surj_pair)
  have k: "killPods en [] (lp_world lp) = (None, lp_world lp)" by (simp add: killPods_def)
  show ?thesis
  proof (cases x)
    case (Inl err)
    then have "cancel en p w run = (Failed err, lp_world lp, Some run1)" using None e unfolding cancel_def Let_def run1_def[symmetric] by simp
    then show ?thesis using pass_failed[OF r1] e Inl by simp
  next
    case (Inr pass)
    note e' = e[unfolded Inr]
    obtain m where "cancel en p w run =
        (if sp_cancel_policy (run_spec run) \<noteq> CancelImmediate \<and> pa_running pass then persistPass en pass lp run1
        else if sp_cancel_policy (run_spec run) \<noteq> CancelImmediate \<and> (pa_harvested pass \<or> pa_dirty pass) then
          (case en_api en (UpdateStatus 0) of Some e \<Rightarrow> (Failed e, lp_world lp, Some run1)
           | None \<Rightarrow> (Requeue, lp_world lp, Some (store_status (lp_run lp) run1)))
        else terminate en (pn_sinks p) RunCancelled (lp_world lp) (settleRemaining (en_now en) p RunCancelled m (lp_run lp)) run1)"
      using None e Inr unfolding cancel_def Let_def run1_def[symmetric] by auto
    then show ?thesis using persist[OF r1 e'] unwritten[OF r1 e'] wrote[OF r1 e' _ _ k] cancelled[OF r1 e'] by (auto split: option.splits)
  qed
qed

lemma pass_comes_to: "comes_to en p w run (run_pass en p w run)"
proof -
  obtain x lp where e: "execute en p (\<not> suspended run) w run = (x, lp)" by (metis surj_pair)
  show ?thesis
  proof (cases x)
    case (Inl err)
    then show ?thesis using e pass_failed[OF renamed_refl] by (auto simp: run_pass_def)
  next
    case (Inr pass)
    note e' = e[unfolded Inr]
    obtain err w1 where k: "killPods en (pa_kill pass) (lp_world lp) = (err, w1)" by (metis surj_pair)
    consider "pa_running pass \<or> pa_pending pass" | "\<not> (pa_running pass \<or> pa_pending pass)" "pa_harvested pass" | "quiet pass"
      by (auto simp: quiet_def)
    then show ?thesis
    proof cases
      case 1
      then show ?thesis using e' persist[OF renamed_refl e'] by (auto simp: run_pass_def)
    next
      case 2
      then show ?thesis using e' k unwritten[OF renamed_refl e'] wrote[OF renamed_refl e' _ _ k]
        by (auto simp: run_pass_def Let_def split: option.splits)
    next
      case 3
      then show ?thesis using e' finalized idle[OF e'] by (auto simp: run_pass_def quiet_def)
    qed
  qed
qed

lemma step_comes_to: "comes_to en p w run (step en p w run)"
  using cancel_comes_to pass_comes_to expired by (auto simp: step_def expire_def Let_def)

section \<open>Leaving nothing behind\<close>

















section \<open>A small cluster\<close>

definition calm :: Env where
  "calm = \<lparr>en_now = 0, en_api = (\<lambda>_. None), en_vendor = (\<lambda>_. []), en_logs = (\<lambda>_. Inr []), en_deliver = (\<lambda>_. True)\<rparr>"

definition one_test :: PlanTest where
  "one_test = \<lparr>pl_name = ''t'', pl_required = True, pl_spec = soak_spec, pl_axes = [], pl_parent = []\<rparr>"

definition one_plan :: "string list \<Rightarrow> plan" where
  "one_plan targets = \<lparr>pn_version = 1, pn_targets = targets, pn_sinks = [], pn_fail_fast = False, pn_baseline = False,
     pn_profile_entries = 1, pn_tests = [one_test]\<rparr>"

definition started_run :: "string list \<Rightarrow> TestResult list \<Rightarrow> BurnInRun" where
  "started_run targets results = (let run = new_run ''r'' 0 targets in run\<lparr>run_finalizer := True, run_pinned := Some targets,
     run_status := (run_status run)\<lparr>st_phase := RunRunning, st_started_at := Some 0, st_results := results\<rparr>\<rparr>)"

definition empty_world :: World where
  "empty_world = \<lparr>w_nodes = [], w_pods = [], w_services = [], w_config_maps = []\<rparr>"

definition passed_result :: TestResult where
  "passed_result = (new_result one_test [''n''])\<lparr>tr_phase := RunPassed\<rparr>"

lemma calm_simps [simp]: "en_now calm = 0" "en_api calm c = None" "en_vendor calm n = []" "en_logs calm n = Inr []" "en_deliver calm ph"
  by (simp_all add: calm_def)

lemma empty_world_simps [simp]: "w_nodes empty_world = []" "w_pods empty_world = []"
  by (simp_all add: empty_world_def)

lemma one_plan_simps [simp]: "pn_targets (one_plan ts) = ts" "pn_tests (one_plan ts) = [one_test]" "pn_sinks (one_plan ts) = []"
  "pn_fail_fast (one_plan ts) = False"
  by (simp_all add: one_plan_def)

lemma passed_step:
  "\<exists>run'. step calm (one_plan [''n'']) empty_world (started_run [''n''] [passed_result]) = (Idle, empty_world, Some run') \<and>
     st_phase (run_status run') = RunPassed \<and> \<not> run_finalizer run'"
proof -
  let ?run = "started_run [''n''] [passed_result]"
  have run: "\<not> cancelRequested ?run" "run_cancelling ?run = []" "\<not> deadlineExceeded 0 ?run" "\<not> suspended ?run" "open_attempt ?run one_test ''n'' = None"
    by (simp_all add: started_run_def new_run_def cancelRequested_def deadlineExceeded_def runDeadline_def suspended_def open_attempt_def resultFor_def
      passed_result_def new_result_def one_test_def Let_def)
  have cap: "maxConcurrentNodes ?run = 1" "st_cordoned_nodes (run_status ?run) = []" "st_results (run_status ?run) = [passed_result]"
    by (simp_all add: maxConcurrentNodes_def started_run_def new_run_def Let_def)
  have passed: "tr_phase passed_result = RunPassed" by (simp add: passed_result_def)
  have d: "advance calm 0 one_test ''n'' True 1 lp = (Inr (advanceDone, no_effect), lp)" if "lp_run lp = ?run" for lp
    using run(5) that by (simp add: advance_def)
  have "execute calm (one_plan [''n'']) True empty_world ?run = (Inr empty_pass, loop0 ?run empty_world)"
  proof -
    have t: "settleWithoutPod now one_test lp = (False, lp)" "advance_test calm (one_plan [''n'']) 0 one_test True 1 lp =
        advance_targets calm 0 one_test True 1 [''n''] empty_pass lp" for now lp
      by (simp_all add: settleWithoutPod_def advance_test_def one_test_def soak_spec_def)
    have h: "holdingNodes ?run = []" "live_pods ?run empty_world = []"
      by (simp_all add: holdingNodes_def open_nodes_def cap passed live_pods_def run_pods_def)
    show ?thesis
      by (simp add: execute_def busyNodes_def h cap t d mkeys_def releaseHeldNodes_def loop0_def apply_advance_def merge_pass_def empty_pass_def
        no_effect_def shorter_def Let_def)
  qed
  then have "step calm (one_plan [''n'']) empty_world ?run = terminate calm [] RunPassed empty_world ?run ?run"
    by (simp add: step_def run run_pass_def empty_pass_def finalize_def final_phase_def hasRequiredFailure_def hasRequiredError_def passed cap)
  then show ?thesis
    by (simp add: terminate_def clean_up_def deleteLivePods_def live_pods_def run_pods_def releaseCordons_def finish_terminate_def deliver_phase_def
      handleTTL_def store_meta_def store_status_def close_run_def end_run_def recount_def started_run_def new_run_def Let_def)
qed

section \<open>Properties\<close>

definition accepted_phases :: "RunPhase set" where
  "accepted_phases = {RunPassed, RunSkipped, RunCancelled}"

lemma final_phase_passed:
  assumes "final_phase rs p = RunPassed" and "res \<in> set rs" and "IsTerminal (tr_phase res)" and "is_required p (tr_name res)"
  shows "tr_phase res \<in> accepted_phases"
proof -
  have "tr_phase res \<noteq> RunFailed" "tr_phase res \<noteq> RunError"
    using assms by (auto simp: final_phase_def hasRequiredFailure_def hasRequiredError_def list_ex_iff split: if_splits)
  then show ?thesis using assms(3) by (cases "tr_phase res") (auto simp: accepted_phases_def)
qed

text \<open>
  C1. A run passes only on settled work. When a step ends a run as Passed, every execution its plan
  calls for (each test, on each node or on the whole pair or group) has a result, that result is
  terminal, and for a required test it is not a failure and not an error.
\<close>

theorem run_passes_only_on_settled_work:
  assumes "step en p w run = (r, w', Some run')" and "st_phase (run_status run') = RunPassed" and "st_phase (run_status run) \<noteq> RunPassed"
    and "pn_targets p \<noteq> []" and "t \<in> set (pn_tests p)" and "recognised t" and "u \<in> set (executionUnits p t)"
  shows "\<exists>i res. resultFor (st_results (run_status run')) (pl_name t) (hd u) = Some i \<and> res = st_results (run_status run') ! i \<and>
    IsTerminal (tr_phase res) \<and> (is_required p (pl_name t) \<longrightarrow> tr_phase res \<in> accepted_phases)"
proof -
  let ?rs = "st_results (run_status run')"
  have c: "comes_to en p w run (r, w', Some run')" using step_comes_to[of en p w run] assms(1) by simp
  have same: False if "run_status run' = run_status run" using that assms(2,3) by simp
  have "\<exists>pass lp. finalize en p (lp_world lp) (lp_run lp) run = (r, w', Some run') \<and> execute en p True w run = (Inr pass, lp) \<and> quiet pass"
    using c
  proof cases
    case (persist run1 launch pass lp)
    then show ?thesis using frame_execute[OF persist(3)] same assms(2,3) renamed_simps(1)[OF persist(2)]
      by (auto simp: persistPass_def Let_def store_status_def frame_def split: option.splits if_splits)
  next
    case (wrote run1 launch pass lp kill err)
    then show ?thesis using frame_execute[OF wrote(4)] assms(2,3) renamed_simps(1)[OF wrote(3)] by (auto simp: store_status_def frame_def)
  next
    case (expired m)
    then show ?thesis using terminate_status[OF expired[symmetric]] same assms(2) by auto
  next
    case (cancelled run1 pass lp m)
    then show ?thesis using terminate_status[OF cancelled(1)[symmetric]] same assms(2) renamed_simps(1)[OF cancelled(2)] by auto
  qed (use same renamed_simps in auto)
  then obtain pass lp where f: "finalize en p (lp_world lp) (lp_run lp) run = (r, w', Some run')" "execute en p True w run = (Inr pass, lp)" "quiet pass"
    by blast
  have rs: "?rs = map (close_result (en_now en)) (st_results (run_status (lp_run lp)))" "final_phase (st_results (run_status (lp_run lp))) p = RunPassed"
    using terminate_status[OF f(1)[unfolded finalize_def]] same assms(2) by auto
  have "settled (lp_run lp) p t" using f(2)
  proof (cases rule: execute_cases)
    case (ran r1 lp1)
    obtain out d where o: "r1 = Inr out" "pass = out\<lparr>pa_dirty := d\<rparr>" using ran(6) by blast
    then have q: "quiet out" using f(3) by (simp add: quiet_def)
    have "\<not> hasRequiredFailure (st_results (run_status (lp_run lp1))) p" using rs(2) ran(5) by (auto simp: final_phase_def split: if_splits)
    moreover obtain k where "k < length (pn_tests p)" "t = pn_tests p ! k" using assms(5) by (auto simp: in_set_conv_nth)
    then have "(k, t) \<in> set (enumerate 0 (pn_tests p))" by (simp add: in_set_enumerate_eq)
    ultimately have "settled (lp_run lp1) p t"
      using execute_tests_quiet[OF ran(1)[unfolded o(1)] q assms(4)] assms(6) by blast
    then show ?thesis using ran(5) by (simp add: settled_def open_attempt_def)
  qed simp
  then obtain i where i: "resultFor (st_results (run_status (lp_run lp))) (pl_name t) (hd u) = Some i"
      "IsTerminal (tr_phase (st_results (run_status (lp_run lp)) ! i))"
    using assms(7) by (auto simp: settled_def open_attempt_def Let_def split: option.splits if_splits)
  have n: "i < length (st_results (run_status (lp_run lp)))" "tr_name (st_results (run_status (lp_run lp)) ! i) = pl_name t"
    using resultFor_name[OF i(1)] by auto
  then have "?rs ! i = st_results (run_status (lp_run lp)) ! i" using rs(1) i(2) by (simp add: close_result_frame)
  then show ?thesis using i n rs final_phase_passed[OF rs(2) nth_mem[OF n(1)] i(2)] by (auto simp: resultFor_closed)
qed


theorem run_passes_only_on_settled_work_witness:
  "\<exists>run'. snd (snd (step calm (one_plan [''n'']) empty_world (started_run [''n''] [passed_result]))) = Some run' \<and>
     (\<exists>i. resultFor (st_results (run_status run')) ''t'' ''n'' = Some i)"
proof -
  obtain run' where s: "step calm (one_plan [''n'']) empty_world (started_run [''n''] [passed_result]) = (Idle, empty_world, Some run')"
      "st_phase (run_status run') = RunPassed"
    using passed_step by blast
  have u: "[''n''] \<in> set (executionUnits (one_plan [''n'']) one_test)" "recognised one_test" "pl_name one_test = ''t''"
    "st_phase (run_status (started_run [''n''] [passed_result])) \<noteq> RunPassed"
    by (simp_all add: executionUnits_def recognised_def one_test_def soak_spec_def started_run_def Let_def)
  from run_passes_only_on_settled_work[OF s u(4) _ _ u(2,1)] show ?thesis using s(1) u(3) by auto
qed

text \<open>
  C10. A pod outlives a verdict that was not recorded. If the status cannot be written in a step, no
  pod is deleted by it and the stored status is as before, so that the next pass sees
  the same pods and the same attempts.
\<close>

theorem pods_outlive_an_unrecorded_verdict:
  assumes "step en p w run = (r, w', s')" and "en_api en (UpdateStatus 0) \<noteq> None" and "en_api en (UpdateStatus 1) \<noteq> None"
  shows "(\<forall>name pod. mget (w_pods w) name = Some pod \<longrightarrow> mget (w_pods w') name = Some pod) \<and>
    (\<exists>run'. s' = Some run' \<and> run_status run' = run_status run)"
proof -
  have c: "comes_to en p w run (r, w', s')" using step_comes_to[of en p w run] assms(1) by simp
  have t: "terminate en sinks phase v mem stored = (r, w', s') \<Longrightarrow> w' = v \<and> s' = Some stored" for sinks phase v mem stored
    using assms(3) by (auto simp: terminate_def Let_def)
  have "pods_kept w w' \<and> (\<exists>run'. s' = Some run' \<and> run_status run' = run_status run)" using c
  proof cases
    case (persist run1 launch pass lp)
    then show ?thesis using pods_kept_execute[OF persist(3)] renamed_simps(1)[OF persist(2)] assms(2)
      by (auto simp: persistPass_def Let_def split: option.splits if_splits)
  next
    case (finalized pass lp)
    then show ?thesis using t[OF finalized(1)[symmetric, unfolded finalize_def]] pods_kept_execute[OF finalized(2)] by simp
  next
    case (cancelled run1 pass lp m)
    then show ?thesis using t[OF cancelled(1)[symmetric]] pods_kept_execute[OF cancelled(3)] renamed_simps(1)[OF cancelled(2)] by simp
  next
    case (expired m)
    then show ?thesis using t[OF expired[symmetric]] by simp
  qed (use assms(2) pods_kept_execute renamed_simps(1) in auto)
  then show ?thesis by (simp add: pods_kept_def)
qed

theorem pods_outlive_an_unrecorded_verdict_witness:
  "\<forall>pod. mget (w_pods (fst (snd (step (calm\<lparr>en_api := (\<lambda>c. case c of UpdateStatus _ \<Rightarrow> Some (ApiOther ''conflict'') | _ \<Rightarrow> None)\<rparr>)
       (one_plan [''n'']) (empty_world\<lparr>w_pods := [(''x'', pod)]\<rparr>) (started_run [''n''] []))))) ''x'' = Some pod"
proof
  fix pod
  let ?en = "calm\<lparr>en_api := (\<lambda>c. case c of UpdateStatus _ \<Rightarrow> Some (ApiOther ''conflict'') | _ \<Rightarrow> None)\<rparr>"
  obtain r w' s' where s: "step ?en (one_plan [''n'']) (empty_world\<lparr>w_pods := [(''x'', pod)]\<rparr>) (started_run [''n''] []) = (r, w', s')"
    by (metis surj_pair)
  show "mget (w_pods (fst (snd (step ?en (one_plan [''n'']) (empty_world\<lparr>w_pods := [(''x'', pod)]\<rparr>) (started_run [''n''] []))))) ''x'' = Some pod"
    using pods_outlive_an_unrecorded_verdict[OF s] by (simp add: s mget_def)
qed



end
