(* ===== verification/Pod_Names.thy ===== *)
theory Pod_Names
  imports Pods
begin

text \<open>
  The names \<^verbatim>\<open>podNameForRole\<close> gives: what a name tells of the execution it belongs to whatever its hash is,
  and the hashes of one example, computed.
\<close>

section \<open>The parts of a name\<close>

definition pod_seed :: "BurnInRun \<Rightarrow> nat \<Rightarrow> string \<Rightarrow> nat \<Rightarrow> string \<Rightarrow> string" where
  "pod_seed run i node a role = run_uid run @ [byte 0] @ run_name run @ [byte 0] @ Itoa (int i) @ [byte 0] @ node @ [byte 0] @ Itoa (int a) @
     (if role \<noteq> [] then [byte 0] @ role else [])"

definition readable :: "string \<Rightarrow> string" where
  "readable role = (if role \<noteq> [] then ''-'' @ role else [])"

lemma podName_parts:
  "podNameForRole run (int i) node (int a) role = truncate (run_name run) 36 @ ''-t'' @ show_nat i @ ''-a'' @ show_nat a @ readable role @ ''-'' @ seed_hex (pod_seed run i node a role)"
  by (simp add: podNameForRole_def pod_seed_def readable_def Let_def Itoa_def)

lemma length_seed_hex: "length (seed_hex s) = 8"
  by (simp add: seed_hex_def length_EncodeToString length_Sum256)

lemma no_dash: "CHR ''-'' \<notin> set (show_nat n)"
  using show_nat_digits[of n] by (auto simp: list_all_iff is_digit_def)

lemma show_nat_inj: "show_nat m = show_nat n \<longleftrightarrow> m = n"
  by (metis dval_show_nat)

lemma cut_dash:
  assumes "CHR ''-'' \<notin> set a" and "CHR ''-'' \<notin> set b" and "a @ CHR ''-'' # x = b @ CHR ''-'' # y"
  shows "a = b \<and> x = y"
proof -
  have "takeWhile (\<lambda>c. c \<noteq> CHR ''-'') (a @ CHR ''-'' # x) = a" "takeWhile (\<lambda>c. c \<noteq> CHR ''-'') (b @ CHR ''-'' # y) = b"
    using assms(1,2) by (induction a, auto) (induction b, auto)
  then show ?thesis using assms(3) by auto
qed

lemma readable_tail: "\<exists>s. readable role @ ''-'' @ h = CHR ''-'' # s"
  by (auto simp: readable_def)

lemma readable_inj: "readable r = readable r' \<longleftrightarrow> r = r'"
  by (auto simp: readable_def)

lemma pod_names_apart:
  "podNameForRole run (int i) node (int a) role = podNameForRole run (int i') node' (int a') role' \<longleftrightarrow>
     i = i' \<and> a = a' \<and> role = role' \<and> seed_hex (pod_seed run i node a role) = seed_hex (pod_seed run i' node' a' role')"
proof
  let ?h = "seed_hex (pod_seed run i node a role)" and ?h' = "seed_hex (pod_seed run i' node' a' role')"
  assume "podNameForRole run (int i) node (int a) role = podNameForRole run (int i') node' (int a') role'"
  then have "show_nat i @ CHR ''-'' # ''a'' @ show_nat a @ readable role @ ''-'' @ ?h = show_nat i' @ CHR ''-'' # ''a'' @ show_nat a' @ readable role' @ ''-'' @ ?h'"
    by (simp add: podName_parts)
  from cut_dash[OF no_dash no_dash this] have i: "i = i'" and 1: "show_nat a @ readable role @ ''-'' @ ?h = show_nat a' @ readable role' @ ''-'' @ ?h'"
    by (auto simp: show_nat_inj)
  obtain s s' where s: "readable role @ ''-'' @ ?h = CHR ''-'' # s" "readable role' @ ''-'' @ ?h' = CHR ''-'' # s'" using readable_tail by metis
  from cut_dash[OF no_dash no_dash 1[unfolded s]] have a: "a = a'" and "s = s'" by (simp_all add: show_nat_inj)
  then have "readable role @ ''-'' @ ?h = readable role' @ ''-'' @ ?h'" using s by simp
  then have "readable role = readable role' \<and> ?h = ?h'" by (simp add: append_eq_append_conv length_seed_hex)
  then show "i = i' \<and> a = a' \<and> role = role' \<and> ?h = ?h'" using i a readable_inj by blast
qed (auto simp: podName_parts)

section \<open>Two names\<close>

definition seed :: "string \<Rightarrow> string" where
  "seed node = ''r'' @ [CHR 0x00] @ ''r'' @ [CHR 0x00] @ ''0'' @ [CHR 0x00] @ node @ [CHR 0x00] @ ''1''"

lemma seed_parts:
  assumes "run_uid run = ''r''" and "run_name run = ''r''"
  shows "pod_seed run 0 node 1 [] = seed node"
proof -
  have "byte 0 = CHR 0x00" "Itoa (int 0) = ''0''" "Itoa (int 1) = ''1''" by code_simp+
  then show ?thesis by (simp add: pod_seed_def seed_def assms del: One_nat_def)
qed

lemma digest_a: "seed_hex (seed ''a'') = ''7c49fa27''"
proof -
  have pad: "sha_pad (seed ''a'') = [CHR 0x72, CHR 0x00, CHR 0x72, CHR 0x00, CHR 0x30, CHR 0x00, CHR 0x61, CHR 0x00, CHR 0x31, CHR 0x80, CHR 0x00, CHR 0x00,
      CHR 0x00, CHR 0x00, CHR 0x00, CHR 0x00, CHR 0x00, CHR 0x00, CHR 0x00, CHR 0x00, CHR 0x00, CHR 0x00, CHR 0x00, CHR 0x00,
      CHR 0x00, CHR 0x00, CHR 0x00, CHR 0x00, CHR 0x00, CHR 0x00, CHR 0x00, CHR 0x00, CHR 0x00, CHR 0x00, CHR 0x00, CHR 0x00,
      CHR 0x00, CHR 0x00, CHR 0x00, CHR 0x00, CHR 0x00, CHR 0x00, CHR 0x00, CHR 0x00, CHR 0x00, CHR 0x00, CHR 0x00, CHR 0x00,
      CHR 0x00, CHR 0x00, CHR 0x00, CHR 0x00, CHR 0x00, CHR 0x00, CHR 0x00, CHR 0x00, CHR 0x00, CHR 0x00, CHR 0x00, CHR 0x00,
      CHR 0x00, CHR 0x00, CHR 0x00, CHR 0x48]"
    by (simp add: seed_def sha_pad_def pad_simps) code_simp
  have words: "rev (sha_schedule 48 (rev (map be_word (chunks 16 4 [CHR 0x72, CHR 0x00, CHR 0x72, CHR 0x00, CHR 0x30, CHR 0x00, CHR 0x61, CHR 0x00, CHR 0x31, CHR 0x80, CHR 0x00, CHR 0x00,
      CHR 0x00, CHR 0x00, CHR 0x00, CHR 0x00, CHR 0x00, CHR 0x00, CHR 0x00, CHR 0x00, CHR 0x00, CHR 0x00, CHR 0x00, CHR 0x00,
      CHR 0x00, CHR 0x00, CHR 0x00, CHR 0x00, CHR 0x00, CHR 0x00, CHR 0x00, CHR 0x00, CHR 0x00, CHR 0x00, CHR 0x00, CHR 0x00,
      CHR 0x00, CHR 0x00, CHR 0x00, CHR 0x00, CHR 0x00, CHR 0x00, CHR 0x00, CHR 0x00, CHR 0x00, CHR 0x00, CHR 0x00, CHR 0x00,
      CHR 0x00, CHR 0x00, CHR 0x00, CHR 0x00, CHR 0x00, CHR 0x00, CHR 0x00, CHR 0x00, CHR 0x00, CHR 0x00, CHR 0x00, CHR 0x00,
      CHR 0x00, CHR 0x00, CHR 0x00, CHR 0x48])))) =
     [1912631808, 805331200, 830472192, 0, 0, 0, 0, 0,
      0, 0, 0, 0, 0, 0, 0, 72,
      2418045666, 914386272, 1753813512, 991018379, 2875136785, 3917102725, 1858090826, 3905456639,
      1406679061, 3196276071, 1445901092, 2056233811, 2036164867, 2493360456, 2459569895, 2166203077,
      1930714812, 1259045520, 103088744, 1450265621, 4208072930, 2693335112, 4293454562, 800862806,
      317396334, 1387473789, 3593381557, 3116447135, 2341009186, 2947055910, 457123615, 1171316707,
      109420799, 631886698, 2544867719, 308467941, 2979235847, 3555546789, 2686880415, 1394060400,
      116747810, 3872040726, 1754450241, 3696461987, 367851132, 4191676776, 1310011964, 3981435695]"
    by code_simp
  have rounds: "foldl sha_round sha_H0 (zip sha_K [1912631808, 805331200, 830472192, 0, 0, 0, 0, 0,
      0, 0, 0, 0, 0, 0, 0, 72,
      2418045666, 914386272, 1753813512, 991018379, 2875136785, 3917102725, 1858090826, 3905456639,
      1406679061, 3196276071, 1445901092, 2056233811, 2036164867, 2493360456, 2459569895, 2166203077,
      1930714812, 1259045520, 103088744, 1450265621, 4208072930, 2693335112, 4293454562, 800862806,
      317396334, 1387473789, 3593381557, 3116447135, 2341009186, 2947055910, 457123615, 1171316707,
      109420799, 631886698, 2544867719, 308467941, 2979235847, 3555546789, 2686880415, 1394060400,
      116747810, 3872040726, 1754450241, 3696461987, 367851132, 4191676776, 1310011964, 3981435695]) = [306189248, 912870070, 2096262100, 1524836144, 1205692484, 1281613738, 521576697, 4215747061]"
    by code_simp
  have "Sum256 (seed ''a'') = sha_block sha_H0 (sha_pad (seed ''a''))" by (rule Sum256_one_block) (simp add: pad)
  then have "Sum256 (seed ''a'') = [2085222951, 4057004347, 3110166342, 3349610, 2565585603, 3882436662, 1050311332, 1462238990]" unfolding pad sha_block_def words rounds Let_def by (simp add: sha_H0_def)
  then have "seed_hex (seed ''a'') = EncodeToString [2085222951]" by (simp add: seed_hex_def)
  also have "\<dots> = ''7c49fa27''" by code_simp
  finally show ?thesis .
qed

lemma digest_b: "seed_hex (seed ''b'') = ''8a4dda55''"
proof -
  have pad: "sha_pad (seed ''b'') = [CHR 0x72, CHR 0x00, CHR 0x72, CHR 0x00, CHR 0x30, CHR 0x00, CHR 0x62, CHR 0x00, CHR 0x31, CHR 0x80, CHR 0x00, CHR 0x00,
      CHR 0x00, CHR 0x00, CHR 0x00, CHR 0x00, CHR 0x00, CHR 0x00, CHR 0x00, CHR 0x00, CHR 0x00, CHR 0x00, CHR 0x00, CHR 0x00,
      CHR 0x00, CHR 0x00, CHR 0x00, CHR 0x00, CHR 0x00, CHR 0x00, CHR 0x00, CHR 0x00, CHR 0x00, CHR 0x00, CHR 0x00, CHR 0x00,
      CHR 0x00, CHR 0x00, CHR 0x00, CHR 0x00, CHR 0x00, CHR 0x00, CHR 0x00, CHR 0x00, CHR 0x00, CHR 0x00, CHR 0x00, CHR 0x00,
      CHR 0x00, CHR 0x00, CHR 0x00, CHR 0x00, CHR 0x00, CHR 0x00, CHR 0x00, CHR 0x00, CHR 0x00, CHR 0x00, CHR 0x00, CHR 0x00,
      CHR 0x00, CHR 0x00, CHR 0x00, CHR 0x48]"
    by (simp add: seed_def sha_pad_def pad_simps) code_simp
  have words: "rev (sha_schedule 48 (rev (map be_word (chunks 16 4 [CHR 0x72, CHR 0x00, CHR 0x72, CHR 0x00, CHR 0x30, CHR 0x00, CHR 0x62, CHR 0x00, CHR 0x31, CHR 0x80, CHR 0x00, CHR 0x00,
      CHR 0x00, CHR 0x00, CHR 0x00, CHR 0x00, CHR 0x00, CHR 0x00, CHR 0x00, CHR 0x00, CHR 0x00, CHR 0x00, CHR 0x00, CHR 0x00,
      CHR 0x00, CHR 0x00, CHR 0x00, CHR 0x00, CHR 0x00, CHR 0x00, CHR 0x00, CHR 0x00, CHR 0x00, CHR 0x00, CHR 0x00, CHR 0x00,
      CHR 0x00, CHR 0x00, CHR 0x00, CHR 0x00, CHR 0x00, CHR 0x00, CHR 0x00, CHR 0x00, CHR 0x00, CHR 0x00, CHR 0x00, CHR 0x00,
      CHR 0x00, CHR 0x00, CHR 0x00, CHR 0x00, CHR 0x00, CHR 0x00, CHR 0x00, CHR 0x00, CHR 0x00, CHR 0x00, CHR 0x00, CHR 0x00,
      CHR 0x00, CHR 0x00, CHR 0x00, CHR 0x48])))) =
     [1912631808, 805331456, 830472192, 0, 0, 0, 0, 0,
      0, 0, 0, 0, 0, 0, 0, 72,
      2430628484, 914386528, 1756815984, 988921227, 2909541621, 3917104713, 2295281766, 4239919495,
      2979927312, 1854083641, 49800964, 2561429322, 4175201061, 926510262, 1586658789, 1425740549,
      1306666353, 2060140337, 3585229812, 670602127, 1841751237, 3051235492, 2663072858, 3457859013,
      2993571423, 1060717089, 2897192666, 66191759, 133998197, 1963035386, 3113933130, 1579442498,
      1730053124, 1207561582, 2861754616, 961698204, 3792414866, 1332316848, 3681642127, 1645620960,
      2937721706, 100328600, 3490720302, 3628684185, 12686895, 135231487, 2896931754, 124637142]"
    by code_simp
  have rounds: "foldl sha_round sha_H0 (zip sha_K [1912631808, 805331456, 830472192, 0, 0, 0, 0, 0,
      0, 0, 0, 0, 0, 0, 0, 72,
      2430628484, 914386528, 1756815984, 988921227, 2909541621, 3917104713, 2295281766, 4239919495,
      2979927312, 1854083641, 49800964, 2561429322, 4175201061, 926510262, 1586658789, 1425740549,
      1306666353, 2060140337, 3585229812, 670602127, 1841751237, 3051235492, 2663072858, 3457859013,
      2993571423, 1060717089, 2897192666, 66191759, 133998197, 1963035386, 3113933130, 1579442498,
      1730053124, 1207561582, 2861754616, 961698204, 3792414866, 1332316848, 3681642127, 1645620960,
      2937721706, 100328600, 3490720302, 3628684185, 12686895, 135231487, 2896931754, 124637142]) = [541324270, 382901364, 4092355478, 4076741311, 2584988049, 3060096339, 2893449091, 1726529406]"
    by code_simp
  have "Sum256 (seed ''b'') = sha_block sha_H0 (sha_pad (seed ''b''))" by (rule Sum256_one_block) (simp add: pad)
  then have "Sum256 (seed ''b'') = [2320357973, 3527035641, 811292424, 2555254777, 3944881168, 1365951967, 3422183726, 3267988631]" unfolding pad sha_block_def words rounds Let_def by (simp add: sha_H0_def)
  then have "seed_hex (seed ''b'') = EncodeToString [2320357973]" by (simp add: seed_hex_def)
  also have "\<dots> = ''8a4dda55''" by code_simp
  finally show ?thesis .
qed

lemma two_names:
  assumes "run_uid run = ''r''" and "run_name run = ''r''"
  shows "podName run 0 ''a'' 1 \<noteq> podName run 0 ''b'' 1" "podName run 0 ''a'' 2 \<noteq> podName run 0 ''a'' 1" "podName run 0 ''a'' 2 \<noteq> podName run 0 ''b'' 1"
  using pod_names_apart[of run 0 "''a''" 1 "[]" 0 "''b''" 1 "[]"] pod_names_apart[of run 0 "''a''" 2 "[]" 0 "''a''" 1 "[]"]
    pod_names_apart[of run 0 "''a''" 2 "[]" 0 "''b''" 1 "[]"] seed_parts[OF assms] digest_a digest_b
  by (simp_all add: podName_def del: One_nat_def)

section \<open>Properties\<close>

text \<open>
  C25. A name tells attempts apart. Two pods of a run have the same name exactly when they belong to the
  same test, the same attempt and the same role and the hashes of their seeds agree: no
  collision of the hash can make one attempt adopt the pod of another.
\<close>

theorem pod_names_tell_attempts_apart:
  "podNameForRole run (int i) node (int a) role = podNameForRole run (int i') node' (int a') role' \<longleftrightarrow>
     i = i' \<and> a = a' \<and> role = role' \<and> seed_hex (pod_seed run i node a role) = seed_hex (pod_seed run i' node' a' role')"
  by (rule pod_names_apart)

end
