(* ===== verification/Run_Wedge.thy ===== *)
theory Run_Wedge
  imports Run_Safety Pod_Names
begin

text \<open>
  Two ways in which the passes of a run go wrong, on a plan of one test over the nodes \<^verbatim>\<open>a\<close> and \<^verbatim>\<open>b\<close> with the
  default cap of one node at a time.
\<close>

section \<open>The pod and the run\<close>

definition two_nodes :: "string list" where
  "two_nodes = [''a'', ''b'']"

definition run_with :: "int \<Rightarrow> TestResult list \<Rightarrow> BurnInRun" where
  "run_with limit results = (let run = started_run two_nodes results
     in run\<lparr>run_spec := (run_spec run)\<lparr>sp_retry_on_error_limit := Some limit\<rparr>\<rparr>)"

text \<open>The pod the operator builds for a node, as the server creates it at time 0.\<close>

definition pod_on :: "string \<Rightarrow> Pod" where
  "pod_on node = (case podForTest (run_with 0 []) 0 1 ''t'' soak_spec [] node [] (sp_target (run_spec (run_with 0 []))) None of
     Inr pod \<Rightarrow> pod\<lparr>pod_owner_uids := [''r''], pod_creation := Some 0\<rparr> | Inl _ \<Rightarrow> undefined)"

definition one_pod :: "Pod \<Rightarrow> World" where
  "one_pod pod = empty_world\<lparr>w_pods := [(pod_name pod, pod)]\<rparr>"

lemma run_with_simps [simp]:
  "run_uid (run_with limit rs) = ''r''" "run_name (run_with limit rs) = ''r''" "st_results (run_status (run_with limit rs)) = rs"
  "st_cordoned_nodes (run_status (run_with limit rs)) = []" "retryOnErrorLimit (run_with limit rs) = (if limit < 0 then 0 else limit)"
  "maxConcurrentNodes (run_with limit rs) = 1" "run_cancelling (run_with limit rs) = []" "\<not> cancelRequested (run_with limit rs)"
  "\<not> deadlineExceeded now (run_with limit rs)" "\<not> suspended (run_with limit rs)" "run_namespace (run_with limit rs) = ''default''"
  "sp_target (run_spec (run_with limit rs)) = \<lparr>tg_node_names = two_nodes, tg_node_selector = [], tg_tolerations = []\<rparr>"
  by (simp_all add: run_with_def started_run_def new_run_def retryOnErrorLimit_def maxConcurrentNodes_def cancelRequested_def
    deadlineExceeded_def runDeadline_def suspended_def Let_def)

lemma image_for_soak: "\<exists>img. Resolve KindThermalSoak None [] = Inr img"
  by (simp add: Resolve_def image_defaults_def)

lemma pod_built:
  assumes "run_name run = ''r''"
  shows "\<exists>pod. podForTest run 0 attempt ''t'' soak_spec [] node [] target None = Inr pod \<and>
    pod_name pod = podName run 0 node attempt \<and> podLive pod \<and> \<not> podStarted pod \<and>
    label_at (pod_labels pod) labelRun = ''r'' \<and> label_at (pod_labels pod) labelNode = node"
proof -
  obtain img where "Resolve KindThermalSoak None [] = Inr img" using image_for_soak by blast
  then show ?thesis
    using assms by (simp add: podForTest_def soak_spec_def podName_def podLive_def podStarted_def pod_labels_for_def label_at_def labelRun_def labelNode_def
      labelTest_def labelAttempt_def mget_def Let_def)
qed

lemma pod_on_facts:
  "pod_name (pod_on node) = podName (run_with limit rs) 0 node 1" "podLive (pod_on node)" "\<not> podStarted (pod_on node)"
  "label_at (pod_labels (pod_on node)) labelRun = ''r''" "label_at (pod_labels (pod_on node)) labelNode = node"
  "pod_owner_uids (pod_on node) = [''r'']" "pod_creation (pod_on node) = Some 0"
proof -
  obtain pod where p: "podForTest (run_with 0 []) 0 1 ''t'' soak_spec [] node [] \<lparr>tg_node_names = two_nodes, tg_node_selector = [], tg_tolerations = []\<rparr> None = Inr pod"
    "pod_name pod = podName (run_with 0 []) 0 node 1" "podLive pod" "\<not> podStarted pod"
    "label_at (pod_labels pod) labelRun = ''r''" "label_at (pod_labels pod) labelNode = node"
    using pod_built[of "run_with 0 []" 1 node] by auto
  have n: "podName (run_with limit rs) 0 node 1 = podName (run_with 0 []) 0 node 1" by (simp add: podName_def podNameForRole_def)
  show "pod_name (pod_on node) = podName (run_with limit rs) 0 node 1" "podLive (pod_on node)" "\<not> podStarted (pod_on node)"
    "label_at (pod_labels (pod_on node)) labelRun = ''r''" "label_at (pod_labels (pod_on node)) labelNode = node"
    "pod_owner_uids (pod_on node) = [''r'']" "pod_creation (pod_on node) = Some 0"
    using p(2-6) unfolding n by (simp_all add: pod_on_def p(1) podLive_def podStarted_def)
qed

lemma one_pod_simps [simp]: "w_pods (one_pod pod) = [(pod_name pod, pod)]" "w_nodes (one_pod pod) = []"
  by (simp_all add: one_pod_def)

lemma live_not_terminated: "podLive pod \<Longrightarrow> \<not> terminated pod"
  by (cases "pod_phase pod") (simp_all add: podLive_def terminated_def podOutcome_def)

text \<open>A pass over the one test on both nodes, when nothing is cordoned.\<close>

lemma execute_two:
  assumes "en_api en = (\<lambda>_. None)" and "maxConcurrentNodes run = 1"
    and "fold (\<lambda>n. mput n True) (mkeys (holdingNodes run)) (fold (\<lambda>pod. mput (label_at (pod_labels pod) labelNode) True) (live_pods run w) []) = busy"
    and "advance en 0 one_test ''a'' True 1 \<lparr>lp_world = w, lp_run = run, lp_busy = busy, lp_sent = []\<rparr> = (Inr (s1, e1), lp1)"
    and "advance en 0 one_test ''b'' True 1 lp1 = (Inr (s2, e2), lp2)"
    and "st_cordoned_nodes (run_status (lp_run lp2)) = []"
    and "out = apply_advance one_test s2 e2 (apply_advance one_test s1 e1 empty_pass)"
    and "s1 \<noteq> advanceDone \<or> s2 \<noteq> advanceDone"
  shows "\<exists>pass. execute en (one_plan two_nodes) True w run = (Inr pass, lp2) \<and> pa_running pass = pa_running out \<and> pa_pending pass = pa_pending out \<and>
    pa_harvested pass = pa_harvested out \<and> pa_dirty pass = pa_dirty out \<and> pa_checkpointed pass = pa_checkpointed out \<and> pa_rendezvous pass = pa_rendezvous out"
proof -
  have t: "settleWithoutPod now one_test lp = (False, lp)" "advance_test en (one_plan two_nodes) 0 one_test True 1 lp =
      advance_targets en 0 one_test True 1 [''a'', ''b''] empty_pass lp" for now lp
    by (simp_all add: settleWithoutPod_def advance_test_def one_test_def soak_spec_def two_nodes_def)
  have r: "releaseHeldNodes (\<lambda>_. None) (lp_busy lp2) (w_nodes (lp_world lp2), lp_run lp2) = ((None, False), w_nodes (lp_world lp2), lp_run lp2)"
    using assms(6) by (simp add: releaseHeldNodes_def)
  have o: "pa_running out \<or> pa_pending out \<or> pa_harvested out"
    using assms(7,8) by (cases s1; cases s2) (simp_all add: apply_advance_def)
  have e: "\<not> pa_running empty_pass" "\<not> pa_pending empty_pass" "\<not> pa_harvested empty_pass" "\<not> pa_dirty empty_pass" "\<not> pa_checkpointed empty_pass"
    "\<not> pa_rendezvous empty_pass"
    by (simp_all add: empty_pass_def)
  show ?thesis
    unfolding execute_def busyNodes_def using o assms(1-5) r by (auto simp: t assms(7)[symmetric] merge_pass_def e)
qed

section \<open>An errored attempt\<close>

lemma first_attempt: "ensureResult [] one_test [n] = ([new_result one_test [n]], 0)" "nextAttempt (Some (new_result one_test [n])) = (1, False)"
  "tr_segments_required (new_result one_test [n]) = 0" "tr_error_retries (new_result one_test [n]) = 0" "tr_attempts (new_result one_test [n]) = []"
  "tr_name (new_result one_test [n]) = ''t''" "tr_nodes (new_result one_test [n]) = [n]" "tr_phase (new_result one_test [n]) = RunRunning"
  by (simp_all add: ensureResult_def resultFor_def new_result_def nextAttempt_def one_test_def soak_spec_def segmentsRequired_def segmentSeconds_def)

lemma begun:
  fixes pod n now defines "b \<equiv> begin_result now [n] 1 pod (new_result one_test [n])"
  shows "tr_segments_required b = 0" "tr_error_retries b = 0" "\<exists>a. tr_attempts b = [a] \<and> at_attempt a = 1 \<and> at_phase a = RunRunning"
    "tr_name b = ''t''" "tr_nodes b = [n]" "tr_phase b = RunRunning" "begin_result now [n] 1 pod b = b"
  by (cases pod; simp add: b_def begin_result_def first_attempt Let_def nextAttempt_def split: if_splits)+

lemma truncate_one: "length (tr_attempts res) = 1 \<Longrightarrow> truncateAttempts res = res"
  by (simp add: truncateAttempts_def Let_def keptPassingSegments_def)

lemma errored:
  assumes "res_verdict parsed = VerdictError" and "ensureResult (st_results (run_status run)) one_test [n] = ([r0], 0)"
    and "begin_result now [n] 1 pod r0 = begin_result now [n] 1 pod (new_result one_test [n])"
    and "completeAttempt now run one_test [n] 1 pname pod parsed = (run', k)" and "0 \<le> retryOnErrorLimit run"
  shows "\<exists>res. st_results (run_status run') = [res] \<and> tr_name res = ''t'' \<and> tr_nodes res = [n] \<and>
    (if retryOnErrorLimit run = 0 then tr_phase res = RunError else tr_phase res = RunRunning \<and> nextAttempt (Some res) = (2, False))"
    and "\<exists>st. run' = run\<lparr>run_status := st\<rparr> \<and> st_cordoned_nodes st = st_cordoned_nodes (run_status run)"
proof -
  obtain m ev where o: "attemptOutcome one_test parsed = (RunError, m, ev)"
    using attemptOutcome_phase[of one_test parsed] assms(1) by (metis Verdict.simps(16) prod.collapse)
  define b where "b = begin_result now [n] 1 pod (new_result one_test [n])"
  obtain a where a: "tr_attempts b = [a]" "at_attempt a = 1" "at_phase a = RunRunning" using begun(3) b_def by blast
  note b = begun(1,2,4-6)[of now n pod, folded b_def]
  obtain a' where r: "record_attempt now pname parsed RunError m b = (if res_metrics parsed \<noteq> [] then b\<lparr>tr_attempts := [a'], tr_metrics := res_metrics parsed\<rparr>
      else b\<lparr>tr_attempts := [a']\<rparr>)" "at_attempt a' = 1" "at_phase a' = RunError"
    by (simp add: record_attempt_def a truncate_one Let_def)
  have na: "tr_attempts res = [a'] \<Longrightarrow> nextAttempt (Some res) = (2, False)" for res using r(2,3) by (simp add: nextAttempt_def)
  have c: "completeAttempt now run one_test [n] 1 pname pod parsed = (run', k)" using assms(4) .
  show "\<exists>res. st_results (run_status run') = [res] \<and> tr_name res = ''t'' \<and> tr_nodes res = [n] \<and>
    (if retryOnErrorLimit run = 0 then tr_phase res = RunError else tr_phase res = RunRunning \<and> nextAttempt (Some res) = (2, False))"
    using c assms(5) b r
    by (auto simp: completeAttempt_def assms(2,3) b_def[symmetric] complete_result_def o error_attempt_def recount_def na settle_def Let_def split: if_splits)
  show "\<exists>st. run' = run\<lparr>run_status := st\<rparr> \<and> st_cordoned_nodes st = st_cordoned_nodes (run_status run)"
    using c by (auto simp: completeAttempt_def assms(2,3) case_prod_unfold recount_def Let_def split: if_splits)
qed

section \<open>A condemned pod that is never deleted\<close>

definition at_time :: "int \<Rightarrow> Env" where
  "at_time seconds = calm\<lparr>en_now := seconds * second\<rparr>"

lemma at_time_simps [simp]: "en_now (at_time s) = s * second" "en_api (at_time s) = (\<lambda>_. None)" "en_vendor (at_time s) n = []" "en_logs (at_time s) n = Inr []"
  by (auto simp: at_time_def)

lemma with_status: "run_uid (run\<lparr>run_status := st\<rparr>) = run_uid run" "run_name (run\<lparr>run_status := st\<rparr>) = run_name run"
  "retryOnErrorLimit (run\<lparr>run_status := st\<rparr>) = retryOnErrorLimit run" "maxConcurrentNodes (run\<lparr>run_status := st\<rparr>) = maxConcurrentNodes run" "cancelRequested (run\<lparr>run_status := st\<rparr>) = cancelRequested run"
  "suspended (run\<lparr>run_status := st\<rparr>) = suspended run" "runDeadline (run\<lparr>run_status := st\<rparr>) = runDeadline run"
  by (simp_all add: maxConcurrentNodes_def cancelRequested_def suspended_def runDeadline_def retryOnErrorLimit_def)

lemma no_deadline: "runDeadline (run_with limit rs) = 0"
  by (simp add: run_with_def started_run_def new_run_def runDeadline_def Let_def)

text \<open>The runs that are left of \<open>run_with\<close> by a pass.\<close>

definition left_of :: "int \<Rightarrow> TestResult list \<Rightarrow> BurnInRun \<Rightarrow> bool" where
  "left_of limit results run \<longleftrightarrow> (\<exists>st. run = (run_with limit [])\<lparr>run_status := st\<rparr> \<and> st_results st = results \<and> st_cordoned_nodes st = [])"

lemma left_of_simps:
  assumes "left_of limit rs run"
  shows "run_uid run = ''r''" "run_name run = ''r''" "st_results (run_status run) = rs" "st_cordoned_nodes (run_status run) = []" "maxConcurrentNodes run = 1"
    "run_cancelling run = []" "\<not> cancelRequested run" "\<not> deadlineExceeded now run" "\<not> suspended run" "retryOnErrorLimit run = (if limit < 0 then 0 else limit)"
    "sp_target (run_spec run) = \<lparr>tg_node_names = two_nodes, tg_node_selector = [], tg_tolerations = []\<rparr>"
    "podName run i node a = podName (run_with 0 []) i node a"
  using assms by (auto simp: left_of_def with_status run_with_simps no_deadline deadlineExceeded_def podName_def podNameForRole_def)

lemma left_of_run_with: "left_of limit [] (run_with limit [])"
  by (auto simp: left_of_def intro!: exI[of _ "run_status (run_with limit [])"])

lemma step_of:
  assumes "left_of limit rs run" and "execute en p True w run = (Inr pass, lp)" and "pa_running pass \<or> pa_pending pass" and "en_api en = (\<lambda>_. None)"
  shows "\<exists>d. step en p w run = (RequeueAfter d, lp_world lp, Some (if pa_dirty pass \<or> pa_harvested pass \<or> pa_checkpointed pass then store_status (lp_run lp) run else run))"
  using assms left_of_simps(6-9)[OF assms(1)] by (simp add: step_def run_pass_def persistPass_def Let_def)

lemma result_on:
  assumes "tr_name res = ''t''" and "tr_nodes res = [''a'']"
  shows "resultFor [res] ''t'' ''a'' = Some 0" "resultFor [res] ''t'' ''b'' = None"
  using assms by (simp_all add: resultFor_def)

lemma one_test_simps: "pl_name one_test = ''t''" "pl_spec one_test = soak_spec" "pl_axes one_test = []"
  by (simp_all add: one_test_def)







section \<open>Two nodes at once\<close>

definition failed_pod :: Pod where
  "failed_pod = (pod_on ''a'')\<lparr>pod_phase := PodFailed, pod_container_statuses := [\<lparr>cs_name = ''runner'', cs_waiting = None, cs_terminated = Some (3, ''Error'', [])\<rparr>]\<rparr>"

lemma failed_pod_facts:
  "pod_name failed_pod = podName (run_with 0 []) 0 ''a'' 1" "\<not> podLive failed_pod" "terminated failed_pod" "\<exists>r d. podOutcome failed_pod = (3, True, r, d)"
  using pod_on_facts(1)[of "''a''" 0 "[]"] by (simp_all add: failed_pod_def podLive_def terminated_def podOutcome_def Let_def)

lemma silent_error: "res_verdict (Parse ''thermal-soak'' [] 3) = VerdictError" "res_artifacts (Parse ''thermal-soak'' [] 3) = []"
  by code_simp+

text \<open>Launching on a cluster without node objects, where there is nothing to cordon.\<close>

lemma launched:
  assumes "run_name (lp_run lp) = ''r''" and "w_nodes (lp_world lp) = []" and "flagged (lp_busy lp) node \<or> length (lp_busy lp) = 0"
    and "\<not> mhas (w_pods (lp_world lp)) (podName (lp_run lp) 0 node attempt)"
  shows "\<exists>pod. launch_node (at_time s) 0 one_test node True 1 attempt lp = (Inr (advanceRunning, no_effect),
      mark_busy [node] (lp\<lparr>lp_world := (lp_world lp)\<lparr>w_pods := mput (pod_name pod) pod (w_pods (lp_world lp))\<rparr>\<rparr>)) \<and>
    pod_name pod = podName (lp_run lp) 0 node attempt \<and> podLive pod \<and> \<not> podStarted pod \<and> pod_owner_uids pod = [run_uid (lp_run lp)] \<and>
    label_at (pod_labels pod) labelRun = ''r'' \<and> label_at (pod_labels pod) labelNode = node \<and> pod_creation pod = Some (s * second)"
proof -
  obtain pod where p: "podForTest (lp_run lp) 0 attempt ''t'' soak_spec [] node [] (sp_target (run_spec (lp_run lp))) None = Inr pod"
      "pod_name pod = podName (lp_run lp) 0 node attempt" "podLive pod" "\<not> podStarted pod"
      "label_at (pod_labels pod) labelRun = ''r''" "label_at (pod_labels pod) labelNode = node"
    using pod_built[OF assms(1)] by blast
  have c: "cordon (at_time s) soak_spec [node] lp = ((None, False), lp)"
    using assms(2) by (cases lp; cases "lp_world lp") (simp add: cordon_def cordonNode_def mget_def Let_def)
  show ?thesis
    using assms(3,4) p(2-6)
    by (intro exI[of _ "pod\<lparr>pod_owner_uids := [run_uid (lp_run lp)], pod_creation := Some (s * second)\<rparr>"])
      (auto simp: launch_node_def p(1) c create_pod_def one_test_simps dirty_def no_effect_def podLive_def podStarted_def)
qed

lemma harvest_failed: "res_verdict (without_logs one_test (harvestPod (en_logs (at_time s)) one_test failed_pod)) = VerdictError"
  "res_artifacts (without_logs one_test (harvestPod (en_logs (at_time s)) one_test failed_pod)) = []"
proof -
  obtain r d where o: "podOutcome failed_pod = (3, True, r, d)" using failed_pod_facts(4) by blast
  have k: "kind_string (ts_kind (pl_spec one_test)) = ''thermal-soak''" by (simp add: one_test_def soak_spec_def)
  have l: "log_text (Inr out) = out" "log_error (Inr out) = None" for out by (simp_all add: log_text_def log_error_def)
  let ?h = "harvestPod (en_logs (at_time s)) one_test failed_pod"
  have h: "res_verdict (fst ?h) = VerdictError" "res_artifacts (fst ?h) = []" "snd ?h = None"
    unfolding harvestPod_def o k at_time_simps l prod.case Let_def by (simp_all add: silent_error)
  then show "res_verdict (without_logs one_test ?h) = VerdictError" "res_artifacts (without_logs one_test ?h) = []"
    by (simp_all add: without_logs_def case_prod_unfold)
qed

text \<open>The failed pod on \<^verbatim>\<open>a\<close> is harvested and its attempt will be retried; the node is not counted as busy.\<close>

lemma a_is_harvested:
  "\<exists>lp'. advance (at_time s) 0 one_test ''a'' True 1 \<lparr>lp_world = one_pod failed_pod, lp_run = run_with 1 [], lp_busy = [], lp_sent = []\<rparr> =
      (Inr (advanceHarvested, dirty True), lp') \<and> lp_world lp' = one_pod failed_pod \<and> lp_busy lp' = [] \<and>
      (\<exists>res. tr_name res = ''t'' \<and> tr_nodes res = [''a''] \<and> tr_phase res = RunRunning \<and> nextAttempt (Some res) = (2, False) \<and> left_of 1 [res] (lp_run lp'))"
proof -
  let ?run = "run_with 1 []" and ?en = "at_time s" and ?pod = failed_pod
  let ?lp = "\<lparr>lp_world = one_pod ?pod, lp_run = ?run, lp_busy = [], lp_sent = []\<rparr>"
  define parsed where "parsed = without_logs one_test (harvestPod (en_logs ?en) one_test ?pod)"
  define b where "b = begin_result (s * second) [''a''] 1 (Some ?pod) (new_result one_test [''a''])"
  let ?run1 = "?run\<lparr>run_status := (run_status ?run)\<lparr>st_results := [b]\<rparr>\<rparr>"
  obtain run' k where c: "completeAttempt (s * second) ?run1 one_test [''a''] 1 (pod_name ?pod) (Some ?pod) parsed = (run', k)" by fastforce
  have began: "\<exists>o1. begin_attempt ?en one_test [''a''] 1 ?pod ?lp = (o1, ?lp\<lparr>lp_run := ?run1\<rparr>)"
    by (auto simp: begin_attempt_def beginAttempt_def first_attempt(1) b_def case_prod_unfold Let_def)
  have n: "podName ?run 0 ''a'' 1 = pod_name ?pod" using failed_pod_facts(1) left_of_simps(12)[OF left_of_run_with] by simp
  have "resultFor [] ''t'' ''a'' = None" by (simp add: resultFor_def)
  then have "advance ?en 0 one_test ''a'' True 1 ?lp = follow_node ?en one_test ''a'' 1 ?pod ?lp"
    by (simp add: advance_def open_attempt_def one_test_simps nextAttempt_def get_pod_def mget_def n)
  also have "\<dots> = (Inr (advanceHarvested, dirty True), ?lp\<lparr>lp_run := run', lp_sent := (case k of None \<Rightarrow> [] | Some k \<Rightarrow> [k])\<rparr>)"
    using began c harvest_failed(2)[of s, folded parsed_def]
    by (auto simp: follow_node_def failed_pod_facts parsed_def[symmetric, simplified] parsed_def[symmetric] complete_def keep_artifacts_def harvestArtifacts_def)
  finally have a: "advance ?en 0 one_test ''a'' True 1 ?lp =
      (Inr (advanceHarvested, dirty True), ?lp\<lparr>lp_run := run', lp_sent := (case k of None \<Rightarrow> [] | Some k \<Rightarrow> [k])\<rparr>)" .
  have e: "ensureResult (st_results (run_status ?run1)) one_test [''a''] = ([b], 0)"
    using begun(4,5)[of "s * second" "''a''" "Some ?pod"] result_on(1)[of b] by (simp add: ensureResult_def one_test_simps b_def)
  have i: "begin_result (s * second) [''a''] 1 (Some ?pod) b = begin_result (s * second) [''a''] 1 (Some ?pod) (new_result one_test [''a''])"
    using begun(7) by (simp add: b_def)
  have limit: "retryOnErrorLimit ?run1 = 1" by (simp add: with_status)
  have "res_verdict parsed = VerdictError" using harvest_failed(1) by (simp add: parsed_def)
  from errored[OF this e i c] obtain res st where r: "st_results (run_status run') = [res]" "tr_name res = ''t''" "tr_nodes res = [''a'']" "tr_phase res = RunRunning"
      "nextAttempt (Some res) = (2, False)" "run' = ?run1\<lparr>run_status := st\<rparr>" "st_cordoned_nodes st = []"
    by (auto simp: limit)
  then have "left_of 1 [res] run'" by (auto simp: left_of_def)
  then show ?thesis using a r(2-5) by auto
qed

lemma stored_is_memory: "left_of limit rs run \<Longrightarrow> left_of limit rs' run' \<Longrightarrow> store_status run' run = run'"
  by (auto simp: left_of_def store_status_def)

text \<open>A pod that waits on a node.\<close>

definition waits_on :: "string \<Rightarrow> int \<Rightarrow> Pod \<Rightarrow> bool" where
  "waits_on node created pod \<longleftrightarrow> podLive pod \<and> \<not> podStarted pod \<and> pod_owner_uids pod = [''r''] \<and> label_at (pod_labels pod) labelRun = ''r'' \<and>
     label_at (pod_labels pod) labelNode = node \<and> pod_creation pod = Some (created * second)"

lemma launched_on:
  assumes "left_of limit rs (lp_run lp)" and "w_nodes (lp_world lp) = []" and "flagged (lp_busy lp) node \<or> lp_busy lp = []"
    and "open_attempt (lp_run lp) one_test node = Some attempt" and "mget (w_pods (lp_world lp)) (podName (lp_run lp) 0 node attempt) = None"
  shows "\<exists>pod. waits_on node s pod \<and> pod_name pod = podName (lp_run lp) 0 node attempt \<and> advance (at_time s) 0 one_test node True 1 lp = (Inr (advanceRunning, no_effect),
      mark_busy [node] (lp\<lparr>lp_world := (lp_world lp)\<lparr>w_pods := mput (pod_name pod) pod (w_pods (lp_world lp))\<rparr>\<rparr>))"
proof -
  have "advance (at_time s) 0 one_test node True 1 lp = launch_node (at_time s) 0 one_test node True 1 attempt lp"
    using assms(4,5) by (simp add: advance_def get_pod_def)
  moreover have "\<not> mhas (w_pods (lp_world lp)) (podName (lp_run lp) 0 node attempt)" using assms(5) by (simp add: mhas_def)
  ultimately show ?thesis
    using launched[OF left_of_simps(2)[OF assms(1)] assms(2), of node attempt s] assms(3) left_of_simps(1)[OF assms(1)] by (auto simp: waits_on_def)
qed

lemma first_pass:
  "\<exists>d run1 w1 podb res. step (at_time 10) (one_plan two_nodes) (one_pod failed_pod) (run_with 1 []) = (RequeueAfter d, w1, Some run1) \<and> left_of 1 [res] run1 \<and>
     tr_name res = ''t'' \<and> tr_nodes res = [''a''] \<and> tr_phase res = RunRunning \<and> nextAttempt (Some res) = (2, False) \<and> w_nodes w1 = [] \<and>
     w_pods w1 = [(podName run1 0 ''a'' 1, failed_pod), (podName run1 0 ''b'' 1, podb)] \<and> waits_on ''b'' 10 podb \<and> pod_name podb = podName run1 0 ''b'' 1"
proof -
  let ?w = "one_pod failed_pod" and ?run = "run_with 1 []" and ?p = "one_plan two_nodes"
  obtain lp res where a: "advance (at_time 10) 0 one_test ''a'' True 1 \<lparr>lp_world = ?w, lp_run = ?run, lp_busy = [], lp_sent = []\<rparr> =
      (Inr (advanceHarvested, dirty True), lp)" "lp_world lp = ?w" "lp_busy lp = []"
      and res: "tr_name res = ''t''" "tr_nodes res = [''a'']" "tr_phase res = RunRunning" "nextAttempt (Some res) = (2, False)" and l: "left_of 1 [res] (lp_run lp)"
    using a_is_harvested[of 10] by auto
  note r = left_of_simps[OF l]
  have na: "podName (lp_run lp) 0 ''a'' 1 = pod_name failed_pod" using r(12) failed_pod_facts(1) by simp
  have o: "open_attempt (lp_run lp) one_test ''b'' = Some 1" using result_on(2)[OF res(1,2)] by (simp add: open_attempt_def r(3) one_test_simps nextAttempt_def)
  have fresh: "mget (w_pods (lp_world lp)) (podName (lp_run lp) 0 ''b'' 1) = None" using two_names(1)[OF r(1,2)] a(2) na by (auto simp: mget_def)
  obtain podb where b: "waits_on ''b'' 10 podb" "pod_name podb = podName (lp_run lp) 0 ''b'' 1" "advance (at_time 10) 0 one_test ''b'' True 1 lp = (Inr (advanceRunning, no_effect),
        mark_busy [''b''] (lp\<lparr>lp_world := (lp_world lp)\<lparr>w_pods := mput (pod_name podb) podb (w_pods (lp_world lp))\<rparr>\<rparr>))"
    using launched_on[OF l _ _ o fresh, of 10] a(2,3) by auto
  have "live_pods ?run ?w = []" by (simp add: live_pods_def run_pods_def failed_pod_facts)
  moreover have "holdingNodes ?run = []" by (simp add: holdingNodes_def open_nodes_def)
  ultimately have busy: "fold (\<lambda>n. mput n True) (mkeys (holdingNodes ?run)) (fold (\<lambda>pod. mput (label_at (pod_labels pod) labelNode) True) (live_pods ?run ?w) []) = []"
    by (simp add: mkeys_def)
  let ?lp2 = "mark_busy [''b''] (lp\<lparr>lp_world := (lp_world lp)\<lparr>w_pods := mput (pod_name podb) podb (w_pods (lp_world lp))\<rparr>\<rparr>)"
  have lp2: "lp_run ?lp2 = lp_run lp" "w_nodes (lp_world ?lp2) = []" "w_pods (lp_world ?lp2) = [(pod_name failed_pod, failed_pod), (podName (lp_run lp) 0 ''b'' 1, podb)]"
    using two_names(1)[OF r(1,2)] a(2) na b(2) by (auto simp: mark_busy_def mput_def)
  obtain pass where p: "execute (at_time 10) ?p True ?w ?run = (Inr pass, ?lp2)" "pa_running pass" "pa_dirty pass"
    using execute_two[OF _ _ busy a(1) b(3) _ refl] lp2(1) r(4) by (auto simp: apply_advance_def dirty_def no_effect_def)
  obtain d where "step (at_time 10) ?p ?w ?run = (RequeueAfter d, lp_world ?lp2, Some (store_status (lp_run ?lp2) ?run))"
    using step_of[OF left_of_run_with p(1)] p(2,3) by auto
  then show ?thesis using stored_is_memory[OF left_of_run_with l] lp2 l res b(1,2) na by (metis (no_types, lifting))
qed

lemma second_pass:
  assumes l: "left_of 1 [res] run" and res: "tr_name res = ''t''" "tr_nodes res = [''a'']" "tr_phase res = RunRunning" "nextAttempt (Some res) = (2, False)"
    and w: "w_nodes w = []" "w_pods w = [(podName run 0 ''a'' 1, failed_pod), (podName run 0 ''b'' 1, podb)]"
    and podb: "waits_on ''b'' 10 podb" "pod_name podb = podName run 0 ''b'' 1"
  shows "\<exists>d w2. step (at_time 40) (one_plan two_nodes) w run = (RequeueAfter d, w2, Some run) \<and>
    map (\<lambda>pod. label_at (pod_labels pod) labelNode) (live_pods run w2) = [''b'', ''a'']"
proof -
  note r = left_of_simps[OF l] and two = two_names[OF left_of_simps(1,2)[OF l]] and on = result_on[OF res(1,2)]
  have live: "live_pods run w = [podb]" using w(2) podb(1) r(1,2) by (simp add: live_pods_def run_pods_def ownedBy_def waits_on_def failed_pod_facts)
  have hold: "holdingNodes run = [(''a'', True)]" by (simp add: holdingNodes_def open_nodes_def r(3) res mput_def)
  define busy where "busy = mput ''a'' True (mput ''b'' True [])"
  have busy: "fold (\<lambda>n. mput n True) (mkeys (holdingNodes run)) (fold (\<lambda>pod. mput (label_at (pod_labels pod) labelNode) True) (live_pods run w) []) = busy"
    using podb(1) by (simp add: live hold mkeys_def busy_def waits_on_def)
  let ?lp = "\<lparr>lp_world = w, lp_run = run, lp_busy = busy, lp_sent = []\<rparr>"
  have oa: "open_attempt run one_test ''a'' = Some 2" using on(1) by (simp add: open_attempt_def r(3) one_test_simps res)
  have ob: "open_attempt run one_test ''b'' = Some 1" using on(2) by (simp add: open_attempt_def r(3) one_test_simps nextAttempt_def)
  obtain poda where a: "waits_on ''a'' 40 poda" "pod_name poda = podName run 0 ''a'' 2" "advance (at_time 40) 0 one_test ''a'' True 1 ?lp = (Inr (advanceRunning, no_effect),
        mark_busy [''a''] (?lp\<lparr>lp_world := w\<lparr>w_pods := mput (pod_name poda) poda (w_pods w)\<rparr>\<rparr>))"
    using launched_on[of 1 "[res]" ?lp "''a''" 2 40] l w(1) oa two w(2) by (auto simp: busy_def flagged_put mget_def)
  let ?lp1 = "mark_busy [''a''] (?lp\<lparr>lp_world := w\<lparr>w_pods := mput (pod_name poda) poda (w_pods w)\<rparr>\<rparr>)"
  have pods: "w_pods (lp_world ?lp1) = w_pods w @ [(podName run 0 ''a'' 2, poda)]" "lp_run ?lp1 = run" "w_nodes (lp_world ?lp1) = []"
    using two a(2) w by (auto simp: mark_busy_def mput_def)
  have "\<not> podOverdue (40 * second) podb soak_spec"
    using podb(1) by (simp add: waits_on_def podOverdue_def podWindow_def executionDurationSeconds_def soak_spec_def segmentSeconds_def deadlineGraceSeconds_def
      schedulingGraceSeconds_def second_def)
  then have b: "advance (at_time 40) 0 one_test ''b'' True 1 ?lp1 = (Inr (advanceRunning, no_effect), mark_busy [''b''] ?lp1)"
    using podb two pods(1,2) w(2) ob
    by (simp add: advance_def get_pod_def mget_def follow_node_def waits_on_def live_not_terminated one_test_simps)
  let ?lp2 = "mark_busy [''b''] ?lp1"
  have lp2: "lp_run ?lp2 = run" "w_pods (lp_world ?lp2) = w_pods w @ [(podName run 0 ''a'' 2, poda)]" using pods by (simp_all add: mark_busy_def)
  obtain pass where p: "execute (at_time 40) (one_plan two_nodes) True w run = (Inr pass, ?lp2)" "pa_running pass" "\<not> pa_dirty pass" "\<not> pa_harvested pass" "\<not> pa_checkpointed pass"
    using execute_two[OF _ _ busy a(3) b _ refl] lp2(1) r(4,5) by (auto simp: apply_advance_def no_effect_def empty_pass_def)
  obtain d where "step (at_time 40) (one_plan two_nodes) w run = (RequeueAfter d, lp_world ?lp2, Some run)" using step_of[OF l p(1)] p(2-5) by auto
  moreover have "live_pods run (lp_world ?lp2) = [podb, poda]"
    using podb(1) a(1) r(1,2) w(2) lp2(2) by (simp add: live_pods_def run_pods_def ownedBy_def waits_on_def failed_pod_facts)
  ultimately show ?thesis using podb(1) a(1) by (auto simp: waits_on_def)
qed

text \<open>
  C27. A cap of one node runs two. The pod on \<^verbatim>\<open>a\<close> failed before any pass saw it running, so no result
  holds \<^verbatim>\<open>a\<close> when the pass counts the busy nodes: it harvests \<^verbatim>\<open>a\<close>, opens a retry there, and starts
  \<^verbatim>\<open>b\<close> in the same pass. The next pass starts the retry on \<^verbatim>\<open>a\<close>, which counts as busy already, beside the
  pod on \<^verbatim>\<open>b\<close>.
\<close>

theorem cap_of_one_runs_two_nodes:
  "\<exists>d1 w1 run1 d2 w2 run2.
     step (at_time 10) (one_plan two_nodes) (one_pod failed_pod) (run_with 1 []) = (RequeueAfter d1, w1, Some run1) \<and>
     step (at_time 40) (one_plan two_nodes) w1 run1 = (RequeueAfter d2, w2, Some run2) \<and> maxConcurrentNodes run2 = 1 \<and>
     map (\<lambda>pod. label_at (pod_labels pod) labelNode) (live_pods run2 w2) = [''b'', ''a'']"
  using first_pass second_pass left_of_simps(5) by metis

end
