(* ===== verification/Schedule.thy ===== *)
theory Schedule
  imports Admission Pods Go_Time Kube_Api "HOL-Library.Product_Lexorder"
begin

text \<open>
  \<^verbatim>\<open>internal/controller/burninschedule_controller.go\<close> and \<^verbatim>\<open>api/v1alpha1/burninschedule_types.go\<close>: a schedule
  creates a run per tick of its cron expression. The cron parser (robfig/cron) is the parameter
  \<open>se_cron\<close>, a parsed expression the function from a time to the next tick after it, when there is
  one. The zone database (\<open>se_location\<close> gives the error of a name it lacks), the condition
  library (\<open>se_set_condition\<close>), the names and uids the server makes up, and which calls fail
  (\<open>se_api\<close>) are parameters too. A time in a stored status has whole seconds, as \<^verbatim>\<open>metav1.Time\<close> is written.
\<close>

section \<open>The resource\<close>

datatype ScheduleConcurrencyPolicy = ConcurrencyForbid | ConcurrencyAllow | OtherConcurrency string

record BurnInRunTemplate =
  rt_ttl_seconds_after_finished :: "int option"
  rt_deadline_seconds :: "int option"
  rt_max_concurrent_nodes :: "int option"
  rt_retry_on_error_limit :: "int option"
  rt_baseline :: "bool option"

record BurnInScheduleSpec =
  sc_schedule :: string
  sc_time_zone :: "string option"
  sc_profile_ref :: string
  sc_target :: TargetSelector
  sc_suspend :: "bool option"
  sc_concurrency_policy :: ScheduleConcurrencyPolicy
  sc_starting_deadline_seconds :: "int option"
  sc_successful_runs_history_limit :: "int option"
  sc_failed_runs_history_limit :: "int option"
  sc_run_template :: BurnInRunTemplate

record ObjectReference =
  or_api_version :: string
  or_kind :: string
  or_namespace :: string
  or_name :: string
  or_uid :: string

record BurnInScheduleStatus =
  ss_last_schedule_time :: "timestamp option"
  ss_last_successful_time :: "timestamp option"
  ss_active :: "ObjectReference list"
  ss_last_run_name :: string
  ss_last_run_phase :: RunPhase
  ss_missed_schedules :: int
  ss_observed_generation :: int
  ss_conditions :: "Condition list"

record BurnInSchedule =
  sd_namespace :: string
  sd_name :: string
  sd_uid :: string
  sd_creation :: "timestamp option"
  sd_generation :: int
  sd_spec :: BurnInScheduleSpec
  sd_status :: BurnInScheduleStatus

text \<open>A run with the metadata a schedule reads: its controller, its label and the scheduled-at annotation.\<close>

record ScheduledRun =
  sr_run :: BurnInRun
  sr_controller :: "string option"
  sr_label :: "string option"
  sr_scheduled_at :: string

datatype SchedCall = ListRuns | DeleteBurnInRun string | UpdateScheduleStatus nat | CreateBurnInRun

type_synonym cron = "timestamp \<Rightarrow> timestamp option"

record SchedEnv =
  se_now :: timestamp
  se_api :: "SchedCall \<Rightarrow> ApiErr option"
  se_cron :: "string \<Rightarrow> string + cron"
  se_location :: "string \<Rightarrow> string option"
  se_set_condition :: "Condition \<Rightarrow> Condition list \<Rightarrow> Condition list"
  se_generate_name :: "string \<Rightarrow> string"
  se_new_uid :: string

section \<open>Helpers\<close>

definition labelSchedule :: string where
  "labelSchedule = ''burnin.glimmer.ai/schedule''"

definition annotationScheduledAt :: string where
  "annotationScheduledAt = ''burnin.glimmer.ai/scheduled-at''"

definition conditionScheduleValid :: string where
  "conditionScheduleValid = ''ScheduleValid''"

definition defaultSuccessfulRunsHistoryLimit :: int where
  "defaultSuccessfulRunsHistoryLimit = 3"

definition defaultFailedRunsHistoryLimit :: int where
  "defaultFailedRunsHistoryLimit = 10"

definition scheduleMaxTickScan :: nat where
  "scheduleMaxTickScan = 1000"

definition scheduleMinRequeue :: int where
  "scheduleMinRequeue = second"

definition int32OrDefault :: "int option \<Rightarrow> int \<Rightarrow> int" where
  "int32OrDefault p d = (case p of None \<Rightarrow> d | Some n \<Rightarrow> n)"

definition boolOrDefault :: "bool option \<Rightarrow> bool \<Rightarrow> bool" where
  "boolOrDefault p d = (case p of None \<Rightarrow> d | Some b \<Rightarrow> b)"

definition addMissed :: "int \<Rightarrow> int \<Rightarrow> int" where
  "addMissed current delta = (if delta \<le> 0 then current
     else if current + delta > 2 ^ 31 - 1 then 2 ^ 31 - 1 else current + delta)"

definition concurrencyPolicy :: "BurnInSchedule \<Rightarrow> ScheduleConcurrencyPolicy" where
  "concurrencyPolicy sched = (if sc_concurrency_policy (sd_spec sched) = ConcurrencyAllow then ConcurrencyAllow else ConcurrencyForbid)"

definition runPhaseOrPending :: "RunPhase \<Rightarrow> RunPhase" where
  "runPhaseOrPending p = (if p = RunUnset then RunPending else p)"

definition runOrderKey :: "ScheduledRun \<Rightarrow> timestamp" where
  "runOrderKey r = (if sr_scheduled_at r \<noteq> [] then
     (case ParseRFC3339 (sr_scheduled_at r) of Some t \<Rightarrow> t | None \<Rightarrow> run_creation (sr_run r)) else run_creation (sr_run r))"

text \<open>\<^verbatim>\<open>sort.SliceStable\<close>, newest first and then by descending name.\<close>

definition sortRunsNewestFirst :: "ScheduledRun list \<Rightarrow> ScheduledRun list" where
  "sortRunsNewestFirst rs = rev (sort_key (\<lambda>r. (runOrderKey r, run_name (sr_run r))) (rev rs))"

definition runReference :: "ScheduledRun \<Rightarrow> ObjectReference" where
  "runReference r = \<lparr>or_api_version = ''burnin.glimmer.ai/v1alpha1'', or_kind = ''BurnInRun'',
     or_namespace = run_namespace (sr_run r), or_name = run_name (sr_run r), or_uid = run_uid (sr_run r)\<rparr>"

definition run_phase :: "ScheduledRun \<Rightarrow> RunPhase" where
  "run_phase r = st_phase (run_status (sr_run r))"

section \<open>Ticks\<close>

definition scheduleWindowStart :: "BurnInSchedule \<Rightarrow> timestamp \<Rightarrow> timestamp" where
  "scheduleWindowStart sched now = (case ss_last_schedule_time (sd_status sched) of
     Some t \<Rightarrow> t
   | None \<Rightarrow> (case sd_creation sched of Some t \<Rightarrow> t | None \<Rightarrow> now))"

text \<open>The loop of \<^verbatim>\<open>dueTick\<close>; \<open>deadline\<close> is absent when its pointer is nil.\<close>

function due_loop :: "cron \<Rightarrow> timestamp \<Rightarrow> timestamp option \<Rightarrow> nat \<Rightarrow> timestamp option \<Rightarrow> timestamp option \<Rightarrow> int
   \<Rightarrow> timestamp option \<times> int \<times> bool" where
  "due_loop nxt now deadline scanned t latest missed =
     (case t of
        None \<Rightarrow> (latest, missed, False)
      | Some x \<Rightarrow>
          if x > now then (latest, missed, False)
          else if Suc scanned > scheduleMaxTickScan then (None, int (Suc scanned), True)
          else if (case deadline of Some d \<Rightarrow> x < d | None \<Rightarrow> False)
            then due_loop nxt now deadline (Suc scanned) (nxt x) latest (missed + 1)
          else due_loop nxt now deadline (Suc scanned) (nxt x) (Some x) (if latest \<noteq> None then missed + 1 else missed))"
  by pat_completeness auto
termination by (relation "measure (\<lambda>(nxt, now, deadline, scanned, t, latest, missed). scheduleMaxTickScan - scanned)") auto

declare due_loop.simps [simp del]

definition dueTick :: "cron \<Rightarrow> timestamp \<Rightarrow> timestamp \<Rightarrow> int option \<Rightarrow> timestamp option \<times> int \<times> bool" where
  "dueTick nxt from now startingDeadlineSeconds =
     due_loop nxt now (map_option (\<lambda>s. now - s * second) startingDeadlineSeconds) 0 (nxt from) None 0"

definition untilNext :: "cron \<Rightarrow> timestamp \<Rightarrow> int" where
  "untilNext nxt now = (case nxt now of None \<Rightarrow> 0
     | Some t \<Rightarrow> if t - now > scheduleMinRequeue then t - now else scheduleMinRequeue)"

definition parseSchedule :: "SchedEnv \<Rightarrow> BurnInSchedule \<Rightarrow> string + cron" where
  "parseSchedule en sched =
     (let spec = TrimSpace (sc_schedule (sd_spec sched));
          tz = (case sc_time_zone (sd_spec sched) of Some z \<Rightarrow> z | None \<Rightarrow> [])
      in if spec = [] then Inl ''spec.schedule is empty''
         else if HasPrefix spec ''TZ='' \<or> HasPrefix spec ''CRON_TZ=''
           then Inl ''spec.schedule must not carry a TZ=/CRON_TZ= prefix; use spec.timeZone instead''
         else (case (if tz = [] then None else se_location en tz) of
           Some e \<Rightarrow> Inl (''invalid spec.timeZone '' @ Quote tz @ '': '' @ e)
         | None \<Rightarrow>
             (case se_cron en (''CRON_TZ='' @ (if tz = [] then ''UTC'' else tz) @ '' '' @ spec) of
                Inl e \<Rightarrow> Inl (''invalid spec.schedule '' @ Quote spec @ '': '' @ e)
              | Inr nxt \<Rightarrow> Inr nxt)))"

section \<open>The runs of a schedule\<close>

definition controlled :: "BurnInSchedule \<Rightarrow> ScheduledRun \<Rightarrow> bool" where
  "controlled sched r = (run_namespace (sr_run r) = sd_namespace sched \<and> sr_controller r = Some (sd_uid sched))"

definition ownedRuns :: "BurnInSchedule \<Rightarrow> ScheduledRun list \<Rightarrow> ScheduledRun list \<times> ScheduledRun list" where
  "ownedRuns sched rs = (let own = filter (controlled sched) rs in
     (sortRunsNewestFirst (filter (\<lambda>r. \<not> IsTerminal (run_phase r)) own),
      sortRunsNewestFirst (filter (\<lambda>r. IsTerminal (run_phase r)) own)))"

definition success_time :: "ScheduledRun \<Rightarrow> timestamp" where
  "success_time r = (case st_finished_at (run_status (sr_run r)) of Some t \<Rightarrow> t | None \<Rightarrow> run_creation (sr_run r))"

definition note_success :: "ScheduledRun \<Rightarrow> timestamp option \<Rightarrow> timestamp option" where
  "note_success r best = (if run_phase r \<noteq> RunPassed then best
     else (case best of None \<Rightarrow> Some (success_time r) | Some b \<Rightarrow> if b < success_time r then Some (success_time r) else Some b))"

definition observe :: "BurnInSchedule \<Rightarrow> ScheduledRun list \<Rightarrow> ScheduledRun list \<Rightarrow> BurnInScheduleStatus" where
  "observe sched active finished =
     (let st = (sd_status sched)\<lparr>ss_observed_generation := sd_generation sched, ss_active := map runReference active\<rparr>;
          st = (case sortRunsNewestFirst (active @ finished) of
                  [] \<Rightarrow> st
                | newest # _ \<Rightarrow> st\<lparr>ss_last_run_name := run_name (sr_run newest),
                    ss_last_run_phase := runPhaseOrPending (run_phase newest)\<rparr>)
      in st\<lparr>ss_last_successful_time := fold note_success finished (ss_last_successful_time st)\<rparr>)"

text \<open>What a delete does to the run: it goes, or waits for its finalizer.\<close>

definition same_key :: "ScheduledRun \<Rightarrow> ScheduledRun \<Rightarrow> bool" where
  "same_key a b = (run_namespace (sr_run a) = run_namespace (sr_run b) \<and> run_name (sr_run a) = run_name (sr_run b))"

definition delete_run :: "ScheduledRun \<Rightarrow> ScheduledRun list \<Rightarrow> ScheduledRun list" where
  "delete_run victim rs = concat (map (\<lambda>r.
     if same_key victim r then (if run_finalizer (sr_run r) then [r\<lparr>sr_run := (sr_run r)\<lparr>run_deleted := True\<rparr>\<rparr>] else []) else [r]) rs)"

datatype SchedError = SchedApi string ApiErr | SchedPanic

fun delete_each :: "SchedEnv \<Rightarrow> ScheduledRun list \<Rightarrow> ScheduledRun list \<Rightarrow> SchedError option \<times> ScheduledRun list" where
  "delete_each en [] rs = (None, rs)"
| "delete_each en (v # vs) rs =
     (case se_api en (DeleteBurnInRun (run_name (sr_run v))) of
        Some (ApiOther e) \<Rightarrow> (Some (SchedApi (''garbage-collect BurnInRun '' @ run_namespace (sr_run v) @ ''/'' @ run_name (sr_run v)) (ApiOther e)), rs)
      | Some ApiNotFound \<Rightarrow> delete_each en vs rs
      | None \<Rightarrow> delete_each en vs (delete_run v rs))"

text \<open>A negative limit indexes the slice out of range.\<close>

definition deleteBeyond :: "SchedEnv \<Rightarrow> ScheduledRun list \<Rightarrow> int \<Rightarrow> ScheduledRun list \<Rightarrow> SchedError option \<times> ScheduledRun list" where
  "deleteBeyond en victims limit rs = (if limit < 0 then (Some SchedPanic, rs)
     else delete_each en (drop (nat limit) (sortRunsNewestFirst victims)) rs)"

definition collectHistory :: "SchedEnv \<Rightarrow> BurnInSchedule \<Rightarrow> ScheduledRun list \<Rightarrow> ScheduledRun list \<Rightarrow> SchedError option \<times> ScheduledRun list" where
  "collectHistory en sched finished rs =
     (let spec = sd_spec sched;
          passed = filter (\<lambda>r. run_phase r = RunPassed) finished;
          notPassed = filter (\<lambda>r. run_phase r \<noteq> RunPassed) finished
      in case deleteBeyond en passed (int32OrDefault (sc_successful_runs_history_limit spec) defaultSuccessfulRunsHistoryLimit) rs of
           (Some e, rs) \<Rightarrow> (Some e, rs)
         | (None, rs) \<Rightarrow> deleteBeyond en notPassed (int32OrDefault (sc_failed_runs_history_limit spec) defaultFailedRunsHistoryLimit) rs)"

section \<open>A pass\<close>

definition whole_seconds :: "timestamp \<Rightarrow> timestamp" where
  "whole_seconds t = t div second * second"

definition stored_status :: "BurnInScheduleStatus \<Rightarrow> BurnInScheduleStatus" where
  "stored_status st = st\<lparr>ss_last_schedule_time := map_option whole_seconds (ss_last_schedule_time st),
     ss_last_successful_time := map_option whole_seconds (ss_last_successful_time st)\<rparr>"

text \<open>\<^verbatim>\<open>writeStatus\<close>: the status afterwards, which is also the new snapshot.\<close>

definition writeStatus :: "SchedEnv \<Rightarrow> nat \<Rightarrow> BurnInScheduleStatus \<Rightarrow> BurnInScheduleStatus \<Rightarrow> ApiErr + BurnInScheduleStatus" where
  "writeStatus en k before st = (if st = before then Inr st
     else (case se_api en (UpdateScheduleStatus k) of Some e \<Rightarrow> Inl e | None \<Rightarrow> Inr (stored_status st)))"

definition runForTick :: "SchedEnv \<Rightarrow> BurnInSchedule \<Rightarrow> timestamp \<Rightarrow> ScheduledRun" where
  "runForTick en sched tick =
     (let tpl = sc_run_template (sd_spec sched)
      in \<lparr>sr_run = \<lparr>run_namespace = sd_namespace sched, run_name = se_generate_name en (Pods.truncate (sd_name sched) 200 @ ''-''),
            run_uid = se_new_uid en, run_creation = whole_seconds (se_now en), run_finalizer = False, run_cancelling = [], run_pending_delivery = None,
            run_deleted = False, run_pinned = None,
            run_spec = \<lparr>sp_profile_ref = sc_profile_ref (sd_spec sched), sp_target = sc_target (sd_spec sched),
              sp_max_concurrent_nodes = Some (int32OrDefault (rt_max_concurrent_nodes tpl) 1), sp_force = None,
              sp_retry_on_error_limit = Some (int32OrDefault (rt_retry_on_error_limit tpl) 0),
              sp_deadline_seconds = rt_deadline_seconds tpl, sp_suspend = None, sp_baseline = rt_baseline tpl, sp_cancel = None,
              sp_cancel_policy = CancelGraceful, sp_cancel_reason = [],
              sp_ttl_seconds_after_finished = rt_ttl_seconds_after_finished tpl\<rparr>,
            run_status = \<lparr>st_phase = RunUnset, st_fingerprint = [], st_started_at = None, st_finished_at = None, st_results = [],
              st_passed = 0, st_failed = 0, st_errored = 0, st_skipped = 0, st_cordoned_nodes = [], st_prior_unschedulable = [],
              st_sink_status = [], st_conditions = []\<rparr>\<rparr>,
          sr_controller = Some (sd_uid sched), sr_label = Some (sd_name sched), sr_scheduled_at = FormatRFC3339 tick\<rparr>)"

datatype SchedResult = SchedRequeueAfter int | SchedIdle | SchedFailed SchedError

text \<open>The result, the runs and the stored schedule afterwards, and the run that was created.\<close>

type_synonym scheduled = "SchedResult \<times> ScheduledRun list \<times> BurnInSchedule \<times> ScheduledRun option"

definition finish_pass :: "SchedEnv \<Rightarrow> nat \<Rightarrow> SchedResult \<Rightarrow> BurnInScheduleStatus \<Rightarrow> BurnInScheduleStatus \<Rightarrow> ScheduledRun list \<Rightarrow> BurnInSchedule
   \<Rightarrow> ScheduledRun option \<Rightarrow> scheduled" where
  "finish_pass en k res before st rs sched created =
     (case writeStatus en k before st of
        Inl e \<Rightarrow> (SchedFailed (SchedApi [] e), rs, sched\<lparr>sd_status := before\<rparr>, created)
      | Inr st' \<Rightarrow> (res, rs, sched\<lparr>sd_status := st'\<rparr>, created))"

definition fire :: "SchedEnv \<Rightarrow> BurnInSchedule \<Rightarrow> cron \<Rightarrow> timestamp \<Rightarrow> BurnInScheduleStatus \<Rightarrow> ScheduledRun list \<Rightarrow> scheduled" where
  "fire en sched nxt tick st rs =
     (case writeStatus en 0 (sd_status sched) (st\<lparr>ss_last_schedule_time := Some tick\<rparr>) of
        Inl e \<Rightarrow> (SchedFailed (SchedApi [] e), rs, sched, None)
      | Inr before \<Rightarrow>
          (let run = runForTick en sched tick in
           case (if list_ex (same_key run) rs then Some (ApiOther (run_name (sr_run run) @ '' already exists'')) else se_api en CreateBurnInRun) of
             Some e \<Rightarrow> (SchedFailed (SchedApi [] e), rs, sched\<lparr>sd_status := before\<rparr>, None)
           | None \<Rightarrow> finish_pass en 1 (SchedRequeueAfter (untilNext nxt (se_now en))) before
               (before\<lparr>ss_last_run_name := run_name (sr_run run), ss_last_run_phase := runPhaseOrPending (run_phase run),
                 ss_active := ss_active before @ [runReference run]\<rparr>) (rs @ [run]) sched (Some run)))"

definition valid_condition :: "bool \<Rightarrow> string \<Rightarrow> Condition" where
  "valid_condition ok message = \<lparr>cd_type = conditionScheduleValid, cd_status = ok,
     cd_reason = (if ok then ''Parsed'' else ''InvalidSchedule''), cd_message = Text message\<rparr>"

definition with_condition :: "SchedEnv \<Rightarrow> bool \<Rightarrow> string \<Rightarrow> BurnInScheduleStatus \<Rightarrow> BurnInScheduleStatus" where
  "with_condition en ok message st = st\<lparr>ss_conditions := se_set_condition en (valid_condition ok message) (ss_conditions st)\<rparr>"

definition act_on_tick :: "SchedEnv \<Rightarrow> BurnInSchedule \<Rightarrow> cron \<Rightarrow> ScheduledRun list \<Rightarrow> BurnInScheduleStatus \<Rightarrow> ScheduledRun list \<Rightarrow> scheduled" where
  "act_on_tick en sched nxt active st rs =
     (let now = se_now en;
          (tick, missed, resync) = dueTick nxt (scheduleWindowStart sched now) now (sc_starting_deadline_seconds (sd_spec sched));
          st = st\<lparr>ss_missed_schedules := addMissed (ss_missed_schedules st) missed\<rparr>;
          wait = SchedRequeueAfter (untilNext nxt now)
      in if resync then finish_pass en 0 wait (sd_status sched) (st\<lparr>ss_last_schedule_time := Some now\<rparr>) rs sched None
         else (case tick of
           None \<Rightarrow> finish_pass en 0 wait (sd_status sched) st rs sched None
         | Some t \<Rightarrow>
             if concurrencyPolicy sched = ConcurrencyForbid \<and> active \<noteq> []
             then finish_pass en 0 wait (sd_status sched) (st\<lparr>ss_last_schedule_time := Some t,
                    ss_missed_schedules := addMissed (ss_missed_schedules st) 1\<rparr>) rs sched None
             else fire en sched nxt t st rs))"

definition Reconcile_schedule :: "SchedEnv \<Rightarrow> ScheduledRun list \<Rightarrow> BurnInSchedule \<Rightarrow> scheduled" where
  "Reconcile_schedule en rs sched =
     (case se_api en ListRuns of
        Some e \<Rightarrow> (SchedFailed (SchedApi (''list BurnInRuns in '' @ sd_namespace sched) e), rs, sched, None)
      | None \<Rightarrow>
          (case ownedRuns sched rs of (active, finished) \<Rightarrow>
            (let st = observe sched active finished in
             case collectHistory en sched finished rs of
               (Some e, rs) \<Rightarrow> (SchedFailed e, rs, sched, None)
             | (None, rs) \<Rightarrow>
                 (case parseSchedule en sched of
                    Inl e \<Rightarrow> finish_pass en 0 SchedIdle (sd_status sched) (with_condition en False e st) rs sched None
                  | Inr nxt \<Rightarrow>
                      (let st = with_condition en True ''schedule parses and is being evaluated'' st in
                       if boolOrDefault (sc_suspend (sd_spec sched)) False
                       then finish_pass en 0 SchedIdle (sd_status sched) st rs sched None
                       else act_on_tick en sched nxt active st rs)))))"

section \<open>What is due\<close>

text \<open>The reference: the ticks that are due, at most \<open>k\<close> of them.\<close>

fun due_ticks :: "cron \<Rightarrow> timestamp \<Rightarrow> nat \<Rightarrow> timestamp option \<Rightarrow> timestamp list" where
  "due_ticks nxt now 0 t = []"
| "due_ticks nxt now (Suc k) t = (case t of None \<Rightarrow> []
     | Some x \<Rightarrow> if x > now then [] else x # due_ticks nxt now k (nxt x))"

definition in_time :: "timestamp \<Rightarrow> int option \<Rightarrow> timestamp \<Rightarrow> bool" where
  "in_time now startingDeadlineSeconds x = (case startingDeadlineSeconds of None \<Rightarrow> True | Some s \<Rightarrow> now - s * second \<le> x)"

definition last_of :: "'a option \<Rightarrow> 'a list \<Rightarrow> 'a option" where
  "last_of latest xs = (if xs = [] then latest else Some (last xs))"

lemma due_loop_ticks:
  assumes "scanned \<le> scheduleMaxTickScan"
  shows "due_loop nxt now (map_option (\<lambda>s. now - s * second) dl) scanned t latest missed =
    (let ts = due_ticks nxt now (Suc (scheduleMaxTickScan - scanned)) t; ok = filter (in_time now dl) ts
     in if length ts > scheduleMaxTickScan - scanned then (None, int (Suc scheduleMaxTickScan), True)
        else (last_of latest ok, missed + int (length ts) - (if latest = None \<and> ok \<noteq> [] then 1 else 0), False))"
  using assms
proof (induction "scheduleMaxTickScan - scanned" arbitrary: scanned t latest missed)
  case 0
  then have "scanned = scheduleMaxTickScan" by simp
  then show ?case by (auto simp: due_loop.simps[of _ _ _ scheduleMaxTickScan] last_of_def split: option.splits)
next
  case (Suc k)
  have k: "scheduleMaxTickScan - Suc scanned = k" "scheduleMaxTickScan - scanned = Suc k" "Suc scanned \<le> scheduleMaxTickScan" using Suc.hyps(2) by auto
  show ?case
  proof (cases "\<exists>x. t = Some x \<and> x \<le> now")
    case False
    then show ?thesis by (auto simp: due_loop.simps[of _ _ _ scanned] k last_of_def split: option.splits)
  next
    case True
    then obtain x where x: "t = Some x" "x \<le> now" by blast
    note IH = Suc.hyps(1)[OF k(1)[symmetric] k(3), of "nxt x"]
    show ?thesis using x IH k
      by (cases dl) (auto simp: due_loop.simps[of _ _ _ scanned] in_time_def last_of_def Let_def)
  qed
qed

lemma dueTick_ticks:
  "dueTick nxt from now dl =
    (let ts = due_ticks nxt now (Suc scheduleMaxTickScan) (nxt from); ok = filter (in_time now dl) ts
     in if length ts > scheduleMaxTickScan then (None, int (Suc scheduleMaxTickScan), True)
        else if ok = [] then (None, int (length ts), False)
        else (Some (last ok), int (length ts) - 1, False))"
  using due_loop_ticks[of 0 nxt now dl "nxt from" None 0] by (auto simp: dueTick_def last_of_def Let_def)

section \<open>The shape of a pass\<close>

definition run_key :: "ScheduledRun \<Rightarrow> string \<times> string" where
  "run_key r = (run_namespace (sr_run r), run_name (sr_run r))"

lemma same_key_iff: "same_key a b \<longleftrightarrow> run_key a = run_key b"
  by (auto simp: same_key_def run_key_def)

text \<open>What deleting leaves of the runs: each is there as it was, is marked as deleted, or is gone.\<close>

definition unmarked_run :: "ScheduledRun \<Rightarrow> ScheduledRun" where
  "unmarked_run r = r\<lparr>sr_run := (sr_run r)\<lparr>run_deleted := False\<rparr>\<rparr>"

definition left_after :: "ScheduledRun list \<Rightarrow> ScheduledRun list \<Rightarrow> ScheduledRun list \<Rightarrow> bool" where
  "left_after vs rs rs' \<longleftrightarrow> subseq (map unmarked_run rs') (map unmarked_run rs) \<and>
     (\<forall>r \<in> set rs. run_key r \<notin> run_key ` set vs \<longrightarrow> r \<in> set rs')"


lemma delete_run_left: "left_after [v] rs (delete_run v rs)"
proof -
  have "subseq (map unmarked_run (delete_run v rs)) (map unmarked_run rs)"
    by (induction rs) (auto simp: delete_run_def unmarked_run_def)
  moreover have "r \<in> set (delete_run v rs)" if "r \<in> set rs" "run_key r \<noteq> run_key v" for r
    using that by (auto simp: delete_run_def same_key_iff)
  ultimately show ?thesis by (auto simp: left_after_def)
qed

lemma left_after_refl: "left_after vs rs rs"
  by (simp add: left_after_def)

lemma left_after_trans: "left_after vs rs rs1 \<Longrightarrow> left_after ws rs1 rs2 \<Longrightarrow> left_after (vs @ ws) rs rs2"
  by (auto simp: left_after_def intro: subseq_order.trans)

lemma delete_each_left: "delete_each en vs rs = (e, rs') \<Longrightarrow> left_after vs rs rs'"
proof (induction vs arbitrary: rs)
  case (Cons v vs)
  show ?case
  proof (cases "se_api en (DeleteBurnInRun (run_name (sr_run v)))")
    case None
    then have "left_after vs (delete_run v rs) rs'" using Cons by simp
    from left_after_trans[OF delete_run_left this] show ?thesis by simp
  next
    case (Some a)
    then show ?thesis using Cons left_after_trans[OF left_after_refl[of "[v]" rs]] left_after_refl by (cases a) auto
  qed
qed (simp add: left_after_refl)

lemma set_sortNewest [simp]: "set (sortRunsNewestFirst rs) = set rs"
  by (simp add: sortRunsNewestFirst_def)

lemma sortNewest_Nil [simp]: "sortRunsNewestFirst rs = [] \<longleftrightarrow> rs = []"
  using set_sortNewest[of rs] by (metis set_empty)

text \<open>The runs beyond the limits of the history.\<close>

definition passed_limit :: "BurnInSchedule \<Rightarrow> int" where
  "passed_limit sched = int32OrDefault (sc_successful_runs_history_limit (sd_spec sched)) defaultSuccessfulRunsHistoryLimit"

definition failed_limit :: "BurnInSchedule \<Rightarrow> int" where
  "failed_limit sched = int32OrDefault (sc_failed_runs_history_limit (sd_spec sched)) defaultFailedRunsHistoryLimit"

definition beyond_limits :: "BurnInSchedule \<Rightarrow> ScheduledRun list \<Rightarrow> ScheduledRun list" where
  "beyond_limits sched finished =
     drop (nat (passed_limit sched)) (sortRunsNewestFirst (filter (\<lambda>r. run_phase r = RunPassed) finished)) @
     drop (nat (failed_limit sched)) (sortRunsNewestFirst (filter (\<lambda>r. run_phase r \<noteq> RunPassed) finished))"

lemma left_after_mono: "left_after vs rs rs' \<Longrightarrow> set vs \<subseteq> set ws \<Longrightarrow> left_after ws rs rs'"
  by (auto simp: left_after_def)

lemma collectHistory_left: "collectHistory en sched finished rs = (e, rs') \<Longrightarrow> left_after (beyond_limits sched finished) rs rs'"
proof -
  assume c: "collectHistory en sched finished rs = (e, rs')"
  have d: "left_after (drop (nat l) (sortRunsNewestFirst vs)) rs1 rs2" if "deleteBeyond en vs l rs1 = (e, rs2)" for vs l rs1 rs2 e
    using that delete_each_left left_after_refl by (auto simp: deleteBeyond_def split: if_splits)
  obtain e1 rs1 where one: "deleteBeyond en (filter (\<lambda>r. run_phase r = RunPassed) finished) (passed_limit sched) rs = (e1, rs1)" by fastforce
  show ?thesis
  proof (cases e1)
    case None
    then have "deleteBeyond en (filter (\<lambda>r. run_phase r \<noteq> RunPassed) finished) (failed_limit sched) rs1 = (e, rs')"
      using c one by (simp add: collectHistory_def passed_limit_def failed_limit_def Let_def)
    from left_after_trans[OF d[OF one] d[OF this]] show ?thesis by (simp add: beyond_limits_def)
  next
    case (Some a)
    then have "rs' = rs1" using c one by (simp add: collectHistory_def passed_limit_def Let_def)
    then show ?thesis using left_after_mono[OF d[OF one]] by (auto simp: beyond_limits_def)
  qed
qed

definition cursor :: "BurnInSchedule \<Rightarrow> timestamp option" where
  "cursor sched = ss_last_schedule_time (sd_status sched)"

definition active_runs :: "BurnInSchedule \<Rightarrow> ScheduledRun list \<Rightarrow> ScheduledRun list" where
  "active_runs sched rs = filter (\<lambda>r. controlled sched r \<and> \<not> IsTerminal (run_phase r)) rs"

text \<open>The tick a pass moves the cursor to, when it does.\<close>

definition due_at :: "SchedEnv \<Rightarrow> BurnInSchedule \<Rightarrow> timestamp \<Rightarrow> bool" where
  "due_at en sched t \<longleftrightarrow> (\<exists>nxt tick missed resync. parseSchedule en sched = Inr nxt \<and>
     dueTick nxt (scheduleWindowStart sched (se_now en)) (se_now en) (sc_starting_deadline_seconds (sd_spec sched)) = (tick, missed, resync) \<and>
     (if resync then t = se_now en else tick = Some t))"

lemma written_cursor:
  assumes "writeStatus en k before st = Inr st'"
  shows "st' = before \<and> st = before \<or> ss_last_schedule_time st' = map_option whole_seconds (ss_last_schedule_time st)"
  using assms by (auto simp: writeStatus_def stored_status_def split: if_splits option.splits)

lemma finish_pass_cases:
  assumes "finish_pass en k res before st rs sched created = (r, rs', sched', created')"
  obtains st' where "rs' = rs" "created' = created" "sched' = sched\<lparr>sd_status := st'\<rparr>"
    "ss_last_schedule_time st' \<in> {ss_last_schedule_time before, map_option whole_seconds (ss_last_schedule_time st)}"
  using assms written_cursor by (fastforce simp: finish_pass_def split: sum.splits)

lemma observe_cursor: "ss_last_schedule_time (observe sched active finished) = cursor sched"
  by (simp add: observe_def cursor_def Let_def split: list.splits)

lemma fire_cases:
  assumes "fire en sched nxt tick st rs = (r, rs', sched', created)"
  obtains (none) st' where "rs' = rs" "created = None" "sched' = sched\<lparr>sd_status := st'\<rparr>" "ss_last_schedule_time st' \<in> {cursor sched, Some (whole_seconds tick)}"
  | (fired) st' run where "run = runForTick en sched tick" "rs' = rs @ [run]" "created = Some run" "\<not> list_ex (same_key run) rs" "sched' = sched\<lparr>sd_status := st'\<rparr>"
      "ss_last_schedule_time st' \<in> {Some tick, Some (whole_seconds tick), Some (whole_seconds (whole_seconds tick))}"
proof (cases "writeStatus en 0 (sd_status sched) (st\<lparr>ss_last_schedule_time := Some tick\<rparr>)")
  case (Inl e)
  then show ?thesis using assms by (intro none[of "sd_status sched"]) (auto simp: fire_def cursor_def)
next
  case (Inr before)
  then have b: "ss_last_schedule_time before \<in> {Some tick, Some (whole_seconds tick)}" "ss_last_schedule_time before \<in> {cursor sched, Some (whole_seconds tick)}"
    using written_cursor[OF Inr] by (auto simp: cursor_def dest: arg_cong[of _ _ ss_last_schedule_time])
  let ?run = "runForTick en sched tick"
  show ?thesis
  proof (cases "if list_ex (same_key ?run) rs then Some (ApiOther (run_name (sr_run ?run) @ '' already exists'')) else se_api en CreateBurnInRun")
    case None
    then have f: "finish_pass en 1 (SchedRequeueAfter (untilNext nxt (se_now en))) before
               (before\<lparr>ss_last_run_name := run_name (sr_run ?run), ss_last_run_phase := runPhaseOrPending (run_phase ?run),
                 ss_active := ss_active before @ [runReference ?run]\<rparr>) (rs @ [?run]) sched (Some ?run) = (r, rs', sched', created)"
      using assms Inr by (simp add: fire_def Let_def)
    have "\<not> list_ex (same_key ?run) rs" using None by (auto split: if_splits)
    then show ?thesis using b by (cases rule: finish_pass_cases[OF f]) (auto intro!: fired)
  next
    case (Some e)
    then show ?thesis using assms Inr b by (intro none[of before]) (auto simp: fire_def Let_def)
  qed
qed

lemma with_condition_cursor [simp]: "ss_last_schedule_time (with_condition en ok m st) = ss_last_schedule_time st"
  by (simp add: with_condition_def)

lemma act_on_tick_cases:
  assumes "act_on_tick en sched nxt active st rs = (r, rs', sched', created)" and "parseSchedule en sched = Inr nxt" and "ss_last_schedule_time st = cursor sched"
  obtains (none) st' where "rs' = rs" "created = None" "sched' = sched\<lparr>sd_status := st'\<rparr>"
      "ss_last_schedule_time st' \<in> {cursor sched, map_option whole_seconds (cursor sched)} \<or>
       (\<exists>t. due_at en sched t \<and> ss_last_schedule_time st' = Some (whole_seconds t))"
  | (fired) st' run t where "due_at en sched t" "run = runForTick en sched t" "rs' = rs @ [run]" "created = Some run" "\<not> list_ex (same_key run) rs"
      "concurrencyPolicy sched = ConcurrencyForbid \<Longrightarrow> active = []" "sched' = sched\<lparr>sd_status := st'\<rparr>"
      "ss_last_schedule_time st' \<in> {Some t, Some (whole_seconds t), Some (whole_seconds (whole_seconds t))}"
      "\<exists>missed. dueTick nxt (scheduleWindowStart sched (se_now en)) (se_now en) (sc_starting_deadline_seconds (sd_spec sched)) = (Some t, missed, False)"
proof -
  obtain tick missed resync where d: "dueTick nxt (scheduleWindowStart sched (se_now en)) (se_now en) (sc_starting_deadline_seconds (sd_spec sched)) = (tick, missed, resync)"
    using prod_cases3 by blast
  note f = assms(1)[unfolded act_on_tick_def Let_def d prod.case]
  have c: "ss_last_schedule_time (sd_status sched) = cursor sched" by (simp add: cursor_def)
  show ?thesis
  proof (cases "resync")
    case True
    then have "due_at en sched (se_now en)" using assms(2) d by (auto simp: due_at_def)
    moreover note f[unfolded if_P[OF True]]
    ultimately show ?thesis by (elim finish_pass_cases) (auto simp: c intro!: none)
  next
    case False
    note f = f[unfolded if_not_P[OF False]]
    show ?thesis
    proof (cases tick)
      case None
      show ?thesis using f[unfolded None option.case] assms(3) by (elim finish_pass_cases) (auto simp: c intro!: none)
    next
      case (Some t)
      have due: "due_at en sched t" using assms(2) d False Some by (auto simp: due_at_def)
      show ?thesis
      proof (cases "concurrencyPolicy sched = ConcurrencyForbid \<and> active \<noteq> []")
        case True
        show ?thesis using f[unfolded Some option.case if_P[OF True]] due by (elim finish_pass_cases) (auto simp: c intro!: none)
      next
        case b: False
        note f = f[unfolded Some option.case if_not_P[OF b]]
        show ?thesis
        proof (cases rule: fire_cases[OF f])
          case 1
          then show ?thesis using due by (intro none[of "sd_status sched'"]) auto
        next
          case (2 st' run)
          then show ?thesis using due b d False Some by (intro fired[of t run st']) auto
        qed
      qed
    qed
  qed
qed

lemma pass_cases:
  assumes "Reconcile_schedule en rs sched = (r, rs', sched', created)"
  obtains (none) st' where "left_after (beyond_limits sched (snd (ownedRuns sched rs))) rs rs'" "created = None" "sched' = sched\<lparr>sd_status := st'\<rparr>"
      "ss_last_schedule_time st' \<in> {cursor sched, map_option whole_seconds (cursor sched)} \<or>
       (\<exists>t. due_at en sched t \<and> ss_last_schedule_time st' = Some (whole_seconds t))"
  | (fired) st' run t gc where "left_after (beyond_limits sched (snd (ownedRuns sched rs))) rs gc" "due_at en sched t" "run = runForTick en sched t" "rs' = gc @ [run]"
      "created = Some run" "\<not> list_ex (same_key run) gc" "concurrencyPolicy sched = ConcurrencyForbid \<Longrightarrow> active_runs sched rs = []"
      "sched' = sched\<lparr>sd_status := st'\<rparr>" "ss_last_schedule_time st' \<in> {Some t, Some (whole_seconds t), Some (whole_seconds (whole_seconds t))}"
      "\<not> boolOrDefault (sc_suspend (sd_spec sched)) False"
      "\<exists>nxt missed. parseSchedule en sched = Inr nxt \<and>
         dueTick nxt (scheduleWindowStart sched (se_now en)) (se_now en) (sc_starting_deadline_seconds (sd_spec sched)) = (Some t, missed, False)"
proof -
  obtain active finished where o: "ownedRuns sched rs = (active, finished)" by fastforce
  have act: "active = [] \<longleftrightarrow> active_runs sched rs = []" "snd (ownedRuns sched rs) = finished"
    using o by (auto simp: ownedRuns_def active_runs_def Let_def filter_empty_conv)
  have c: "ss_last_schedule_time (sd_status sched) = cursor sched" by (simp add: cursor_def)
  obtain e gc where g: "collectHistory en sched finished rs = (e, gc)" by fastforce
  note left = collectHistory_left[OF g]
  consider "se_api en ListRuns \<noteq> None" | x where "se_api en ListRuns = None" "e = Some x" | "se_api en ListRuns = None" "e = None"
    by (cases e) auto
  then show ?thesis
  proof cases
    case 1
    then show ?thesis using assms left_after_refl by (intro none[of "sd_status sched"]) (auto simp: Reconcile_schedule_def cursor_def)
  next
    case 2
    then show ?thesis using assms o g left by (intro none[of "sd_status sched"]) (auto simp: Reconcile_schedule_def Let_def cursor_def act(2))
  next
    case 3
    note False = 3
    note f = assms[unfolded Reconcile_schedule_def]
    show ?thesis
    proof (cases "parseSchedule en sched")
      case (Inl m)
      with f False o g left show ?thesis by (auto simp: Let_def observe_cursor c act(2) elim!: finish_pass_cases intro!: none)
    next
      case (Inr nxt)
      let ?st = "with_condition en True ''schedule parses and is being evaluated'' (observe sched active finished)"
      show ?thesis
      proof (cases "boolOrDefault (sc_suspend (sd_spec sched)) False")
        case True
        with f False o g left Inr show ?thesis by (auto simp: Let_def observe_cursor c act(2) elim!: finish_pass_cases intro!: none)
      next
        case running: False
        then have a: "act_on_tick en sched nxt active ?st gc = (r, rs', sched', created)" using f False o g Inr by (simp add: Let_def)
        show ?thesis
        proof (cases rule: act_on_tick_cases[OF a Inr])
          case 1 then show ?case by (simp add: observe_cursor)
        next
          case (2 st') then show ?thesis using left by (intro none) (auto simp: act(2))
        next
          case (3 st' run t) then show ?thesis using left running act Inr by (intro fired[of gc t run st']) auto
        qed
      qed
    qed
  qed
qed

section \<open>Sequences of events\<close>

text \<open>
  What a cron expression promises: the next tick is later than the time it is asked for, and on
  a whole second.
\<close>

definition cron_law :: "cron \<Rightarrow> bool" where
  "cron_law nxt \<longleftrightarrow> (\<forall>t x. nxt t = Some x \<longrightarrow> t < x \<and> second dvd x)"

lemma due_ticks_later: "cron_law nxt \<Longrightarrow> x \<in> set (due_ticks nxt now k (nxt c)) \<Longrightarrow> c < x \<and> x \<le> now \<and> second dvd x"
proof (induction k arbitrary: c)
  case (Suc k)
  obtain y where y: "nxt c = Some y" "y \<le> now" "x = y \<or> x \<in> set (due_ticks nxt now k (nxt y))"
    using Suc.prems(2) by (cases "nxt c") (auto simp: not_less split: if_splits)
  have "c < y" "second dvd y" using Suc.prems(1) y(1) by (auto simp: cron_law_def)
  then show ?case using y Suc.IH[OF Suc.prems(1), of y] by auto
qed simp

lemma whole_seconds_dvd: "second dvd x \<Longrightarrow> whole_seconds x = x"
  by (simp add: whole_seconds_def)

lemma whole_seconds_idem [simp]: "whole_seconds (whole_seconds x) = whole_seconds x" "second dvd whole_seconds x"
  by (simp_all add: whole_seconds_def second_def)

lemma whole_seconds_ge: "second dvd x \<Longrightarrow> x \<le> t \<Longrightarrow> x \<le> whole_seconds t"
  unfolding whole_seconds_def second_def by (metis dvd_div_mult_self mult_right_mono zdiv_mono1 zero_less_numeral zero_le_numeral)

lemma due_at_later:
  assumes "due_at en sched t" and "\<And>spec nxt. se_cron en spec = Inr nxt \<Longrightarrow> cron_law nxt" and "cursor sched = Some c"
  shows "c < whole_seconds t"
proof -
  obtain nxt tick missed resync where d: "parseSchedule en sched = Inr nxt"
      "dueTick nxt c (se_now en) (sc_starting_deadline_seconds (sd_spec sched)) = (tick, missed, resync)" "if resync then t = se_now en else tick = Some t"
    using assms(1,3) by (auto simp: due_at_def scheduleWindowStart_def cursor_def)
  have law: "cron_law nxt" using d(1) assms(2) by (auto simp: parseSchedule_def Let_def split: if_splits option.splits sum.splits)
  let ?ts = "due_ticks nxt (se_now en) (Suc scheduleMaxTickScan) (nxt c)"
  have "\<exists>x \<in> set ?ts. x \<le> t"
  proof (cases resync)
    case True
    then have "?ts \<noteq> []" "t = se_now en" using d(2,3) by (auto simp: dueTick_ticks Let_def split: if_splits)
    then show ?thesis using due_ticks_later[OF law] by (metis last_in_set)
  next
    case False
    then have "t = last (filter (in_time (se_now en) (sc_starting_deadline_seconds (sd_spec sched))) ?ts)"
        "filter (in_time (se_now en) (sc_starting_deadline_seconds (sd_spec sched))) ?ts \<noteq> []"
      using d(2,3) by (auto simp: dueTick_ticks Let_def split: if_splits)
    then have "t \<in> set ?ts" by (metis filter_is_subset last_in_set subsetD)
    then show ?thesis by blast
  qed
  then show ?thesis using due_ticks_later[OF law] whole_seconds_ge by fastforce
qed

lemma fired_whole:
  assumes "dueTick nxt from now dl = (Some t, missed, False)" and "cron_law nxt"
  shows "second dvd t"
proof -
  let ?ts = "due_ticks nxt now (Suc scheduleMaxTickScan) (nxt from)"
  have "t = last (filter (in_time now dl) ?ts)" "filter (in_time now dl) ?ts \<noteq> []" using assms(1) by (auto simp: dueTick_ticks Let_def split: if_splits)
  then have "t \<in> set ?ts" by (metis filter_is_subset last_in_set subsetD)
  then show ?thesis using due_ticks_later[OF assms(2)] by blast
qed

datatype SchedEvent = SchedPass SchedEnv | PhaseOf string string RunPhase | ArriveRun ScheduledRun | VanishRun string string

type_synonym sched_state = "ScheduledRun list \<times> BurnInSchedule \<times> (timestamp \<times> ScheduledRun) list"

fun sched_event :: "SchedEvent \<Rightarrow> sched_state \<Rightarrow> sched_state" where
  "sched_event (SchedPass en) (rs, sched, made) =
     (case Reconcile_schedule en rs sched of (r, rs', sched', created) \<Rightarrow>
        (rs', sched', made @ (case created of None \<Rightarrow> [] | Some run \<Rightarrow> [(the (cursor sched'), run)])))"
| "sched_event (PhaseOf ns name phase) (rs, sched, made) =
     (map (\<lambda>r. if run_key r = (ns, name) \<and> \<not> IsTerminal (run_phase r)
        then r\<lparr>sr_run := (sr_run r)\<lparr>run_status := (run_status (sr_run r))\<lparr>st_phase := phase\<rparr>\<rparr>\<rparr> else r) rs, sched, made)"
| "sched_event (ArriveRun r) (rs, sched, made) =
     (if controlled sched r \<or> list_ex (same_key r) rs then rs else rs @ [r], sched, made)"
| "sched_event (VanishRun ns name) (rs, sched, made) = (filter (\<lambda>r. run_key r \<noteq> (ns, name)) rs, sched, made)"



lemma controlled_status [simp]: "controlled (sched\<lparr>sd_status := st\<rparr>) r = controlled sched r" "concurrencyPolicy (sched\<lparr>sd_status := st\<rparr>) = concurrencyPolicy sched"
  "active_runs (sched\<lparr>sd_status := st\<rparr>) rs = active_runs sched rs"
  by (simp_all add: controlled_def concurrencyPolicy_def active_runs_def)



text \<open>The ticks that were run so far are increasing, stand on their runs, and are behind the cursor.\<close>

definition lawful :: "SchedEvent \<Rightarrow> bool" where
  "lawful e \<longleftrightarrow> (\<forall>en spec nxt. e = SchedPass en \<longrightarrow> se_cron en spec = Inr nxt \<longrightarrow> cron_law nxt)"

definition whole_cursor :: "BurnInSchedule \<Rightarrow> bool" where
  "whole_cursor sched \<longleftrightarrow> (\<forall>c. cursor sched = Some c \<longrightarrow> second dvd c)"

fun ticks_behind :: "sched_state \<Rightarrow> bool" where
  "ticks_behind (rs, sched, made) \<longleftrightarrow> whole_cursor sched \<and> sorted_wrt (<) (map fst made) \<and>
     (\<forall>(t, run) \<in> set made. sr_scheduled_at run = FormatRFC3339 t \<and> (\<exists>c. cursor sched = Some c \<and> t \<le> c))"

lemma cursor_status [simp]: "cursor (sched\<lparr>sd_status := st\<rparr>) = ss_last_schedule_time st"
  by (simp add: cursor_def)


lemma parsed_lawful: "parseSchedule en sched = Inr nxt \<Longrightarrow> lawful (SchedPass en) \<Longrightarrow> cron_law nxt"
  by (auto simp: lawful_def parseSchedule_def Let_def split: if_splits option.splits sum.splits)

lemma event_ticks:
  assumes "ticks_behind s" and "lawful e"
  shows "ticks_behind (sched_event e s)"
proof -
  obtain rs sched made where s: "s = (rs, sched, made)" by (cases s)
  have w: "whole_cursor sched" and sorted: "sorted_wrt (<) (map fst made)"
    and behind: "(t, run) \<in> set made \<Longrightarrow> sr_scheduled_at run = FormatRFC3339 t \<and> (\<exists>c. cursor sched = Some c \<and> t \<le> c)" for t run
    using assms(1) s by auto
  show ?thesis
  proof (cases e)
    case (SchedPass en)
    have law: "\<And>spec nxt. se_cron en spec = Inr nxt \<Longrightarrow> cron_law nxt" using assms(2) SchedPass by (auto simp: lawful_def)
    obtain r rs' sched' created where p: "Reconcile_schedule en rs sched = (r, rs', sched', created)" using prod_cases4 by blast
    then show ?thesis
    proof (cases rule: pass_cases)
      case (none st')
      then consider "cursor sched' = cursor sched" | t where "due_at en sched t" "cursor sched' = Some (whole_seconds t)"
        using w by (cases "cursor sched") (auto simp: whole_cursor_def whole_seconds_dvd)
      then show ?thesis
      proof cases
        case 1
        then show ?thesis using none assms(1) by (auto simp: s SchedPass p whole_cursor_def)
      next
        case 2
        have "\<exists>c. cursor sched' = Some c \<and> t0 \<le> c" if "(t0, run0) \<in> set made" for t0 run0
          using behind[OF that] due_at_later[OF 2(1) law] 2(2) by fastforce
        then show ?thesis using none behind sorted 2(2) by (fastforce simp: s SchedPass p whole_cursor_def)
      qed
    next
      case (fired st' run t gc)
      then obtain nxt missed where n: "parseSchedule en sched = Inr nxt" "dueTick nxt (scheduleWindowStart sched (se_now en)) (se_now en) (sc_starting_deadline_seconds (sd_spec sched)) = (Some t, missed, False)"
        by blast
      have whole: "second dvd t" using fired_whole[OF n(2) parsed_lawful[OF n(1)]] assms(2) SchedPass by blast
      then have c: "cursor sched' = Some t" using fired by (auto simp: whole_seconds_dvd)
      have later: "t0 < t" if "(t0, run0) \<in> set made" for t0 run0
        using behind[OF that] due_at_later[OF fired(2) law] whole_seconds_dvd[OF whole] by fastforce
      show ?thesis using later behind sorted whole fired c
        by (fastforce simp: s SchedPass p whole_cursor_def sorted_wrt_append runForTick_def Let_def)
    qed
  qed (use assms s in auto)
qed

section \<open>The history\<close>

definition order_key :: "ScheduledRun \<Rightarrow> timestamp \<times> string" where
  "order_key r = (runOrderKey r, run_name (sr_run r))"

lemma sorted_newest: "sorted_wrt (\<lambda>a b. order_key b \<le> order_key a) (sortRunsNewestFirst rs)"
  using sorted_sort_key[of "\<lambda>r. (runOrderKey r, run_name (sr_run r))" "rev rs"]
  unfolding sortRunsNewestFirst_def order_key_def sorted_wrt_rev sorted_map .

lemma mset_sortNewest [simp]: "mset (sortRunsNewestFirst rs) = mset rs"
  by (simp add: sortRunsNewestFirst_def)

lemma mset_length_filter: "mset xs = mset ys \<Longrightarrow> length (filter P xs) = length (filter P ys)"
  by (metis mset_filter size_mset)

lemma newer_runs:
  assumes "r \<in> set (drop n (sortRunsNewestFirst xs))" and "distinct xs"
  shows "n \<le> length (filter (\<lambda>x. x \<noteq> r \<and> order_key r \<le> order_key x) xs)"
proof -
  let ?ys = "sortRunsNewestFirst xs" and ?P = "\<lambda>x. x \<noteq> r \<and> order_key r \<le> order_key x"
  have d: "distinct ?ys" using assms(2) by (simp add: sortRunsNewestFirst_def)
  have split: "sorted_wrt (\<lambda>a b. order_key b \<le> order_key a) (take n ?ys @ drop n ?ys)" "distinct (take n ?ys @ drop n ?ys)" using sorted_newest d by simp_all
  have "?P x" if "x \<in> set (take n ?ys)" for x using split that assms(1) unfolding sorted_wrt_append distinct_append by blast
  then have "filter ?P (take n ?ys) = take n ?ys" by (simp add: filter_id_conv)
  moreover have "length (take n ?ys) = n" using assms(1) by (cases "n < length ?ys") auto
  ultimately have "n \<le> length (filter ?P (take n ?ys @ drop n ?ys))" unfolding filter_append length_append by simp
  then show ?thesis using mset_length_filter[OF mset_sortNewest, of ?P xs] by simp
qed

text \<open>The terminal runs of a schedule that share the budget of a run.\<close>

definition same_budget :: "BurnInSchedule \<Rightarrow> ScheduledRun \<Rightarrow> ScheduledRun list \<Rightarrow> ScheduledRun list" where
  "same_budget sched r rs = filter (\<lambda>x. controlled sched x \<and> IsTerminal (run_phase x) \<and> (run_phase x = RunPassed) = (run_phase r = RunPassed)) rs"

lemma newer_in_budget:
  assumes "r \<in> set (drop n (sortRunsNewestFirst (filter Q (snd (ownedRuns sched rs)))))" and "distinct rs"
    and "\<And>x. Q x = ((run_phase x = RunPassed) = (run_phase r = RunPassed))"
  shows "controlled sched r \<and> IsTerminal (run_phase r) \<and> n \<le> length (filter (\<lambda>x. x \<noteq> r \<and> order_key r \<le> order_key x) (same_budget sched r rs))"
proof -
  let ?f = "snd (ownedRuns sched rs)"
  have "filter Q (filter (\<lambda>x. IsTerminal (run_phase x)) (filter (controlled sched) rs)) = same_budget sched r rs"
    by (auto simp: same_budget_def assms(3) intro!: filter_cong)
  then have m: "mset (filter Q ?f) = mset (same_budget sched r rs)" unfolding mset_filter ownedRuns_def Let_def snd_conv mset_sortNewest by (metis mset_filter)
  then have d: "distinct (filter Q ?f)" using assms(2) mset_eq_imp_distinct_iff by (fastforce simp: same_budget_def)
  have "r \<in> set (filter Q ?f)" using in_set_dropD[OF assms(1)] by simp
  then have "r \<in># mset (same_budget sched r rs)" unfolding m[symmetric] by simp
  moreover note mset_length_filter[OF m, of "\<lambda>x. x \<noteq> r \<and> order_key r \<le> order_key x"]
  ultimately show ?thesis using newer_runs[OF assms(1) d] by (auto simp: same_budget_def)
qed

section \<open>A schedule that fires every minute\<close>

definition every_minute :: cron where
  "every_minute t = Some ((t div (60 * second) + 1) * (60 * second))"

lemma every_minute_law: "cron_law every_minute"
proof -
  have "t < (t div (60 * second) + 1) * (60 * second)" for t :: int
    using mult_div_mod_eq[of "60 * second" t] pos_mod_bound[of "60 * second" t] by (simp add: second_def algebra_simps)
  then show ?thesis by (simp add: cron_law_def every_minute_def)
qed

definition calm_env :: "int \<Rightarrow> SchedEnv" where
  "calm_env s = \<lparr>se_now = s * second, se_api = (\<lambda>_. None), se_cron = (\<lambda>_. Inr every_minute), se_location = (\<lambda>_. None),
     se_set_condition = (\<lambda>c cs. [c]), se_generate_name = (\<lambda>prefix. prefix @ Itoa s), se_new_uid = Itoa s\<rparr>"

definition minutely :: BurnInSchedule where
  "minutely = \<lparr>sd_namespace = ''default'', sd_name = ''m'', sd_uid = ''u'', sd_creation = Some 0, sd_generation = 1,
     sd_spec = \<lparr>sc_schedule = ''* * * * *'', sc_time_zone = None, sc_profile_ref = ''p'', sc_target = \<lparr>tg_node_names = [''n''], tg_node_selector = [], tg_tolerations = []\<rparr>,
       sc_suspend = None, sc_concurrency_policy = ConcurrencyForbid, sc_starting_deadline_seconds = None,
       sc_successful_runs_history_limit = Some 0, sc_failed_runs_history_limit = None,
       sc_run_template = \<lparr>rt_ttl_seconds_after_finished = None, rt_deadline_seconds = None, rt_max_concurrent_nodes = None, rt_retry_on_error_limit = None, rt_baseline = None\<rparr>\<rparr>,
     sd_status = \<lparr>ss_last_schedule_time = None, ss_last_successful_time = None, ss_active = [], ss_last_run_name = [], ss_last_run_phase = RunUnset,
       ss_missed_schedules = 0, ss_observed_generation = 0, ss_conditions = []\<rparr>\<rparr>"

section \<open>Properties\<close>

text \<open>
  \<^verbatim>\<open>dueTick\<close> is the latest tick in time. Of the ticks since the cursor that are not after now, it
  returns the last one that is within the starting deadline and counts all the others as missed;
  past a thousand ticks it gives up and asks for the cursor to be reset.
\<close>

theorem dueTick_is_the_latest_tick_in_time:
  "dueTick nxt from now dl =
    (let ts = due_ticks nxt now (Suc scheduleMaxTickScan) (nxt from); ok = filter (in_time now dl) ts
     in if length ts > scheduleMaxTickScan then (None, int (Suc scheduleMaxTickScan), True)
        else if ok = [] then (None, int (length ts), False)
        else (Some (last ok), int (length ts) - 1, False))"
  by (rule dueTick_ticks)



text \<open>
  C13. No tick runs twice. Whatever happens in between and whichever calls fail, the runs a schedule
  creates are for strictly increasing ticks, each is stamped with its tick, and none is
  ahead of the stored cursor.
\<close>

theorem no_tick_runs_twice:
  assumes "\<forall>e \<in> set es. lawful e" and "whole_cursor sched" and "fold sched_event es (rs, sched, []) = (rs', sched', made)"
  shows "sorted_wrt (<) (map fst made) \<and>
    (\<forall>(t, run) \<in> set made. sr_scheduled_at run = FormatRFC3339 t \<and> (\<exists>c. cursor sched' = Some c \<and> t \<le> c))"
proof -
  have "ticks_behind (rs, sched, [])" using assms(2) by simp
  then have "ticks_behind (fold sched_event es (rs, sched, []))"
    using fold_invariant[of es lawful ticks_behind "(rs, sched, [])" sched_event] assms(1) event_ticks by blast
  then show ?thesis using assms(3) by simp
qed

theorem no_tick_runs_twice_witness:
  "sorted_wrt (<) (map fst (snd (snd (fold sched_event [SchedPass (calm_env 90), VanishRun ''default'' ''m-90'', SchedPass (calm_env 150)] ([], minutely, [])))))"
proof -
  have l: "\<forall>e \<in> set [SchedPass (calm_env 90), VanishRun ''default'' ''m-90'', SchedPass (calm_env 150)]. lawful e"
    using every_minute_law by (auto simp: lawful_def calm_env_def)
  have w: "whole_cursor minutely" by (simp add: whole_cursor_def cursor_def minutely_def)
  obtain rs' sched' made where f: "fold sched_event [SchedPass (calm_env 90), VanishRun ''default'' ''m-90'', SchedPass (calm_env 150)] ([], minutely, []) = (rs', sched', made)"
    using prod_cases3 by blast
  show ?thesis using no_tick_runs_twice[OF l w f] f by simp
qed

text \<open>
  Only old verdicts are collected. A run that is gone after a pass was a terminal run of this
  schedule, and at least as many newer ones of the same budget (passed, or not) as its limit allows were there.
\<close>

theorem only_old_verdicts_are_collected:
  assumes "Reconcile_schedule en rs sched = (res, rs', sched', created)" and "distinct (map run_key rs)" and "r \<in> set rs" and "r \<notin> set rs'"
  shows "controlled sched r \<and> IsTerminal (run_phase r) \<and>
    (if run_phase r = RunPassed then passed_limit sched else failed_limit sched)
      \<le> int (length (filter (\<lambda>x. x \<noteq> r \<and> order_key r \<le> order_key x) (same_budget sched r rs)))"
proof -
  let ?f = "snd (ownedRuns sched rs)"
  have d: "distinct rs" using assms(2) by (simp add: distinct_map)
  have key: "x = r" if "x \<in> set rs" "run_key x = run_key r" for x using that assms(2,3) by (simp add: distinct_map inj_on_def)
  have f: "set (beyond_limits sched ?f) \<subseteq> set rs" by (auto simp: ownedRuns_def beyond_limits_def Let_def dest!: in_set_dropD)
  have "r \<in> set (beyond_limits sched ?f)" if "r \<notin> set gc" "left_after (beyond_limits sched ?f) rs gc" for gc
  proof -
    have "run_key r \<in> run_key ` set (beyond_limits sched ?f)" using that assms(3) by (auto simp: left_after_def)
    then show ?thesis using key f by (metis image_iff subsetD)
  qed
  then have "r \<in> set (beyond_limits sched ?f)" by (cases rule: pass_cases[OF assms(1)]) (use assms(4) in auto)
  then consider (passed) "r \<in> set (drop (nat (passed_limit sched)) (sortRunsNewestFirst (filter (\<lambda>r. run_phase r = RunPassed) ?f)))"
    | (other) "r \<in> set (drop (nat (failed_limit sched)) (sortRunsNewestFirst (filter (\<lambda>r. run_phase r \<noteq> RunPassed) ?f)))"
    by (auto simp: beyond_limits_def)
  then show ?thesis
  proof cases
    case passed
    then have "run_phase r = RunPassed" by (auto dest: in_set_dropD)
    then show ?thesis using newer_in_budget[OF passed d] by auto
  next
    case other
    then have "run_phase r \<noteq> RunPassed" by (auto dest: in_set_dropD)
    then show ?thesis using newer_in_budget[OF other d] by auto
  qed
qed

definition passed_run :: ScheduledRun where
  "passed_run = (let run = new_run ''x'' 0 [''n''] in \<lparr>sr_run = run\<lparr>run_status := (run_status run)\<lparr>st_phase := RunPassed\<rparr>\<rparr>,
     sr_controller = Some ''u'', sr_label = None, sr_scheduled_at = []\<rparr>)"

theorem only_old_verdicts_are_collected_witness:
  "passed_run \<notin> set (fst (snd (Reconcile_schedule ((calm_env 30)\<lparr>se_cron := (\<lambda>_. Inl ''bad'')\<rparr>) [passed_run] minutely))) \<and> controlled minutely passed_run"
proof -
  let ?en = "(calm_env 30)\<lparr>se_cron := (\<lambda>_. Inl ''bad'')\<rparr>"
  obtain res rs' sched' created where p: "Reconcile_schedule ?en [passed_run] minutely = (res, rs', sched', created)" using prod_cases4 by blast
  have o: "ownedRuns minutely [passed_run] = ([], [passed_run])"
    by (simp add: ownedRuns_def passed_run_def minutely_def controlled_def new_run_def run_phase_def sortRunsNewestFirst_def Let_def)
  have "collectHistory ?en minutely [passed_run] [passed_run] = (None, [])"
    by (simp add: collectHistory_def deleteBeyond_def sortRunsNewestFirst_def passed_run_def minutely_def new_run_def run_phase_def calm_env_def int32OrDefault_def
      defaultFailedRunsHistoryLimit_def delete_run_def same_key_def Let_def)
  moreover have "\<exists>m. parseSchedule ?en minutely = Inl m" by (simp add: parseSchedule_def calm_env_def Let_def split: option.splits)
  ultimately have "rs' = []" using p o by (auto simp: Reconcile_schedule_def calm_env_def finish_pass_def Let_def split: sum.splits)
  then have g: "passed_run \<notin> set rs'" by simp
  show ?thesis using only_old_verdicts_are_collected[OF p _ _ g] g p by simp
qed

end
