(* ===== verification/Go_Conv.thy ===== *)
theory Go_Conv
  imports Go_Strings
begin

text \<open>
  More of the standard library: \<^verbatim>\<open>strconv.ParseInt\<close> in base ten at a width, \<^verbatim>\<open>strings.Cut\<close>,
  \<^verbatim>\<open>strings.LastIndex\<close> and \<^verbatim>\<open>strings.Trim\<close> on bytes, and \<^verbatim>\<open>strings.Contains\<close>.
\<close>

definition plain_digits :: "string \<Rightarrow> nat option" where
  "plain_digits s = (if s \<noteq> [] \<and> list_all is_digit s then Some (dval 0 s) else None)"

text \<open>\<^verbatim>\<open>strconv.ParseInt(s, 10, w)\<close>; \<open>None\<close> is a syntax or a range error. \<^verbatim>\<open>Atoi\<close> is width 64.\<close>

definition ParseInt :: "nat \<Rightarrow> string \<Rightarrow> int option" where
  "ParseInt w s = (case strip_sign s of (neg, ds) \<Rightarrow>
     (case plain_digits ds of
        None \<Rightarrow> None
      | Some n \<Rightarrow> (let v = (if neg then - int n else int n) in
          if - (2 ^ (w - 1)) \<le> v \<and> v < 2 ^ (w - 1) then Some v else None)))"

lemma ParseInt_range: "ParseInt w s = Some v \<Longrightarrow> - (2 ^ (w - 1)) \<le> v \<and> v < 2 ^ (w - 1)"
  by (auto simp: ParseInt_def Let_def split: prod.splits option.splits if_splits)

text \<open>\<open>last_cut c s\<close>: the text before and after the last \<open>c\<close>.\<close>

definition last_cut :: "char \<Rightarrow> string \<Rightarrow> (string \<times> string) option" where
  "last_cut c s = map_option (\<lambda>(b, a). (rev a, rev b)) (cut_at c (rev s))"

lemma last_cut_Some: "last_cut c s = Some (a, b) \<Longrightarrow> s = a @ c # b \<and> c \<notin> set b"
  unfolding last_cut_def by (auto dest!: cut_at_Some) (metis append_assoc rev_append rev_rev_ident append_Cons append_Nil rev.simps(2))

definition Trim :: "string \<Rightarrow> string \<Rightarrow> string" where
  "Trim s cutset = rev (dropWhile (\<lambda>c. c \<in> set cutset) (rev (dropWhile (\<lambda>c. c \<in> set cutset) s)))"

fun Contains :: "string \<Rightarrow> string \<Rightarrow> bool" where
  "Contains [] p = (p = [])"
| "Contains (c # s) p = (HasPrefix (c # s) p \<or> Contains s p)"

text \<open>Comparing a byte given by its number.\<close>

lemma byte_eq_iff: "byte n = c \<longleftrightarrow> n mod 256 = of_char c" "c = byte n \<longleftrightarrow> n mod 256 = of_char c"
proof -
  show *: "byte n = c \<longleftrightarrow> n mod 256 = of_char c" by (simp add: byte_def char_of_eq_iff take_bit_eq_mod)
  show "c = byte n \<longleftrightarrow> n mod 256 = of_char c" using * by (auto dest: sym)
qed

lemma of_byte: "(of_char (byte n) :: int) = n mod 256"
  by (simp add: byte_def of_char_of)

end
