(* ===== verification/Fingerprint.thy ===== *)
theory Fingerprint
  imports Cordon Go_Conv
begin

text \<open>
  \<^verbatim>\<open>internal/controller/nodefingerprint_controller.go\<close> and \<^verbatim>\<open>vendor.go\<close>: the identity of a node is
  derived from the labels and the resources it publishes, hashed, and compared with what was
  recorded before; a run reads the accelerator vendor of a node off the record.

  The loops over label and resource maps take the order of the list; two orders of one map are the
  two iterations Go may choose. The quantity syntax of Kubernetes (\<open>quantity\<close>, its sign and its
  value), the syntax of object names (\<open>legal_name\<close>) and the condition library are parameters.
\<close>

section \<open>The record of a node\<close>

record GPUInfo =
  gp_index :: int
  gp_vendor :: string
  gp_model :: string
  gp_arch :: string
  gp_memory_bytes :: int
  gp_driver_ver :: string

record NICInfo =
  ni_name :: string
  ni_role :: string
  ni_pci_vendor :: string
  ni_model :: string
  ni_rdma_device :: string
  ni_link_layer :: string
  ni_speed_mbps :: int
  ni_mtu :: int

record NodeFingerprintStatus =
  fs_captured_at :: "timestamp option"
  fs_gpus :: "GPUInfo list"
  fs_nics :: "NICInfo list"
  fs_os_image :: string
  fs_kernel :: string
  fs_labels :: "string gomap"
  fs_digest :: string
  fs_observed_generation :: int
  fs_conditions :: "Condition list"

record NodeFingerprint =
  fp_node_name :: string
  fp_generation :: int
  fp_labels :: "string gomap"
  fp_status :: NodeFingerprintStatus

section \<open>Labels\<close>

definition splitLabelKey :: "string \<Rightarrow> string \<times> string" where
  "splitLabelKey key = (case cut_at (CHR ''/'') key of Some p \<Rightarrow> p | None \<Rightarrow> ([], key))"

definition salientLabelKeys :: "string list" where
  "salientLabelKeys = [''kubernetes.io/arch'', ''beta.kubernetes.io/arch'',
     ''node.kubernetes.io/instance-type'', ''beta.kubernetes.io/instance-type'']"

definition salientLabelNamePrefixes :: "string list" where
  "salientLabelNamePrefixes = [''accelerator'', ''board.'', ''board-'', ''cpu.'', ''cpu-'', ''cuda.'', ''cuda-'',
     ''gpu.'', ''gpu-'', ''gpus.'', ''hw.'', ''hw-'', ''infiniband'', ''kernel-version.'', ''memory.'', ''memory-'',
     ''mig.'', ''mig-'', ''nic.'', ''nic-'', ''nvlink'', ''pci-'', ''rdma.'', ''rdma-'', ''rocm.'', ''rocm-'', ''system-os'']"

definition isSalientLabel :: "string \<Rightarrow> bool" where
  "isSalientLabel key = (case splitLabelKey key of (domain, name) \<Rightarrow>
     if domain = ''burnin.glimmer.ai'' \<or> HasSuffix domain ''.burnin.glimmer.ai'' then False
     else (let name = ToLower name in
       if HasPrefix name ''burnin'' \<or> Contains name ''-burnin'' \<or> Contains name ''.burnin'' then False
       else if key \<in> set salientLabelKeys then True
       else list_ex (HasPrefix name) salientLabelNamePrefixes))"

definition salientLabels :: "string gomap \<Rightarrow> string gomap" where
  "salientLabels labels = filter (\<lambda>(k, v). isSalientLabel k) labels"

definition isNonVendorDomain :: "string \<Rightarrow> bool" where
  "isNonVendorDomain domain = (domain = [] \<or>
     domain = ''kubernetes.io'' \<or> HasSuffix domain ''.kubernetes.io'' \<or>
     domain = ''glimmer.ai'' \<or> HasSuffix domain ''.glimmer.ai'')"

definition vendorFromDomain :: "string \<Rightarrow> string" where
  "vendorFromDomain domain = (let labels = split_on (CHR ''.'') (ToLower domain) in
     hd (if length labels > 2 then drop (length labels - 2) labels else labels))"

section \<open>Accelerators\<close>

definition maxGPUsPerFingerprint :: int where
  "maxGPUsPerFingerprint = 64"

record gpuFacts =
  gf_vendor :: string
  gf_model :: string
  gf_arch :: string
  gf_family :: string
  gf_driver :: string
  gf_driver_major :: string
  gf_driver_minor :: string
  gf_driver_rev :: string
  gf_memory :: string
  gf_count :: string

definition no_facts :: gpuFacts where
  "no_facts = \<lparr>gf_vendor = [], gf_model = [], gf_arch = [], gf_family = [], gf_driver = [],
     gf_driver_major = [], gf_driver_minor = [], gf_driver_rev = [], gf_memory = [], gf_count = []\<rparr>"

datatype gpu_field = FModel | FCount | FMemory | FArch | FFamily | FVendor | FDriver | FDriverMajor | FDriverMinor | FDriverRev

text \<open>The words \<^verbatim>\<open>gpuField\<close> answers are constructors; \<open>None\<close> is its empty string.\<close>

definition gpuField :: "string \<Rightarrow> gpu_field option" where
  "gpuField name = map_of
     [(''gpu.product'', FModel), (''gpu.model'', FModel), (''gpu.name'', FModel), (''gpu-product'', FModel), (''gpu-model'', FModel),
      (''gpu.count'', FCount), (''gpu-count'', FCount), (''gpu.replicas'', FCount),
      (''gpu.memory'', FMemory), (''gpu-memory'', FMemory), (''gpu.vram'', FMemory),
      (''gpu.arch'', FArch), (''gpu-arch'', FArch), (''gpu.architecture'', FArch), (''gpu.compute-capability'', FArch),
      (''cuda.compute-capability'', FArch),
      (''gpu.family'', FFamily), (''gpu-family'', FFamily),
      (''gpu.vendor'', FVendor), (''gpu-vendor'', FVendor),
      (''gpu.driver-version'', FDriver), (''gpu.driver'', FDriver), (''gpu.driver.version'', FDriver), (''cuda.driver-version'', FDriver),
      (''cuda.driver.major'', FDriverMajor), (''gpu.driver.major'', FDriverMajor),
      (''cuda.driver.minor'', FDriverMinor), (''gpu.driver.minor'', FDriverMinor),
      (''cuda.driver.rev'', FDriverRev), (''gpu.driver.rev'', FDriverRev)] (ToLower name)"

fun set_fact :: "gpu_field \<Rightarrow> string \<Rightarrow> gpuFacts \<Rightarrow> gpuFacts" where
  "set_fact FModel v f = f\<lparr>gf_model := v\<rparr>"
| "set_fact FCount v f = f\<lparr>gf_count := v\<rparr>"
| "set_fact FMemory v f = f\<lparr>gf_memory := v\<rparr>"
| "set_fact FArch v f = f\<lparr>gf_arch := v\<rparr>"
| "set_fact FFamily v f = f\<lparr>gf_family := v\<rparr>"
| "set_fact FVendor v f = f\<lparr>gf_vendor := v\<rparr>"
| "set_fact FDriver v f = f\<lparr>gf_driver := v\<rparr>"
| "set_fact FDriverMajor v f = f\<lparr>gf_driver_major := v\<rparr>"
| "set_fact FDriverMinor v f = f\<lparr>gf_driver_minor := v\<rparr>"
| "set_fact FDriverRev v f = f\<lparr>gf_driver_rev := v\<rparr>"

definition orElse_str :: "string \<Rightarrow> string \<Rightarrow> string" where
  "orElse_str a b = (if a = [] then b else a)"

definition fillFrom :: "gpuFacts \<Rightarrow> gpuFacts \<Rightarrow> gpuFacts" where
  "fillFrom f other =
     (let f = f\<lparr>gf_model := orElse_str (gf_model f) (gf_model other),
                gf_arch := orElse_str (gf_arch f) (gf_arch other),
                gf_family := orElse_str (gf_family f) (gf_family other),
                gf_memory := orElse_str (gf_memory f) (gf_memory other),
                gf_count := orElse_str (gf_count f) (gf_count other),
                gf_driver := orElse_str (gf_driver f) (gf_driver other)\<rparr>
      in if gf_driver_major f = [] then f\<lparr>gf_driver_major := gf_driver_major other,
           gf_driver_minor := gf_driver_minor other, gf_driver_rev := gf_driver_rev other\<rparr> else f)"

definition gpuCount :: "string \<Rightarrow> int option" where
  "gpuCount raw = (if raw = [] then None else (case ParseInt 64 raw of
     None \<Rightarrow> None
   | Some n \<Rightarrow> if n < 0 \<or> n > maxGPUsPerFingerprint then None else Some n))"

definition driverVersion :: "gpuFacts \<Rightarrow> string" where
  "driverVersion f = (if gf_driver f \<noteq> [] then gf_driver f
     else Join (takeWhile (\<lambda>p. p \<noteq> []) [gf_driver_major f, gf_driver_minor f, gf_driver_rev f]) ''.'')"

type_synonym quantity_reader = "string \<Rightarrow> (int \<times> int) option"

definition parseGPUMemoryBytes :: "quantity_reader \<Rightarrow> string \<Rightarrow> int" where
  "parseGPUMemoryBytes quantity v =
     (if v = [] then 0
      else (case ParseInt 64 v of
        Some n \<Rightarrow> let mib = 2 ^ 20 in if n \<le> 0 \<or> n > 2 ^ 62 div mib then 0 else n * mib
      | None \<Rightarrow> (case quantity v of
          None \<Rightarrow> 0
        | Some (sign, amount) \<Rightarrow> if sign \<le> 0 then 0 else amount)))"

text \<open>One label, seen by the loop of \<^verbatim>\<open>gpusFromLabels\<close>: the facts by vendor domain, and the others.\<close>

definition note_gpu_label :: "string \<times> string \<Rightarrow> gpuFacts gomap \<times> gpuFacts \<Rightarrow> gpuFacts gomap \<times> gpuFacts" where
  "note_gpu_label kv st = (case (kv, st) of ((k, v), byDomain, unattributed) \<Rightarrow>
     (case splitLabelKey k of (domain, name) \<Rightarrow>
       (case gpuField name of
          None \<Rightarrow> (byDomain, unattributed)
        | Some field \<Rightarrow>
            if isNonVendorDomain domain then (byDomain, set_fact field v unattributed)
            else (let f = (case mget byDomain domain of Some f \<Rightarrow> f | None \<Rightarrow> no_facts\<lparr>gf_vendor := vendorFromDomain domain\<rparr>)
                  in (mput domain (set_fact field v f) byDomain, unattributed)))))"

definition announces :: "gpuFacts \<Rightarrow> bool" where
  "announces f = (gf_model f \<noteq> [] \<or> gf_count f \<noteq> [])"

definition gpu_groups :: "string gomap \<Rightarrow> gpuFacts list" where
  "gpu_groups labels = (case fold note_gpu_label labels ([], no_facts) of (byDomain, unattributed) \<Rightarrow>
     (let groups = filter announces (map snd byDomain);
          groups = (if groups = [] \<and> announces unattributed then [unattributed] else groups)
      in case groups of [f] \<Rightarrow> [fillFrom f unattributed] | _ \<Rightarrow> groups))"

text \<open>The devices of one group, and the running index over all of them.\<close>

definition group_gpus :: "quantity_reader \<Rightarrow> gpuFacts \<Rightarrow> GPUInfo list" where
  "group_gpus quantity f =
     (let gpu = \<lparr>gp_index = 0, gp_vendor = gf_vendor f, gp_model = gf_model f, gp_arch = orElse_str (gf_arch f) (gf_family f),
                 gp_memory_bytes = parseGPUMemoryBytes quantity (gf_memory f), gp_driver_ver = driverVersion f\<rparr>
      in case gpuCount (gf_count f) of
           Some n \<Rightarrow> replicate (nat n) gpu
         | None \<Rightarrow> if gf_model f = [] \<and> gf_arch f = [] \<and> gf_memory f = [] then [] else [gpu])"

definition indexed :: "GPUInfo list \<Rightarrow> GPUInfo list" where
  "indexed gpus = map2 (\<lambda>i g. g\<lparr>gp_index := int i\<rparr>) [0..<length gpus] gpus"

definition gpusFromLabels :: "quantity_reader \<Rightarrow> string gomap \<Rightarrow> GPUInfo list" where
  "gpusFromLabels quantity labels =
     indexed (concat (map (group_gpus quantity) (sort_key (\<lambda>f. [gf_vendor f, gf_model f]) (gpu_groups labels))))"

definition acceleratorResourceNames :: "string list" where
  "acceleratorResourceNames = [''gpu'', ''gpu.shared'', ''i915'', ''i915_monitoring'', ''xe'', ''npu'', ''tpu'', ''accelerator'']"

definition isAcceleratorDomain :: "string \<Rightarrow> bool" where
  "isAcceleratorDomain domain =
     (hd (split_on (CHR ''.'') (ToLower domain)) \<in> set [''gpu'', ''accelerator'', ''npu'', ''tpu''])"

text \<open>A resource list gives each name the answer of \<^verbatim>\<open>AsInt64\<close>, \<open>None\<close> when it is not one.\<close>

type_synonym resources = "int option gomap"

definition accelerator_resource :: "string \<times> int option \<Rightarrow> (string \<times> nat) list" where
  "accelerator_resource r = (case r of (name, qty) \<Rightarrow> (case splitLabelKey name of (domain, res) \<Rightarrow>
     if domain = [] \<or> isNonVendorDomain domain then []
     else if ToLower res \<notin> set acceleratorResourceNames \<and> \<not> isAcceleratorDomain domain then []
     else (case qty of
       None \<Rightarrow> []
     | Some n \<Rightarrow> if n \<le> 0 \<or> n > maxGPUsPerFingerprint then [] else [(vendorFromDomain domain, nat n)])))"

definition gpusFromAllocatable :: "resources \<Rightarrow> GPUInfo list" where
  "gpusFromAllocatable allocatable =
     indexed (concat (map (\<lambda>(vendor, count). replicate count
        \<lparr>gp_index = 0, gp_vendor = vendor, gp_model = [], gp_arch = [], gp_memory_bytes = 0, gp_driver_ver = []\<rparr>)
       (sort_key fst (concat (map accelerator_resource allocatable)))))"

definition gpusFrom :: "quantity_reader \<Rightarrow> Node \<Rightarrow> resources \<Rightarrow> GPUInfo list" where
  "gpusFrom quantity node allocatable =
     (let gpus = gpusFromLabels quantity (nd_labels node) in
      if gpus \<noteq> [] then gpus else gpusFromAllocatable allocatable)"

section \<open>Network devices\<close>

definition parseInt32 :: "string \<Rightarrow> int" where
  "parseInt32 v = (case ParseInt 32 v of None \<Rightarrow> 0 | Some n \<Rightarrow> if n < 0 then 0 else n)"

datatype nic_field = NRole | NPCIVendor | NModel | NRDMADevice | NLinkLayer | NSpeed | NMTU

definition nicField :: "string \<Rightarrow> nic_field option" where
  "nicField field = map_of [(''role'', NRole), (''pci-vendor'', NPCIVendor), (''pcivendor'', NPCIVendor), (''model'', NModel),
     (''rdma-device'', NRDMADevice), (''rdmadevice'', NRDMADevice), (''link-layer'', NLinkLayer), (''linklayer'', NLinkLayer),
     (''speed-mbps'', NSpeed), (''speedmbps'', NSpeed), (''mtu'', NMTU)] field"

fun set_nic :: "nic_field option \<Rightarrow> string \<Rightarrow> NICInfo \<Rightarrow> NICInfo" where
  "set_nic None v n = n"
| "set_nic (Some NRole) v n = n\<lparr>ni_role := v\<rparr>"
| "set_nic (Some NPCIVendor) v n = n\<lparr>ni_pci_vendor := v\<rparr>"
| "set_nic (Some NModel) v n = n\<lparr>ni_model := v\<rparr>"
| "set_nic (Some NRDMADevice) v n = n\<lparr>ni_rdma_device := v\<rparr>"
| "set_nic (Some NLinkLayer) v n = n\<lparr>ni_link_layer := v\<rparr>"
| "set_nic (Some NSpeed) v n = n\<lparr>ni_speed_mbps := parseInt32 v\<rparr>"
| "set_nic (Some NMTU) v n = n\<lparr>ni_mtu := parseInt32 v\<rparr>"

text \<open>The device and the field a label names, if it is a \<^verbatim>\<open>nic.<device>.<field>\<close> label.\<close>

definition nic_label :: "string \<Rightarrow> (string \<times> string) option" where
  "nic_label k = (case splitLabelKey k of (_, name) \<Rightarrow>
     (let name = ToLower name in
      if \<not> HasPrefix name ''nic.'' then None
      else (case last_cut (CHR ''.'') (drop 4 name) of
        None \<Rightarrow> None
      | Some (device, field) \<Rightarrow> if device = [] \<or> field = [] then None else Some (device, field))))"

definition blank_nic :: "string \<Rightarrow> NICInfo" where
  "blank_nic device = \<lparr>ni_name = device, ni_role = [], ni_pci_vendor = [], ni_model = [], ni_rdma_device = [],
     ni_link_layer = [], ni_speed_mbps = 0, ni_mtu = 0\<rparr>"

definition note_nic_label :: "string \<times> string \<Rightarrow> NICInfo gomap \<Rightarrow> NICInfo gomap" where
  "note_nic_label kv byDevice = (case kv of (k, v) \<Rightarrow> (case nic_label k of
     None \<Rightarrow> byDevice
   | Some (device, field) \<Rightarrow>
       (let nic = (case mget byDevice device of Some n \<Rightarrow> n | None \<Rightarrow> blank_nic device)
        in mput device (set_nic (nicField field) v nic) byDevice)))"

definition nicsFromLabels :: "string gomap \<Rightarrow> NICInfo list" where
  "nicsFromLabels labels =
     (let byDevice = fold note_nic_label labels [] in
      map (\<lambda>name. the (mget byDevice name)) (sort_strings (mkeys byDevice)))"

section \<open>The observation and its digest\<close>

definition observeNode :: "quantity_reader \<Rightarrow> Node \<Rightarrow> resources \<Rightarrow> NodeFingerprintStatus" where
  "observeNode quantity node allocatable =
     \<lparr>fs_captured_at = None, fs_gpus = gpusFrom quantity node allocatable, fs_nics = nicsFromLabels (nd_labels node),
      fs_os_image = nd_os_image node, fs_kernel = nd_kernel node, fs_labels = salientLabels (nd_labels node),
      fs_digest = [], fs_observed_generation = 0, fs_conditions = []\<rparr>"

text \<open>\<^verbatim>\<open>maps.Equal\<close>: the same keys with the same values.\<close>

definition maps_equal :: "string gomap \<Rightarrow> string gomap \<Rightarrow> bool" where
  "maps_equal a b = (length a = length b \<and> list_all (\<lambda>(k, v). mget b k = Some v) a)"

definition sameObservation :: "NodeFingerprintStatus \<Rightarrow> NodeFingerprintStatus \<Rightarrow> bool" where
  "sameObservation a b = (fs_os_image a = fs_os_image b \<and> fs_kernel a = fs_kernel b \<and> fs_digest a = fs_digest b \<and>
     maps_equal (fs_labels a) (fs_labels b) \<and> fs_gpus a = fs_gpus b \<and> fs_nics a = fs_nics b)"

definition digestSchemeVersion :: string where
  "digestSchemeVersion = ''v1''"

definition digest_gpu :: "GPUInfo \<Rightarrow> string" where
  "digest_gpu g = Join [Itoa (gp_index g), gp_vendor g, gp_model g, gp_arch g, Itoa (gp_memory_bytes g), gp_driver_ver g] ''|''"

definition digest_nic :: "NICInfo \<Rightarrow> string" where
  "digest_nic n = Join [ni_name n, ni_role n, ni_pci_vendor n, ni_model n, ni_rdma_device n, ni_link_layer n,
     Itoa (ni_speed_mbps n), Itoa (ni_mtu n)] ''|''"

text \<open>The pairs the digest is fed, and the bytes they become.\<close>

definition digest_pairs :: "NodeFingerprintStatus \<Rightarrow> (string \<times> string) list" where
  "digest_pairs s = [(''scheme'', digestSchemeVersion), (''osImage'', fs_os_image s), (''kernel'', fs_kernel s)] @
     map (\<lambda>k. (''label:'' @ k, the (mget (fs_labels s) k))) (sort_strings (mkeys (fs_labels s))) @
     map (\<lambda>g. (''gpu'', digest_gpu g)) (fs_gpus s) @ map (\<lambda>n. (''nic'', digest_nic n)) (fs_nics s)"

definition digest_bytes :: "NodeFingerprintStatus \<Rightarrow> string" where
  "digest_bytes s = concat (map (\<lambda>(k, v). k @ [byte 0] @ v @ [byte 0]) (digest_pairs s))"

definition fingerprintDigest :: "NodeFingerprintStatus \<Rightarrow> string" where
  "fingerprintDigest s = digestSchemeVersion @ '':'' @ EncodeToString (Sum256 (digest_bytes s))"

definition digestScheme :: "string \<Rightarrow> string" where
  "digestScheme digest = (case cut_at (CHR '':'') digest of Some (a, _) \<Rightarrow> a | None \<Rightarrow> [])"

section \<open>Drift\<close>

datatype driftVerdict = driftBaseline | driftStable | driftChanged | driftIncomparable

definition classify :: "string \<Rightarrow> string \<Rightarrow> driftVerdict" where
  "classify stored current =
     (if stored = [] then driftBaseline
      else if stored = current then driftStable
      else if digestScheme stored \<noteq> digestScheme current then driftIncomparable
      else driftChanged)"

definition arrow :: string where
  "arrow = '' '' @ map byte [226, 134, 146] @ '' ''"

definition times_sign :: string where
  "times_sign = map byte [195, 151]"

definition ellipsis :: string where
  "ellipsis = map byte [226, 128, 166]"

definition orNone :: "string \<Rightarrow> string" where
  "orNone s = (if s = [] then ''(none)'' else s)"

definition gpu_key :: "GPUInfo \<Rightarrow> string" where
  "gpu_key g = (let key = TrimSpace (Join [gp_vendor g, gp_model g, gp_arch g] '' '') in
     if key = [] then ''(unidentified)'' else key)"

definition count_gpu :: "GPUInfo \<Rightarrow> int gomap \<Rightarrow> int gomap" where
  "count_gpu g counts = mput (gpu_key g) ((case mget counts (gpu_key g) of Some n \<Rightarrow> n | None \<Rightarrow> 0) + 1) counts"

definition summarizeGPUs :: "GPUInfo list \<Rightarrow> string" where
  "summarizeGPUs gpus = (if gpus = [] then ''(none)''
     else (let counts = fold count_gpu gpus [] in
       Join (map (\<lambda>k. Itoa (the (mget counts k)) @ times_sign @ k) (sort_strings (mkeys counts))) '', ''))"

definition summarizeNICs :: "NICInfo list \<Rightarrow> string" where
  "summarizeNICs nics = (if nics = [] then ''(none)''
     else Join (map (\<lambda>n. if ni_role n \<noteq> [] then ni_name n @ ''/'' @ ni_role n else ni_name n) nics) '', '')"

definition unionKeys :: "string gomap \<Rightarrow> string gomap \<Rightarrow> string list" where
  "unionKeys a b = mkeys (fold (\<lambda>k m. mput k () m) (mkeys a @ mkeys b) [])"

definition describe_label :: "string gomap \<Rightarrow> string gomap \<Rightarrow> string \<Rightarrow> string list" where
  "describe_label before after k = (case (mget before k, mget after k) of
     (Some b, None) \<Rightarrow> [''label '' @ k @ ''='' @ b @ '' removed'']
   | (None, Some a) \<Rightarrow> [''label '' @ k @ ''='' @ a @ '' added'']
   | (Some b, Some a) \<Rightarrow> if b \<noteq> a then [''label '' @ k @ '' '' @ b @ arrow @ a] else []
   | (None, None) \<Rightarrow> [])"

definition changed_part :: "string \<Rightarrow> string \<Rightarrow> string \<Rightarrow> string list" where
  "changed_part what b a = (if b \<noteq> a then [what @ b @ arrow @ a] else [])"

definition describeDrift :: "NodeFingerprintStatus \<Rightarrow> NodeFingerprintStatus \<Rightarrow> string" where
  "describeDrift before after =
     (let parts =
        (if fs_kernel before \<noteq> fs_kernel after then [''kernel '' @ orNone (fs_kernel before) @ arrow @ orNone (fs_kernel after)] else []) @
        (if fs_os_image before \<noteq> fs_os_image after then [''osImage '' @ orNone (fs_os_image before) @ arrow @ orNone (fs_os_image after)] else []) @
        changed_part ''gpus '' (summarizeGPUs (fs_gpus before)) (summarizeGPUs (fs_gpus after)) @
        changed_part ''nics '' (summarizeNICs (fs_nics before)) (summarizeNICs (fs_nics after)) @
        concat (map (describe_label (fs_labels before) (fs_labels after))
          (sort_strings (unionKeys (fs_labels before) (fs_labels after))))
      in if parts = [] then ''no field-level difference is visible; the digest scheme covers facts not reproduced in status''
         else Join parts ''; '')"

definition clampConditionMessage :: "string \<Rightarrow> string" where
  "clampConditionMessage s = (if length s \<le> 1024 then s else take 1023 s @ ellipsis)"

definition ConditionNodeFingerprintDrifted :: string where
  "ConditionNodeFingerprintDrifted = ''Drifted''"

fun drift_condition :: "driftVerdict \<Rightarrow> string \<Rightarrow> Condition" where
  "drift_condition driftBaseline change = \<lparr>cd_type = ConditionNodeFingerprintDrifted, cd_status = False,
     cd_reason = ''BaselineCaptured'', cd_message = Text ''baseline captured; there is no earlier fingerprint to compare against''\<rparr>"
| "drift_condition driftStable change = \<lparr>cd_type = ConditionNodeFingerprintDrifted, cd_status = False,
     cd_reason = ''DigestStable'', cd_message = Text ''salient hardware identity is unchanged since the baseline''\<rparr>"
| "drift_condition driftIncomparable change = \<lparr>cd_type = ConditionNodeFingerprintDrifted, cd_status = False,
     cd_reason = ''DigestSchemeChanged'', cd_message = Text (''stored digest was produced by a different digest scheme; '' @
       ''re-baselined without any claim about the hardware'')\<rparr>"
| "drift_condition driftChanged change = \<lparr>cd_type = ConditionNodeFingerprintDrifted, cd_status = True,
     cd_reason = ''DigestChanged'', cd_message = Text (clampConditionMessage (''salient hardware identity changed since the baseline: '' @ change))\<rparr>"

section \<open>One pass\<close>

text \<open>
  What the pass asks of others: the API server (\<open>fe_api\<close> for nodes and runs, \<open>fe_fp\<close> for
  fingerprints), the runs it holds, the condition library, and the clock. The library
  sets a condition for a generation of the object and tells whether one is true.
\<close>

datatype FpCall = FpGet string | FpCreate string | FpStatusUpdate string

record FpEnv =
  fe_api :: api
  fe_fp :: "FpCall \<Rightarrow> ApiErr option"
  fe_live :: "string \<Rightarrow> string \<Rightarrow> BurnInRun option"
  fe_now :: timestamp
  fe_allocatable :: "string \<Rightarrow> resources"
  fe_quantity :: quantity_reader
  fe_legal_name :: "string \<Rightarrow> bool"
  fe_set_condition :: "int \<Rightarrow> Condition \<Rightarrow> Condition list \<Rightarrow> Condition list"
  fe_is_true :: "Condition list \<Rightarrow> string \<Rightarrow> bool"

definition applyDriftCondition ::
  "FpEnv \<Rightarrow> driftVerdict \<Rightarrow> string \<Rightarrow> int \<Rightarrow> NodeFingerprintStatus \<Rightarrow> NodeFingerprintStatus" where
  "applyDriftCondition en drift change generation st =
     (if drift \<noteq> driftChanged \<and> fe_is_true en (fs_conditions st) ConditionNodeFingerprintDrifted then st
      else st\<lparr>fs_conditions := fe_set_condition en generation (drift_condition drift change) (fs_conditions st)\<rparr>)"

definition sanitise_char :: "char \<Rightarrow> char" where
  "sanitise_char ch = (if is_lower ch \<or> is_digit ch \<or> ch = CHR ''-'' \<or> ch = CHR ''.'' then ch else CHR ''-'')"

definition fingerprintName :: "(string \<Rightarrow> bool) \<Rightarrow> string \<Rightarrow> string" where
  "fingerprintName legal node =
     (if legal node then node
      else (let sanitised = Trim (map sanitise_char (ToLower node)) ''-.'';
                sanitised = (if length sanitised > 190 then Trim (take 190 sanitised) ''-.'' else sanitised);
                sum8 = EncodeToString (take 2 (Sum256 node))
            in if sanitised = [] then ''node-'' @ sum8 else sanitised @ ''-'' @ sum8))"

definition new_fingerprint :: "string \<Rightarrow> NodeFingerprint" where
  "new_fingerprint node = \<lparr>fp_node_name = node, fp_generation = 1, fp_labels = [(labelNode, node)],
     fp_status = \<lparr>fs_captured_at = None, fs_gpus = [], fs_nics = [], fs_os_image = [], fs_kernel = [], fs_labels = [],
       fs_digest = [], fs_observed_generation = 0, fs_conditions = []\<rparr>\<rparr>"

text \<open>The fingerprint of a node, created when there is none. \<open>Inr None\<close> refuses one that names another node.\<close>

definition ensureFingerprint ::
  "FpEnv \<Rightarrow> string \<Rightarrow> NodeFingerprint gomap \<Rightarrow> (ApiErr + NodeFingerprint option) \<times> NodeFingerprint gomap" where
  "ensureFingerprint en node fps =
     (let key = fingerprintName (fe_legal_name en) node;
          create = (case fe_fp en (FpCreate key) of
             Some e \<Rightarrow> (Inl e, fps)
           | None \<Rightarrow> if mhas fps key then (Inl (ApiOther (key @ '' already exists'')), fps)
                     else (Inr (Some (new_fingerprint node)), mput key (new_fingerprint node) fps))
      in case fe_fp en (FpGet key) of
           Some ApiNotFound \<Rightarrow> create
         | Some e \<Rightarrow> (Inl e, fps)
         | None \<Rightarrow> (case mget fps key of
             None \<Rightarrow> create
           | Some fp \<Rightarrow> (Inr (if fp_node_name fp \<noteq> node then None else Some fp), fps)))"

text \<open>What the status becomes, without and with the drift condition, the verdict, and the words for it.\<close>

definition with_digest :: "NodeFingerprint \<Rightarrow> NodeFingerprintStatus \<Rightarrow> NodeFingerprintStatus" where
  "with_digest fp obs = obs\<lparr>fs_digest := fingerprintDigest obs, fs_observed_generation := fp_generation fp,
     fs_conditions := fs_conditions (fp_status fp)\<rparr>"

definition with_capture :: "timestamp \<Rightarrow> NodeFingerprintStatus \<Rightarrow> NodeFingerprintStatus \<Rightarrow> NodeFingerprintStatus" where
  "with_capture now before desired = desired\<lparr>fs_captured_at :=
     (if sameObservation before desired \<and> fs_captured_at before \<noteq> None then fs_captured_at before else Some now)\<rparr>"

definition observe_pass ::
  "FpEnv \<Rightarrow> string \<Rightarrow> Node \<Rightarrow> NodeFingerprint \<Rightarrow> NodeFingerprintStatus \<times> driftVerdict \<times> string" where
  "observe_pass en name node fp =
     (let before = fp_status fp;
          desired = with_digest fp (observeNode (fe_quantity en) node (fe_allocatable en name));
          desired = with_capture (fe_now en) before desired;
          drift = classify (fs_digest before) (fs_digest desired);
          change = (if drift = driftChanged then describeDrift before desired else [])
      in (applyDriftCondition en drift change (fp_generation fp) desired, drift, change))"

text \<open>\<^verbatim>\<open>reflect.DeepEqual\<close> on two statuses.\<close>

definition same_status :: "NodeFingerprintStatus \<Rightarrow> NodeFingerprintStatus \<Rightarrow> bool" where
  "same_status a b = (maps_equal (fs_labels a) (fs_labels b) \<and> a\<lparr>fs_labels := []\<rparr> = b\<lparr>fs_labels := []\<rparr>)"

datatype FpResult = FpDone | FpRequeueAfter int | FpFailed ApiErr

definition cordonReapInterval :: int where
  "cordonReapInterval = 5 * 60 * 1000000000"

type_synonym fp_world = "Node gomap \<times> NodeFingerprint gomap"

definition reapCordon :: "FpEnv \<Rightarrow> string \<Rightarrow> Node gomap \<Rightarrow> FpResult \<times> Node gomap" where
  "reapCordon en name nodes = (case reapOrphanedCordon (fe_api en) (fe_live en) name nodes of
     ((Some e, _), nodes) \<Rightarrow> (FpFailed e, nodes)
   | ((None, live), nodes) \<Rightarrow> (if live then FpRequeueAfter cordonReapInterval else FpDone, nodes))"

definition record_observation ::
  "FpEnv \<Rightarrow> string \<Rightarrow> Node \<Rightarrow> FpResult \<Rightarrow> NodeFingerprint \<Rightarrow> NodeFingerprint gomap \<Rightarrow>
   FpResult \<times> NodeFingerprint gomap \<times> string option" where
  "record_observation en name node res fp fps = (case observe_pass en name node fp of (desired, drift, change) \<Rightarrow>
     if same_status (fp_status fp) desired then (res, fps, None)
     else (let key = fingerprintName (fe_legal_name en) name in
       case fe_fp en (FpStatusUpdate key) of
         Some e \<Rightarrow> (FpFailed e, fps, None)
       | None \<Rightarrow> (res, mput key (fp\<lparr>fp_status := desired\<rparr>) fps, if drift = driftChanged then Some change else None)))"

definition Reconcile_fingerprint ::
  "FpEnv \<Rightarrow> string \<Rightarrow> fp_world \<Rightarrow> FpResult \<times> fp_world \<times> string option" where
  "Reconcile_fingerprint en name w = (case w of (nodes, fps) \<Rightarrow>
     (case fe_api en (GetNode name) of
        Some ApiNotFound \<Rightarrow> (FpDone, (nodes, fps), None)
      | Some e \<Rightarrow> (FpFailed e, (nodes, fps), None)
      | None \<Rightarrow> (case mget nodes name of
          None \<Rightarrow> (FpDone, (nodes, fps), None)
        | Some node \<Rightarrow> (case reapCordon en name nodes of
            (FpFailed e, nodes) \<Rightarrow> (FpFailed e, (nodes, fps), None)
          | (res, nodes) \<Rightarrow> (case ensureFingerprint en name fps of
              (Inl e, fps) \<Rightarrow> (FpFailed e, (nodes, fps), None)
            | (Inr None, fps) \<Rightarrow> (res, (nodes, fps), None)
            | (Inr (Some fp), fps) \<Rightarrow>
                (case record_observation en name node res fp fps of (r, fps, ev) \<Rightarrow> (r, (nodes, fps), ev)))))))"

section \<open>What wakes the controller\<close>

text \<open>
  \<^verbatim>\<open>NodeInfo\<close> has more fields than the fingerprint reads; the comparison is over all of them, and
  \<open>'i\<close> is the type of the others.
\<close>

definition nodeIdentityChanged :: "Node \<times> 'i \<Rightarrow> Node \<times> 'i \<Rightarrow> bool" where
  "nodeIdentityChanged oldNode newNode = (case (oldNode, newNode) of ((old, info), (cur, info')) \<Rightarrow>
     \<not> maps_equal (nd_labels old) (nd_labels cur) \<or>
     (nd_kernel old, nd_os_image old, nd_architecture old, info) \<noteq> (nd_kernel cur, nd_os_image cur, nd_architecture cur, info') \<or>
     label_at (nd_annotations old) AnnotationCordonOwner \<noteq> label_at (nd_annotations cur) AnnotationCordonOwner)"

definition nodeForFingerprint :: "string \<Rightarrow> string \<Rightarrow> NodeFingerprint \<Rightarrow> string list" where
  "nodeForFingerprint ours namespace fp = (if namespace \<noteq> ours \<or> fp_node_name fp = [] then [] else [fp_node_name fp])"

text \<open>The namespace fingerprints are written to: the one configured, or what the service account file says.\<close>

definition setup_namespace :: "string \<Rightarrow> string option \<Rightarrow> string option" where
  "setup_namespace configured file =
     (if configured \<noteq> [] then Some configured
      else (case file of None \<Rightarrow> None | Some raw \<Rightarrow> (let ns = TrimSpace raw in if ns = [] then None else Some ns)))"

section \<open>The vendor of a node\<close>

definition vendorOf_fp :: "NodeFingerprint option \<Rightarrow> string" where
  "vendorOf_fp fp = (case fp of
     None \<Rightarrow> []
   | Some fp \<Rightarrow> (case fs_gpus (fp_status fp) of
       [] \<Rightarrow> []
     | g # _ \<Rightarrow> if gp_vendor g \<noteq> ''unknown'' then gp_vendor g else []))"

definition vendorFor :: "(FpCall \<Rightarrow> ApiErr option) \<Rightarrow> (string \<Rightarrow> bool) \<Rightarrow> string \<Rightarrow> NodeFingerprint gomap \<Rightarrow> string \<Rightarrow> string" where
  "vendorFor fp_api legal namespace fps node =
     (if node = [] \<or> namespace = [] then []
      else (let key = fingerprintName legal node in
        case fp_api (FpGet key) of Some _ \<Rightarrow> [] | None \<Rightarrow> vendorOf_fp (mget fps key)))"

end
