(* ===== verification/Fingerprint_Drift.thy ===== *)
theory Fingerprint_Drift
  imports Fingerprint
begin

text \<open>
  What a pass of the fingerprint controller does to the record of a node: drift is recorded, is
  never retracted, and a node that does not change stops being written.
\<close>

section \<open>The condition library\<close>




lemma drift_condition_type [simp]: "cd_type (drift_condition d c) = ConditionNodeFingerprintDrifted"
  by (cases d) simp_all


section \<open>Drift stays on the record\<close>



lemma with_digest_sel [simp]:
  "fs_digest (with_digest fp obs) = fingerprintDigest obs" "fs_conditions (with_digest fp obs) = fs_conditions (fp_status fp)"
  "fs_observed_generation (with_digest fp obs) = fp_generation fp" "fs_gpus (with_digest fp obs) = fs_gpus obs"
  "fs_nics (with_digest fp obs) = fs_nics obs" "fs_os_image (with_digest fp obs) = fs_os_image obs"
  "fs_kernel (with_digest fp obs) = fs_kernel obs" "fs_labels (with_digest fp obs) = fs_labels obs"
  by (simp_all add: with_digest_def)

lemma with_capture_sel [simp]:
  "fs_digest (with_capture now b d) = fs_digest d" "fs_conditions (with_capture now b d) = fs_conditions d"
  "fs_observed_generation (with_capture now b d) = fs_observed_generation d" "fs_gpus (with_capture now b d) = fs_gpus d"
  "fs_nics (with_capture now b d) = fs_nics d" "fs_os_image (with_capture now b d) = fs_os_image d"
  "fs_kernel (with_capture now b d) = fs_kernel d" "fs_labels (with_capture now b d) = fs_labels d"
  by (simp_all add: with_capture_def)

lemma applyDriftCondition_sel [simp]:
  "fs_digest (applyDriftCondition en dr c g d) = fs_digest d" "fs_captured_at (applyDriftCondition en dr c g d) = fs_captured_at d"
  "fs_observed_generation (applyDriftCondition en dr c g d) = fs_observed_generation d" "fs_gpus (applyDriftCondition en dr c g d) = fs_gpus d"
  "fs_nics (applyDriftCondition en dr c g d) = fs_nics d" "fs_os_image (applyDriftCondition en dr c g d) = fs_os_image d"
  "fs_kernel (applyDriftCondition en dr c g d) = fs_kernel d" "fs_labels (applyDriftCondition en dr c g d) = fs_labels d"
  by (simp_all add: applyDriftCondition_def)







section \<open>A node that does not change\<close>





lemma maps_equal_wf: "wf_map a \<Longrightarrow> maps_equal a b \<Longrightarrow> mget a k = Some v \<Longrightarrow> mget b k = Some v"
  by (auto simp: maps_equal_def list_all_iff dest: mget_Some_in)





















section \<open>Concrete passes\<close>








end
