(* ===== verification/Fingerprint_Digest.thy ===== *)
theory Fingerprint_Digest
  imports Fingerprint "HOL-Library.Multiset"
begin

text \<open>
  What the digest of a node tells: it separates observations, it does not depend on the order
  in which Go ranges over the labels as long as no two labels set one fact, and it does when two
  of them do.
\<close>

section \<open>The digest separates observations\<close>

definition nul_free :: "string \<Rightarrow> bool" where
  "nul_free s = (byte 0 \<notin> set s)"

text \<open>A text the digest can hold between its separators.\<close>

definition token :: "string \<Rightarrow> bool" where
  "token s = (byte 0 \<notin> set s \<and> CHR ''|'' \<notin> set s)"

lemma pairs_inj:
  assumes "list_all (\<lambda>(k, v). nul_free k \<and> nul_free v) xs" "list_all (\<lambda>(k, v). nul_free k \<and> nul_free v) ys"
    and "concat (map (\<lambda>(k, v). k @ [byte 0] @ v @ [byte 0]) xs) = concat (map (\<lambda>(k, v). k @ [byte 0] @ v @ [byte 0]) ys)"
  shows "xs = ys"
  using assms
proof (induction xs arbitrary: ys)
  case Nil
  then show ?case by (cases ys) (auto split: prod.splits)
next
  case (Cons x xs)
  obtain k v where x: "x = (k, v)" by fastforce
  with Cons.prems obtain k' v' ys' where ys: "ys = (k', v') # ys'" by (cases ys) auto
  let ?f = "\<lambda>(k, v). k @ [byte 0] @ v @ [byte 0]"
  have "cut_at (byte 0) (concat (map ?f (x # xs))) = Some (k, v @ byte 0 # concat (map ?f xs))"
    using Cons.prems(1) cut_at_append[of "byte 0" k "v @ byte 0 # concat (map ?f xs)"] by (simp add: x nul_free_def)
  moreover have "cut_at (byte 0) (concat (map ?f ys)) = Some (k', v' @ byte 0 # concat (map ?f ys'))"
    using Cons.prems(2) cut_at_append[of "byte 0" k' "v' @ byte 0 # concat (map ?f ys')"] by (simp add: ys nul_free_def)
  ultimately have e: "k = k'" "v @ byte 0 # concat (map ?f xs) = v' @ byte 0 # concat (map ?f ys')" using Cons.prems(3) by simp_all
  moreover have "cut_at (byte 0) (v @ byte 0 # concat (map ?f xs)) = Some (v, concat (map ?f xs))"
    "cut_at (byte 0) (v' @ byte 0 # concat (map ?f ys')) = Some (v', concat (map ?f ys'))"
    using Cons.prems(1,2) cut_at_append by (simp_all add: x ys nul_free_def)
  ultimately have "v = v'" "concat (map ?f xs) = concat (map ?f ys')" by simp_all
  then show ?case using Cons.IH[of ys'] Cons.prems(1,2) e(1) by (simp add: x ys)
qed

lemma Join_inj:
  assumes "list_all token xs" "list_all token ys" "xs \<noteq> []" "ys \<noteq> []" "Join xs ''|'' = Join ys ''|''"
  shows "xs = ys"
proof -
  have clean: "list_all (\<lambda>l. CHR ''|'' \<notin> set l) zs" if "list_all token zs" for zs
    using that by (simp add: token_def list_all_iff)
  show ?thesis using split_on_Join[OF assms(3) clean[OF assms(1)]] split_on_Join[OF assms(4) clean[OF assms(2)]] assms(5) by argo
qed

lemma digits_token: "list_all is_digit s \<Longrightarrow> token s"
  by (auto simp: token_def list_all_iff is_digit_def byte_def)

lemma token_Itoa: "token (Itoa n)"
proof -
  have "byte 0 \<noteq> CHR ''-''" by (simp add: byte_eq_iff)
  then show ?thesis using digits_token[OF show_nat_digits(1)] by (auto simp: Itoa_def token_def)
qed

lemma Itoa_inj: "Itoa m = Itoa n \<longleftrightarrow> m = n"
proof -
  have nd: "show_nat a \<noteq> CHR ''-'' # s" for a s using show_nat_digits(1)[of a] by (auto simp: is_digit_def)
  have "show_nat a = show_nat b \<longleftrightarrow> a = b" for a b by (metis dval_show_nat)
  then show ?thesis using nd nd[symmetric] by (auto simp: Itoa_def)
qed

definition token_gpu :: "GPUInfo \<Rightarrow> bool" where
  "token_gpu g = list_all token [gp_vendor g, gp_model g, gp_arch g, gp_driver_ver g]"

definition token_nic :: "NICInfo \<Rightarrow> bool" where
  "token_nic n = list_all token [ni_name n, ni_role n, ni_pci_vendor n, ni_model n, ni_rdma_device n, ni_link_layer n]"

lemma digest_gpu_inj: "token_gpu g \<Longrightarrow> token_gpu h \<Longrightarrow> digest_gpu g = digest_gpu h \<Longrightarrow> g = h"
  using Join_inj[of "[Itoa (gp_index g), gp_vendor g, gp_model g, gp_arch g, Itoa (gp_memory_bytes g), gp_driver_ver g]"
    "[Itoa (gp_index h), gp_vendor h, gp_model h, gp_arch h, Itoa (gp_memory_bytes h), gp_driver_ver h]"]
  unfolding digest_gpu_def by (simp add: token_gpu_def token_Itoa Itoa_inj del: Join.simps)

lemma digest_nic_inj: "token_nic g \<Longrightarrow> token_nic h \<Longrightarrow> digest_nic g = digest_nic h \<Longrightarrow> g = h"
  using Join_inj[of "[ni_name g, ni_role g, ni_pci_vendor g, ni_model g, ni_rdma_device g, ni_link_layer g, Itoa (ni_speed_mbps g), Itoa (ni_mtu g)]"
    "[ni_name h, ni_role h, ni_pci_vendor h, ni_model h, ni_rdma_device h, ni_link_layer h, Itoa (ni_speed_mbps h), Itoa (ni_mtu h)]"]
  unfolding digest_nic_def by (simp add: token_nic_def token_Itoa Itoa_inj del: Join.simps)

definition token_status :: "NodeFingerprintStatus \<Rightarrow> bool" where
  "token_status s = (nul_free (fs_os_image s) \<and> nul_free (fs_kernel s) \<and> wf_map (fs_labels s) \<and>
     list_all (\<lambda>(k, v). nul_free k \<and> nul_free v) (fs_labels s) \<and> list_all token_gpu (fs_gpus s) \<and> list_all token_nic (fs_nics s))"

lemma token_nul_free: "token s \<Longrightarrow> nul_free s"
  by (simp add: token_def nul_free_def)

lemma nul_free_append [simp]: "nul_free (a @ b) \<longleftrightarrow> nul_free a \<and> nul_free b"
  by (auto simp: nul_free_def)

lemma nul_free_Join: "list_all nul_free xs \<Longrightarrow> nul_free sep \<Longrightarrow> nul_free (Join xs sep)"
  by (induction xs sep rule: Join.induct) (auto simp: nul_free_def)

lemma nul_free_words: "nul_free ''scheme''" "nul_free ''osImage''" "nul_free ''kernel''" "nul_free ''label:''" "nul_free ''gpu''" "nul_free ''nic''"
  "nul_free ''|''" "nul_free digestSchemeVersion"
  by (simp_all add: nul_free_def digestSchemeVersion_def byte_eq_iff)

lemma nul_free_digest_gpu: "token_gpu g \<Longrightarrow> nul_free (digest_gpu g)"
  unfolding digest_gpu_def
  by (rule nul_free_Join) (auto simp: token_gpu_def token_nul_free token_Itoa nul_free_words simp del: Join.simps)

lemma nul_free_digest_nic: "token_nic n \<Longrightarrow> nul_free (digest_nic n)"
  unfolding digest_nic_def
  by (rule nul_free_Join) (auto simp: token_nic_def token_nul_free token_Itoa nul_free_words simp del: Join.simps)

definition sorted_labels :: "string gomap \<Rightarrow> (string \<times> string) list" where
  "sorted_labels m = map (\<lambda>k. (k, the (mget m k))) (sort_strings (mkeys m))"

lemma set_sorted_labels: "wf_map m \<Longrightarrow> set (sorted_labels m) = set m"
  by (force simp: sorted_labels_def mkeys_def mget_in_wf)

lemma digest_pairs_sorted:
  "digest_pairs s = [(''scheme'', digestSchemeVersion), (''osImage'', fs_os_image s), (''kernel'', fs_kernel s)] @
     map (\<lambda>(k, v). (''label:'' @ k, v)) (sorted_labels (fs_labels s)) @
     map (\<lambda>g. (''gpu'', digest_gpu g)) (fs_gpus s) @ map (\<lambda>n. (''nic'', digest_nic n)) (fs_nics s)"
  by (simp add: digest_pairs_def sorted_labels_def)

lemma digest_pairs_nul_free:
  assumes "token_status s"
  shows "list_all (\<lambda>(k, v). nul_free k \<and> nul_free v) (digest_pairs s)"
proof -
  have "list_all (\<lambda>(k, v). nul_free k \<and> nul_free v) (sorted_labels (fs_labels s))"
    using assms by (simp add: token_status_def list_all_iff set_sorted_labels)
  then show ?thesis using assms
    by (auto simp: digest_pairs_sorted token_status_def list_all_iff nul_free_words nul_free_digest_gpu nul_free_digest_nic
        simp del: append_Cons append_Nil)
qed

text \<open>Three lists of marked pairs that differ in their marks can be told apart.\<close>

lemma segments_inj:
  assumes "map f a @ map g b @ map h c = map f a' @ map g b' @ map h c'"
    and "\<And>x y. f x \<noteq> g y" "\<And>x y. f x \<noteq> h y" "\<And>x y. g x \<noteq> h y"
  shows "map f a = map f a' \<and> map g b = map g b' \<and> map h c = map h c'"
proof -
  let ?F = "\<lambda>z. z \<in> range f" and ?G = "\<lambda>z. z \<in> range g" and ?H = "\<lambda>z. z \<in> range h"
  have d: "f x \<notin> range g" "f x \<notin> range h" "g y \<notin> range h" "g y \<notin> range f" "h z \<notin> range f" "h z \<notin> range g" for x y z
    using assms(2-4) by (auto simp: image_iff) metis+
  have s: "filter ?F (map f a @ map g b @ map h c) = map f a" "filter ?G (map f a @ map g b @ map h c) = map g b"
    "filter ?H (map f a @ map g b @ map h c) = map h c" for a b c
    by (simp_all add: filter_map o_def d)
  show ?thesis using s[of a b c] s[of a' b' c'] assms(1) by argo
qed

lemma map_inj_clean: "list_all P xs \<Longrightarrow> list_all P ys \<Longrightarrow> (\<And>x y. P x \<Longrightarrow> P y \<Longrightarrow> f x = f y \<Longrightarrow> x = y) \<Longrightarrow> map f xs = map f ys \<Longrightarrow> xs = ys"
  by (rule inj_on_map_eq_map[THEN iffD1, of f]) (auto simp: inj_on_def list_all_iff)

lemma digest_bytes_inj:
  assumes "token_status s" "token_status t" "digest_bytes s = digest_bytes t"
  shows "fs_os_image s = fs_os_image t" "fs_kernel s = fs_kernel t" "sorted_labels (fs_labels s) = sorted_labels (fs_labels t)"
    "fs_gpus s = fs_gpus t" "fs_nics s = fs_nics t"
proof -
  have e: "digest_pairs s = digest_pairs t"
    by (rule pairs_inj) (use assms digest_pairs_nul_free in \<open>auto simp: digest_bytes_def\<close>)
  let ?l = "\<lambda>(k, v). (''label:'' @ k, v :: string)" and ?g = "\<lambda>g. (''gpu'', digest_gpu g)" and ?n = "\<lambda>n. (''nic'', digest_nic n)"
  show "fs_os_image s = fs_os_image t" "fs_kernel s = fs_kernel t" using e by (simp_all add: digest_pairs_sorted)
  have "map ?l (sorted_labels (fs_labels s)) @ map ?g (fs_gpus s) @ map ?n (fs_nics s) =
      map ?l (sorted_labels (fs_labels t)) @ map ?g (fs_gpus t) @ map ?n (fs_nics t)"
    using e by (simp add: digest_pairs_sorted)
  then have m: "map ?l (sorted_labels (fs_labels s)) = map ?l (sorted_labels (fs_labels t))"
    "map ?g (fs_gpus s) = map ?g (fs_gpus t)" "map ?n (fs_nics s) = map ?n (fs_nics t)"
    by (auto dest!: segments_inj)
  show "sorted_labels (fs_labels s) = sorted_labels (fs_labels t)"
    by (rule inj_on_map_eq_map[THEN iffD1, OF _ m(1)]) (auto simp: inj_on_def)
  show "fs_gpus s = fs_gpus t"
    by (rule map_inj_clean[OF _ _ _ m(2), where P = token_gpu]) (use assms in \<open>auto simp: token_status_def intro: digest_gpu_inj\<close>)
  show "fs_nics s = fs_nics t"
    by (rule map_inj_clean[OF _ _ _ m(3), where P = token_nic]) (use assms in \<open>auto simp: token_status_def intro: digest_nic_inj\<close>)
qed

section \<open>What a node publishes is made of tokens\<close>

text \<open>The characters Kubernetes admits in the keys and the values of labels, and in resource names.\<close>

definition label_char :: "char \<Rightarrow> bool" where
  "label_char c = (is_lower c \<or> is_upper c \<or> is_digit c \<or> c \<in> set ''-_./'')"

definition label_text :: "string \<Rightarrow> bool" where
  "label_text s = list_all label_char s"

definition legal_labels :: "string gomap \<Rightarrow> bool" where
  "legal_labels m = (wf_map m \<and> list_all (\<lambda>(k, v). label_text k \<and> label_text v) m)"

definition legal_resources :: "resources \<Rightarrow> bool" where
  "legal_resources m = list_all (\<lambda>(k, v). label_text k) m"

lemma label_text_token: "label_text s \<Longrightarrow> token s"
proof -
  have "\<not> label_char (byte 0)" "\<not> label_char (CHR ''|'')"
    by (simp_all add: label_char_def is_lower_def is_upper_def is_digit_def byte_eq_iff of_byte)
  then show "label_text s \<Longrightarrow> token s" by (auto simp: label_text_def token_def list_all_iff)
qed

lemma label_text_append [simp]: "label_text (a @ b) \<longleftrightarrow> label_text a \<and> label_text b"
  by (simp add: label_text_def)

lemma label_text_Nil [simp]: "label_text []"
  by (simp add: label_text_def)

lemma label_text_ToLower: "label_text s \<Longrightarrow> label_text (ToLower s)"
proof -
  have "label_char (lower_ascii c)" if "label_char c" for c
  proof (cases "is_upper c")
    case True
    then have "is_lower (lower_ascii c)" by (auto simp: is_upper_def is_lower_def lower_ascii_def)
    then show ?thesis by (simp add: label_char_def)
  qed (use that in \<open>auto simp: lower_ascii_def is_upper_def\<close>)
  then show "label_text s \<Longrightarrow> label_text (ToLower s)" by (auto simp: label_text_def ToLower_def list_all_iff)
qed

lemma label_text_split: "label_text s \<Longrightarrow> x \<in> set (split_on c s) \<Longrightarrow> label_text x"
proof (induction s arbitrary: x)
  case (Cons y ys)
  then show ?case by (cases "split_on c ys") (auto simp: label_text_def split: if_splits)
qed simp

lemma splitLabelKey_text: "label_text k \<Longrightarrow> splitLabelKey k = (d, n) \<Longrightarrow> label_text d \<and> label_text n"
  by (auto simp: splitLabelKey_def label_text_def dest!: cut_at_Some split: option.splits)

lemma vendorFromDomain_text: "label_text d \<Longrightarrow> label_text (vendorFromDomain d)"
  unfolding vendorFromDomain_def Let_def
  by (rule label_text_split[where s = "ToLower d" and c = "CHR ''.''"])
    (auto simp: label_text_ToLower hd_drop_conv_nth intro!: nth_mem hd_in_set)

definition facts_text :: "gpuFacts \<Rightarrow> bool" where
  "facts_text f = list_all label_text [gf_vendor f, gf_model f, gf_arch f, gf_family f, gf_driver f, gf_driver_major f,
     gf_driver_minor f, gf_driver_rev f, gf_memory f, gf_count f]"

lemma set_fact_text: "facts_text f \<Longrightarrow> label_text v \<Longrightarrow> facts_text (set_fact field v f)"
  by (cases field) (auto simp: facts_text_def)

lemma fillFrom_text: "facts_text f \<Longrightarrow> facts_text g \<Longrightarrow> facts_text (fillFrom f g)"
  by (auto simp: facts_text_def fillFrom_def orElse_str_def Let_def)

lemma no_facts_text: "facts_text no_facts"
  by (simp add: facts_text_def no_facts_def)

definition gathered_text :: "gpuFacts gomap \<times> gpuFacts \<Rightarrow> bool" where
  "gathered_text st = ((\<forall>(d, f) \<in> set (fst st). facts_text f) \<and> facts_text (snd st))"

lemma mput_subset: "set (mput k v m) \<subseteq> insert (k, v) (set m)"
  by (induction m) (auto simp: mput_def)

lemma note_gpu_label_text:
  assumes "gathered_text st" "label_text k" "label_text v"
  shows "gathered_text (note_gpu_label (k, v) st)"
proof -
  obtain m u where st: "st = (m, u)" by fastforce
  obtain d n where dn: "splitLabelKey k = (d, n)" by fastforce
  have "facts_text (case mget m d of Some f \<Rightarrow> f | None \<Rightarrow> no_facts\<lparr>gf_vendor := vendorFromDomain d\<rparr>)"
    using assms(1) vendorFromDomain_text splitLabelKey_text[OF assms(2) dn] no_facts_text
    by (auto simp: gathered_text_def st facts_text_def dest: mget_Some_in split: option.splits)
  then show ?thesis using assms(1,3) mput_subset
    by (fastforce simp: note_gpu_label_def st dn gathered_text_def Let_def set_fact_text split: option.splits)
qed

lemma gathered: "legal_labels labels \<Longrightarrow> gathered_text (fold note_gpu_label labels ([], no_facts))"
  by (rule fold_invariant[where Q = "\<lambda>(k, v). label_text k \<and> label_text v"])
    (auto simp: legal_labels_def list_all_iff gathered_text_def[of "([], no_facts)"] no_facts_text note_gpu_label_text)

lemma gpu_groups_text:
  assumes "legal_labels labels"
  shows "list_all facts_text (gpu_groups labels)"
proof -
  obtain m u where f: "fold note_gpu_label labels ([], no_facts) = (m, u)" by fastforce
  have "list_all facts_text (filter announces (map snd m))" "facts_text u"
    using gathered[OF assms] by (auto simp: f gathered_text_def list_all_iff)
  then show ?thesis by (auto simp: gpu_groups_def f Let_def fillFrom_text split: list.splits)
qed

lemma label_text_Join: "list_all label_text xs \<Longrightarrow> label_text sep \<Longrightarrow> label_text (Join xs sep)"
  by (induction xs sep rule: Join.induct) auto

lemma group_gpus_token:
  assumes "facts_text f"
  shows "list_all token_gpu (group_gpus q f)"
proof -
  have "list_all label_text (takeWhile (\<lambda>p. p \<noteq> []) [gf_driver_major f, gf_driver_minor f, gf_driver_rev f])"
    using assms by (auto simp: facts_text_def)
  moreover have "label_text ''.''" by (simp add: label_text_def label_char_def)
  ultimately have "label_text (driverVersion f)" using assms label_text_Join by (auto simp: driverVersion_def facts_text_def simp del: takeWhile.simps)
  then show ?thesis using assms
    by (auto simp: group_gpus_def Let_def token_gpu_def facts_text_def orElse_str_def label_text_token list_all_iff split: option.splits)
qed

lemma indexed_token: "list_all token_gpu gpus \<Longrightarrow> list_all token_gpu (indexed gpus)"
  by (auto simp: indexed_def list_all_iff token_gpu_def set_zip)

lemma gpusFrom_token:
  assumes "legal_labels (nd_labels node)" "legal_resources alloc"
  shows "list_all token_gpu (gpusFrom q node alloc)"
proof -
  have "list_all token_gpu (gpusFromLabels q (nd_labels node))"
    unfolding gpusFromLabels_def
    by (rule indexed_token) (use gpu_groups_text[OF assms(1)] group_gpus_token in \<open>auto simp: list_all_iff\<close>)
  moreover have "label_text v" if kx: "(k, x) \<in> set alloc" and v: "(v, c) \<in> set (accelerator_resource (k, x))" for k x v c
  proof -
    obtain d n where dn: "splitLabelKey k = (d, n)" by fastforce
    have "label_text k" using kx assms(2) by (auto simp: legal_resources_def list_all_iff)
    moreover have "v = vendorFromDomain d" using v by (auto simp: accelerator_resource_def dn split: if_splits option.splits)
    ultimately show ?thesis using vendorFromDomain_text splitLabelKey_text[OF _ dn] by simp
  qed
  then have "list_all token_gpu (gpusFromAllocatable alloc)"
    unfolding gpusFromAllocatable_def by (intro indexed_token) (auto simp: list_all_iff token_gpu_def label_text_token)
  ultimately show ?thesis by (simp add: gpusFrom_def Let_def)
qed

definition nic_text :: "NICInfo \<Rightarrow> bool" where
  "nic_text n = list_all label_text [ni_name n, ni_role n, ni_pci_vendor n, ni_model n, ni_rdma_device n, ni_link_layer n]"

lemma set_nic_text: "nic_text n \<Longrightarrow> label_text v \<Longrightarrow> nic_text (set_nic f v n)"
  by (cases "(f, v, n)" rule: set_nic.cases) (auto simp: nic_text_def)

lemma nic_label_text: "label_text k \<Longrightarrow> nic_label k = Some (d, f) \<Longrightarrow> label_text d"
proof -
  assume k: "label_text k" and n: "nic_label k = Some (d, f)"
  obtain dom name where s: "splitLabelKey k = (dom, name)" by fastforce
  then have "label_text (drop 4 (ToLower name))" using label_text_ToLower splitLabelKey_text[OF k s]
    by (metis append_take_drop_id label_text_append)
  then show "label_text d" using n by (auto simp: nic_label_def s Let_def dest!: last_cut_Some split: if_splits option.splits)
qed

lemma nicsFromLabels_token:
  assumes "legal_labels labels"
  shows "list_all token_nic (nicsFromLabels labels)"
proof -
  define P where "P m = (\<forall>(d, n) \<in> set m. nic_text n)" for m :: "NICInfo gomap"
  have step: "P (note_nic_label (k, v) m)" if "P m" "label_text k" "label_text v" for k v m
  proof (cases "nic_label k")
    case (Some df)
    obtain d f where df: "df = (d, f)" by fastforce
    have "nic_text (case mget m d of Some n \<Rightarrow> n | None \<Rightarrow> blank_nic d)"
      using that(1) nic_label_text[OF that(2)] Some by (auto simp: P_def df blank_nic_def nic_text_def dest: mget_Some_in split: option.splits)
    then show ?thesis using that(1,3) mput_subset by (fastforce simp: note_nic_label_def Some df Let_def P_def set_nic_text)
  qed (use that in \<open>simp add: note_nic_label_def\<close>)
  have "P (fold note_nic_label labels [])"
    by (rule fold_invariant[where Q = "\<lambda>(k, v). label_text k \<and> label_text v"])
      (use assms in \<open>auto simp: legal_labels_def list_all_iff P_def[of "[]"] intro: step\<close>)
  moreover have "mget m k \<noteq> None" if "k \<in> set (mkeys m)" for k and m :: "NICInfo gomap"
    using that by (simp add: set_mkeys mhas_def)
  ultimately show ?thesis
    by (fastforce simp: nicsFromLabels_def Let_def list_all_iff P_def token_nic_def nic_text_def label_text_token dest: mget_Some_in)
qed

lemma observation_token:
  assumes "legal_labels (nd_labels node)" "legal_resources alloc" "nul_free (nd_os_image node)" "nul_free (nd_kernel node)"
  shows "token_status (observeNode q node alloc)"
proof -
  have "wf_map (salientLabels (nd_labels node))" using assms(1) by (auto simp: legal_labels_def wf_map_def salientLabels_def distinct_map_filter)
  then show ?thesis using assms gpusFrom_token[OF assms(1,2)] nicsFromLabels_token[OF assms(1)]
    by (auto simp: token_status_def observeNode_def salientLabels_def legal_labels_def list_all_iff intro!: token_nul_free label_text_token)
qed

text \<open>No two texts of the pair have one hash.\<close>

definition no_collision :: "string \<Rightarrow> string \<Rightarrow> bool" where
  "no_collision a b = (EncodeToString (Sum256 a) \<noteq> EncodeToString (Sum256 b) \<or> a = b)"

lemma same_sorted_labels:
  assumes "wf_map a" "wf_map b" "sorted_labels a = sorted_labels b"
  shows "maps_equal a b"
proof -
  have "set a = set b" using assms set_sorted_labels by metis
  moreover have "length a = length b" using arg_cong[OF assms(3), of length] by (simp add: sorted_labels_def sort_strings_def mkeys_def)
  ultimately show ?thesis using assms(2) by (auto simp: maps_equal_def list_all_iff mget_in_wf)
qed

lemma mget_mset: "wf_map a \<Longrightarrow> wf_map b \<Longrightarrow> set a = set b \<Longrightarrow> mget a = mget b"
  unfolding mget_def wf_map_def by (rule map_of_inject_set[THEN iffD2])

lemma sorted_labels_mset: "wf_map a \<Longrightarrow> wf_map b \<Longrightarrow> mset a = mset b \<Longrightarrow> sorted_labels a = sorted_labels b"
proof -
  assume wf: "wf_map a" "wf_map b" and m: "mset a = mset b"
  have "mset (mkeys a) = mset (mkeys b)" using m unfolding mkeys_def mset_map by simp
  from sort_strings_perm[OF this] show "sorted_labels a = sorted_labels b"
    using mget_mset[OF wf mset_eq_setD[OF m]] by (simp add: sorted_labels_def)
qed

lemma maps_equal_mset:
  assumes "wf_map a" "wf_map b" "maps_equal a b"
  shows "mset a = mset b"
proof -
  have sub: "set a \<subseteq> set b" using assms(3) by (auto simp: maps_equal_def list_all_iff dest: mget_Some_in)
  have d: "distinct a" "distinct b" using assms(1,2) by (auto simp: wf_map_def distinct_map)
  then have "card (set a) = card (set b)" using assms(3) by (simp add: maps_equal_def distinct_card)
  then have "set a = set b" using sub by (simp add: card_subset_eq)
  then show ?thesis using d by (simp add: set_eq_iff_mset_eq_distinct)
qed

lemma maps_equal_sorted: "wf_map a \<Longrightarrow> wf_map b \<Longrightarrow> maps_equal a b \<Longrightarrow> sorted_labels a = sorted_labels b"
  by (rule sorted_labels_mset[OF _ _ maps_equal_mset])

text \<open>
  C29. No change of hardware hides behind a digest. Two nodes with labels and resource names in
  Kubernetes' alphabet whose observations have one digest publish one observation, field by field
  (unless SHA-256 collides on the two): the separators of the hashed text cannot be forged.
\<close>

theorem digest_separates_observations:
  assumes "legal_labels (nd_labels node)" "legal_resources alloc" "nul_free (nd_os_image node)" "nul_free (nd_kernel node)"
    and "legal_labels (nd_labels node')" "legal_resources alloc'" "nul_free (nd_os_image node')" "nul_free (nd_kernel node')"
    and "no_collision (digest_bytes (observeNode q node alloc)) (digest_bytes (observeNode q node' alloc'))"
  shows "fingerprintDigest (observeNode q node alloc) = fingerprintDigest (observeNode q node' alloc') \<longleftrightarrow>
    sameObservation (observeNode q node alloc) (observeNode q node' alloc')"
proof -
  let ?s = "observeNode q node alloc" and ?t = "observeNode q node' alloc'"
  note ts = observation_token[OF assms(1-4), of q] and tt = observation_token[OF assms(5-8), of q]
  show ?thesis
  proof
    assume "fingerprintDigest ?s = fingerprintDigest ?t"
    then have "digest_bytes ?s = digest_bytes ?t" using assms(9) by (auto simp: fingerprintDigest_def no_collision_def)
    note i = digest_bytes_inj[OF ts tt this]
    have "maps_equal (fs_labels ?s) (fs_labels ?t)"
      by (rule same_sorted_labels) (use ts tt i(3) in \<open>simp_all add: token_status_def\<close>)
    then show "sameObservation ?s ?t" using i by (simp add: sameObservation_def observeNode_def)
  next
    assume same: "sameObservation ?s ?t"
    have "sorted_labels (fs_labels ?s) = sorted_labels (fs_labels ?t)"
      by (rule maps_equal_sorted) (use ts tt same in \<open>simp_all add: token_status_def sameObservation_def\<close>)
    then have "digest_pairs ?s = digest_pairs ?t" using same unfolding digest_pairs_sorted sameObservation_def by simp
    then show "fingerprintDigest ?s = fingerprintDigest ?t" by (simp add: fingerprintDigest_def digest_bytes_def)
  qed
qed

theorem digest_separates_observations_witness:
  "let node = \<lparr>nd_unschedulable = False, nd_annotations = [], nd_labels = [(''nvidia.com/gpu.count'', ''8'')], nd_kernel = ''6.8.0'',
         nd_os_image = ''Ubuntu'', nd_architecture = ''amd64''\<rparr>
   in fingerprintDigest (observeNode (\<lambda>_. None) node []) =
      fingerprintDigest (observeNode (\<lambda>_. None) (node\<lparr>nd_unschedulable := True\<rparr>) [(''nvidia.com/gpu'', Some 8)])"
proof -
  let ?n = "\<lparr>nd_unschedulable = False, nd_annotations = [], nd_labels = [(''nvidia.com/gpu.count'', ''8'')], nd_kernel = ''6.8.0'',
     nd_os_image = ''Ubuntu'', nd_architecture = ''amd64''\<rparr>"
  let ?a = "[(''nvidia.com/gpu'', Some 8)] :: resources" and ?q = "\<lambda>_. None"
  have l: "legal_labels (nd_labels ?n)" "legal_resources ?a" "legal_resources []" "nul_free ''Ubuntu''" "nul_free ''6.8.0''" by code_simp+
  have o: "observeNode ?q ?n [] = observeNode ?q (?n\<lparr>nd_unschedulable := True\<rparr>) ?a" by code_simp
  then have "sameObservation (observeNode ?q ?n []) (observeNode ?q (?n\<lparr>nd_unschedulable := True\<rparr>) ?a)" by code_simp
  then show ?thesis
    using digest_separates_observations[of ?n "[]" "?n\<lparr>nd_unschedulable := True\<rparr>" ?a ?q] l o by (simp add: no_collision_def)
qed

end
