(* ===== verification/Fingerprint_Order.thy ===== *)
theory Fingerprint_Order
  imports Fingerprint_Digest
begin

text \<open>
  Go ranges over a map in an order of its choosing. Where every fact is named by one label the
  observation of a node does not depend on it; where two labels name one fact it does.
\<close>

section \<open>Accelerators\<close>

text \<open>The fact a label sets: \<open>None\<close> in the first place is a fact that names no vendor.\<close>

definition fact_key :: "string \<Rightarrow> (string option \<times> gpu_field) option" where
  "fact_key k = (case splitLabelKey k of (domain, name) \<Rightarrow>
     map_option (\<lambda>field. (if isNonVendorDomain domain then None else Some domain, field)) (gpuField name))"

text \<open>The loop on lookup functions instead of lists.\<close>

definition gpu_step :: "string \<times> string \<Rightarrow> (string \<Rightarrow> gpuFacts option) \<times> gpuFacts \<Rightarrow> (string \<Rightarrow> gpuFacts option) \<times> gpuFacts" where
  "gpu_step kv st = (case (kv, st) of ((k, v), g, u) \<Rightarrow> (case fact_key k of
     None \<Rightarrow> (g, u)
   | Some (None, field) \<Rightarrow> (g, set_fact field v u)
   | Some (Some d, field) \<Rightarrow>
       (g(d := Some (set_fact field v (case g d of Some f \<Rightarrow> f | None \<Rightarrow> no_facts\<lparr>gf_vendor := vendorFromDomain d\<rparr>))), u)))"

lemma set_fact_commute: "f \<noteq> g \<Longrightarrow> set_fact f v (set_fact g w x) = set_fact g w (set_fact f v x)"
  by (cases f; cases g; cases x) simp_all

lemma gpu_step_commute:
  assumes "fact_key (fst x) = None \<or> fact_key (fst x) \<noteq> fact_key (fst y)"
  shows "gpu_step x (gpu_step y st) = gpu_step y (gpu_step x st)"
proof -
  obtain k v k' v' g u where [simp]: "x = (k, v)" "y = (k', v')" "st = (g, u)" by (metis surj_pair)
  show ?thesis
  proof (cases "fact_key k = None \<or> fact_key k' = None")
    case False
    then obtain a f b h where k: "fact_key k = Some (a, f)" "fact_key k' = Some (b, h)" by auto
    show ?thesis
    proof (cases "a = b")
      case True
      then have "f \<noteq> h" using assms k by simp
      then show ?thesis using True set_fact_commute[of f h v v'] by (cases b) (simp_all add: gpu_step_def k)
    qed (cases a; cases b; auto simp: gpu_step_def k fun_upd_twist)
  qed (auto simp: gpu_step_def)
qed

lemma gpu_step_refines: "(\<lambda>(m, u). (mget m, u)) (note_gpu_label kv st) = gpu_step kv ((\<lambda>(m, u). (mget m, u)) st)"
  by (auto simp: note_gpu_label_def gpu_step_def fact_key_def Let_def fun_eq_iff mget_put split: prod.splits option.splits if_splits)

lemma gpu_fold_refines:
  "(\<lambda>(m, u). (mget m, u)) (fold note_gpu_label labels st) = fold gpu_step labels ((\<lambda>(m, u). (mget m, u)) st)"
  by (induction labels arbitrary: st) (simp_all add: gpu_step_refines)

definition unambiguous :: "('a \<Rightarrow> 'b option) \<Rightarrow> 'a list \<Rightarrow> bool" where
  "unambiguous key xs = distinct (concat (map (\<lambda>x. case key x of None \<Rightarrow> [] | Some k \<Rightarrow> [k]) xs))"

lemma unambiguous_keys:
  assumes "unambiguous key xs" "x \<in> set xs" "y \<in> set xs" "x \<noteq> y"
  shows "key x = None \<or> key x \<noteq> key y"
  using assms by (induction xs) (auto simp: unambiguous_def split: option.splits)

lemma fold_perm:
  assumes "\<And>x y st. x \<in> set xs \<Longrightarrow> y \<in> set xs \<Longrightarrow> x \<noteq> y \<Longrightarrow> f x (f y st) = f y (f x st)" "mset xs = mset ys"
  shows "fold f xs st = fold f ys st"
proof -
  have "f x \<circ> f y = f y \<circ> f x" if "x \<in> set xs" "y \<in> set xs" for x y
    using assms(1)[OF that] by (cases "x = y") (simp_all add: fun_eq_iff)
  then have "fold f xs = fold f ys" using fold_multiset_equiv assms(2) by blast
  then show ?thesis by simp
qed

lemma wf_note_gpu_label: "wf_map (fst st) \<Longrightarrow> wf_map (fst (note_gpu_label kv st))"
  by (auto simp: note_gpu_label_def Let_def split: prod.splits option.splits)

interpretation gpu_labels: loop_invariant note_gpu_label "\<lambda>st. wf_map (fst st)"
  by unfold_locales (rule wf_note_gpu_label)

lemma lookup_mset:
  assumes "wf_map a" "wf_map b" "mget a = mget b"
  shows "mset a = mset b"
proof -
  have "(k, v) \<in> set m \<longleftrightarrow> mget m k = Some v" if "wf_map m" for k v and m :: "'a gomap"
    using mget_in_wf[OF that] mget_Some_in by fast
  then have "set a = set b" using assms by auto
  moreover have "distinct a" "distinct b" using assms(1,2) by (auto simp: wf_map_def distinct_map)
  ultimately show ?thesis by (simp add: set_eq_iff_mset_eq_distinct)
qed

lemma gpu_groups_order:
  assumes "mset labels = mset labels'" "unambiguous (fact_key \<circ> fst) labels"
  shows "mset (gpu_groups labels) = mset (gpu_groups labels')"
proof -
  obtain m u m' u' where f: "fold note_gpu_label labels ([], no_facts) = (m, u)" "fold note_gpu_label labels' ([], no_facts) = (m', u')"
    by (metis surj_pair)
  have "gpu_step x (gpu_step y st) = gpu_step y (gpu_step x st)" if "x \<in> set labels" "y \<in> set labels" "x \<noteq> y" for x y st
    by (rule gpu_step_commute) (use unambiguous_keys[OF assms(2) that] in simp)
  then have "fold gpu_step labels st = fold gpu_step labels' st" for st by (rule fold_perm[OF _ assms(1)])
  then have e: "mget m = mget m'" "u = u'"
    using gpu_fold_refines[of labels "([], no_facts)"] gpu_fold_refines[of labels' "([], no_facts)"] f
    by (auto simp: prod_eq_iff dest: sym)
  have wf: "wf_map m" "wf_map m'"
    using gpu_labels.fold_inv[of "([], no_facts)" labels] gpu_labels.fold_inv[of "([], no_facts)" labels'] f by simp_all
  let ?g = "filter announces (map snd m)" and ?g' = "filter announces (map snd m')"
  have g: "mset ?g = mset ?g'" unfolding mset_filter mset_map lookup_mset[OF wf e(1)] ..
  show ?thesis
  proof (cases "length ?g \<le> 1")
    case True
    then have "?g = ?g'" using g by (cases ?g) (auto simp del: mset_filter mset_map)
    then show ?thesis by (simp add: gpu_groups_def f e(2))
  next
    case False
    moreover have "length ?g' = length ?g" using g mset_eq_length by metis
    ultimately obtain a b r a' b' r' where "?g = a # b # r" "?g' = a' # b' # r'" by (cases ?g; cases "tl ?g"; cases ?g'; cases "tl ?g'") auto
    then show ?thesis using g by (simp add: gpu_groups_def f)
  qed
qed

definition distinct_groups :: "string gomap \<Rightarrow> bool" where
  "distinct_groups labels = distinct (map (\<lambda>f. [gf_vendor f, gf_model f]) (gpu_groups labels))"

lemma gpusFromLabels_order:
  assumes "mset labels = mset labels'" "unambiguous (fact_key \<circ> fst) labels" "distinct_groups labels"
  shows "gpusFromLabels q labels = gpusFromLabels q labels'"
proof -
  let ?key = "\<lambda>f. [gf_vendor f, gf_model f]"
  have "sort_key ?key (gpu_groups labels) = sort_key ?key (gpu_groups labels')"
    by (rule sort_key_inj_key_eq) (use gpu_groups_order[OF assms(1,2)] assms(3) in \<open>auto simp: distinct_groups_def distinct_map\<close>)
  then show ?thesis by (simp add: gpusFromLabels_def)
qed

section \<open>Resources\<close>

lemma sorted_expand: "sorted (map fst gs) \<Longrightarrow> sorted (concat (map (\<lambda>(v, c). replicate c v) gs))"
  by (induction gs) (auto simp: sorted_append)

lemma mset_concat_map: "mset xs = mset ys \<Longrightarrow> mset (concat (map f xs)) = mset (concat (map f ys))"
  unfolding mset_concat by (metis mset_map sum_mset_sum_list)

lemma gpusFromAllocatable_order:
  assumes "mset alloc = mset alloc'"
  shows "gpusFromAllocatable alloc = gpusFromAllocatable alloc'"
proof -
  let ?G = "\<lambda>v. \<lparr>gp_index = 0, gp_vendor = v, gp_model = [], gp_arch = [], gp_memory_bytes = 0, gp_driver_ver = []\<rparr>"
  let ?e = "\<lambda>gs. concat (map (\<lambda>(v, c). replicate c v) gs) :: string list"
  have e: "concat (map (\<lambda>(v, c). replicate c (?G v)) gs) = map ?G (?e gs)" for gs by (induction gs) auto
  let ?r = "\<lambda>a. concat (map accelerator_resource a)"
  have "mset (sort_key fst (?r alloc)) = mset (sort_key fst (?r alloc'))" using mset_concat_map[OF assms] by simp
  from sort_strings_perm[OF mset_concat_map[OF this, of "\<lambda>(v, c). replicate c v"]] have "?e (sort_key fst (?r alloc)) = ?e (sort_key fst (?r alloc'))"
    unfolding sort_strings_def by (simp only: sorted_sort_id[OF sorted_expand[OF sorted_sort_key]])
  then show ?thesis unfolding gpusFromAllocatable_def e by simp
qed

section \<open>Network devices\<close>

definition nic_key :: "string \<Rightarrow> (string \<times> nic_field) option" where
  "nic_key k = (case nic_label k of None \<Rightarrow> None | Some (d, f) \<Rightarrow> map_option (\<lambda>f. (d, f)) (nicField f))"

definition nic_step :: "string \<times> string \<Rightarrow> (string \<Rightarrow> NICInfo option) \<Rightarrow> string \<Rightarrow> NICInfo option" where
  "nic_step kv g = (case kv of (k, v) \<Rightarrow> (case nic_label k of
     None \<Rightarrow> g
   | Some (d, f) \<Rightarrow> g(d := Some (set_nic (nicField f) v (case g d of Some n \<Rightarrow> n | None \<Rightarrow> blank_nic d)))))"

lemma set_nic_commute: "f = None \<or> f \<noteq> g \<Longrightarrow> set_nic f v (set_nic g w x) = set_nic g w (set_nic f v x)"
  by (cases "(f, v, x)" rule: set_nic.cases; cases "(g, w, x)" rule: set_nic.cases) auto

lemma nic_step_commute:
  assumes "nic_key (fst x) = None \<or> nic_key (fst x) \<noteq> nic_key (fst y)"
  shows "nic_step x (nic_step y g) = nic_step y (nic_step x g)"
proof -
  obtain k v k' v' where [simp]: "x = (k, v)" "y = (k', v')" by (metis surj_pair)
  show ?thesis
  proof (cases "nic_label k = None \<or> nic_label k' = None")
    case False
    then obtain d f d' f' where k: "nic_label k = Some (d, f)" "nic_label k' = Some (d', f')" by auto
    show ?thesis
    proof (cases "d = d'")
      case True
      then have "nicField f = None \<or> nicField f \<noteq> nicField f'" using assms by (auto simp: nic_key_def k)
      then show ?thesis using True set_nic_commute[of "nicField f" "nicField f'" v v'] by (simp add: nic_step_def k)
    qed (simp add: nic_step_def k fun_upd_twist)
  qed (auto simp: nic_step_def split: option.splits)
qed

lemma nic_step_refines: "mget (note_nic_label kv m) = nic_step kv (mget m)"
  by (auto simp: note_nic_label_def nic_step_def Let_def fun_eq_iff mget_put split: prod.splits option.splits)

lemma nic_fold_refines: "mget (fold note_nic_label labels m) = fold nic_step labels (mget m)"
  by (induction labels arbitrary: m) (simp_all add: nic_step_refines)

interpretation nic_labels: loop_invariant note_nic_label wf_map
  by unfold_locales (auto simp: note_nic_label_def Let_def split: prod.splits option.splits)

lemma nicsFromLabels_order:
  assumes "mset labels = mset labels'" "unambiguous (nic_key \<circ> fst) labels"
  shows "nicsFromLabels labels = nicsFromLabels labels'"
proof -
  let ?m = "fold note_nic_label labels []" and ?m' = "fold note_nic_label labels' []"
  have "nic_step x (nic_step y g) = nic_step y (nic_step x g)" if "x \<in> set labels" "y \<in> set labels" "x \<noteq> y" for x y g
    by (rule nic_step_commute) (use unambiguous_keys[OF assms(2) that] in simp)
  then have "fold nic_step labels g = fold nic_step labels' g" for g by (rule fold_perm[OF _ assms(1)])
  then have g: "mget ?m = mget ?m'" by (simp add: nic_fold_refines)
  have "wf_map ?m" "wf_map ?m'" by (simp_all add: nic_labels.fold_inv)
  from lookup_mset[OF this g] have "mset (mkeys ?m) = mset (mkeys ?m')" unfolding mkeys_def mset_map by simp
  from sort_strings_perm[OF this] show ?thesis by (simp add: nicsFromLabels_def g Let_def)
qed

section \<open>The whole observation\<close>

definition one_label_per_fact :: "string gomap \<Rightarrow> bool" where
  "one_label_per_fact labels = (unambiguous (fact_key \<circ> fst) labels \<and> unambiguous (nic_key \<circ> fst) labels \<and> distinct_groups labels)"

text \<open>
  C30. The order in which Go ranges over the maps of a node does not reach the digest, as long as
  no two labels name one fact of one vendor or one device and no two vendors' accelerators have one
  vendor and one model: for every order of the labels and of the resources the digest is the
  same and so is the observation.
\<close>

theorem map_order_does_not_reach_the_digest:
  assumes "legal_labels (nd_labels node)" "one_label_per_fact (nd_labels node)"
    and "mset labels' = mset (nd_labels node)" "mset alloc' = mset alloc"
  shows "fingerprintDigest (observeNode q (node\<lparr>nd_labels := labels'\<rparr>) alloc') = fingerprintDigest (observeNode q node alloc) \<and>
    sameObservation (observeNode q node alloc) (observeNode q (node\<lparr>nd_labels := labels'\<rparr>) alloc')"
proof -
  let ?s = "observeNode q node alloc" and ?t = "observeNode q (node\<lparr>nd_labels := labels'\<rparr>) alloc'"
  note u = assms(2)[unfolded one_label_per_fact_def]
  have gpus: "fs_gpus ?t = fs_gpus ?s"
    using gpusFromLabels_order[OF assms(3)[symmetric]] gpusFromAllocatable_order[OF assms(4)] u by (simp add: observeNode_def gpusFrom_def Let_def)
  have nics: "fs_nics ?t = fs_nics ?s"
    using nicsFromLabels_order[OF assms(3)[symmetric]] u by (simp add: observeNode_def)
  have m: "mset (fs_labels ?t) = mset (fs_labels ?s)" using assms(3) by (simp add: observeNode_def salientLabels_def)
  have "wf_map (nd_labels node)" "wf_map labels'"
    using assms(1,3) mset_eq_imp_distinct_iff[of "map fst labels'" "map fst (nd_labels node)"] by (simp_all add: legal_labels_def wf_map_def)
  then have wf: "wf_map (fs_labels ?s)" "wf_map (fs_labels ?t)"
    by (auto simp: observeNode_def salientLabels_def wf_map_def distinct_map_filter)
  have l: "sorted_labels (fs_labels ?t) = sorted_labels (fs_labels ?s)" by (rule sorted_labels_mset[OF wf(2,1) m])
  have "digest_pairs ?t = digest_pairs ?s" unfolding digest_pairs_sorted l gpus nics by (simp add: observeNode_def)
  then have "fingerprintDigest ?t = fingerprintDigest ?s" by (simp add: fingerprintDigest_def digest_bytes_def)
  moreover have "maps_equal (fs_labels ?s) (fs_labels ?t)" by (rule same_sorted_labels[OF wf l[symmetric]])
  ultimately show ?thesis using gpus nics by (simp add: sameObservation_def observeNode_def)
qed

definition plain_node :: "string gomap \<Rightarrow> Node" where
  "plain_node labels = \<lparr>nd_unschedulable = False, nd_annotations = [], nd_labels = labels, nd_kernel = ''6.8.0'',
     nd_os_image = ''Ubuntu'', nd_architecture = ''amd64''\<rparr>"

theorem map_order_does_not_reach_the_digest_witness:
  "let labels = [(''nvidia.com/gpu.product'', ''NVIDIA-H100''), (''nvidia.com/gpu.count'', ''8''), (''example.com/nic.eth0.role'', ''fabric'')]
   in fingerprintDigest (observeNode (\<lambda>_. None) (plain_node (rev labels)) []) = fingerprintDigest (observeNode (\<lambda>_. None) (plain_node labels) [])"
proof -
  let ?l = "[(''nvidia.com/gpu.product'', ''NVIDIA-H100''), (''nvidia.com/gpu.count'', ''8''), (''example.com/nic.eth0.role'', ''fabric'')]"
  have "legal_labels ?l" "one_label_per_fact ?l" by code_simp+
  moreover have "mset (rev ?l) = mset ?l" by (rule mset_rev)
  ultimately show ?thesis
    using map_order_does_not_reach_the_digest[of "plain_node ?l" "rev ?l" "[]" "[]" "\<lambda>_. None"] by (simp add: plain_node_def)
qed

text \<open>
  The labels NVIDIA's feature discovery puts on every node: \<^verbatim>\<open>gpu.count\<close> is the number of
  devices, \<^verbatim>\<open>gpu.replicas\<close> the number of shares each is sliced into.
\<close>

definition discovered_labels :: "string gomap" where
  "discovered_labels = [(''nvidia.com/gpu.product'', ''NVIDIA-H100''), (''nvidia.com/gpu.count'', ''8''), (''nvidia.com/gpu.replicas'', ''1'')]"

text \<open>
  On such a node the order does reach it: both labels set the count, so that one iteration
  order of the same labels makes eight accelerators of it and another makes one, and the texts
  that are hashed differ.
\<close>

theorem replicas_label_makes_the_digest_flap:
  "let node = plain_node discovered_labels; node' = plain_node (rev discovered_labels)
   in maps_equal (nd_labels node) (nd_labels node') \<and>
      length (fs_gpus (observeNode (\<lambda>_. None) node [])) = 1 \<and> length (fs_gpus (observeNode (\<lambda>_. None) node' [])) = 8 \<and>
      digest_bytes (observeNode (\<lambda>_. None) node []) \<noteq> digest_bytes (observeNode (\<lambda>_. None) node' [])"
  by code_simp

text \<open>
  The predicate on node updates does not look at the resources, which a node without labels is
  fingerprinted by: a device that drops out of them wakes no pass.
\<close>

lemma allocatable_change_wakes_no_pass:
  "\<not> nodeIdentityChanged (plain_node [], info) (plain_node [], info) \<and>
   fs_gpus (observeNode (\<lambda>_. None) (plain_node []) [(''nvidia.com/gpu'', Some 8)]) \<noteq>
   fs_gpus (observeNode (\<lambda>_. None) (plain_node []) [(''nvidia.com/gpu'', Some 7)])"
proof
  show "\<not> nodeIdentityChanged (plain_node [], info) (plain_node [], info)"
    by (simp add: nodeIdentityChanged_def maps_equal_def plain_node_def)
  have "length (fs_gpus (observeNode (\<lambda>_. None) (plain_node []) [(''nvidia.com/gpu'', Some 8)])) = 8"
    "length (fs_gpus (observeNode (\<lambda>_. None) (plain_node []) [(''nvidia.com/gpu'', Some 7)])) = 7" by code_simp+
  then show "fs_gpus (observeNode (\<lambda>_. None) (plain_node []) [(''nvidia.com/gpu'', Some 8)]) \<noteq>
    fs_gpus (observeNode (\<lambda>_. None) (plain_node []) [(''nvidia.com/gpu'', Some 7)])" by auto
qed

end
