(* ===== verification/Envelope.thy ===== *)
theory Envelope
  imports Admission Run_Plan Attempts Go_Conv Go_Sha256
begin

text \<open>
  \<^verbatim>\<open>pkg/contract/envelope.go\<close>, \<^verbatim>\<open>producer.go\<close> and \<^verbatim>\<open>internal/sink/envelope.go\<close>: the document a sink is
  sent about a run, its identity and its validation. Times are nanoseconds; \<open>None\<close> is the zero time.
\<close>

section \<open>The document\<close>

definition Version :: string where
  "Version = ''burnin.glimmer.ai/v1alpha1''"

definition ReasonPhaseChanged :: string where "ReasonPhaseChanged = ''RunPhaseChanged''"
definition ReasonTestCompleted :: string where "ReasonTestCompleted = ''TestCompleted''"
definition ReasonCheckpoint :: string where "ReasonCheckpoint = ''Checkpoint''"

definition Reasons :: "string list" where
  "Reasons = [ReasonPhaseChanged, ReasonTestCompleted, ReasonCheckpoint]"

record RunRef =
  rr_namespace :: string
  rr_name :: string
  rr_uid :: string
  rr_profile :: string

record SegmentSummary =
  sg_completed :: int
  sg_required :: int
  sg_segment_seconds :: int
  sg_truncated_attempts :: int

record EnvTestResult =
  er_name :: string
  er_kind :: string
  er_scope :: string
  er_phase :: string
  er_nodes :: "string list"
  er_started_at :: "timestamp option"
  er_finished_at :: "timestamp option"
  er_metrics :: "string gomap"
  er_message :: msg
  er_violations :: "Violation list"
  er_not_evaluated :: "NotEvaluated list"
  er_applied :: "AppliedGate list"
  er_unmeasurable :: "string list"
  er_artifacts :: "ArtifactRef list"
  er_variant_axes :: "string gomap"
  er_segments :: "SegmentSummary option"

record Summary =
  su_passed :: int
  su_failed :: int
  su_errored :: int
  su_skipped :: int

record ClusterRef =
  cl_name :: string
  cl_uid :: string

record Progress =
  pg_planned_executions :: int
  pg_nodes :: "string list"
  pg_current_nodes :: "string list"

record Producer =
  pr_name :: string
  pr_version :: string
  pr_commit :: string

record Envelope =
  ev_version :: string
  ev_baseline :: bool
  ev_delivery_id :: string
  ev_reason :: string
  ev_sent_at :: "timestamp option"
  ev_run :: RunRef
  ev_producer :: "Producer option"
  ev_cluster :: "ClusterRef option"
  ev_phase :: string
  ev_cancel_reason :: string
  ev_checkpoint_sequence :: int
  ev_fingerprint :: "string gomap"
  ev_results :: "EnvTestResult list"
  ev_summary :: Summary
  ev_progress :: "Progress option"

definition er_is_synthetic :: "EnvTestResult \<Rightarrow> bool" where
  "er_is_synthetic r = (er_kind r = [])"

text \<open>\<open>hashed_id\<close> is what the digest is taken of; sixteen bytes are four words.\<close>

definition hashed_id :: "string \<Rightarrow> string \<Rightarrow> string \<Rightarrow> string" where
  "hashed_id runUID reason eventKey = runUID @ [byte 0] @ reason @ [byte 0] @ eventKey"

definition NewDeliveryID :: "string \<Rightarrow> string \<Rightarrow> string \<Rightarrow> string" where
  "NewDeliveryID runUID reason eventKey = EncodeToString (take 4 (Sum256 (hashed_id runUID reason eventKey)))"

section \<open>Validation\<close>

datatype ValidationReason = MustBeSet | UnknownVersion string | StableKey | StableIdentity | NoPlannedExecutions | BadName NameError

record ValidationError =
  ve_field :: string
  ve_reason :: ValidationReason

fun name_error_text :: "NameError \<Rightarrow> msg" where
  "name_error_text NameEmpty = Text ''metric name must not be empty''"
| "name_error_text (NameNotLowerCamel name) = Sprintf ''metric name %q must be lowerCamelCase (start with a lowercase letter)'' [AStr name]"
| "name_error_text (NameNotAlnum name r) = Sprintf ''metric name %q must be alphanumeric lowerCamelCase; found %q'' [AStr name, AStr [r]]"
| "name_error_text (NameUnitMismatch name u v) =
     Sprintf ''metric %q is registered with unit %q but its name declares %q'' [AStr name, AStr (unit_suffix u), AStr (unit_suffix v)]"

fun validation_reason :: "ValidationReason \<Rightarrow> msg" where
  "validation_reason MustBeSet = Text ''must be set''"
| "validation_reason (UnknownVersion v) = Sprintf ''unknown envelope version %s'' [AStr v]"
| "validation_reason StableKey = Text ''must be set; retries depend on a stable key''"
| "validation_reason StableIdentity = Text ''must be set; name alone is not stable identity''"
| "validation_reason NoPlannedExecutions = Text (''must be at least 1 when progress is present; an absent progress is '' @
     ''how an envelope says it was not observed'')"
| "validation_reason (BadName e) = name_error_text e"

definition validation_text :: "ValidationError \<Rightarrow> msg" where
  "validation_text e = Sprintf ''invalid envelope: %s: %s'' [AStr (ve_field e), AMsg (validation_reason (ve_reason e))]"

definition invalid_metric :: "nat \<times> EnvTestResult \<Rightarrow> ValidationError option" where
  "invalid_metric ir = (case ir of (i, r) \<Rightarrow>
     (case ValidateMetrics (er_metrics r) of
        [] \<Rightarrow> None
      | e # _ \<Rightarrow> Some \<lparr>ve_field = ''results['' @ Itoa (int i) @ ''].metrics'', ve_reason = BadName e\<rparr>))"

fun first_error :: "('a \<Rightarrow> 'e option) \<Rightarrow> 'a list \<Rightarrow> 'e option" where
  "first_error f [] = None"
| "first_error f (x # xs) = (case f x of Some e \<Rightarrow> Some e | None \<Rightarrow> first_error f xs)"

definition Validate :: "Envelope \<Rightarrow> ValidationError option" where
  "Validate e =
     (if ev_version e = [] then Some \<lparr>ve_field = ''version'', ve_reason = MustBeSet\<rparr>
      else if ev_version e \<noteq> Version then Some \<lparr>ve_field = ''version'', ve_reason = UnknownVersion (ev_version e)\<rparr>
      else if ev_delivery_id e = [] then Some \<lparr>ve_field = ''deliveryId'', ve_reason = StableKey\<rparr>
      else if ev_reason e = [] then Some \<lparr>ve_field = ''reason'', ve_reason = MustBeSet\<rparr>
      else if rr_uid (ev_run e) = [] then Some \<lparr>ve_field = ''run.uid'', ve_reason = StableIdentity\<rparr>
      else if ev_sent_at e = None then Some \<lparr>ve_field = ''sentAt'', ve_reason = MustBeSet\<rparr>
      else if (case ev_progress e of None \<Rightarrow> False | Some p \<Rightarrow> pg_planned_executions p < 1)
        then Some \<lparr>ve_field = ''progress.plannedExecutions'', ve_reason = NoPlannedExecutions\<rparr>
      else first_error invalid_metric (enumerate 0 (ev_results e)))"

section \<open>Who sends it\<close>

text \<open>\<open>build\<close> is what \<^verbatim>\<open>debug.ReadBuildInfo\<close> answers: the main version and the settings.\<close>

definition vcs_note :: "string \<times> string \<Rightarrow> string \<times> bool \<Rightarrow> string \<times> bool" where
  "vcs_note s st = (case (s, st) of ((key, value), revision, dirty) \<Rightarrow>
     if key = ''vcs.revision'' then (value, dirty)
     else if key = ''vcs.modified'' then (revision, value = ''true'')
     else (revision, dirty))"

definition ProducerFromBuild :: "(string \<times> (string \<times> string) list) option \<Rightarrow> string \<Rightarrow> string \<Rightarrow> string \<Rightarrow> Producer" where
  "ProducerFromBuild build name stampedVersion stampedCommit =
     (let p = \<lparr>pr_name = name, pr_version = stampedVersion, pr_commit = stampedCommit\<rparr>;
          p = (case build of
                 None \<Rightarrow> p
               | Some (main, settings) \<Rightarrow>
                   (let p = (if (pr_version p = [] \<or> pr_version p = ''(devel)'') \<and> main \<noteq> [] then p\<lparr>pr_version := main\<rparr> else p)
                    in if pr_commit p = []
                       then (case fold vcs_note settings ([], False) of (revision, dirty) \<Rightarrow>
                         p\<lparr>pr_commit := (if revision \<noteq> [] \<and> dirty then revision @ ''-dirty'' else revision)\<rparr>)
                       else p))
      in if pr_version p = [] then p\<lparr>pr_version := ''(devel)''\<rparr> else p)"

section \<open>From a run to its document\<close>

fun run_phase_word :: "RunPhase \<Rightarrow> string" where
  "run_phase_word RunPending = ''Pending''"
| "run_phase_word RunRunning = ''Running''"
| "run_phase_word RunPassed = ''Passed''"
| "run_phase_word RunFailed = ''Failed''"
| "run_phase_word RunError = ''Error''"
| "run_phase_word RunSkipped = ''Skipped''"
| "run_phase_word RunCancelled = ''Cancelled''"
| "run_phase_word RunUnset = []"
| "run_phase_word (OtherRunPhase s) = s"

fun scope_word :: "TestScope \<Rightarrow> string" where
  "scope_word ScopeNode = ''Node''"
| "scope_word ScopePair = ''Pair''"
| "scope_word ScopeGroup = ''Group''"
| "scope_word ScopeUnset = []"
| "scope_word (OtherScope s) = s"

definition testResult :: "TestResult \<Rightarrow> EnvTestResult" where
  "testResult r =
     \<lparr>er_name = tr_name r, er_kind = (case tr_kind r of None \<Rightarrow> [] | Some k \<Rightarrow> kind_string k), er_scope = scope_word (tr_scope r),
      er_phase = run_phase_word (tr_phase r), er_nodes = tr_nodes r, er_started_at = tr_started_at r,
      er_finished_at = tr_finished_at r, er_metrics = tr_metrics r, er_message = tr_message r,
      er_violations = tr_violations r, er_not_evaluated = tr_not_evaluated r, er_applied = tr_applied r,
      er_unmeasurable = tr_unmeasurable r, er_artifacts = tr_artifacts r, er_variant_axes = tr_variant_axes r,
      er_segments = (if tr_segments_required r > 0
        then Some \<lparr>sg_completed = tr_segments_completed r, sg_required = tr_segments_required r,
                   sg_segment_seconds = tr_segment_seconds r, sg_truncated_attempts = tr_truncated_attempts r\<rparr>
        else None)\<rparr>"

definition PhaseKey :: "RunPhase \<Rightarrow> string" where
  "PhaseKey phase = run_phase_word phase"

definition TestKey :: "string \<Rightarrow> string" where
  "TestKey testName = testName"

definition CheckpointKey :: "int \<Rightarrow> string" where
  "CheckpointKey sequence = Itoa sequence"

definition EnvelopeFor ::
  "Producer \<Rightarrow> BurnInRun \<Rightarrow> string \<Rightarrow> string \<Rightarrow> string \<Rightarrow> timestamp option \<Rightarrow> ClusterRef option \<Rightarrow> bool \<Rightarrow> Progress option \<Rightarrow> Envelope" where
  "EnvelopeFor producer run profile reason eventKey now cluster baseline prog =
     (let st = run_status run in
      \<lparr>ev_version = Version, ev_baseline = baseline, ev_delivery_id = NewDeliveryID (run_uid run) reason eventKey,
       ev_reason = reason, ev_sent_at = now,
       ev_run = \<lparr>rr_namespace = run_namespace run, rr_name = run_name run, rr_uid = run_uid run, rr_profile = profile\<rparr>,
       ev_producer = Some producer, ev_cluster = cluster, ev_phase = run_phase_word (st_phase st),
       ev_cancel_reason = (if st_phase st = RunCancelled then sp_cancel_reason (run_spec run) else []),
       ev_checkpoint_sequence = (if reason = ReasonCheckpoint then (case ParseInt 64 eventKey of Some n \<Rightarrow> n | None \<Rightarrow> 0) else 0),
       ev_fingerprint = st_fingerprint st, ev_results = map testResult (st_results st),
       ev_summary = \<lparr>su_passed = st_passed st, su_failed = st_failed st, su_errored = st_errored st, su_skipped = st_skipped st\<rparr>,
       ev_progress = prog\<rparr>)"

section \<open>What the pinned plan says (internal/controller/deliver.go)\<close>

definition pinnedBaseline :: "plan option \<Rightarrow> BurnInRun \<Rightarrow> bool" where
  "pinnedBaseline pinned run = (case pinned of Some p \<Rightarrow> pn_baseline p | None \<Rightarrow> isBaseline run)"

definition running_nodes :: "BurnInRun \<Rightarrow> nameset" where
  "running_nodes run = fold (\<lambda>res running. if tr_phase res \<noteq> RunRunning then running
     else fold (\<lambda>n. mput n True) (tr_nodes res) running) (st_results (run_status run)) []"

definition pinnedProgress :: "plan option \<Rightarrow> BurnInRun \<Rightarrow> Progress option" where
  "pinnedProgress pinned run = (case pinned of
     None \<Rightarrow> None
   | Some p \<Rightarrow>
       (let planned = (\<Sum>t \<leftarrow> pn_tests p. length (executionUnits p t)) in
        if planned = 0 then None
        else Some \<lparr>pg_planned_executions = int planned, pg_nodes = pn_targets p,
          pg_current_nodes = filter (flagged (running_nodes run)) (pn_targets p)\<rparr>))"

section \<open>Identity\<close>

definition names_event :: "string \<Rightarrow> string \<Rightarrow> bool" where
  "names_event uid reason = (byte 0 \<notin> set uid \<and> byte 0 \<notin> set reason)"

lemma hashed_id_inj:
  assumes "names_event u r" "names_event u' r'"
  shows "hashed_id u r k = hashed_id u' r' k' \<longleftrightarrow> u = u' \<and> r = r' \<and> k = k'"
proof
  assume h: "hashed_id u r k = hashed_id u' r' k'"
  have c: "cut_at (byte 0) (hashed_id u r k) = Some (u, r @ byte 0 # k)" "cut_at (byte 0) (hashed_id u' r' k') = Some (u', r' @ byte 0 # k')"
    using assms cut_at_append[of "byte 0" u "r @ byte 0 # k"] cut_at_append[of "byte 0" u' "r' @ byte 0 # k'"]
    by (simp_all add: hashed_id_def names_event_def)
  then have e: "u = u'" "r @ byte 0 # k = r' @ byte 0 # k'" using h by simp_all
  then have "cut_at (byte 0) (r @ byte 0 # k) = cut_at (byte 0) (r' @ byte 0 # k')" by simp
  then have "r = r'" "k = k'" using assms by (simp_all add: cut_at_append names_event_def)
  then show "u = u' \<and> r = r' \<and> k = k'" using e(1) by simp
qed simp

text \<open>No two events of the pair have one truncated hash.\<close>

definition ids_differ :: "string \<Rightarrow> string \<Rightarrow> bool" where
  "ids_differ a b = (a = b \<or> EncodeToString (take 4 (Sum256 a)) \<noteq> EncodeToString (take 4 (Sum256 b)))"

lemma run_phase_word_inj:
  "list_all (\<lambda>p. \<not> (\<exists>s. p = OtherRunPhase s)) [p, q] \<Longrightarrow> run_phase_word p = run_phase_word q \<longleftrightarrow> p = q"
  by (cases p; cases q) simp_all

text \<open>
  The identity of a delivery is the identity of what it reports. Whatever has changed in the
  run, the sinks or the clock since, a redelivery of an event has the ID of the first delivery, so that
  a consumer can drop it; and two envelopes have one ID only if they are of one run (by UID), of one
  reason and of one key, unless the truncated SHA-256 collides.
\<close>

theorem delivery_id_identifies_the_event:
  assumes "names_event (run_uid run) reason" "names_event (run_uid run') reason'"
    and "ids_differ (hashed_id (run_uid run) reason key) (hashed_id (run_uid run') reason' key')"
  shows "ev_delivery_id (EnvelopeFor pr run profile reason key now cluster baseline prog) =
      ev_delivery_id (EnvelopeFor pr' run' profile' reason' key' now' cluster' baseline' prog') \<longleftrightarrow>
    run_uid run = run_uid run' \<and> reason = reason' \<and> key = key'"
  using assms(3) hashed_id_inj[OF assms(1,2)] by (auto simp: EnvelopeFor_def Let_def NewDeliveryID_def ids_differ_def)

theorem delivery_id_identifies_the_event_witness:
  "let run = new_run ''u1'' 5 [''n1'']; p = ProducerFromBuild None ''x'' [] []
   in ev_delivery_id (EnvelopeFor p run ''acceptance'' ReasonPhaseChanged (PhaseKey RunPassed) (Some 7) None False None) =
      ev_delivery_id (EnvelopeFor p (run\<lparr>run_namespace := ''other''\<rparr>) ''acceptance'' ReasonPhaseChanged (PhaseKey RunPassed) (Some 9) None True None)"
proof -
  let ?run = "new_run ''u1'' 5 [''n1'']" and ?p = "ProducerFromBuild None ''x'' [] []"
  have "names_event ''u1'' ReasonPhaseChanged" by code_simp
  then show ?thesis
    using delivery_id_identifies_the_event[of ?run ReasonPhaseChanged "(?run)\<lparr>run_namespace := ''other''\<rparr>" ReasonPhaseChanged
        "PhaseKey RunPassed" "PhaseKey RunPassed" ?p "''acceptance''" "Some 7" None False None ?p "''acceptance''" "Some 9" None True None]
    by (simp add: ids_differ_def new_run_def)
qed

section \<open>What the controller builds is valid\<close>

lemma invalid_metric_None: "invalid_metric (i, r) = None \<longleftrightarrow> (\<forall>name \<in> set (mkeys (er_metrics r)). valid_name name)"
  by (simp add: invalid_metric_def ValidateMetrics_Nil[symmetric] split: list.splits)

lemma length_NewDeliveryID: "length (NewDeliveryID u r k) = 32"
  by (simp add: NewDeliveryID_def length_EncodeToString length_Sum256)

lemma pinnedProgress_positive: "pinnedProgress pinned run = Some g \<Longrightarrow> pg_planned_executions g \<ge> 1"
  by (auto simp: pinnedProgress_def Let_def Suc_le_eq simp del: sum_list_eq_0_iff split: option.splits if_splits)

lemma first_error_metrics:
  "first_error invalid_metric (enumerate k rs) = None \<longleftrightarrow> (\<forall>r \<in> set rs. \<forall>name \<in> set (mkeys (er_metrics r)). valid_name name)"
proof (induction rs arbitrary: k)
  case (Cons r rs)
  then show ?case using invalid_metric_None[of k r] by (cases "invalid_metric (k, r)") auto
qed simp

text \<open>An envelope of the controller fails validation only for its run's identity or a metric's name.\<close>

lemma EnvelopeFor_valid:
  assumes "reason \<in> set Reasons"
  shows "Validate (EnvelopeFor pr run profile reason key (Some now) cluster baseline (pinnedProgress pinned run)) = None \<longleftrightarrow>
    run_uid run \<noteq> [] \<and> (\<forall>r \<in> set (st_results (run_status run)). \<forall>name \<in> set (mkeys (tr_metrics r)). valid_name name)"
proof -
  let ?e = "EnvelopeFor pr run profile reason key (Some now) cluster baseline (pinnedProgress pinned run)"
  have r: "reason \<noteq> []" using assms by (auto simp: Reasons_def ReasonPhaseChanged_def ReasonTestCompleted_def ReasonCheckpoint_def)
  have id: "NewDeliveryID (run_uid run) reason key \<noteq> []" using length_NewDeliveryID[of "run_uid run" reason key] by auto
  have p: "\<not> (case pinnedProgress pinned run of None \<Rightarrow> False | Some p \<Rightarrow> pg_planned_executions p < 1)"
    using pinnedProgress_positive[of pinned run] by (auto split: option.splits)
  have "Validate ?e = None \<longleftrightarrow> run_uid run \<noteq> [] \<and> first_error invalid_metric (enumerate 0 (map testResult (st_results (run_status run)))) = None"
    using r id p by (simp add: Validate_def EnvelopeFor_def Let_def Version_def)
  also have "first_error invalid_metric (enumerate 0 (map testResult (st_results (run_status run)))) = None \<longleftrightarrow>
      (\<forall>r \<in> set (st_results (run_status run)). \<forall>name \<in> set (mkeys (tr_metrics r)). valid_name name)"
    unfolding first_error_metrics by (simp add: testResult_def)
  finally show ?thesis .
qed

end
