(* ===== verification/Delivery.thy ===== *)
theory Delivery
  imports Envelope Kube_Api
begin

text \<open>
  \<^verbatim>\<open>internal/sink\<close> and \<^verbatim>\<open>internal/controller/deliver.go\<close>: retries, the kinds of sink, and the fan-out of an
  envelope to the sinks of a run. Parameters: what the network, the clock and the API server answer
  (\<open>DelEnv\<close>), the JSON text of an envelope (\<open>dn_encode\<close>, with the messages rendered) and
  the in-process metrics endpoint (\<open>dn_prometheus\<close>). The answers depend on the sink and on the
  number of the attempt.
\<close>

section \<open>Errors and retries\<close>

record SendError =
  se_permanent :: bool
  se_text :: msg

definition Permanent :: "msg \<Rightarrow> SendError" where
  "Permanent m = \<lparr>se_permanent = True, se_text = m\<rparr>"

definition Retryable :: "msg \<Rightarrow> SendError" where
  "Retryable m = \<lparr>se_permanent = False, se_text = m\<rparr>"

text \<open>\<^verbatim>\<open>fmt.Errorf\<close> with \<^verbatim>\<open>%w\<close>: the text is wrapped and the kind of the wrapped error still found.\<close>

definition wrapped :: "string \<Rightarrow> arg list \<Rightarrow> SendError \<Rightarrow> SendError" where
  "wrapped fmt args e = \<lparr>se_permanent = se_permanent e, se_text = Sprintf fmt (args @ [AMsg (se_text e)])\<rparr>"

record RetryPolicy =
  rp_max_attempts :: int
  rp_base :: int
  rp_max :: int
  rp_jitter :: bool

definition DefaultRetryPolicy :: RetryPolicy where
  "DefaultRetryPolicy = \<lparr>rp_max_attempts = 6, rp_base = 2 * second, rp_max = 120 * second, rp_jitter = True\<rparr>"

definition withDefaults :: "RetryPolicy \<Rightarrow> RetryPolicy" where
  "withDefaults p =
     (let p = (if rp_max_attempts p \<le> 0 then p\<lparr>rp_max_attempts := rp_max_attempts DefaultRetryPolicy\<rparr> else p);
          p = (if rp_base p \<le> 0 then p\<lparr>rp_base := rp_base DefaultRetryPolicy\<rparr> else p)
      in if rp_max p \<le> 0 then p\<lparr>rp_max := rp_max DefaultRetryPolicy\<rparr> else p)"

fun double_to :: "nat \<Rightarrow> int \<Rightarrow> int \<Rightarrow> int" where
  "double_to 0 mx d = d"
| "double_to (Suc n) mx d = (if 2 * d \<ge> mx then mx else double_to n mx (2 * d))"

text \<open>\<open>jitter\<close> is the perturbation of a duration by the random source, when the policy asks for it.\<close>

definition backoff :: "(int \<Rightarrow> int) \<Rightarrow> RetryPolicy \<Rightarrow> nat \<Rightarrow> int" where
  "backoff jitter p attempt =
     (let d = double_to (attempt - 2) (rp_max p) (rp_base p) in
      if rp_jitter p then (let d = jitter d in if d < 0 then 0 else d) else d)"

section \<open>Sinks\<close>

datatype SinkType = SinkWebhook | SinkPrometheus | SinkConfigMap | OtherSink string

record SecretRef =
  sr_name :: string
  sr_key :: string

record WebhookSink =
  wh_url :: string
  wh_token_secret_ref :: "SecretRef option"
  wh_insecure_skip_verify :: bool

record BurnInSink =
  sk_type :: SinkType
  sk_webhook :: "WebhookSink option"
  sk_config_map :: "string option"
  sk_last_delivery :: "timestamp option"
  sk_last_error :: "msg option"

text \<open>The namespace of a run: its sinks, its secrets and its ConfigMaps, and what webhooks have accepted.\<close>

record Post =
  po_url :: string
  po_token :: string
  po_key :: string
  po_body :: string

record DelWorld =
  dw_sinks :: "BurnInSink gomap"
  dw_secrets :: "string gomap gomap"
  dw_config_maps :: "string gomap gomap"
  dw_posts :: "Post list"

datatype HttpAnswer = HttpRefused string | HttpStatus int string string

datatype DelCall = DelGetSink string | DelGetSecret string | DelGetMap string | DelCreateMap string | DelUpdateMap string | DelSinkStatus string

record DelEnv =
  dn_api :: "DelCall \<Rightarrow> nat \<Rightarrow> ApiErr option"
  dn_exists :: "string \<Rightarrow> nat \<Rightarrow> bool"
  dn_http :: "Post \<Rightarrow> nat \<Rightarrow> HttpAnswer"
  dn_url_ok :: "string \<Rightarrow> bool"
  dn_encode :: "Envelope \<Rightarrow> string"
  dn_prometheus :: "Envelope \<Rightarrow> SendError option"
  dn_expired :: "string \<Rightarrow> nat \<Rightarrow> string option"
  dn_sleep :: "string \<Rightarrow> nat \<Rightarrow> string option"
  dn_jitter :: "int \<Rightarrow> int"
  dn_now :: timestamp
  dn_producer :: Producer
  dn_cluster :: "ClusterRef option"

datatype Deliverer = Webhook string string bool | ConfigMapSink string string | Prometheus string string

definition resolveToken :: "DelEnv \<Rightarrow> string \<Rightarrow> SecretRef option \<Rightarrow> DelWorld \<Rightarrow> SendError + string" where
  "resolveToken en namespace ref w = (case ref of
     None \<Rightarrow> Inr []
   | Some r \<Rightarrow> (case (case dn_api en (DelGetSecret (sr_name r)) 0 of Some e \<Rightarrow> Inl e
                    | None \<Rightarrow> (case mget (dw_secrets w) (sr_name r) of None \<Rightarrow> Inl ApiNotFound | Some d \<Rightarrow> Inr d)) of
       Inl e \<Rightarrow> Inl (Permanent (Sprintf ''read token secret %s/%s: %w''
         [AStr namespace, AStr (sr_name r), AStr (err_text ''secrets'' (sr_name r) e)]))
     | Inr d \<Rightarrow> (case mget d (sr_key r) of
         None \<Rightarrow> Inl (Permanent (Sprintf ''secret %s/%s has no key %q'' [AStr namespace, AStr (sr_name r), AStr (sr_key r)]))
       | Some v \<Rightarrow> if v = [] then Inl (Permanent (Sprintf ''secret %s/%s key %q is empty'' [AStr namespace, AStr (sr_name r), AStr (sr_key r)]))
                   else Inr v)))"

fun sink_type_word :: "SinkType \<Rightarrow> string" where
  "sink_type_word SinkWebhook = ''Webhook''"
| "sink_type_word SinkPrometheus = ''Prometheus''"
| "sink_type_word SinkConfigMap = ''ConfigMap''"
| "sink_type_word (OtherSink s) = s"

definition Build :: "DelEnv \<Rightarrow> string \<Rightarrow> string \<Rightarrow> BurnInSink \<Rightarrow> DelWorld \<Rightarrow> SendError + Deliverer" where
  "Build en namespace name s w = (case sk_type s of
     SinkWebhook \<Rightarrow> (case sk_webhook s of
       None \<Rightarrow> Inl (Permanent (Sprintf ''sink %s/%s has type Webhook but no webhook config'' [AStr namespace, AStr name]))
     | Some wh \<Rightarrow> (case resolveToken en namespace (wh_token_secret_ref wh) w of
         Inl e \<Rightarrow> Inl e
       | Inr token \<Rightarrow> Inr (Webhook (wh_url wh) token (wh_insecure_skip_verify wh))))
   | SinkConfigMap \<Rightarrow> (case sk_config_map s of
       None \<Rightarrow> Inl (Permanent (Sprintf ''sink %s/%s has type ConfigMap but no configMap config'' [AStr namespace, AStr name]))
     | Some cm \<Rightarrow> Inr (ConfigMapSink namespace cm))
   | SinkPrometheus \<Rightarrow> Inr (Prometheus namespace name)
   | OtherSink ty \<Rightarrow> Inl (Permanent (Sprintf ''sink %s/%s has unknown type %q'' [AStr namespace, AStr name, AStr ty])))"

fun Describe :: "Deliverer \<Rightarrow> string" where
  "Describe (Webhook url _ _) = ''webhook '' @ url"
| "Describe (ConfigMapSink ns name) = ''configmap '' @ ns @ ''/'' @ name"
| "Describe (Prometheus ns name) = ''prometheus '' @ ns @ ''/'' @ name"

section \<open>One delivery\<close>

definition status_error :: "string \<Rightarrow> int \<Rightarrow> string \<Rightarrow> string \<Rightarrow> SendError option" where
  "status_error url code stat snippet =
     (if 200 \<le> code \<and> code < 300 then None
      else if code = 429 \<or> code = 408 then Some (Retryable (Sprintf ''%s returned %s: %s'' [AStr url, AStr stat, AStr snippet]))
      else if 400 \<le> code \<and> code < 500
        then Some (Permanent (Sprintf ''%s rejected the delivery with %s: %s'' [AStr url, AStr stat, AStr snippet]))
      else Some (Retryable (Sprintf ''%s returned %s: %s'' [AStr url, AStr stat, AStr snippet])))"

definition deliver_webhook :: "DelEnv \<Rightarrow> string \<Rightarrow> string \<Rightarrow> nat \<Rightarrow> Envelope \<Rightarrow> DelWorld \<Rightarrow> SendError option \<times> DelWorld" where
  "deliver_webhook en url token attempt env w =
     (let post = \<lparr>po_url = url, po_token = token, po_key = ev_delivery_id env, po_body = dn_encode en env\<rparr> in
      if \<not> dn_url_ok en url then (Some (Permanent (Sprintf ''build request: %w'' [AStr url])), w)
      else (case dn_http en post attempt of
        HttpRefused e \<Rightarrow> (Some (Retryable (Sprintf ''post to %s: %w'' [AStr url, AStr e])), w)
      | HttpStatus code stat body \<Rightarrow>
          (case status_error url code stat (take 2048 body) of
             None \<Rightarrow> (None, w\<lparr>dw_posts := dw_posts w @ [post]\<rparr>)
           | Some e \<Rightarrow> (Some e, w))))"

definition maxConfigMapBytes :: nat where
  "maxConfigMapBytes = 900 * 1024"

definition dataSize :: "string gomap \<Rightarrow> nat" where
  "dataSize data = (\<Sum>(k, v) \<leftarrow> data. length k + length v)"

definition deliver_configmap :: "DelEnv \<Rightarrow> string \<Rightarrow> string \<Rightarrow> nat \<Rightarrow> Envelope \<Rightarrow> DelWorld \<Rightarrow> SendError option \<times> DelWorld" where
  "deliver_configmap en ns name attempt env w =
     (let body = dn_encode en env; id = ev_delivery_id env;
          create = (if dn_exists en name attempt \<or> mhas (dw_config_maps w) name
              then (Some (Retryable (Sprintf ''configmap %s/%s was created concurrently, retrying as update'' [AStr ns, AStr name])), w)
            else (case dn_api en (DelCreateMap name) attempt of
              Some e \<Rightarrow> (Some (Retryable (Sprintf ''create configmap %s/%s: %w'' [AStr ns, AStr name, AStr (err_text ''configmaps'' name e)])), w)
            | None \<Rightarrow> (None, w\<lparr>dw_config_maps := mput name [(id, body)] (dw_config_maps w)\<rparr>)))
      in case dn_api en (DelGetMap name) attempt of
           Some ApiNotFound \<Rightarrow> create
         | Some e \<Rightarrow> (Some (Retryable (Sprintf ''get configmap %s/%s: %w'' [AStr ns, AStr name, AStr (err_text ''configmaps'' name e)])), w)
         | None \<Rightarrow> (case mget (dw_config_maps w) name of
             None \<Rightarrow> create
           | Some data \<Rightarrow>
               if mget data id = Some body then (None, w)
               else (let data' = mput id body data in
                 if dataSize data' > maxConfigMapBytes
                 then (Some (Permanent (Sprintf ''configmap %s/%s would reach %d bytes, over the %d limit; rotate or shard the sink''
                        [AStr ns, AStr name, AInt (int (dataSize data')), AInt (int maxConfigMapBytes)])), w)
                 else (case dn_api en (DelUpdateMap name) attempt of
                   Some e \<Rightarrow> (Some (Retryable (Sprintf ''update configmap %s/%s: %w'' [AStr ns, AStr name, AStr (err_text ''configmaps'' name e)])), w)
                 | None \<Rightarrow> (None, w\<lparr>dw_config_maps := mput name data' (dw_config_maps w)\<rparr>)))))"

fun Deliver :: "DelEnv \<Rightarrow> Deliverer \<Rightarrow> nat \<Rightarrow> Envelope \<Rightarrow> DelWorld \<Rightarrow> SendError option \<times> DelWorld" where
  "Deliver en (Webhook url token _) attempt env w = deliver_webhook en url token attempt env w"
| "Deliver en (ConfigMapSink ns name) attempt env w = deliver_configmap en ns name attempt env w"
| "Deliver en (Prometheus _ _) attempt env w = (dn_prometheus en env, w)"

section \<open>Send\<close>

text \<open>
  The loop over attempts: \<open>left\<close> are the attempts still allowed, \<open>attempt\<close> the number of the next,
  \<open>prev\<close> the last error. The pauses it took are collected.
\<close>

fun send_loop ::
  "DelEnv \<Rightarrow> Deliverer \<Rightarrow> RetryPolicy \<Rightarrow> Envelope \<Rightarrow> nat \<Rightarrow> nat \<Rightarrow> SendError option \<Rightarrow> int list \<Rightarrow> DelWorld \<Rightarrow>
   SendError option \<times> int list \<times> DelWorld" where
  "send_loop en d p env 0 attempt prev pauses w =
     (Some (wrapped ''delivery to %s failed after %d attempts: %w'' [AStr (Describe d), AInt (rp_max_attempts p)]
        (case prev of Some e \<Rightarrow> e | None \<Rightarrow> Retryable (Text []))), pauses, w)"
| "send_loop en d p env (Suc left) attempt prev pauses w =
     (let pause = backoff (dn_jitter en) p attempt;
          pauses' = (if attempt > 1 then pauses @ [pause] else pauses);
          slept = (if attempt > 1 \<and> pause > 0 then dn_sleep en (Describe d) attempt else None)
      in case slept of
           Some e \<Rightarrow> (Some (Retryable (Sprintf ''delivery to %s abandoned after %d attempt(s): %w (last error: %v)''
             [AStr (Describe d), AInt (int attempt - 1), AStr e, AMsg (case prev of Some e \<Rightarrow> se_text e | None \<Rightarrow> Text [])])), pauses', w)
         | None \<Rightarrow> (case Deliver en d attempt env w of
             (None, w) \<Rightarrow> (None, pauses', w)
           | (Some e, w) \<Rightarrow>
               if se_permanent e then (Some (wrapped ''delivery to %s failed permanently: %w'' [AStr (Describe d)] e), pauses', w)
               else (case dn_expired en (Describe d) attempt of
                 Some c \<Rightarrow> (Some (Retryable (Sprintf ''delivery to %s abandoned: %w (last error: %v)''
                   [AStr (Describe d), AStr c, AMsg (se_text e)])), pauses', w)
               | None \<Rightarrow> send_loop en d p env left (Suc attempt) (Some e) pauses' w)))"

definition Send :: "DelEnv \<Rightarrow> Deliverer \<Rightarrow> RetryPolicy \<Rightarrow> Envelope \<Rightarrow> DelWorld \<Rightarrow> SendError option \<times> int list \<times> DelWorld" where
  "Send en d policy env w = (case Validate env of
     Some e \<Rightarrow> (Some (Permanent (validation_text e)), [], w)
   | None \<Rightarrow> (let p = withDefaults policy in send_loop en d p env (nat (rp_max_attempts p)) 1 None [] w))"

section \<open>The fan-out of the controller\<close>

definition deliveryTimeout :: int where
  "deliveryTimeout = 15 * second"

definition deliverRetry :: RetryPolicy where
  "deliverRetry = \<lparr>rp_max_attempts = 2, rp_base = second, rp_max = 2 * second, rp_jitter = False\<rparr>"

definition note_delivery :: "DelEnv \<Rightarrow> string \<Rightarrow> BurnInSink \<Rightarrow> SendError option \<Rightarrow> DelWorld \<Rightarrow> DelWorld" where
  "note_delivery en name s result w =
     (let s = (case result of
            Some e \<Rightarrow> s\<lparr>sk_last_error := Some (se_text e)\<rparr>
          | None \<Rightarrow> s\<lparr>sk_last_delivery := Some (dn_now en), sk_last_error := None\<rparr>)
      in case dn_api en (DelSinkStatus name) 0 of
           Some _ \<Rightarrow> w
         | None \<Rightarrow> w\<lparr>dw_sinks := mput name s (dw_sinks w)\<rparr>)"

definition deliver_one :: "DelEnv \<Rightarrow> string \<Rightarrow> Envelope \<Rightarrow> string \<Rightarrow> bool \<times> DelWorld \<Rightarrow> bool \<times> DelWorld" where
  "deliver_one en namespace env name st = (case st of (allOK, w) \<Rightarrow>
     (case (if dn_api en (DelGetSink name) 0 \<noteq> None then None else mget (dw_sinks w) name) of
        None \<Rightarrow> (False, w)
      | Some s \<Rightarrow>
          (case (case Build en namespace name s w of
                   Inl e \<Rightarrow> (Some e, w)
                 | Inr d \<Rightarrow> (case Send en d deliverRetry env w of (r, _, w) \<Rightarrow> (r, w))) of
             (result, w) \<Rightarrow> (allOK \<and> result = None, note_delivery en name s result w))))"

definition deliver_run :: "DelEnv \<Rightarrow> plan option \<Rightarrow> BurnInRun \<Rightarrow> string list \<Rightarrow> string \<Rightarrow> string \<Rightarrow> DelWorld \<Rightarrow> bool \<times> DelWorld" where
  "deliver_run en pinned run sinks reason eventKey w =
     (if sinks = [] then (True, w)
      else (let env = EnvelopeFor (dn_producer en) run (sp_profile_ref (run_spec run)) reason eventKey (Some (dn_now en))
                  (dn_cluster en) (pinnedBaseline pinned run) (pinnedProgress pinned run)
            in fold (deliver_one en (run_namespace run) env) sinks (True, w)))"

definition deliverPhase :: "DelEnv \<Rightarrow> plan option \<Rightarrow> BurnInRun \<Rightarrow> string list \<Rightarrow> RunPhase \<Rightarrow> DelWorld \<Rightarrow> bool \<times> DelWorld" where
  "deliverPhase en pinned run sinks phase = deliver_run en pinned run sinks ReasonPhaseChanged (PhaseKey phase)"

definition deliverTestCompleted :: "DelEnv \<Rightarrow> plan option \<Rightarrow> BurnInRun \<Rightarrow> string list \<Rightarrow> string \<Rightarrow> DelWorld \<Rightarrow> bool \<times> DelWorld" where
  "deliverTestCompleted en pinned run sinks key = deliver_run en pinned run sinks ReasonTestCompleted (TestKey key)"

definition deliverCheckpoint :: "DelEnv \<Rightarrow> plan option \<Rightarrow> BurnInRun \<Rightarrow> string list \<Rightarrow> int \<Rightarrow> DelWorld \<Rightarrow> bool \<times> DelWorld" where
  "deliverCheckpoint en pinned run sinks sequence = deliver_run en pinned run sinks ReasonCheckpoint (CheckpointKey sequence)"

end
