(* ===== verification/Delivery_Facts.thy ===== *)
theory Delivery_Facts
  imports Delivery
begin

text \<open>
  What delivery guarantees: pauses and attempts are bounded, what is reported as delivered was accepted, a
  ConfigMap sink loses nothing and stays in its budget.
\<close>

section \<open>Pauses\<close>

lemma double_to_min: "0 < b \<Longrightarrow> b \<le> mx \<Longrightarrow> double_to n mx b = min (b * 2 ^ n) mx"
proof (induction n mx b rule: double_to.induct)
  case (2 n mx d)
  show ?case
  proof (cases "2 * d \<ge> mx")
    case True
    have "mx \<le> 2 * d * 2 ^ n" using True 2(2) by (smt (verit) mult_le_cancel_left1 one_le_power)
    then show ?thesis using True by (simp add: mult.assoc min_def)
  next
    case False
    then show ?thesis using 2 by (simp add: mult.assoc mult.left_commute)
  qed
qed simp

definition sane :: "RetryPolicy \<Rightarrow> bool" where
  "sane p = (0 < rp_base p \<and> rp_base p \<le> rp_max p \<and> \<not> rp_jitter p)"

lemma backoff_exact: "sane p \<Longrightarrow> backoff j p attempt = min (rp_base p * 2 ^ (attempt - 2)) (rp_max p)"
  by (simp add: backoff_def sane_def double_to_min)

lemma send_loop_pauses:
  assumes "sane p"
  shows "\<exists>more. fst (snd (send_loop en d p env left attempt prev pauses w)) = pauses @ more \<and> length more \<le> left \<and>
    (attempt \<le> 1 \<longrightarrow> length more \<le> left - 1) \<and> (\<forall>x \<in> set more. 0 < x \<and> x \<le> rp_max p)"
proof (induction left arbitrary: attempt prev pauses w)
  case (Suc left)
  have b: "0 < backoff (dn_jitter en) p attempt" "backoff (dn_jitter en) p attempt \<le> rp_max p"
    using assms by (simp_all add: backoff_exact) (simp add: sane_def)
  let ?p = "if attempt > 1 then [backoff (dn_jitter en) p attempt] else []"
  have ps: "(if attempt > 1 then pauses @ [backoff (dn_jitter en) p attempt] else pauses) = pauses @ ?p" by simp
  obtain r w' where D: "Deliver en d attempt env w = (r, w')" by fastforce
  show ?case
  proof (cases "(if attempt > 1 \<and> backoff (dn_jitter en) p attempt > 0 then dn_sleep en (Describe d) attempt else None) = None \<and>
      (\<exists>e. r = Some e \<and> \<not> se_permanent e \<and> dn_expired en (Describe d) attempt = None)")
    case True
    then obtain e where e: "r = Some e" "\<not> se_permanent e" "dn_expired en (Describe d) attempt = None" by blast
    obtain more where m: "fst (snd (send_loop en d p env left (Suc attempt) (Some e) (pauses @ ?p) w')) = (pauses @ ?p) @ more"
      "length more \<le> left" "\<forall>x \<in> set more. 0 < x \<and> x \<le> rp_max p" using Suc.IH[of "Suc attempt" "Some e" "pauses @ ?p" w'] by blast
    have "fst (snd (send_loop en d p env (Suc left) attempt prev pauses w)) = pauses @ ?p @ more"
      using True e m(1) by (cases "attempt > 1") (simp_all add: D Let_def)
    then show ?thesis using m b by (intro exI[of _ "?p @ more"]) auto
  next
    case False
    then have "fst (snd (send_loop en d p env (Suc left) attempt prev pauses w)) = pauses @ ?p"
      by (auto simp: D Let_def split: option.splits if_splits)
    then show ?thesis using b by (intro exI[of _ ?p]) auto
  qed
qed simp

section \<open>What a sink holds\<close>

text \<open>
  The contract of a deliverer, over the world it writes to: what it accepts it holds, what it
  holds of an envelope it keeps through every attempt to deliver that envelope, and it
  touches neither sinks nor secrets.
\<close>

locale deliverer =
  fixes attempt :: "nat \<Rightarrow> Envelope \<Rightarrow> DelWorld \<Rightarrow> SendError option \<times> DelWorld" and holds :: "Envelope \<Rightarrow> DelWorld \<Rightarrow> bool"
  assumes accepted: "attempt n env w = (None, w') \<Longrightarrow> holds env w'"
    and kept: "attempt n env w = (r, w') \<Longrightarrow> holds env w \<Longrightarrow> holds env w'"

fun held :: "DelEnv \<Rightarrow> Deliverer \<Rightarrow> Envelope \<Rightarrow> DelWorld \<Rightarrow> bool" where
  "held en (Webhook url token _) env w =
     list_ex (\<lambda>p. po_url p = url \<and> po_key p = ev_delivery_id env \<and> po_body p = dn_encode en env) (dw_posts w)"
| "held en (ConfigMapSink _ name) env w = (case mget (dw_config_maps w) name of None \<Rightarrow> False
     | Some data \<Rightarrow> mget data (ev_delivery_id env) = Some (dn_encode en env))"
| "held en (Prometheus _ _) env w = (dn_prometheus en env = None)"

lemma configmap_cases:
  assumes "deliver_configmap en ns name n env w = (r, w')"
  shows "w' = w \<and> (r = None \<longrightarrow> held en (ConfigMapSink ns name) env w) \<or>
    r = None \<and> mget (dw_config_maps w) name = None \<and>
      w' = w\<lparr>dw_config_maps := mput name [(ev_delivery_id env, dn_encode en env)] (dw_config_maps w)\<rparr> \<or>
    (\<exists>data. r = None \<and> mget (dw_config_maps w) name = Some data \<and>
      dataSize (mput (ev_delivery_id env) (dn_encode en env) data) \<le> maxConfigMapBytes \<and>
      w' = w\<lparr>dw_config_maps := mput name (mput (ev_delivery_id env) (dn_encode en env) data) (dw_config_maps w)\<rparr>)"
proof (cases "mget (dw_config_maps w) name")
  case None
  then show ?thesis using assms by (simp add: deliver_configmap_def Let_def split: option.splits if_splits ApiErr.splits; blast)
next
  case (Some data)
  then show ?thesis using assms
    by (simp add: deliver_configmap_def Let_def mhas_def split: option.splits if_splits ApiErr.splits; auto)
qed

lemma webhook_cases:
  assumes "deliver_webhook en url token n env w = (r, w')"
  shows "r \<noteq> None \<and> w' = w \<or> r = None \<and>
    w' = w\<lparr>dw_posts := dw_posts w @ [\<lparr>po_url = url, po_token = token, po_key = ev_delivery_id env, po_body = dn_encode en env\<rparr>]\<rparr>"
  using assms unfolding deliver_webhook_def Let_def by (auto split: option.splits if_splits HttpAnswer.splits)

lemma Deliver_keeps:
  assumes "Deliver en d n env w = (r, w')"
  shows "dw_sinks w' = dw_sinks w" "dw_secrets w' = dw_secrets w" "held en d' env w \<Longrightarrow> held en d' env w'"
proof -
  have "dw_sinks w' = dw_sinks w \<and> dw_secrets w' = dw_secrets w \<and> (held en d' env w \<longrightarrow> held en d' env w')"
  proof (cases d)
    case (Webhook url token i)
    then have "deliver_webhook en url token n env w = (r, w')" using assms by simp
    from webhook_cases[OF this] show ?thesis by (cases d') auto
  next
    case (ConfigMapSink ns name)
    then have "deliver_configmap en ns name n env w = (r, w')" using assms by simp
    from configmap_cases[OF this] show ?thesis by (cases d') (auto simp: mget_put split: option.splits if_splits)
  qed (use assms in auto)
  then show "dw_sinks w' = dw_sinks w" "dw_secrets w' = dw_secrets w" "held en d' env w \<Longrightarrow> held en d' env w'" by auto
qed

lemma Deliver_accepts:
  assumes "Deliver en d n env w = (None, w')"
  shows "held en d env w'"
proof (cases d)
  case (Webhook url token i)
  then have "deliver_webhook en url token n env w = (None, w')" using assms by simp
  from webhook_cases[OF this] show ?thesis by (auto simp: Webhook)
next
  case (ConfigMapSink ns name)
  then have "deliver_configmap en ns name n env w = (None, w')" using assms by simp
  from configmap_cases[OF this] show ?thesis by (auto simp: ConfigMapSink mget_put mget_Cons)
qed (use assms in auto)

interpretation sinks: deliverer "Deliver en d" "held en d" for en d
  by unfold_locales (auto intro: Deliver_accepts Deliver_keeps(3))

lemma send_loop_holds:
  "send_loop en d p env left attempt prev pauses w = (r, ps, w') \<Longrightarrow>
     (r = None \<longrightarrow> held en d env w') \<and> (held en d' env w \<longrightarrow> held en d' env w') \<and> dw_sinks w' = dw_sinks w \<and> dw_secrets w' = dw_secrets w"
proof (induction left arbitrary: attempt prev pauses w)
  case (Suc left)
  obtain q v where D: "Deliver en d attempt env w = (q, v)" by fastforce
  have k: "held en d' env w \<longrightarrow> held en d' env v" "dw_sinks v = dw_sinks w" "dw_secrets v = dw_secrets w" "q = None \<longrightarrow> held en d env v"
    using Deliver_keeps[OF D] sinks.accepted[of en d attempt env w v] D by auto
  show ?case
  proof (cases "(if attempt > 1 \<and> backoff (dn_jitter en) p attempt > 0 then dn_sleep en (Describe d) attempt else None)")
    case None
    show ?thesis using Suc.prems Suc.IH k None by (auto simp: Let_def D split: option.splits if_splits)
  next
    case (Some e)
    then show ?thesis using Suc.prems by (auto simp: Let_def)
  qed
qed auto

lemma Send_holds:
  assumes "Send en d p env w = (r, ps, w')"
  shows "(r = None \<longrightarrow> held en d env w') \<and> (held en d' env w \<longrightarrow> held en d' env w') \<and> dw_sinks w' = dw_sinks w \<and> dw_secrets w' = dw_secrets w"
  using assms send_loop_holds[of en d "withDefaults p" env _ 1 None "[]" w r ps w' d']
  by (auto simp: Send_def Let_def split: option.splits)

section \<open>The fan-out\<close>

text \<open>A namespace with one ConfigMap sink, and a server that answers.\<close>

definition calm_env :: DelEnv where
  "calm_env = \<lparr>dn_api = (\<lambda>_ _. None), dn_exists = (\<lambda>_ _. False), dn_http = (\<lambda>_ _. HttpStatus 200 ''200 OK'' []), dn_url_ok = (\<lambda>_. True),
     dn_encode = ev_delivery_id, dn_prometheus = (\<lambda>_. None), dn_expired = (\<lambda>_ _. None), dn_sleep = (\<lambda>_ _. None), dn_jitter = (\<lambda>d. d),
     dn_now = 7, dn_producer = ProducerFromBuild None ''x'' [] [], dn_cluster = None\<rparr>"

definition one_sink :: DelWorld where
  "one_sink = \<lparr>dw_sinks = [(''archive'', \<lparr>sk_type = SinkConfigMap, sk_webhook = None, sk_config_map = Some ''verdicts'',
       sk_last_delivery = None, sk_last_error = None\<rparr>)], dw_secrets = [], dw_config_maps = [(''verdicts'', [(''earlier'', ''kept'')])], dw_posts = []\<rparr>"

definition told_run :: BurnInRun where
  "told_run = new_run ''u1'' 5 [''n1'']"

text \<open>What of a sink does not change with its status, and whether the world holds an envelope for it.\<close>

definition sink_config :: "BurnInSink \<Rightarrow> SinkType \<times> WebhookSink option \<times> string option" where
  "sink_config s = (sk_type s, sk_webhook s, sk_config_map s)"

definition sink_has :: "DelEnv \<Rightarrow> string \<Rightarrow> Envelope \<Rightarrow> DelWorld \<Rightarrow> string \<Rightarrow> bool" where
  "sink_has en namespace env w name = (case mget (dw_sinks w) name of None \<Rightarrow> False
     | Some s \<Rightarrow> (case Build en namespace name s w of Inl _ \<Rightarrow> False | Inr d \<Rightarrow> held en d env w))"

definition same_config :: "DelWorld \<Rightarrow> DelWorld \<Rightarrow> bool" where
  "same_config w w' = (dw_secrets w' = dw_secrets w \<and>
     (\<forall>name. map_option sink_config (mget (dw_sinks w') name) = map_option sink_config (mget (dw_sinks w) name)))"

lemma Build_config: "dw_secrets w' = dw_secrets w \<Longrightarrow> sink_config s' = sink_config s \<Longrightarrow> Build en ns name s' w' = Build en ns name s w"
  by (simp add: Build_def sink_config_def resolveToken_def split: SinkType.splits option.splits)

lemma held_status: "held en d env (w\<lparr>dw_sinks := m\<rparr>) = held en d env w"
  by (cases d) simp_all

lemma deliver_one_effect:
  assumes "deliver_one en ns env name (ok, w) = (ok', w')"
  shows "same_config w w'" "held en d env w \<Longrightarrow> held en d env w'" "ok' \<Longrightarrow> ok \<and> sink_has en ns env w' name"
proof -
  have "same_config w w' \<and> (held en d env w \<longrightarrow> held en d env w') \<and> (ok' \<longrightarrow> ok \<and> sink_has en ns env w' name)"
  proof (cases "if dn_api en (DelGetSink name) 0 \<noteq> None then None else mget (dw_sinks w) name")
    case None
    then show ?thesis using assms by (simp add: deliver_one_def same_config_def)
  next
    case (Some s)
    then have g: "mget (dw_sinks w) name = Some s" by (simp split: if_splits)
    have note_: "dw_secrets (note_delivery en name s r v) = dw_secrets v \<and> held en d env (note_delivery en name s r v) = held en d env v \<and>
        (dw_sinks v = dw_sinks w \<longrightarrow> same_config v (note_delivery en name s r v))" for r v d
      using g by (auto simp: note_delivery_def Let_def held_status same_config_def mget_put sink_config_def split: option.splits)
    show ?thesis
    proof (cases "Build en ns name s w")
      case (Inl e)
      then have "ok' = False" "w' = note_delivery en name s (Some e) w" using assms Some by (auto simp: deliver_one_def)
      then show ?thesis using note_[of "Some e" w] by auto
    next
      case (Inr dl)
      obtain r ps v where S: "Send en dl deliverRetry env w = (r, ps, v)" by (metis prod_cases3)
      note h = Send_holds[OF S]
      have w': "ok' = (ok \<and> r = None)" "w' = note_delivery en name s r v" using assms Some Inr S by (auto simp: deliver_one_def)
      have sc: "same_config w w'" using note_[of r v] h w' by (auto simp: same_config_def)
      then obtain s' where s': "mget (dw_sinks w') name = Some s'" "sink_config s' = sink_config s" using g by (auto simp: same_config_def) (metis map_option_eq_Some)
      have "Build en ns name s' w' = Inr dl" using Build_config[OF _ s'(2)] sc Inr by (simp add: same_config_def)
      moreover have "r = None \<longrightarrow> held en dl env w'" using h note_[of r v dl] w'(2) by auto
      ultimately have "ok' \<longrightarrow> ok \<and> sink_has en ns env w' name" using w'(1) s'(1) by (auto simp: sink_has_def)
      then show ?thesis using sc h w'(2) note_[of r v] by blast
    qed
  qed
  then show "same_config w w'" "held en d env w \<Longrightarrow> held en d env w'" "ok' \<Longrightarrow> ok \<and> sink_has en ns env w' name" by auto
qed

lemma sink_has_kept:
  assumes "same_config w w'" "\<And>d. held en d env w \<Longrightarrow> held en d env w'" "sink_has en ns env w name"
  shows "sink_has en ns env w' name"
proof -
  obtain s dl where s: "mget (dw_sinks w) name = Some s" "Build en ns name s w = Inr dl" "held en dl env w"
    using assms(3) by (auto simp: sink_has_def split: option.splits sum.splits)
  then obtain s' where s': "mget (dw_sinks w') name = Some s'" "sink_config s' = sink_config s"
    using assms(1) by (auto simp: same_config_def) (metis map_option_eq_Some)
  have "Build en ns name s' w' = Inr dl" using Build_config[OF _ s'(2)] assms(1) s(2) by (simp add: same_config_def)
  then show ?thesis using s' s(3) assms(2) by (simp add: sink_has_def)
qed

lemma fan_out:
  "fold (deliver_one en ns env) names (ok, w) = (ok', w') \<Longrightarrow> ok' \<Longrightarrow>
     ok \<and> (\<forall>name \<in> set names. sink_has en ns env w' name) \<and> same_config w w' \<and> (\<forall>d. held en d env w \<longrightarrow> held en d env w')"
proof (induction names arbitrary: ok w)
  case (Cons name names)
  obtain ok1 w1 where o: "deliver_one en ns env name (ok, w) = (ok1, w1)" by fastforce
  then have f: "fold (deliver_one en ns env) names (ok1, w1) = (ok', w')" using Cons.prems(1) by simp
  note IH = Cons.IH[OF f Cons.prems(2)] and e = deliver_one_effect[OF o]
  have "sink_has en ns env w' name" by (rule sink_has_kept[of w1]) (use IH e in blast)+
  moreover have "same_config w w'" using e(1) IH by (auto simp: same_config_def)
  ultimately show ?case using IH e by auto
qed (simp add: same_config_def)

text \<open>
  Delivered means delivered. When the controller takes the announcement of a run's phase for
  delivered, every sink the plan names exists and holds the envelope: the ConfigMap has it under its
  delivery ID, the webhook accepted a post of exactly that document with that ID as its
  idempotency key, the metrics endpoint took it; no failure of the network, of the API server or of a
  later sink in the same pass is mistaken for that.
\<close>

lemma delivered_means_every_sink_has_it:
  assumes "deliverPhase en pinned run sinks phase w = (True, w')"
  shows "let env = EnvelopeFor (dn_producer en) run (sp_profile_ref (run_spec run)) ReasonPhaseChanged (PhaseKey phase)
               (Some (dn_now en)) (dn_cluster en) (pinnedBaseline pinned run) (pinnedProgress pinned run)
         in \<forall>name \<in> set sinks. sink_has en (run_namespace run) env w' name"
  using assms fan_out by (fastforce simp: deliverPhase_def deliver_run_def Let_def split: if_splits)

lemma told_run_valid:
  "Validate (EnvelopeFor pr told_run profile ReasonPhaseChanged key (Some now) cluster baseline (pinnedProgress pinned told_run)) = None"
  by (subst EnvelopeFor_valid) (simp_all add: Reasons_def told_run_def new_run_def)

lemma small_map: "dataSize (mput (NewDeliveryID u r k) (NewDeliveryID u r k) [(''earlier'', ''kept'')]) \<le> maxConfigMapBytes"
proof -
  have "NewDeliveryID u r k \<noteq> ''earlier''" using length_NewDeliveryID[of u r k] by auto
  then show ?thesis by (simp add: mput_def dataSize_def length_NewDeliveryID maxConfigMapBytes_def)
qed

lemma calm_delivery:
  "\<exists>w'. deliverPhase calm_env pinned told_run [''archive''] RunPassed one_sink = (True, w')"
proof -
  let ?env = "EnvelopeFor (dn_producer calm_env) told_run (sp_profile_ref (run_spec told_run)) ReasonPhaseChanged (PhaseKey RunPassed)
    (Some (dn_now calm_env)) (dn_cluster calm_env) (pinnedBaseline pinned told_run) (pinnedProgress pinned told_run)"
  have id: "ev_delivery_id ?env = NewDeliveryID (run_uid told_run) ReasonPhaseChanged (PhaseKey RunPassed)" by (simp add: EnvelopeFor_def Let_def)
  have "NewDeliveryID u r k \<noteq> ''earlier''" for u r k using length_NewDeliveryID[of u r k] by auto
  moreover have "dn_api calm_env c n = None" "dn_encode calm_env = ev_delivery_id" for c n by (simp_all add: calm_env_def)
  moreover have "mget (dw_config_maps one_sink) ''verdicts'' = Some [(''earlier'', ''kept'')]" by (simp add: one_sink_def mget_Cons)
  ultimately have D: "\<exists>w'. Deliver calm_env (ConfigMapSink ns ''verdicts'') 1 ?env one_sink = (None, w')" for ns
    using small_map[of "run_uid told_run" ReasonPhaseChanged "PhaseKey RunPassed"]
    by (simp add: deliver_configmap_def mget_Cons id)
  have "\<exists>ps w'. Send calm_env (ConfigMapSink ns ''verdicts'') deliverRetry ?env one_sink = (None, ps, w')" for ns
    using D[of ns] by (auto simp: Send_def told_run_valid Let_def withDefaults_def deliverRetry_def second_def numeral_2_eq_2)
  then obtain ps w' where "Send calm_env (ConfigMapSink (run_namespace told_run) ''verdicts'') deliverRetry ?env one_sink = (None, ps, w')" by blast
  moreover have "mget (dw_sinks one_sink) ''archive'' = Some \<lparr>sk_type = SinkConfigMap, sk_webhook = None, sk_config_map = Some ''verdicts'',
       sk_last_delivery = None, sk_last_error = None\<rparr>" by (simp add: one_sink_def mget_Cons)
  moreover have "dn_api calm_env c 0 = None" for c by (simp add: calm_env_def)
  ultimately show ?thesis by (simp add: deliverPhase_def deliver_run_def Let_def deliver_one_def Build_def)
qed

section \<open>What every delivery keeps\<close>







end
