(* ===== verification/Plan_Pin.thy ===== *)
theory Plan_Pin
  imports Run_Plan Go_Conv
begin

text \<open>
  \<^verbatim>\<open>pinPlan\<close> and \<^verbatim>\<open>loadPlan\<close> of \<^verbatim>\<open>internal/controller/plan.go\<close>: the plan a run executes is written into an
  annotation, packed when it is large, and read back by every later pass. Base64 is modelled; the
  JSON codec of a plan and gzip are parameters (\<open>codec\<close>).
\<close>

section \<open>encoding/base64, the standard alphabet\<close>

definition b64_char :: "nat \<Rightarrow> char" where
  "b64_char n = byte (if n < 26 then 65 + int n else if n < 52 then 71 + int n else if n < 62 then int n - 4 else if n = 62 then 43 else 47)"

definition b64_val :: "char \<Rightarrow> nat option" where
  "b64_val c = find (\<lambda>n. b64_char n = c) [0..<64]"

definition b64_pad :: char where
  "b64_pad = CHR ''=''"

fun b64_encode :: "string \<Rightarrow> string" where
  "b64_encode [] = []"
| "b64_encode [a] = (let n = 16 * of_char a in [b64_char (n div 64), b64_char (n mod 64), b64_pad, b64_pad])"
| "b64_encode [a, b] = (let n = 4 * (256 * of_char a + of_char b) in
     [b64_char (n div 4096), b64_char (n div 64 mod 64), b64_char (n mod 64), b64_pad])"
| "b64_encode (a # b # c # s) = (let n = 65536 * of_char a + 256 * of_char b + of_char c in
     b64_char (n div 262144) # b64_char (n div 4096 mod 64) # b64_char (n div 64 mod 64) # b64_char (n mod 64) # b64_encode s)"

text \<open>
  Decoding quadruples; the strictness of the decoder about trailing bits is that of the standard one,
  which ignores them, and line ends are dropped first.
\<close>

fun b64_quads :: "string \<Rightarrow> string option" where
  "b64_quads [] = Some []"
| "b64_quads [p, q, r, s] =
     (if s = b64_pad then
        (if r = b64_pad then
           (case (b64_val p, b64_val q) of (Some i, Some j) \<Rightarrow> Some [char_of ((64 * i + j) div 16)] | _ \<Rightarrow> None)
         else (case (b64_val p, b64_val q, b64_val r) of
           (Some i, Some j, Some k) \<Rightarrow> (let n = 4096 * i + 64 * j + k in Some [char_of (n div 1024), char_of (n div 4 mod 256)])
         | _ \<Rightarrow> None))
      else (case (b64_val p, b64_val q, b64_val r, b64_val s) of
        (Some i, Some j, Some k, Some l) \<Rightarrow> (let n = 262144 * i + 4096 * j + 64 * k + l in
          Some [char_of (n div 65536), char_of (n div 256 mod 256), char_of (n mod 256)])
      | _ \<Rightarrow> None))"
| "b64_quads (p # q # r # s # t # rest) =
     (case (b64_val p, b64_val q, b64_val r, b64_val s) of
        (Some i, Some j, Some k, Some l) \<Rightarrow> (let n = 262144 * i + 4096 * j + 64 * k + l in
          map_option (\<lambda>out. char_of (n div 65536) # char_of (n div 256 mod 256) # char_of (n mod 256) # out) (b64_quads (t # rest)))
      | _ \<Rightarrow> None)"
| "b64_quads _ = None"

definition b64_decode :: "string \<Rightarrow> string option" where
  "b64_decode s = b64_quads (filter (\<lambda>c. c \<noteq> byte 10 \<and> c \<noteq> byte 13) s)"

lemma b64_code: "n < 64 \<Longrightarrow> (of_char (b64_char n) :: int) =
    (if n < 26 then 65 + int n else if n < 52 then 71 + int n else if n < 62 then int n - 4 else if n = 62 then 43 else 47)"
  by (auto simp: b64_char_def of_byte)

lemma b64_char_inj: "n < 64 \<Longrightarrow> m < 64 \<Longrightarrow> b64_char n = b64_char m \<Longrightarrow> n = m"
proof -
  assume n: "n < 64" and m: "m < 64" and "b64_char n = b64_char m"
  then have "(of_char (b64_char n) :: int) = of_char (b64_char m)" by simp
  then show "n = m" unfolding b64_code[OF n] b64_code[OF m] using n m by (auto split: if_split_asm)
qed

lemma b64_val_char: "n < 64 \<Longrightarrow> b64_val (b64_char n) = Some n"
proof -
  assume n: "n < 64"
  have "b64_char j \<noteq> b64_char n" if "j < n" for j using b64_char_inj[of j n] n that by auto
  then show ?thesis unfolding b64_val_def find_Some_iff using n by (intro exI[of _ n]) simp
qed

lemma b64_char_plain: "n < 64 \<Longrightarrow> b64_char n \<noteq> b64_pad \<and> b64_char n \<noteq> byte 10 \<and> b64_char n \<noteq> byte 13 \<and> b64_char n \<noteq> CHR ''{'' \<and> graphic (b64_char n)"
  using b64_code[of n] by (auto simp: b64_pad_def byte_eq_iff graphic_def split: if_splits)

lemma b64_pad_plain: "b64_pad \<noteq> byte 10 \<and> b64_pad \<noteq> byte 13 \<and> b64_pad \<noteq> CHR ''{'' \<and> graphic b64_pad"
  by (simp add: b64_pad_def byte_eq_iff graphic_def)

lemma recombine: "262144 * (n div 262144) + 4096 * (n div 4096 mod 64) + 64 * (n div 64 mod 64) + n mod 64 = (n :: nat)"
proof -
  have "n div 64 div 64 = n div 4096" "n div 4096 div 64 = n div 262144" by (simp_all add: div_mult2_eq[symmetric])
  then have "64 * (n div 4096) + n div 64 mod 64 = n div 64" "64 * (n div 262144) + n div 4096 mod 64 = n div 4096"
    using mult_div_mod_eq[of 64 "n div 64"] mult_div_mod_eq[of 64 "n div 4096"] by simp_all
  moreover have "64 * (n div 64) + n mod 64 = n" by simp
  ultimately show ?thesis by linarith
qed

lemma bytes_of:
  fixes x y z :: nat
  assumes "x < 256" "y < 256" "z < 256"
  shows "(65536 * x + 256 * y + z) div 65536 = x" "(65536 * x + 256 * y + z) div 256 mod 256 = y" "(65536 * x + 256 * y + z) mod 256 = z"
    "(65536 * x + 256 * y + z) div 262144 < 64"
proof -
  have "(65536 * x + 256 * y + z) div 256 = 256 * x + y" using assms by (intro div_nat_eqI) auto
  then show "(65536 * x + 256 * y + z) div 256 mod 256 = y" using assms by simp
  show "(65536 * x + 256 * y + z) div 65536 = x" using assms by (intro div_nat_eqI) auto
  have "(65536 * x + 256 * y + z) mod 256 = (256 * (256 * x + y) + z) mod 256" by (simp add: algebra_simps)
  then show "(65536 * x + 256 * y + z) mod 256 = z" using assms by (simp only: mod_mult_self4) simp
  show "(65536 * x + 256 * y + z) div 262144 < 64" using assms by (simp add: less_mult_imp_div_less)
qed

lemma char_lt: "(of_char (c :: char) :: nat) < 256"
  by (rule nat_of_char_less_256)

lemma two_bytes:
  fixes x y :: nat
  assumes "x < 256" "y < 256"
  shows "4 * (256 * x + y) < 64 * 4096" "4 * (256 * x + y) div 1024 = x" "4 * (256 * x + y) div 4 mod 256 = y"
  using assms by (simp_all add: div_nat_eqI)

lemma char_of_byte: "n mod 256 = (of_char c :: nat) \<Longrightarrow> char_of n = c"
  by (metis char_of_char char_of_mod_256)

lemma b64_encode_Cons: "s \<noteq> [] \<Longrightarrow> \<exists>t rest. b64_encode s = t # rest"
  by (cases s rule: b64_encode.cases) (auto simp: Let_def)

lemma b64_quads_encode: "b64_quads (b64_encode s) = Some s"
proof (induction s rule: b64_encode.induct)
  case (2 a)
  let ?n = "16 * of_char a :: nat"
  have lt: "?n div 64 < 64" "?n mod 64 < 64" using char_lt[of a] by (simp_all add: less_mult_imp_div_less)
  have "64 * (of_char a div 4) + 16 * of_char a mod 64 = (16 * of_char a :: nat)" using mult_div_mod_eq[of 64 ?n] by simp
  then have "(64 * (of_char a div 4) + 16 * of_char a mod 64) div 16 = (of_char a :: nat)" by simp
  then show ?case using lt by (simp add: Let_def b64_val_char b64_pad_def)
next
  case (3 a b)
  define n :: nat where "n = 4 * (256 * of_char a + of_char b)"
  have bt: "n < 64 * 4096" "n div 1024 = of_char a" "n div 4 mod 256 = of_char b"
    using two_bytes[OF char_lt[of a] char_lt[of b]] by (simp_all only: n_def)
  have lt: "n div 4096 < 64" "n div 64 mod 64 < 64" "n mod 64 < 64" using bt(1) by (auto intro: less_mult_imp_div_less)
  have "n div 64 div 64 = n div 4096" by (simp add: div_mult2_eq[symmetric])
  then have r: "4096 * (n div 4096) + 64 * (n div 64 mod 64) + n mod 64 = n"
    using mult_div_mod_eq[of 64 "n div 64"] mult_div_mod_eq[of 64 n] by linarith
  have e: "b64_encode [a, b] = [b64_char (n div 4096), b64_char (n div 64 mod 64), b64_char (n mod 64), b64_pad]"
    by (simp only: b64_encode.simps Let_def n_def)
  show ?case unfolding e using b64_char_plain[OF lt(3)] by (simp add: b64_val_char[OF lt(1)] b64_val_char[OF lt(2)] b64_val_char[OF lt(3)] r bt(2) char_of_byte[OF bt(3)])
next
  case (4 a b c s)
  define n :: nat where "n = 65536 * of_char a + 256 * of_char b + of_char c"
  have bt: "n div 65536 = of_char a" "n div 256 mod 256 = of_char b" "n mod 256 = of_char c" "n div 262144 < 64"
    using bytes_of[OF char_lt[of a] char_lt[of b] char_lt[of c]] by (simp_all only: n_def)
  have lt: "n div 4096 mod 64 < 64" "n div 64 mod 64 < 64" "n mod 64 < 64" by simp_all
  note v = b64_val_char[OF bt(4)] b64_val_char[OF lt(1)] b64_val_char[OF lt(2)] b64_val_char[OF lt(3)]
  have e: "b64_encode (a # b # c # s) = b64_char (n div 262144) # b64_char (n div 4096 mod 64) # b64_char (n div 64 mod 64) # b64_char (n mod 64) # b64_encode s"
    by (simp only: b64_encode.simps Let_def n_def)
  show ?case
  proof (cases s)
    case Nil
    then show ?thesis unfolding e using b64_char_plain[OF lt(3)] by (simp add: v recombine bt(1) char_of_byte[OF bt(2)] char_of_byte[OF bt(3)])
  next
    case (Cons x xs)
    then obtain t rest where t: "b64_encode s = t # rest" using b64_encode_Cons[of s] by auto
    have "b64_quads (t # rest) = Some s" using 4[OF refl] t by simp
    then show ?thesis unfolding e t by (simp add: v recombine bt(1) char_of_byte[OF bt(2)] char_of_byte[OF bt(3)])
  qed
qed simp

lemma b64_chars: "list_all (\<lambda>c. c \<noteq> byte 10 \<and> c \<noteq> byte 13 \<and> c \<noteq> CHR ''{'' \<and> graphic c) (b64_encode s)"
proof (induction s rule: b64_encode.induct)
  case (2 a)
  have "(16 * of_char a :: nat) div 64 < 64" using two_bytes(1)[OF char_lt[of a] char_lt[of a]] by (simp add: less_mult_imp_div_less)
  then show ?case using b64_char_plain[of "16 * of_char a div 64"] b64_char_plain[of "16 * of_char a mod 64"]
    by (simp add: Let_def b64_pad_plain)
next
  case (3 a b)
  define n :: nat where "n = 4 * (256 * of_char a + of_char b)"
  have "n < 64 * 4096" using two_bytes[OF char_lt[of a] char_lt[of b]] by (simp only: n_def)
  then have "n div 4096 < 64" by (rule less_mult_imp_div_less)
  moreover have "b64_encode [a, b] = [b64_char (n div 4096), b64_char (n div 64 mod 64), b64_char (n mod 64), b64_pad]"
    by (simp only: b64_encode.simps Let_def n_def)
  ultimately show ?case using b64_char_plain[of "n div 4096"] b64_char_plain[of "n div 64 mod 64"] b64_char_plain[of "n mod 64"] b64_pad_plain by simp
next
  case (4 a b c s)
  define n :: nat where "n = 65536 * of_char a + 256 * of_char b + of_char c"
  have "n div 262144 < 64" using bytes_of(4)[OF char_lt[of a] char_lt[of b] char_lt[of c]] by (simp only: n_def)
  moreover have "b64_encode (a # b # c # s) = b64_char (n div 262144) # b64_char (n div 4096 mod 64) # b64_char (n div 64 mod 64) # b64_char (n mod 64) # b64_encode s"
    by (simp only: b64_encode.simps Let_def n_def)
  ultimately show ?case using 4 b64_char_plain[of "n div 262144"] b64_char_plain[of "n div 4096 mod 64"] b64_char_plain[of "n div 64 mod 64"]
      b64_char_plain[of "n mod 64"] by simp
qed simp

lemma b64_decode_encode: "b64_decode (b64_encode s) = Some s"
proof -
  have "filter (\<lambda>c. c \<noteq> byte 10 \<and> c \<noteq> byte 13) (b64_encode s) = b64_encode s"
    using b64_chars[of s] by (auto simp: filter_id_conv list_all_iff)
  then show ?thesis by (simp add: b64_decode_def b64_quads_encode)
qed

section \<open>Pinning and loading\<close>

text \<open>\<open>cd_encode\<close> and \<open>cd_decode\<close> are the JSON text of a plan and its reading; \<open>cd_gunzip\<close> fails on what is not a gzip stream.\<close>

record codec =
  cd_encode :: "plan \<Rightarrow> string"
  cd_decode :: "string \<Rightarrow> plan option"
  cd_gzip :: "string \<Rightarrow> string"
  cd_gunzip :: "string \<Rightarrow> string option"

definition maxPlanBytes :: nat where "maxPlanBytes = 128 * 1024"
definition maxDecompressedPlanBytes :: nat where "maxDecompressedPlanBytes = 4 * 1024 * 1024"
definition planAnnotation :: string where "planAnnotation = ''burnin.glimmer.ai/plan''"

datatype PinError = PlanTooLarge nat nat

datatype LoadError = NotBase64 | NotGzip | ExpandsTooFar | NotAPlan | UnknownPlanVersion int

definition compressPlan :: "codec \<Rightarrow> string \<Rightarrow> string" where
  "compressPlan c raw = b64_encode (cd_gzip c raw)"

definition pinPlan :: "codec \<Rightarrow> plan \<Rightarrow> string gomap \<Rightarrow> PinError + string gomap" where
  "pinPlan c p annotations =
     (let raw = cd_encode c p in
      if length raw > maxPlanBytes
      then (let packed = compressPlan c raw in
        if length packed > maxPlanBytes then Inl (PlanTooLarge (length raw) (length packed))
        else Inr (mput planAnnotation packed annotations))
      else Inr (mput planAnnotation raw annotations))"

definition isRawJSONPlan :: "string \<Rightarrow> bool" where
  "isRawJSONPlan s = HasPrefix (dropWhile (\<lambda>c. c \<in> {CHR '' '', byte 9, byte 13, byte 10}) s) ''{''"

definition decompressPlan :: "codec \<Rightarrow> string \<Rightarrow> LoadError + string" where
  "decompressPlan c s = (case b64_decode (TrimSpace s) of
     None \<Rightarrow> Inl NotBase64
   | Some packed \<Rightarrow> (case cd_gunzip c packed of
       None \<Rightarrow> Inl NotGzip
     | Some out \<Rightarrow> if length (take (maxDecompressedPlanBytes + 1) out) > maxDecompressedPlanBytes then Inl ExpandsTooFar else Inr out))"

text \<open>\<open>Inr None\<close> is an absent plan.\<close>

definition loadPlan :: "codec \<Rightarrow> string gomap \<Rightarrow> LoadError + plan option" where
  "loadPlan c annotations = (case mget annotations planAnnotation of
     None \<Rightarrow> Inr None
   | Some raw \<Rightarrow> (case (if isRawJSONPlan raw then Inr raw else decompressPlan c raw) of
       Inl e \<Rightarrow> Inl e
     | Inr data \<Rightarrow> (case cd_decode c data of
         None \<Rightarrow> Inl NotAPlan
       | Some p \<Rightarrow> if pn_version p \<noteq> 1 then Inl (UnknownPlanVersion (pn_version p)) else Inr (Some p))))"

section \<open>The round trip\<close>

text \<open>What the libraries promise: a struct is an object, JSON reads back, gzip inflates what it deflated.\<close>

definition faithful_codec :: "codec \<Rightarrow> plan \<Rightarrow> bool" where
  "faithful_codec c p = (HasPrefix (cd_encode c p) ''{'' \<and> cd_decode c (cd_encode c p) = Some p \<and>
     cd_gunzip c (cd_gzip c (cd_encode c p)) = Some (cd_encode c p) \<and> cd_gzip c (cd_encode c p) \<noteq> [])"

lemma packed_is_not_raw: "s \<noteq> [] \<Longrightarrow> \<not> isRawJSONPlan (b64_encode s)"
proof -
  assume "s \<noteq> []"
  then obtain t rest where t: "b64_encode s = t # rest" using b64_encode_Cons by blast
  have "\<not> graphic (CHR '' '')" "\<not> graphic (byte 9)" "\<not> graphic (byte 13)" "\<not> graphic (byte 10)" by (simp_all add: of_byte graphic_def)
  moreover have "graphic t" "t \<noteq> CHR ''{''" using b64_chars[of s] t by simp_all
  ultimately have "t \<notin> {CHR '' '', byte 9, byte 13, byte 10}" by auto
  then show ?thesis using \<open>t \<noteq> CHR ''{''\<close> by (simp add: isRawJSONPlan_def t HasPrefix_def)
qed

lemma TrimSpace_b64: "TrimSpace (b64_encode s) = b64_encode s"
proof (rule TrimSpace_graphic)
  show "b64_encode s = [] \<or> graphic (hd (b64_encode s)) \<and> graphic (last (b64_encode s))"
    using b64_chars[of s] by (cases "b64_encode s = []") (auto simp: list_all_iff)
qed





text \<open>A plan whose JSON is over 4 MiB and packs well is pinned and then never loads.\<close>

lemma huge_plan_is_pinned_and_lost:
  assumes "faithful_codec c p" "pinPlan c p annotations = Inr annotations'" "length (cd_encode c p) > maxDecompressedPlanBytes"
  shows "loadPlan c annotations' = Inl ExpandsTooFar"
proof -
  have "length (cd_encode c p) > maxPlanBytes" using assms(3) by (simp add: maxPlanBytes_def maxDecompressedPlanBytes_def)
  then have "mget annotations' planAnnotation = Some (b64_encode (cd_gzip c (cd_encode c p)))"
    using assms(2) by (auto simp: pinPlan_def Let_def compressPlan_def mget_put split: if_splits)
  then show ?thesis using assms(1,3)
    by (simp add: loadPlan_def faithful_codec_def packed_is_not_raw decompressPlan_def TrimSpace_b64 b64_decode_encode)
qed

end
