(* ===== verification/Go_Regexp.thy ===== *)
theory Go_Regexp
  imports Go_Strings
begin

text \<open>
  What the sanitiser uses of package \<^verbatim>\<open>regexp\<close>: classes of bytes, sequence, alternation, greedy
  repetition, one capture group, word boundaries and line anchors, with the leftmost-first
  semantics of the package. A pattern that matches runes outside ASCII matches their bytes one by
  one, which gives the same spans for the patterns in use. No body of a repetition matches the
  empty string.
\<close>

datatype re =
    Eps
  | Cls "char \<Rightarrow> bool"
  | Seq re re
  | Alt re re
  | Rep nat "nat option" re
  | Grp re
  | WordBoundary
  | LineStart
  | LineEnd
  | TextStart
  | TextEnd

text \<open>A state of the matcher: the position and the span of the group so far.\<close>

type_synonym mstate = "nat \<times> (nat \<times> nat) option"

primrec rep_runs :: "nat \<Rightarrow> (mstate \<Rightarrow> mstate list) \<Rightarrow> nat \<Rightarrow> nat option \<Rightarrow> mstate \<Rightarrow> mstate list" where
  "rep_runs 0 f lo hi x = (if lo = 0 then [x] else [])"
| "rep_runs (Suc fuel) f lo hi x =
     (if hi = Some 0 then [] else concat (map (\<lambda>y. if fst y = fst x then [] else rep_runs fuel f (lo - 1) (map_option (\<lambda>n. n - 1) hi) y) (f x))) @
     (if lo = 0 then [x] else [])"

definition word_at :: "string \<Rightarrow> nat \<Rightarrow> bool" where
  "word_at s i = (i < length s \<and> is_word_char (s ! i))"

definition at_boundary :: "string \<Rightarrow> nat \<Rightarrow> bool" where
  "at_boundary s i = ((0 < i \<and> word_at s (i - 1)) \<noteq> word_at s i)"

text \<open>All ways to match from a state, the preferred one first.\<close>

primrec runs :: "re \<Rightarrow> string \<Rightarrow> mstate \<Rightarrow> mstate list" where
  "runs Eps s x = [x]"
| "runs (Cls P) s x = (if fst x < length s \<and> P (s ! fst x) then [(Suc (fst x), snd x)] else [])"
| "runs (Seq a b) s x = concat (map (runs b s) (runs a s x))"
| "runs (Alt a b) s x = runs a s x @ runs b s x"
| "runs (Rep lo hi r) s x = rep_runs (Suc (length s)) (runs r s) lo hi x"
| "runs (Grp r) s x = map (\<lambda>(e, _). (e, Some (fst x, e))) (runs r s x)"
| "runs WordBoundary s x = (if at_boundary s (fst x) then [x] else [])"
| "runs TextStart s x = (if fst x = 0 then [x] else [])"
| "runs TextEnd s x = (if fst x \<ge> length s then [x] else [])"
| "runs LineStart s x = (if fst x = 0 \<or> s ! (fst x - 1) = byte 10 then [x] else [])"
| "runs LineEnd s x = (if fst x \<ge> length s \<or> s ! fst x = byte 10 then [x] else [])"

record match_span =
  ms_start :: nat
  ms_end :: nat
  ms_group :: "(nat \<times> nat) option"

definition match_at :: "re \<Rightarrow> string \<Rightarrow> nat \<Rightarrow> match_span option" where
  "match_at r s i = (case runs r s (i, None) of [] \<Rightarrow> None | (e, g) # _ \<Rightarrow> Some \<lparr>ms_start = i, ms_end = e, ms_group = g\<rparr>)"

text \<open>\<^verbatim>\<open>FindAllStringSubmatchIndex\<close>: from the left, without overlaps. \<open>skip\<close> is the end of the last match.\<close>

fun find_from :: "re \<Rightarrow> string \<Rightarrow> nat \<Rightarrow> nat \<Rightarrow> match_span list" where
  "find_from r s 0 i = []"
| "find_from r s (Suc left) i =
     (case match_at r s i of
        None \<Rightarrow> find_from r s left (Suc i)
      | Some m \<Rightarrow> m # find_from r s (left - (ms_end m - Suc i)) (max (Suc i) (ms_end m)))"

definition FindAll :: "re \<Rightarrow> string \<Rightarrow> match_span list" where
  "FindAll r s = find_from r s (Suc (length s)) 0"

section \<open>Shorthands for patterns\<close>

definition Lit :: "string \<Rightarrow> re" where
  "Lit w = foldr (\<lambda>c r. Seq (Cls (\<lambda>d. d = c)) r) w Eps"

text \<open>A literal under \<^verbatim>\<open>(?i)\<close>.\<close>

definition LitFold :: "string \<Rightarrow> re" where
  "LitFold w = foldr (\<lambda>c r. Seq (Cls (\<lambda>d. lower_ascii d = lower_ascii c)) r) w Eps"

definition Opt :: "re \<Rightarrow> re" where "Opt r = Rep 0 (Some 1) r"
definition Star :: "re \<Rightarrow> re" where "Star r = Rep 0 None r"
definition Plus :: "re \<Rightarrow> re" where "Plus r = Rep 1 None r"
definition Times :: "nat \<Rightarrow> re \<Rightarrow> re" where "Times n r = Rep n (Some n) r"
definition Seqs :: "re list \<Rightarrow> re" where "Seqs rs = foldr Seq rs Eps"

definition is_hex :: "char \<Rightarrow> bool" where
  "is_hex c = (is_digit c \<or> (97 \<le> (of_char (lower_ascii c) :: int) \<and> (of_char (lower_ascii c) :: int) \<le> 102))"

definition is_letter :: "char \<Rightarrow> bool" where
  "is_letter c = (is_lower c \<or> is_upper c)"

definition is_alnum_byte :: "char \<Rightarrow> bool" where
  "is_alnum_byte c = (is_letter c \<or> is_digit c)"

definition is_re_space :: "char \<Rightarrow> bool" where
  "is_re_space c = (c \<in> {byte 9, byte 10, byte 12, byte 13, byte 32})"

text \<open>\<^verbatim>\<open>MatchString\<close>: somewhere in the text.\<close>

definition MatchString :: "re \<Rightarrow> string \<Rightarrow> bool" where
  "MatchString r s = list_ex (\<lambda>i. match_at r s i \<noteq> None) [0..<Suc (length s)]"

section \<open>Matches are where they say\<close>

lemma rep_runs_end:
  assumes "\<And>x y. y \<in> set (f x) \<Longrightarrow> fst x \<le> n \<Longrightarrow> fst x \<le> fst y \<and> fst y \<le> n"
  shows "y \<in> set (rep_runs fuel f lo hi x) \<Longrightarrow> fst x \<le> n \<Longrightarrow> fst x \<le> fst y \<and> fst y \<le> n"
proof (induction fuel arbitrary: lo hi x)
  case (Suc fuel)
  from Suc.prems(1) consider "y = x" | z where "z \<in> set (f x)" "y \<in> set (rep_runs fuel f (lo - 1) (map_option (\<lambda>n. n - 1) hi) z)"
    by (auto split: if_splits)
  then show ?case
  proof cases
    case 2
    then show ?thesis using assms[OF 2(1) Suc.prems(2)] Suc.IH[OF 2(2)] by simp
  qed (use Suc.prems in simp)
qed (auto split: if_splits)

lemma runs_end: "y \<in> set (runs r s x) \<Longrightarrow> fst x \<le> length s \<Longrightarrow> fst x \<le> fst y \<and> fst y \<le> length s"
proof (induction r arbitrary: x y)
  case (Seq a b)
  then obtain z where "z \<in> set (runs a s x)" "y \<in> set (runs b s z)" by auto
  then show ?case using Seq.IH(1)[of z x] Seq.IH(2)[of y z] Seq.prems(2) by fastforce
next
  case (Rep lo hi r)
  from Rep.prems(1) have y: "y \<in> set (rep_runs (Suc (length s)) (runs r s) lo hi x)" by (simp del: rep_runs.simps)
  show ?case by (rule rep_runs_end[OF _ y Rep.prems(2)]) (rule Rep.IH)
next
  case (Grp r)
  then obtain z where z: "z \<in> set (runs r s x)" "fst y = fst z" by auto
  then show ?case using Grp.IH[OF z(1) Grp.prems(2)] by simp
qed (auto split: if_splits)

lemma match_at_bounds: "match_at r s i = Some m \<Longrightarrow> i \<le> length s \<Longrightarrow> ms_start m = i \<and> i \<le> ms_end m \<and> ms_end m \<le> length s"
  using runs_end[of _ r s "(i, None)"] by (auto simp: match_at_def split: list.splits) (metis fst_conv list.set_intros(1))+

end
