(* ===== verification/Go_Net.thy ===== *)
theory Go_Net
  imports Go_Strings Go_Conv
begin

text \<open>
  What the sanitiser uses of package \<^verbatim>\<open>net\<close>: parsing addresses (\<^verbatim>\<open>net.ParseIP\<close>, without zones, as the
  candidates have none) and membership in networks. An address is its sixteen bytes; a version 4
  address is mapped, as \<^verbatim>\<open>net.IPv4\<close> maps it.
\<close>

type_synonym ip = "nat list"

definition v4_prefix :: "nat list" where
  "v4_prefix = replicate 10 0 @ [255, 255]"

definition map_v4 :: "nat list \<Rightarrow> ip" where
  "map_v4 b = v4_prefix @ b"

text \<open>A field of a dotted quad: decimal, at most 255, without a leading zero.\<close>

definition v4_field :: "string \<Rightarrow> nat option" where
  "v4_field s = (case plain_digits s of None \<Rightarrow> None
     | Some n \<Rightarrow> if n > 255 \<or> (length s > 1 \<and> hd s = CHR ''0'') then None else Some n)"

definition parse_v4 :: "string \<Rightarrow> nat list option" where
  "parse_v4 s = (case split_on (CHR ''.'') s of
     [a, b, c, d] \<Rightarrow> (case (v4_field a, v4_field b, v4_field c, v4_field d) of
        (Some w, Some x, Some y, Some z) \<Rightarrow> Some [w, x, y, z] | _ \<Rightarrow> None)
   | _ \<Rightarrow> None)"

definition hex_val :: "char \<Rightarrow> nat option" where
  "hex_val c = (let n = (of_char (lower_ascii c) :: nat) in
     if 48 \<le> n \<and> n \<le> 57 then Some (n - 48) else if 97 \<le> n \<and> n \<le> 102 then Some (n - 87) else None)"

fun hex_num :: "nat \<Rightarrow> string \<Rightarrow> nat option" where
  "hex_num acc [] = Some acc"
| "hex_num acc (c # s) = (case hex_val c of None \<Rightarrow> None | Some d \<Rightarrow> hex_num (16 * acc + d) s)"

definition v6_group :: "string \<Rightarrow> nat list option" where
  "v6_group s = (if s = [] \<or> length s > 4 then None else map_option (\<lambda>n. [n div 256, n mod 256]) (hex_num 0 s))"

text \<open>A run of groups between colons; the last may be a dotted quad.\<close>

fun v6_groups :: "string list \<Rightarrow> nat list option" where
  "v6_groups [] = Some []"
| "v6_groups [g] = (if CHR ''.'' \<in> set g then parse_v4 g else v6_group g)"
| "v6_groups (g # h # gs) = (case (v6_group g, v6_groups (h # gs)) of (Some a, Some b) \<Rightarrow> Some (a @ b) | _ \<Rightarrow> None)"

text \<open>The position of the first double colon.\<close>

fun cut_double :: "string \<Rightarrow> (string \<times> string) option" where
  "cut_double (a # b # s) = (if a = CHR '':'' \<and> b = CHR '':'' then Some ([], s)
     else map_option (\<lambda>(x, y). (a # x, y)) (cut_double (b # s)))"
| "cut_double _ = None"

definition v6_side :: "string \<Rightarrow> nat list option" where
  "v6_side s = (if s = [] then Some [] else v6_groups (split_on (CHR '':'') s))"

definition parse_v6 :: "string \<Rightarrow> nat list option" where
  "parse_v6 s = (case cut_double s of
     None \<Rightarrow> (case v6_groups (split_on (CHR '':'') s) of Some b \<Rightarrow> if length b = 16 then Some b else None | None \<Rightarrow> None)
   | Some (l, r) \<Rightarrow> (case (if l = [] then Some [] else if CHR ''.'' \<in> set l then None else v6_groups (split_on (CHR '':'') l), v6_side r) of
       (Some a, Some b) \<Rightarrow> if length a + length b \<le> 14 then Some (a @ replicate (16 - length a - length b) 0 @ b) else None
     | _ \<Rightarrow> None))"

definition ParseIP :: "string \<Rightarrow> ip option" where
  "ParseIP s = (if CHR '':'' \<in> set s then parse_v6 s else map_option map_v4 (parse_v4 s))"

text \<open>\<^verbatim>\<open>To4\<close>, and the predicates on addresses.\<close>

definition To4 :: "ip \<Rightarrow> nat list option" where
  "To4 a = (if take 12 a = v4_prefix then Some (drop 12 a) else None)"

definition IsLoopback :: "ip \<Rightarrow> bool" where
  "IsLoopback a = (case To4 a of Some b \<Rightarrow> hd b = 127 | None \<Rightarrow> a = replicate 15 0 @ [1])"

definition IsUnspecified :: "ip \<Rightarrow> bool" where
  "IsUnspecified a = (a = map_v4 [0, 0, 0, 0] \<or> a = replicate 16 0)"

text \<open>Membership in a network, given by its bytes and the length of its prefix in bits.\<close>

definition bits_of :: "nat list \<Rightarrow> bool list" where
  "bits_of b = concat (map (\<lambda>n. map (\<lambda>i. n div 2 ^ i mod 2 = 1) (rev [0..<8])) b)"

definition in_net :: "nat list \<Rightarrow> nat \<Rightarrow> nat list \<Rightarrow> bool" where
  "in_net base len b = (length b = length base \<and> take len (bits_of b) = take len (bits_of base))"

end
