(* ===== verification/Go_Arith.thy ===== *)
theory Go_Arith
  imports Go_Float
begin

text \<open>
  The rest of the arithmetic on doubles that the statistics and the sanitiser use: negation,
  subtraction, multiplication and division, each operation rounded by itself.
\<close>

fun fneg :: "float64 \<Rightarrow> float64" where
  "fneg NaN = NaN"
| "fneg PosInf = NegInf"
| "fneg NegInf = PosInf"
| "fneg NegZero = Fin 0"
| "fneg (Fin q) = (if q = 0 then NegZero else Fin (- q))"

fun signbit :: "float64 \<Rightarrow> bool" where
  "signbit NegInf = True"
| "signbit NegZero = True"
| "signbit (Fin q) = (q < 0)"
| "signbit _ = False"

definition fabs :: "float64 \<Rightarrow> float64" where
  "fabs x = (if signbit x then fneg x else x)"

definition fsub :: "float64 \<Rightarrow> float64 \<Rightarrow> float64" where
  "fsub x y = fadd x (fneg y)"

text \<open>A zero and an infinity of a given sign.\<close>

definition zero_of :: "bool \<Rightarrow> float64" where "zero_of neg = (if neg then NegZero else Fin 0)"
definition inf_of :: "bool \<Rightarrow> float64" where "inf_of neg = (if neg then NegInf else PosInf)"

definition fmul :: "float64 \<Rightarrow> float64 \<Rightarrow> float64" where
  "fmul x y = (let neg = (signbit x \<noteq> signbit y) in
     if IsNaN x \<or> IsNaN y then NaN
     else if IsInf x then (if \<not> IsInf y \<and> fval y = 0 then NaN else inf_of neg)
     else if IsInf y then (if fval x = 0 then NaN else inf_of neg)
     else if fval x = 0 \<or> fval y = 0 then zero_of neg
     else round_f64 (fval x * fval y))"

definition fdiv :: "float64 \<Rightarrow> float64 \<Rightarrow> float64" where
  "fdiv x y = (let neg = (signbit x \<noteq> signbit y) in
     if IsNaN x \<or> IsNaN y then NaN
     else if IsInf x then (if IsInf y then NaN else inf_of neg)
     else if IsInf y then zero_of neg
     else if fval y = 0 then (if fval x = 0 then NaN else inf_of neg)
     else if fval x = 0 then zero_of neg
     else round_f64 (fval x / fval y))"

definition of_count :: "nat \<Rightarrow> float64" where
  "of_count n = round_f64 (of_nat n)"

end
