(* ===== verification/Sanitize.thy ===== *)
theory Sanitize
  imports Go_Regexp Go_Net Go_Arith Go_Sha256 Runner_Parse
begin

text \<open>
  \<^verbatim>\<open>pkg/sanitize\<close>: a copy of a result that can leave the site. The loops over the inventory take the
  names in the order of the list, which stands for the order in which Go ranges over the
  map. The logarithm \<^verbatim>\<open>math.Log2\<close> is the parameter \<open>log2\<close>. Texts are taken byte by byte: the case of
  letters outside ASCII is not folded. Reading and writing JSON text is not modelled; a document is a \<open>json\<close>.
\<close>

section \<open>Rules\<close>

datatype Category =
    CatSerial | CatUsername | CatWifiSSID | CatEnvDump | CatSecret | CatMachineID | CatUUID | CatMAC | CatRDMAGUID
  | CatSSHFingerprint | CatSSHHostKey | CatIPv6Local | CatIPv4Private | CatIPv4Public | CatIPv6Public | CatHostname | CatKeep

fun category_word :: "Category \<Rightarrow> string" where
  "category_word CatSerial = ''serial''"
| "category_word CatUsername = ''username''"
| "category_word CatWifiSSID = ''wifi_ssid''"
| "category_word CatEnvDump = ''env_dump''"
| "category_word CatSecret = ''secret''"
| "category_word CatMachineID = ''machine_id''"
| "category_word CatUUID = ''uuid''"
| "category_word CatMAC = ''mac''"
| "category_word CatRDMAGUID = ''rdma_guid''"
| "category_word CatSSHFingerprint = ''ssh_fingerprint''"
| "category_word CatSSHHostKey = ''ssh_host_key''"
| "category_word CatIPv6Local = ''ipv6_link_local_or_ula''"
| "category_word CatIPv4Private = ''ipv4_private''"
| "category_word CatIPv4Public = ''ipv4_public''"
| "category_word CatIPv6Public = ''ipv6_public''"
| "category_word CatHostname = ''hostname''"
| "category_word CatKeep = []"

text \<open>The table \<^verbatim>\<open>prefixes\<close>; a category it lacks has the empty prefix.\<close>

fun prefix_of :: "Category \<Rightarrow> string" where
  "prefix_of CatSerial = ''serial''"
| "prefix_of CatUsername = ''user''"
| "prefix_of CatWifiSSID = ''ssid''"
| "prefix_of CatMachineID = ''mid''"
| "prefix_of CatUUID = ''uuid''"
| "prefix_of CatMAC = ''mac''"
| "prefix_of CatRDMAGUID = ''guid''"
| "prefix_of CatSSHFingerprint = ''ssh''"
| "prefix_of CatSSHHostKey = ''ssh''"
| "prefix_of CatHostname = ''host''"
| "prefix_of _ = []"

definition mask_env :: string where "mask_env = ''<REDACTED-ENV>''"
definition mask_secret :: string where "mask_secret = ''<REDACTED-SECRET>''"

definition keySerial :: re where "keySerial = LitFold ''serial''"

definition keyUsername :: re where
  "keyUsername = Seqs [TextStart, Alt (LitFold ''user'') (Alt (LitFold ''username'') (Alt (LitFold ''operator'') (LitFold ''promoter''))), TextEnd]"

definition keySSID :: re where
  "keySSID = Seqs [Alt TextStart (Cls (\<lambda>c. lower_ascii c \<noteq> CHR ''b'')), LitFold ''ssid'', TextEnd]"

definition keyEnv :: re where
  "keyEnv = Alt (Seqs [TextStart, LitFold ''env'', TextEnd]) (Alt (LitFold ''environ'') (LitFold ''environment_dump''))"

definition keySecret :: re where
  "keySecret = Alt (LitFold ''authorization'') (Alt (LitFold ''token'') (Alt (LitFold ''api_key'') (Alt (LitFold ''secret'') (LitFold ''password''))))"

definition keyHostname :: re where
  "keyHostname = Alt (Seqs [Alt (LitFold ''hostname'') (Alt (LitFold ''fqdn'') (LitFold ''nodename'')), TextEnd])
     (Seqs [TextStart, Alt (LitFold ''host'') (LitFold ''control_host''), TextEnd])"

definition envSafe :: "string list" where
  "envSafe = [''PATH'', ''LANG'', ''TERM'', ''PWD'', ''SHELL'']"

abbreviation hexes :: "nat \<Rightarrow> re" where "hexes n \<equiv> Times n (Cls is_hex)"
abbreviation chr :: "char \<Rightarrow> re" where "chr c \<equiv> Cls (\<lambda>d. d = c)"

definition is_b64 :: "char \<Rightarrow> bool" where
  "is_b64 c = (is_alnum_byte c \<or> c = CHR ''+'' \<or> c = CHR ''/'')"

definition reHomePath :: re where
  "reHomePath = Seqs [Lit ''/'', Alt (Lit ''home'') (Lit ''Users''), Lit ''/'',
     Grp (Plus (Cls (\<lambda>c. c \<noteq> CHR ''/'' \<and> \<not> is_re_space c \<and> c \<noteq> byte 34 \<and> c \<noteq> byte 39)))]"

definition reAuthHeader :: re where
  "reAuthHeader = Seqs [LineStart, LitFold ''Authorization:'', Star (Cls (\<lambda>c. c = CHR '' '' \<or> c = byte 9)),
     Grp (Seq (Cls (\<lambda>c. \<not> is_re_space c)) (Star (Cls (\<lambda>c. c \<noteq> byte 10)))), LineEnd]"

definition reMachineID :: re where "reMachineID = Seqs [WordBoundary, hexes 32, WordBoundary]"

definition reUUID :: re where
  "reUUID = Seqs [WordBoundary, Opt (Seq (Plus (Cls is_letter)) (chr (CHR ''-''))), hexes 8, Lit ''-'', hexes 4, Lit ''-'', hexes 4, Lit ''-'',
     hexes 4, Lit ''-'', hexes 12, WordBoundary]"

definition reMAC :: re where
  "reMAC = Seqs [WordBoundary, hexes 2, Times 5 (Seq (Cls (\<lambda>c. c = CHR '':'' \<or> c = CHR ''-'')) (hexes 2)), WordBoundary]"

definition reRDMAGUID :: re where
  "reRDMAGUID = Seqs [WordBoundary, hexes 4, Lit '':'', hexes 4, Lit '':'', hexes 4, Lit '':'', hexes 4, WordBoundary]"

definition reSSHFP :: re where "reSSHFP = Seqs [WordBoundary, Lit ''SHA256:'', Times 43 (Cls is_b64)]"

definition reSSHHostKey :: re where
  "reSSHHostKey = Seqs [WordBoundary, Alt (Lit ''ssh-ed25519'') (Alt (Lit ''ssh-rsa'') (Seq (Lit ''ecdsa-sha2-'') (Plus (Cls (\<lambda>c. \<not> is_re_space c))))),
     Lit '' '', Rep 40 None (Cls is_b64), Rep 0 (Some 2) (chr (CHR ''=''))]"

definition reIPv4 :: re where
  "reIPv4 = Seqs [WordBoundary, Times 3 (Seq (Rep 1 (Some 3) (Cls is_digit)) (chr (CHR ''.''))), Rep 1 (Some 3) (Cls is_digit), WordBoundary]"

definition reIPv6Candidate :: re where
  "reIPv6Candidate = Seq (Rep 0 (Some 4) (Cls is_hex)) (Rep 2 (Some 7) (Seq (chr (CHR '':'')) (Rep 0 (Some 4) (Cls is_hex))))"

definition is_host_char :: "char \<Rightarrow> bool" where
  "is_host_char c = (is_alnum_byte c \<or> c = CHR ''-'')"

definition reHostname :: re where
  "reHostname = Seqs [WordBoundary,
     Plus (Seqs [Cls is_alnum_byte, Opt (Seq (Rep 0 (Some 61) (Cls is_host_char)) (Cls is_alnum_byte)), chr (CHR ''.'')]),
     Rep 2 None (Cls is_letter), WordBoundary]"

definition is_repo_char :: "char \<Rightarrow> bool" where
  "is_repo_char c = (is_lower c \<or> is_digit c \<or> c \<in> set ''._-'')"

definition reRegistryRef :: re where
  "reRegistryRef = Seqs [WordBoundary,
     Grp (Seqs [Plus (Seq (Plus (Cls is_host_char)) (chr (CHR ''.''))), Rep 2 None (Cls is_letter),
       Opt (Seq (chr (CHR '':'')) (Plus (Cls is_digit))), Plus (Seq (chr (CHR ''/'')) (Plus (Cls is_repo_char)))]),
     Opt (Seq (chr (CHR '':'')) (Plus (Cls (\<lambda>c. is_alnum_byte c \<or> c \<in> set ''_.-'')))),
     Opt (Seq (Lit ''@sha256:'') (Times 64 (Cls (\<lambda>c. is_digit c \<or> is_hex c \<and> is_lower c))))]"

definition reEntropyRun :: re where
  "reEntropyRun = Rep 24 None (Cls (\<lambda>c. is_b64 c \<or> c \<in> set ''=_-''))"

definition DefaultAllowDomains :: "string list" where
  "DefaultAllowDomains = [''nvcr.io'', ''docker.io'', ''ghcr.io'', ''quay.io'', ''gcr.io'', ''public.ecr.aws'',
     ''pypi.org'', ''pythonhosted.org'', ''ubuntu.com'', ''github.com'',
     ''k8s.io'', ''kubernetes.io'', ''nvidia.com'', ''amd.com'', ''glimmer.ai'']"

definition isLocalhost :: "string \<Rightarrow> bool" where
  "isLocalhost h = (let h = ToLower h in h = ''localhost'' \<or> h = ''localhost.localdomain'')"

definition domainAllowed :: "string \<Rightarrow> string list \<Rightarrow> bool" where
  "domainAllowed host allow = (let host = ToLower (TrimSuffix host ''.'') in
     list_ex (\<lambda>d. let d = ToLower d in host = d \<or> HasSuffix host (''.'' @ d)) allow)"

section \<open>The sanitiser\<close>

record Sanitizer =
  sz_salt :: string
  sz_hosts :: "string list"
  sz_users :: "string list"
  sz_allow :: "string list"
  sz_counts :: "int gomap"
  sz_ip_map :: "(ip \<times> string) list"
  sz_next_v4 :: nat
  sz_next_v6 :: nat

definition add_name :: "string \<Rightarrow> string list \<Rightarrow> string list" where
  "add_name n names = (if n \<in> set names then names else names @ [n])"

definition AddHost :: "string \<Rightarrow> Sanitizer \<Rightarrow> Sanitizer" where
  "AddHost h s = (let h = ToLower (TrimSpace h) in
     if length h < 2 \<or> isLocalhost h \<or> domainAllowed h (sz_allow s) \<or> ParseIP h \<noteq> None then s
     else s\<lparr>sz_hosts := add_name h (sz_hosts s)\<rparr>)"

definition add_user :: "string \<Rightarrow> Sanitizer \<Rightarrow> Sanitizer" where
  "add_user u s = (let u = TrimSpace u in
     if length u \<ge> 2 then s\<lparr>sz_users := add_name (ToLower u) (sz_users s)\<rparr> else s)"

text \<open>\<open>fresh\<close> is what the random source gives when no salt is passed.\<close>

definition New :: "string \<Rightarrow> string option \<Rightarrow> string list option \<Rightarrow> string list \<Rightarrow> string list \<Rightarrow> Sanitizer" where
  "New fresh salt allow hosts users =
     (let s = \<lparr>sz_salt = (case salt of Some x \<Rightarrow> x | None \<Rightarrow> fresh), sz_hosts = [], sz_users = [],
               sz_allow = (case allow of Some a \<Rightarrow> a | None \<Rightarrow> DefaultAllowDomains),
               sz_counts = [], sz_ip_map = [], sz_next_v4 = 0, sz_next_v6 = 0\<rparr>
      in fold add_user users (fold AddHost hosts s))"

definition Counts :: "Sanitizer \<Rightarrow> int gomap" where
  "Counts s = sz_counts s"

text \<open>HMAC over SHA-256, in hexadecimal.\<close>

definition word_bytes :: "32 word list \<Rightarrow> string" where
  "word_bytes ws = concat (map (\<lambda>w. map (\<lambda>i. byte (uint w div 256 ^ i mod 256)) (rev [0..<4])) ws)"

definition xor_byte :: "nat \<Rightarrow> char \<Rightarrow> char" where
  "xor_byte m c = byte (uint (xor (word_of_int (of_char c) :: 8 word) (word_of_nat m)))"

definition hmac_sha256 :: "string \<Rightarrow> string \<Rightarrow> 32 word list" where
  "hmac_sha256 key message =
     (let key = (if length key > 64 then word_bytes (Sum256 key) else key);
          key = key @ replicate (64 - length key) (byte 0)
      in Sum256 (map (xor_byte 92) key @ word_bytes (Sum256 (map (xor_byte 54) key @ message))))"

definition pseudonym :: "Sanitizer \<Rightarrow> Category \<Rightarrow> string \<Rightarrow> string" where
  "pseudonym s cat v =
     prefix_of cat @ ''-'' @ take 12 (EncodeToString (hmac_sha256 (sz_salt s) (category_word cat @ '':'' @ v)))"

section \<open>Finding what identifies\<close>

record span =
  sp_start :: nat
  sp_end :: nat
  sp_cat :: Category
  sp_inventory :: bool

definition isTokenByte :: "char \<Rightarrow> bool" where
  "isTokenByte b = (b = CHR ''_'' \<or> b = CHR ''-'' \<or> is_alnum_byte b)"

text \<open>The runs of token bytes: \<open>cur\<close> is where the current one began.\<close>

fun token_runs :: "string \<Rightarrow> nat \<Rightarrow> nat option \<Rightarrow> (nat \<times> nat) list" where
  "token_runs [] i cur = (case cur of None \<Rightarrow> [] | Some a \<Rightarrow> [(a, i)])"
| "token_runs (c # s) i cur =
     (if isTokenByte c then token_runs s (Suc i) (case cur of None \<Rightarrow> Some i | Some a \<Rightarrow> Some a)
      else (case cur of None \<Rightarrow> [] | Some a \<Rightarrow> [(a, i)]) @ token_runs s (Suc i) None)"

text \<open>Where a name stands in a token, on its own or between dashes.\<close>

definition bounded_at :: "string \<Rightarrow> string \<Rightarrow> nat \<Rightarrow> bool" where
  "bounded_at tok name a = (let b = a + length name in
     b \<le> length tok \<and> take (length name) (drop a tok) = name \<and>
     (a = 0 \<or> tok ! (a - 1) = CHR ''-'') \<and> (b = length tok \<or> tok ! b = CHR ''-''))"

definition name_spans :: "string \<Rightarrow> nat \<Rightarrow> Category \<Rightarrow> string \<Rightarrow> span list" where
  "name_spans tok i cat name = map (\<lambda>a. \<lparr>sp_start = i + a, sp_end = i + a + length name, sp_cat = cat, sp_inventory = True\<rparr>)
     (filter (bounded_at tok name) [0..<Suc (length tok)])"

definition token_spans :: "Sanitizer \<Rightarrow> string \<Rightarrow> nat \<times> nat \<Rightarrow> span list" where
  "token_spans s lower ij = (case ij of (i, j) \<Rightarrow> (let tok = take (j - i) (drop i lower) in
     concat (map (name_spans tok i CatHostname) (sz_hosts s)) @ concat (map (name_spans tok i CatUsername) (sz_users s))))"

definition inventorySpans :: "Sanitizer \<Rightarrow> string \<Rightarrow> span list" where
  "inventorySpans s str = concat (map (token_spans s (ToLower str)) (token_runs str 0 None))"

definition docV4 :: "nat list list" where
  "docV4 = [[192, 0, 2, 0], [198, 51, 100, 0], [203, 0, 113, 0]]"

definition docV6 :: "nat list" where
  "docV6 = [32, 1, 13, 184] @ replicate 12 0"

definition privV4 :: "(nat list \<times> nat) list" where
  "privV4 = [([10, 0, 0, 0], 8), ([172, 16, 0, 0], 12), ([192, 168, 0, 0], 16), ([100, 64, 0, 0], 10), ([169, 254, 0, 0], 16)]"

definition localV6 :: "(nat list \<times> nat) list" where
  "localV6 = [([254, 128] @ replicate 14 0, 10), ([252] @ replicate 15 0, 7)]"

definition inAny :: "nat list \<Rightarrow> (nat list \<times> nat) list \<Rightarrow> bool" where
  "inAny b nets = list_ex (\<lambda>(base, len). in_net base len b) nets"

definition substr :: "string \<Rightarrow> nat \<Rightarrow> nat \<Rightarrow> string" where
  "substr str a b = take (b - a) (drop a str)"

text \<open>The category of an address literal; \<open>None\<close> is the empty category, which nothing replaces.\<close>

definition classifyIP :: "string \<Rightarrow> Category option" where
  "classifyIP lit = (case ParseIP lit of
     None \<Rightarrow> None
   | Some a \<Rightarrow>
       if IsLoopback a \<or> IsUnspecified a then None
       else (case (if CHR '':'' \<in> set lit then None else To4 a) of
         Some v4 \<Rightarrow>
           if v4 = [255, 255, 255, 255] \<or> inAny v4 (map (\<lambda>n. (n, 24)) docV4) then None
           else Some (if inAny v4 privV4 then CatIPv4Private else CatIPv4Public)
       | None \<Rightarrow>
           if in_net docV6 32 a then None
           else Some (if inAny a localV6 then CatIPv6Local else CatIPv6Public)))"

definition whole_spans :: "re \<Rightarrow> Category \<Rightarrow> string \<Rightarrow> span list" where
  "whole_spans r cat str = map (\<lambda>m. \<lparr>sp_start = ms_start m, sp_end = ms_end m, sp_cat = cat, sp_inventory = False\<rparr>) (FindAll r str)"

definition group_spans :: "re \<Rightarrow> Category \<Rightarrow> string \<Rightarrow> span list" where
  "group_spans r cat str = concat (map (\<lambda>m. case ms_group m of None \<Rightarrow> []
     | Some (a, b) \<Rightarrow> [\<lparr>sp_start = a, sp_end = b, sp_cat = cat, sp_inventory = False\<rparr>]) (FindAll r str))"

definition ip_spans :: "(string \<Rightarrow> bool) \<Rightarrow> re \<Rightarrow> string \<Rightarrow> span list" where
  "ip_spans ok r str = concat (map (\<lambda>m. let lit = substr str (ms_start m) (ms_end m) in
     if \<not> ok lit then [] else (case classifyIP lit of None \<Rightarrow> []
       | Some c \<Rightarrow> [\<lparr>sp_start = ms_start m, sp_end = ms_end m, sp_cat = c, sp_inventory = False\<rparr>])) (FindAll r str))"

definition host_part :: "string \<Rightarrow> string" where
  "host_part host = takeWhile (\<lambda>c. c \<noteq> CHR '':'' \<and> c \<noteq> CHR ''/'') host"

definition registry_spans :: "Sanitizer \<Rightarrow> string \<Rightarrow> span list" where
  "registry_spans s str = concat (map (\<lambda>m. case ms_group m of None \<Rightarrow> []
     | Some (a, b) \<Rightarrow> (let host = host_part (substr str a b) in
         if isLocalhost host \<or> domainAllowed host (sz_allow s)
         then [\<lparr>sp_start = ms_start m, sp_end = ms_end m, sp_cat = CatKeep, sp_inventory = False\<rparr>]
         else [\<lparr>sp_start = a, sp_end = b, sp_cat = CatHostname, sp_inventory = False\<rparr>])) (FindAll reRegistryRef str))"

definition hostname_spans :: "Sanitizer \<Rightarrow> string \<Rightarrow> span list" where
  "hostname_spans s str = filter (\<lambda>sp. let h = substr str (sp_start sp) (sp_end sp) in \<not> (isLocalhost h \<or> domainAllowed h (sz_allow s)))
     (whole_spans reHostname CatHostname str)"

definition pattern_spans :: "Sanitizer \<Rightarrow> string \<Rightarrow> span list" where
  "pattern_spans s str =
     group_spans reHomePath CatUsername str @ group_spans reAuthHeader CatSecret str @ whole_spans reMachineID CatMachineID str @
     whole_spans reUUID CatUUID str @ whole_spans reMAC CatMAC str @ whole_spans reRDMAGUID CatRDMAGUID str @
     whole_spans reSSHFP CatSSHFingerprint str @ whole_spans reSSHHostKey CatSSHHostKey str @
     ip_spans (\<lambda>_. True) reIPv4 str @
     ip_spans (\<lambda>lit. \<not> (length (filter (\<lambda>c. c = CHR '':'') lit) < 2 \<or> ParseIP lit = None)) reIPv6Candidate str @
     registry_spans s str @ hostname_spans s str"

definition overlaps :: "span \<Rightarrow> span \<Rightarrow> bool" where
  "overlaps a b = (sp_start a < sp_end b \<and> sp_start b < sp_end a)"

definition contains :: "span \<Rightarrow> span \<Rightarrow> bool" where
  "contains a b = (sp_start a \<le> sp_start b \<and> sp_end a \<ge> sp_end b)"

text \<open>The leftmost, and of those the longest, first; then what starts after the last one chosen.\<close>

fun choose_spans :: "span list \<Rightarrow> int \<Rightarrow> span list" where
  "choose_spans [] e = []"
| "choose_spans (c # cs) e = (if int (sp_start c) \<ge> e then c # choose_spans cs (int (sp_end c)) else choose_spans cs e)"

definition order_key :: "span \<Rightarrow> int list" where
  "order_key c = [int (sp_start c), - (int (sp_end c) - int (sp_start c))]"

definition entropyMinBitsPerChar :: float64 where
  "entropyMinBitsPerChar = Fin (7 / 2)"

definition shannon :: "(float64 \<Rightarrow> float64) \<Rightarrow> string \<Rightarrow> float64" where
  "shannon log2 s = fold (\<lambda>b h. let f = length (filter (\<lambda>c. of_char c = (b :: nat)) s) in
     if f > 0 then (let p = fdiv (of_count f) (of_count (length s)) in fsub h (fmul p (log2 p))) else h) [0..<256] (Fin 0)"

definition entropy_spans :: "(float64 \<Rightarrow> float64) \<Rightarrow> string \<Rightarrow> span list \<Rightarrow> span list" where
  "entropy_spans log2 str chosen = fold (\<lambda>m chosen.
     let c = \<lparr>sp_start = ms_start m, sp_end = ms_end m, sp_cat = CatSecret, sp_inventory = False\<rparr> in
     if flt (shannon log2 (substr str (ms_start m) (ms_end m))) entropyMinBitsPerChar \<or> list_ex (overlaps c) chosen then chosen else chosen @ [c])
     (FindAll reEntropyRun str) chosen"

definition kept_spans :: "Sanitizer \<Rightarrow> string \<Rightarrow> span list" where
  "kept_spans s str = (let inv = inventorySpans s str in
     inv @ filter (\<lambda>o'. \<not> list_ex (\<lambda>v. overlaps o' v \<and> \<not> contains o' v) inv) (pattern_spans s str))"

definition detect :: "(float64 \<Rightarrow> float64) \<Rightarrow> Sanitizer \<Rightarrow> string \<Rightarrow> span list" where
  "detect log2 s str = sort_key sp_start (entropy_spans log2 str (choose_spans (sort_key order_key (kept_spans s str)) (-1)))"

section \<open>Replacing it\<close>

datatype sanitize_error = PoolExhausted | KeysMerge string

type_synonym 'a san = "Sanitizer \<Rightarrow> (sanitize_error + 'a) \<times> Sanitizer"

definition san_ret :: "'a \<Rightarrow> 'a san" where
  "san_ret a s = (Inr a, s)"

definition san_bind :: "'a san \<Rightarrow> ('a \<Rightarrow> 'b san) \<Rightarrow> 'b san" where
  "san_bind m f s = (case m s of (Inl e, s) \<Rightarrow> (Inl e, s) | (Inr a, s) \<Rightarrow> f a s)"

definition canonical :: "Category \<Rightarrow> string \<Rightarrow> string" where
  "canonical cat v =
     (if cat \<in> {CatHostname, CatUUID, CatMachineID, CatRDMAGUID, CatUsername} then ToLower v
      else if cat = CatMAC then map (\<lambda>c. if c = CHR ''-'' then CHR '':'' else c) (ToLower v)
      else v)"

text \<open>\<open>%x\<close> of a natural number.\<close>

fun show_hex :: "nat \<Rightarrow> string" where
  "show_hex n = (if n < 16 then [''0123456789abcdef'' ! n] else show_hex (n div 16) @ [''0123456789abcdef'' ! (n mod 16)])"

declare show_hex.simps [simp del]

text \<open>\<^verbatim>\<open>IP.String\<close> of a version 4 address.\<close>

definition show_v4 :: "nat list \<Rightarrow> string" where
  "show_v4 b = Join (map show_nat b) ''.''"

definition v4_stand_in :: "nat \<Rightarrow> string" where
  "v4_stand_in i = show_v4 (take 3 (docV4 ! (i div 254)) @ [i mod 254 + 1])"

definition v6_stand_in :: "nat \<Rightarrow> string" where
  "v6_stand_in i = ''2001:db8::'' @ show_hex i"

text \<open>
  The table is keyed by the address; the code keys it by the address's text, which is written in
  one way only. It is called on literals that parse.
\<close>

definition pooledIP :: "string \<Rightarrow> string san" where
  "pooledIP lit s = (let ip = (case ParseIP lit of Some a \<Rightarrow> a | None \<Rightarrow> []) in
     case map_of (sz_ip_map s) ip of
       Some got \<Rightarrow> (Inr got, s)
     | None \<Rightarrow>
         if To4 ip \<noteq> None \<and> CHR '':'' \<notin> set lit
         then (let i = sz_next_v4 s in
           if i \<ge> 3 * 254 then (Inl PoolExhausted, s)
           else (let out = v4_stand_in i in
             (Inr out, s\<lparr>sz_next_v4 := i + 1, sz_ip_map := (ip, out) # sz_ip_map s\<rparr>)))
         else (let i = sz_next_v6 s + 1; out = v6_stand_in i in
             (Inr out, s\<lparr>sz_next_v6 := i, sz_ip_map := (ip, out) # sz_ip_map s\<rparr>)))"

definition count_one :: "Category \<Rightarrow> Sanitizer \<Rightarrow> Sanitizer" where
  "count_one cat s = s\<lparr>sz_counts := mput (category_word cat) ((case mget (sz_counts s) (category_word cat) of Some n \<Rightarrow> n | None \<Rightarrow> 0) + 1) (sz_counts s)\<rparr>"

definition replace :: "Category \<Rightarrow> string \<Rightarrow> string san" where
  "replace cat v s = (let s = count_one cat s in
     if cat = CatSecret then (Inr mask_secret, s)
     else if cat = CatEnvDump then (Inr mask_env, s)
     else if cat \<in> {CatIPv4Private, CatIPv4Public, CatIPv6Local, CatIPv6Public} then pooledIP v s
     else (Inr (pseudonym s cat (canonical cat v)), s))"

text \<open>The text around and in the spans; \<open>pos\<close> is where the previous one ended.\<close>

fun rewrite :: "string \<Rightarrow> nat \<Rightarrow> span list \<Rightarrow> string san" where
  "rewrite str pos [] s = (Inr (drop pos str), s)"
| "rewrite str pos (sp # sps) s =
     (let lead = substr str pos (sp_start sp); v = substr str (sp_start sp) (sp_end sp) in
      san_bind (if sp_cat sp = CatKeep then san_ret v else replace (sp_cat sp) v)
        (\<lambda>r. san_bind (rewrite str (sp_end sp) sps) (\<lambda>rest. san_ret (lead @ r @ rest))) s)"

definition Text :: "(float64 \<Rightarrow> float64) \<Rightarrow> string \<Rightarrow> string san" where
  "Text log2 str s = rewrite str 0 (detect log2 s str) s"

text \<open>A path: the inventory's names only, in the order the tables give them.\<close>

fun rewrite_part :: "string \<Rightarrow> nat \<Rightarrow> span list \<Rightarrow> string san" where
  "rewrite_part p pos [] s = (Inr (drop pos p), s)"
| "rewrite_part p pos (sp # sps) s =
     (if sp_start sp < pos then rewrite_part p pos sps s
      else san_bind (replace (sp_cat sp) (substr p (sp_start sp) (sp_end sp)))
        (\<lambda>r. san_bind (rewrite_part p (sp_end sp) sps) (\<lambda>rest. san_ret (substr p pos (sp_start sp) @ r @ rest))) s)"

fun path_parts :: "string list \<Rightarrow> string list san" where
  "path_parts [] s = (Inr [], s)"
| "path_parts (p # ps) s = san_bind (rewrite_part p 0 (inventorySpans s p))
     (\<lambda>q. san_bind (path_parts ps) (\<lambda>qs. san_ret (q # qs))) s"

definition Path :: "string \<Rightarrow> string san" where
  "Path rel = san_bind (path_parts (split_on (CHR ''/'') rel)) (\<lambda>ps. san_ret (Join ps ''/''))"

section \<open>Documents\<close>

text \<open>A decoded document; a number is its text (\<^verbatim>\<open>UseNumber\<close>), an object the members in the order Go ranges over them.\<close>

datatype json = JNull | JBool bool | JNum string | JStr string | JArr "json list" | JObj "(string \<times> json) list"

definition exemptLeafKeys :: "string list" where
  "exemptLeafKeys = [''version'', ''reason'', ''phase'', ''sentAt'', ''startedAt'', ''finishedAt'', ''kind'', ''scope'',
     ''metric'', ''cause'', ''comparison'', ''applicability'', ''mediaType'', ''digest'', ''commit'', ''trigger'', ''role'']"

definition exemptObjects :: "string list" where "exemptObjects = [''producer'', ''summary'']"
definition exemptStringArrays :: "string list" where "exemptStringArrays = [''unmeasurable'']"

definition isFiniteNumber :: "string \<Rightarrow> bool" where
  "isFiniteNumber v = (case ParseFloat (TrimSpace v) of None \<Rightarrow> False | Some f \<Rightarrow> \<not> IsNaN f \<and> \<not> IsInf f)"

fun is_str :: "json \<Rightarrow> bool" where
  "is_str (JStr _) = True"
| "is_str _ = False"

text \<open>What becomes of a member: kept, replaced under a category, masked as an environment, or walked into.\<close>

datatype member_rule = MKeep | MReplace Category | MEnv | MWalk

definition key_rule :: "string list \<Rightarrow> string \<Rightarrow> string option \<Rightarrow> member_rule" where
  "key_rule allow k str =
     (let nonempty = (case str of Some v \<Rightarrow> v \<noteq> [] | None \<Rightarrow> False);
          under = (\<lambda>cat. if nonempty then MReplace cat else MWalk)
      in if MatchString keyEnv k then MEnv
         else if MatchString keySecret k then under CatSecret
         else if MatchString keySerial k then under CatSerial
         else if MatchString keyUsername k then under CatUsername
         else if MatchString keySSID k then under CatWifiSSID
         else if MatchString keyHostname k
           then (case str of Some v \<Rightarrow> if isLocalhost v \<or> domainAllowed v allow then MWalk else under CatHostname | None \<Rightarrow> MWalk)
         else MWalk)"

definition member_rule :: "string list \<Rightarrow> string \<Rightarrow> json \<Rightarrow> bool \<Rightarrow> member_rule" where
  "member_rule allow k v isMetric =
     (let str = (case v of JStr x \<Rightarrow> Some x | _ \<Rightarrow> None) in
      if isMetric
      then (case str of
          Some x \<Rightarrow> if isFiniteNumber x then MKeep else if MatchString keySerial k \<and> x \<noteq> [] then MReplace CatSerial else MWalk
        | None \<Rightarrow> MWalk)
      else if str \<noteq> None \<and> k \<in> set exemptLeafKeys then MKeep
      else key_rule allow k str)"

fun mask_members :: "(string \<times> json) list \<Rightarrow> (string \<times> json) list san" where
  "mask_members [] s = (Inr [], s)"
| "mask_members ((k, v) # kvs) s =
     san_bind (if k \<in> set envSafe then san_ret v else san_bind (replace CatEnvDump []) (\<lambda>r. san_ret (JStr r)))
       (\<lambda>v'. san_bind (mask_members kvs) (\<lambda>out. san_ret ((k, v') # out))) s"

text \<open>The value of a variable is not looked at: the mask replaces it.\<close>

fun maskEnv :: "json \<Rightarrow> json san" where
  "maskEnv (JStr x) s = san_bind (replace CatEnvDump x) (\<lambda>r. san_ret (JStr r)) s"
| "maskEnv (JObj kvs) s = san_bind (mask_members kvs) (\<lambda>out. san_ret (JObj out)) s"
| "maskEnv v s = (Inr v, s)"

definition leaf_text :: "json \<Rightarrow> string" where
  "leaf_text v = (case v of JStr x \<Rightarrow> x | _ \<Rightarrow> [])"

function walk :: "(float64 \<Rightarrow> float64) \<Rightarrow> json \<Rightarrow> string \<Rightarrow> json san"
  and walk_members :: "(float64 \<Rightarrow> float64) \<Rightarrow> (string \<times> json) list \<Rightarrow> bool \<Rightarrow> (string \<times> json) list \<Rightarrow> (string \<times> json) list san"
  and walkMember :: "(float64 \<Rightarrow> float64) \<Rightarrow> string \<Rightarrow> json \<Rightarrow> bool \<Rightarrow> json san"
  and walk_items :: "(float64 \<Rightarrow> float64) \<Rightarrow> json list \<Rightarrow> string \<Rightarrow> json list san" where
  "walk log2 (JObj kvs) key s =
     (if key \<in> set exemptObjects then (Inr (JObj kvs), s)
      else san_bind (walk_members log2 kvs (key = ''metrics'') []) (\<lambda>out. san_ret (JObj out)) s)"
| "walk log2 (JArr vs) key s = san_bind (walk_items log2 vs key) (\<lambda>out. san_ret (JArr out)) s"
| "walk log2 (JStr x) key s = san_bind (Text log2 x) (\<lambda>r. san_ret (JStr r)) s"
| "walk log2 JNull key s = (Inr JNull, s)"
| "walk log2 (JBool b) key s = (Inr (JBool b), s)"
| "walk log2 (JNum n) key s = (Inr (JNum n), s)"
| "walk_members log2 [] isMetric out s = (Inr out, s)"
| "walk_members log2 ((k, v) # kvs) isMetric out s =
     san_bind (if isMetric then san_ret k else Text log2 k) (\<lambda>nk s.
       if nk \<in> fst ` set out then (Inl (KeysMerge nk), s)
       else san_bind (walkMember log2 k v isMetric) (\<lambda>nv. walk_members log2 kvs isMetric (out @ [(nk, nv)])) s) s"
| "walkMember log2 k v isMetric s = (case member_rule (sz_allow s) k v isMetric of
     MKeep \<Rightarrow> (Inr v, s)
   | MReplace cat \<Rightarrow> san_bind (replace cat (leaf_text v)) (\<lambda>r. san_ret (JStr r)) s
   | MEnv \<Rightarrow> maskEnv v s
   | MWalk \<Rightarrow> walk log2 v k s)"
| "walk_items log2 [] key s = (Inr [], s)"
| "walk_items log2 (v # vs) key s =
     san_bind (if is_str v \<and> key \<in> set exemptStringArrays then san_ret v else walk log2 v key)
       (\<lambda>nv. san_bind (walk_items log2 vs key) (\<lambda>out. san_ret (nv # out))) s"
  by pat_completeness auto
termination
  by (relation "measures [\<lambda>x. case x of Inl (Inl (_, v, _)) \<Rightarrow> 2 * size v | Inl (Inr (_, kvs, _)) \<Rightarrow> 2 * size_list (size_prod (\<lambda>_. 0) size) kvs
      | Inr (Inl (_, _, v, _)) \<Rightarrow> 2 * size v + 1 | Inr (Inr (_, vs, _)) \<Rightarrow> 2 * size_list size vs]")
    auto

section \<open>The second look\<close>

definition pseudonymShape :: re where
  "pseudonymShape = Seqs [TextStart,
     foldr (\<lambda>w r. Alt (Lit w) r) [''serial'', ''user'', ''ssid'', ''mid'', ''uuid'', ''mac'', ''guid'', ''ssh''] (Lit ''host''),
     Lit ''-'', Times 12 (Cls (\<lambda>c. is_digit c \<or> c \<in> set ''abcdef'')), TextEnd]"

text \<open>What is still found, as its category and text.\<close>

definition Residual :: "(float64 \<Rightarrow> float64) \<Rightarrow> Sanitizer \<Rightarrow> string \<Rightarrow> (Category \<times> string) list" where
  "Residual log2 s text = concat (map (\<lambda>sp. let v = substr text (sp_start sp) (sp_end sp) in
     if sp_cat sp = CatKeep \<or> MatchString pseudonymShape v then [] else [(sp_cat sp, v)]) (detect log2 s text))"

definition residual_exempt :: "string \<Rightarrow> string \<Rightarrow> json \<Rightarrow> bool" where
  "residual_exempt key k v = (case v of
     JStr x \<Rightarrow> (key = ''metrics'' \<and> isFiniteNumber x) \<or> (key \<noteq> ''metrics'' \<and> k \<in> set exemptLeafKeys) \<or> x = mask_env \<or> x = mask_secret
   | _ \<Rightarrow> False)"

fun ResidualJSON :: "(float64 \<Rightarrow> float64) \<Rightarrow> Sanitizer \<Rightarrow> json \<Rightarrow> string \<Rightarrow> (Category \<times> string) list"
  and residual_members :: "(float64 \<Rightarrow> float64) \<Rightarrow> Sanitizer \<Rightarrow> (string \<times> json) list \<Rightarrow> string \<Rightarrow> (Category \<times> string) list"
  and residual_items :: "(float64 \<Rightarrow> float64) \<Rightarrow> Sanitizer \<Rightarrow> json list \<Rightarrow> string \<Rightarrow> (Category \<times> string) list" where
  "ResidualJSON log2 s (JObj kvs) key = (if key \<in> set exemptObjects then [] else residual_members log2 s kvs key)"
| "ResidualJSON log2 s (JArr vs) key = residual_items log2 s vs key"
| "ResidualJSON log2 s (JStr x) key = Residual log2 s x"
| "ResidualJSON log2 s _ key = []"
| "residual_members log2 s [] key = []"
| "residual_members log2 s ((k, v) # kvs) key =
     (if key \<noteq> ''metrics'' then Residual log2 s k else []) @
     (if residual_exempt key k v then [] else ResidualJSON log2 s v k) @ residual_members log2 s kvs key"
| "residual_items log2 s [] key = []"
| "residual_items log2 s (v # vs) key =
     (if is_str v \<and> key \<in> set exemptStringArrays then [] else ResidualJSON log2 s v key) @ residual_items log2 s vs key"

end
