(* ===== verification/Sanitize_Facts.thy ===== *)
theory Sanitize_Facts
  imports Sanitize
begin

text \<open>
  What the sanitiser guarantees: the spans it rewrites lie in the text, in order and apart
  from each other; every name of the inventory is claimed by one of them.
\<close>

section \<open>Matches take up room\<close>

text \<open>The least number of bytes a pattern takes, and whether its group takes any.\<close>

primrec min_len :: "re \<Rightarrow> nat" where
  "min_len Eps = 0"
| "min_len (Cls P) = 1"
| "min_len (Seq a b) = min_len a + min_len b"
| "min_len (Alt a b) = min (min_len a) (min_len b)"
| "min_len (Rep lo hi r) = lo * min_len r"
| "min_len (Grp r) = min_len r"
| "min_len WordBoundary = 0"
| "min_len LineStart = 0"
| "min_len LineEnd = 0"
| "min_len TextStart = 0"
| "min_len TextEnd = 0"

primrec solid_group :: "re \<Rightarrow> bool" where
  "solid_group Eps = True"
| "solid_group (Cls P) = True"
| "solid_group (Seq a b) = (solid_group a \<and> solid_group b)"
| "solid_group (Alt a b) = (solid_group a \<and> solid_group b)"
| "solid_group (Rep lo hi r) = solid_group r"
| "solid_group (Grp r) = (solid_group r \<and> 0 < min_len r)"
| "solid_group WordBoundary = True"
| "solid_group LineStart = True"
| "solid_group LineEnd = True"
| "solid_group TextStart = True"
| "solid_group TextEnd = True"

lemma rep_runs_len:
  assumes "\<And>x y. y \<in> set (f x) \<Longrightarrow> fst x + k \<le> fst y"
  shows "y \<in> set (rep_runs fuel f lo hi x) \<Longrightarrow> fst x + lo * k \<le> fst y"
proof (induction fuel arbitrary: lo hi x)
  case (Suc fuel)
  from Suc.prems consider "y = x" "lo = 0"
    | z where "z \<in> set (f x)" "y \<in> set (rep_runs fuel f (lo - 1) (map_option (\<lambda>n. n - 1) hi) z)"
    by (auto split: if_splits)
  then show ?case
  proof cases
    case 2
    then show ?thesis using assms[OF 2(1)] Suc.IH[OF 2(2)] by (cases lo) auto
  qed simp
qed (auto split: if_splits)

lemma runs_len: "y \<in> set (runs r s x) \<Longrightarrow> fst x + min_len r \<le> fst y"
proof (induction r arbitrary: x y)
  case (Seq a b)
  then obtain z where "z \<in> set (runs a s x)" "y \<in> set (runs b s z)" by auto
  then show ?case using Seq.IH(1)[of z x] Seq.IH(2)[of y z] by simp
next
  case (Alt a b)
  then have "y \<in> set (runs a s x) \<or> y \<in> set (runs b s x)" by simp
  then show ?case using Alt.IH[of y x] by auto
next
  case (Rep lo hi r)
  from Rep.prems have y: "y \<in> set (rep_runs (Suc (length s)) (runs r s) lo hi x)" by (simp del: rep_runs.simps)
  show ?case using rep_runs_len[OF _ y, of "min_len r"] Rep.IH by simp
next
  case (Grp r)
  then obtain z where z: "z \<in> set (runs r s x)" "fst y = fst z" by auto
  then show ?case using Grp.IH[OF z(1)] by simp
qed (auto split: if_splits)

definition group_fits :: "string \<Rightarrow> mstate \<Rightarrow> bool" where
  "group_fits s x = (case snd x of None \<Rightarrow> True | Some (a, b) \<Rightarrow> a < b \<and> b \<le> length s)"

definition fits :: "string \<Rightarrow> mstate \<Rightarrow> bool" where
  "fits s x = (fst x \<le> length s \<and> group_fits s x)"

lemma rep_runs_fits:
  assumes "\<And>x y. y \<in> set (f x) \<Longrightarrow> fits s x \<Longrightarrow> fits s y"
  shows "y \<in> set (rep_runs fuel f lo hi x) \<Longrightarrow> fits s x \<Longrightarrow> fits s y"
proof (induction fuel arbitrary: lo hi x)
  case (Suc fuel)
  from Suc.prems(1) consider "y = x"
    | z where "z \<in> set (f x)" "y \<in> set (rep_runs fuel f (lo - 1) (map_option (\<lambda>n. n - 1) hi) z)"
    by (auto split: if_splits)
  then show ?case using assms Suc.IH Suc.prems(2) by cases blast+
qed (auto split: if_splits)

lemma runs_fits: "y \<in> set (runs r s x) \<Longrightarrow> solid_group r \<Longrightarrow> fits s x \<Longrightarrow> fits s y"
proof (induction r arbitrary: x y)
  case (Seq a b)
  then obtain z where "z \<in> set (runs a s x)" "y \<in> set (runs b s z)" by auto
  then show ?case using Seq.IH(1)[of z x] Seq.IH(2)[of y z] Seq.prems by simp
next
  case (Rep lo hi r)
  from Rep.prems(1) have y: "y \<in> set (rep_runs (Suc (length s)) (runs r s) lo hi x)" by (simp del: rep_runs.simps)
  show ?case by (rule rep_runs_fits[OF _ y Rep.prems(3)]) (use Rep.IH Rep.prems(2) in auto)
next
  case (Grp r)
  then obtain z where z: "z \<in> set (runs r s x)" "y = (fst z, Some (fst x, fst z))" by auto
  then show ?case using Grp.IH[OF z(1)] Grp.prems runs_len[OF z(1)] by (simp add: fits_def group_fits_def)
qed (auto simp: fits_def group_fits_def split: if_splits)

text \<open>A match of a pattern with a solid group: in the text, with room for the pattern.\<close>

definition match_ok :: "re \<Rightarrow> string \<Rightarrow> match_span \<Rightarrow> bool" where
  "match_ok r s m = (ms_start m + min_len r \<le> ms_end m \<and> ms_end m \<le> length s \<and>
     (case ms_group m of None \<Rightarrow> True | Some (a, b) \<Rightarrow> a < b \<and> b \<le> length s))"

lemma match_at_ok:
  assumes "match_at r s i = Some m" "i \<le> length s" "solid_group r"
  shows "match_ok r s m"
proof -
  obtain y where y: "y \<in> set (runs r s (i, None))" and m: "m = \<lparr>ms_start = i, ms_end = fst y, ms_group = snd y\<rparr>"
    using assms(1) by (auto simp: match_at_def split: list.splits)
  have "fits s y" using runs_fits[OF y assms(3)] assms(2) by (simp add: fits_def group_fits_def)
  then show ?thesis using runs_len[OF y] by (auto simp: m match_ok_def fits_def group_fits_def)
qed

lemma find_from_ok:
  "m \<in> set (find_from r s n i) \<Longrightarrow> solid_group r \<Longrightarrow> n = 0 \<or> i + n = Suc (length s) \<Longrightarrow> match_ok r s m"
proof (induction r s n i rule: find_from.induct)
  case (2 r s left i)
  then have i: "i \<le> length s" by simp
  show ?case
  proof (cases "match_at r s i")
    case None
    then show ?thesis using 2 by auto
  next
    case (Some k)
    note b = match_at_bounds[OF Some i]
    from 2(3) Some consider "m = k" | "m \<in> set (find_from r s (left - (ms_end k - Suc i)) (max (Suc i) (ms_end k)))" by auto
    then show ?thesis
    proof cases
      case 1
      then show ?thesis using match_at_ok[OF Some i 2(4)] by simp
    next
      case rest: 2
      show ?thesis by (rule 2(2)[OF Some rest 2(4)]) (use b 2(5) in auto)
    qed
  qed
qed simp

lemma FindAll_ok: "m \<in> set (FindAll r s) \<Longrightarrow> solid_group r \<Longrightarrow> match_ok r s m"
  by (rule find_from_ok[of m r s "Suc (length s)" 0]) (simp_all only: FindAll_def add_0 simp_thms)

section \<open>Spans in a text\<close>

definition in_text :: "string \<Rightarrow> span \<Rightarrow> bool" where
  "in_text str sp = (sp_start sp < sp_end sp \<and> sp_end sp \<le> length str)"

lemma min_len_Lit [simp]: "min_len (Lit w) = length w" "min_len (LitFold w) = length w"
  by (induction w) (simp_all add: Lit_def LitFold_def)

lemma solid_Lit [simp]: "solid_group (Lit w)" "solid_group (LitFold w)"
  by (induction w) (simp_all add: Lit_def LitFold_def)

lemmas pattern_simps = Seqs_def Plus_def Star_def Opt_def Times_def

lemma match_in_text:
  assumes "m \<in> set (FindAll r str)" "solid_group r" "0 < min_len r"
  shows "in_text str \<lparr>sp_start = ms_start m, sp_end = ms_end m, sp_cat = c, sp_inventory = b0\<rparr>"
  using FindAll_ok[OF assms(1,2)] assms(3) by (simp add: match_ok_def in_text_def)

lemma group_in_text:
  assumes "m \<in> set (FindAll r str)" "solid_group r" "ms_group m = Some (a, b)"
  shows "in_text str \<lparr>sp_start = a, sp_end = b, sp_cat = c, sp_inventory = b0\<rparr>"
  using FindAll_ok[OF assms(1,2)] assms(3) by (simp add: match_ok_def in_text_def)

lemma whole_spans_in_text:
  "sp \<in> set (whole_spans r cat str) \<Longrightarrow> solid_group r \<Longrightarrow> 0 < min_len r \<Longrightarrow> in_text str sp"
  unfolding whole_spans_def by (auto intro: match_in_text)

lemma group_spans_in_text: "sp \<in> set (group_spans r cat str) \<Longrightarrow> solid_group r \<Longrightarrow> in_text str sp"
  unfolding group_spans_def by (auto intro: group_in_text split: option.splits)

lemma ip_spans_in_text: "sp \<in> set (ip_spans ok r str) \<Longrightarrow> solid_group r \<Longrightarrow> 0 < min_len r \<Longrightarrow> in_text str sp"
  unfolding ip_spans_def by (auto intro: match_in_text simp: Let_def split: option.splits if_splits)

lemma registry_pattern: "solid_group reRegistryRef" "0 < min_len reRegistryRef"
  by (simp_all add: reRegistryRef_def pattern_simps)

lemma registry_spans_in_text: "sp \<in> set (registry_spans s str) \<Longrightarrow> in_text str sp"
  unfolding registry_spans_def
  by (auto simp: Let_def intro: match_in_text[OF _ registry_pattern] group_in_text[OF _ registry_pattern(1)]
    split: option.splits if_splits)

lemma hostname_spans_in_text: "sp \<in> set (hostname_spans s str) \<Longrightarrow> in_text str sp"
  by (auto simp: hostname_spans_def intro!: whole_spans_in_text[of sp reHostname CatHostname])
    (simp_all add: reHostname_def pattern_simps)

lemma pattern_spans_in_text: "sp \<in> set (pattern_spans s str) \<Longrightarrow> in_text str sp"
  unfolding pattern_spans_def set_append
  apply (elim UnE)
  apply (erule group_spans_in_text, simp add: reHomePath_def pattern_simps)
  apply (erule group_spans_in_text, simp add: reAuthHeader_def pattern_simps)
  apply (erule whole_spans_in_text; simp add: reMachineID_def pattern_simps)
  apply (erule whole_spans_in_text; simp add: reUUID_def pattern_simps)
  apply (erule whole_spans_in_text; simp add: reMAC_def pattern_simps)
  apply (erule whole_spans_in_text; simp add: reRDMAGUID_def pattern_simps)
  apply (erule whole_spans_in_text; simp add: reSSHFP_def pattern_simps)
  apply (erule whole_spans_in_text; simp add: reSSHHostKey_def pattern_simps)
  apply (erule ip_spans_in_text; simp add: reIPv4_def pattern_simps)
  apply (erule ip_spans_in_text; simp add: reIPv6Candidate_def pattern_simps)
  apply (erule registry_spans_in_text)
  apply (erule hostname_spans_in_text)
  done

section \<open>The inventory's spans\<close>

text \<open>Names the tables hold: of at least two bytes.\<close>

definition inventory_ok :: "Sanitizer \<Rightarrow> bool" where
  "inventory_ok s = list_all (\<lambda>n. 2 \<le> length n) (sz_hosts s @ sz_users s)"

lemma add_name_all: "list_all P names \<Longrightarrow> P n \<Longrightarrow> list_all P (add_name n names)"
  by (simp add: add_name_def)

lemma AddHost_inventory: "inventory_ok s \<Longrightarrow> inventory_ok (AddHost h s)"
  by (auto simp: AddHost_def inventory_ok_def Let_def add_name_all)

lemma add_user_inventory: "inventory_ok s \<Longrightarrow> inventory_ok (add_user u s)"
  by (auto simp: add_user_def inventory_ok_def Let_def ToLower_def add_name_all)

lemma New_inventory: "inventory_ok (New fresh salt allow hosts users)"
  unfolding New_def Let_def
  by (rule fold_invariant[where Q = "\<lambda>_. True"], simp, rule fold_invariant[where Q = "\<lambda>_. True"])
    (simp_all add: AddHost_inventory add_user_inventory, simp add: inventory_ok_def)

lemma token_runs_bounds:
  assumes "(a, b) \<in> set (token_runs str i cur)" "case cur of None \<Rightarrow> True | Some c \<Rightarrow> c < i"
  shows "a < b \<and> b \<le> i + length str"
  using assms
proof (induction str i cur rule: token_runs.induct)
  case (2 c s i cur)
  show ?case
  proof (cases "isTokenByte c")
    case True
    then show ?thesis using 2 by (auto split: option.splits)
  next
    case False
    then show ?thesis using 2 by (auto split: option.splits)
  qed
qed (auto split: option.splits)

lemma name_spans_in_text:
  assumes "sp \<in> set (name_spans tok i cat name)" "0 < length name" "i + length tok \<le> length str"
  shows "in_text str sp \<and> sp_inventory sp"
  using assms by (auto simp: name_spans_def bounded_at_def Let_def in_text_def)

lemma inventorySpans_in_text:
  assumes "sp \<in> set (inventorySpans s str)" "inventory_ok s"
  shows "in_text str sp \<and> sp_inventory sp"
proof -
  obtain i j where ij: "(i, j) \<in> set (token_runs str 0 None)" and sp: "sp \<in> set (token_spans s (ToLower str) (i, j))"
    using assms(1) by (auto simp: inventorySpans_def)
  have b: "i < j" "j \<le> length str" using token_runs_bounds[OF ij] by auto
  define tok where "tok = take (j - i) (drop i (ToLower str))"
  have len: "i + length tok \<le> length str" using b by (simp add: tok_def ToLower_def)
  obtain name cat where "name \<in> set (sz_hosts s @ sz_users s)" "sp \<in> set (name_spans tok i cat name)"
    using sp by (auto simp: token_spans_def tok_def Let_def)
  note n = this
  have "2 \<le> length name" using assms(2) n(1) by (auto simp: inventory_ok_def list_all_iff)
  then have "0 < length name" by linarith
  then show ?thesis using name_spans_in_text[OF n(2) _ len] by blast
qed

section \<open>The chosen spans\<close>

text \<open>One after the other from a position on.\<close>

primrec laid_out :: "nat \<Rightarrow> span list \<Rightarrow> bool" where
  "laid_out p [] = True"
| "laid_out p (c # cs) = (p \<le> sp_start c \<and> sp_start c < sp_end c \<and> laid_out (sp_end c) cs)"

text \<open>No two of a list overlap.\<close>

definition apart :: "span list \<Rightarrow> bool" where
  "apart cs = (distinct cs \<and> (\<forall>a \<in> set cs. \<forall>b \<in> set cs. a \<noteq> b \<longrightarrow> \<not> overlaps a b))"

lemma apart_sort: "apart cs \<Longrightarrow> apart (sort_key f cs)"
  by (simp add: apart_def)

lemma apart_snoc: "apart cs \<Longrightarrow> in_text str c \<Longrightarrow> \<not> list_ex (overlaps c) cs \<Longrightarrow> apart (cs @ [c])"
  by (auto simp: apart_def list_ex_iff overlaps_def in_text_def)

lemma laid_out_sorted:
  "sorted (map sp_start cs) \<Longrightarrow> apart cs \<Longrightarrow> \<forall>c \<in> set cs. in_text str c \<and> p \<le> sp_start c \<Longrightarrow> laid_out p cs"
proof (induction cs arbitrary: p)
  case (Cons c cs)
  have c: "in_text str c" using Cons.prems(3) by simp
  have "sp_end c \<le> sp_start d" if d: "d \<in> set cs" for d
  proof -
    have "sp_start c \<le> sp_start d" "in_text str d" using Cons.prems d by auto
    moreover have "\<not> overlaps c d" using Cons.prems(2) d by (auto simp: apart_def)
    ultimately show ?thesis using c by (auto simp: overlaps_def in_text_def)
  qed
  moreover have "apart cs" using Cons.prems(2) by (auto simp: apart_def)
  ultimately show ?case using Cons.IH[of "sp_end c"] Cons.prems c by (auto simp: in_text_def)
qed simp

lemma choose_spans_later: "c \<in> set (choose_spans cs e) \<Longrightarrow> \<forall>c \<in> set cs. in_text str c \<Longrightarrow> e \<le> int (sp_start c)"
proof (induction cs e rule: choose_spans.induct)
  case (2 d cs e)
  then show ?case by (fastforce simp: in_text_def split: if_splits)
qed simp

lemma choose_spans_subset: "set (choose_spans cs e) \<subseteq> set cs"
  by (induction cs e rule: choose_spans.induct) auto

lemma choose_spans_apart: "\<forall>c \<in> set cs. in_text str c \<Longrightarrow> apart (choose_spans cs e)"
proof (induction cs e rule: choose_spans.induct)
  case (2 d cs e)
  show ?case
  proof (cases "int (sp_start d) \<ge> e")
    case True
    have later: "int (sp_end d) \<le> int (sp_start c)" if "c \<in> set (choose_spans cs (int (sp_end d)))" for c
      using choose_spans_later[OF that, of str] 2(3) by simp
    have d: "in_text str d" and ih: "apart (choose_spans cs (int (sp_end d)))" using 2(1)[OF True] 2(3) by simp_all
    have "d \<notin> set (choose_spans cs (int (sp_end d)))" using later[of d] d by (auto simp: in_text_def)
    moreover have "\<forall>c \<in> set (choose_spans cs (int (sp_end d))). \<not> overlaps d c \<and> \<not> overlaps c d"
      using later by (force simp: overlaps_def)
    ultimately show ?thesis using True ih by (auto simp: apart_def)
  next
    case False
    then show ?thesis using 2 by simp
  qed
qed (simp add: apart_def)

lemma choose_spans_claims:
  "k \<in> set cs \<Longrightarrow> sorted (map sp_start cs) \<Longrightarrow> \<forall>c \<in> set cs. in_text str c \<Longrightarrow>
     int (sp_start k) < e \<or> (\<exists>c \<in> set (choose_spans cs e). c = k \<or> sp_start c \<le> sp_start k \<and> sp_start k < sp_end c)"
proof (induction cs e rule: choose_spans.induct)
  case (2 d cs e)
  show ?case
  proof (cases "int (sp_start d) \<ge> e")
    case True
    show ?thesis
    proof (cases "k = d")
      case False
      then have "int (sp_start k) < int (sp_end d) \<or>
          (\<exists>c \<in> set (choose_spans cs (int (sp_end d))). c = k \<or> sp_start c \<le> sp_start k \<and> sp_start k < sp_end c)"
        using 2(1)[OF True] 2(3-5) by auto
      moreover have "sp_start d \<le> sp_start k" using 2(3,4) False by auto
      ultimately show ?thesis using True by auto
    qed (use True in auto)
  next
    case False
    then show ?thesis using 2 by auto
  qed
qed simp

lemma sorted_order_key: "sorted (map sp_start (sort_key order_key cs))"
proof -
  have "sp_start a \<le> sp_start b" if "order_key a \<le> order_key b" for a b
    using that by (auto simp: order_key_def split: if_splits)
  then show ?thesis using sorted_sort_key[of order_key cs]
    by (auto simp: sorted_map elim!: sorted_wrt_mono_rel[rotated])
qed

lemma entropy_pattern: "solid_group reEntropyRun" "0 < min_len reEntropyRun"
  by (simp_all add: reEntropyRun_def)

definition keeps :: "string \<Rightarrow> span list \<Rightarrow> span list \<Rightarrow> bool" where
  "keeps str cs ds = (apart ds \<and> (\<forall>d \<in> set ds. in_text str d) \<and> set cs \<subseteq> set ds)"

lemma entropy_spans_keeps:
  assumes "apart cs" "\<forall>c \<in> set cs. in_text str c"
  shows "keeps str cs (entropy_spans log2 str cs)"
  unfolding entropy_spans_def
proof (rule fold_invariant[where Q = "\<lambda>m. m \<in> set (FindAll reEntropyRun str)"])
  fix m ds
  assume m: "m \<in> set (FindAll reEntropyRun str)" and ds: "keeps str cs ds"
  show "keeps str cs (let c = \<lparr>sp_start = ms_start m, sp_end = ms_end m, sp_cat = CatSecret, sp_inventory = False\<rparr> in
      if flt (shannon log2 (substr str (ms_start m) (ms_end m))) entropyMinBitsPerChar \<or> list_ex (overlaps c) ds
      then ds else ds @ [c])"
    using ds match_in_text[OF m entropy_pattern] by (auto simp: Let_def keeps_def intro!: apart_snoc)
qed (use assms in \<open>auto simp: keeps_def\<close>)

lemma kept_spans_in_text: "inventory_ok s \<Longrightarrow> c \<in> set (kept_spans s str) \<Longrightarrow> in_text str c"
  using inventorySpans_in_text[of c s str] pattern_spans_in_text[of c s str] by (auto simp: kept_spans_def Let_def)

lemma detect_chosen:
  assumes "inventory_ok s"
  shows "keeps str (choose_spans (sort_key order_key (kept_spans s str)) (-1)) (detect log2 s str)"
proof -
  let ?cs = "choose_spans (sort_key order_key (kept_spans s str)) (-1)"
  have t: "\<forall>c \<in> set (sort_key order_key (kept_spans s str)). in_text str c" using kept_spans_in_text[OF assms] by simp
  then have "\<forall>c \<in> set ?cs. in_text str c" using choose_spans_subset by blast
  then have "keeps str ?cs (entropy_spans log2 str ?cs)" by (rule entropy_spans_keeps[OF choose_spans_apart[OF t]])
  then show ?thesis unfolding detect_def keeps_def by (simp add: apart_sort)
qed

lemma detect_laid_out:
  assumes "inventory_ok s"
  shows "laid_out 0 (detect log2 s str)" "\<forall>c \<in> set (detect log2 s str). in_text str c"
proof -
  note d = detect_chosen[OF assms, of str log2, unfolded keeps_def]
  from d show "\<forall>c \<in> set (detect log2 s str). in_text str c" by blast
  show "laid_out 0 (detect log2 s str)" by (rule laid_out_sorted[of _ str]) (use d in \<open>auto simp: detect_def\<close>)
qed

text \<open>A span claims a name: it contains it, or it is another name that overlaps it.\<close>

definition claims :: "span \<Rightarrow> span \<Rightarrow> bool" where
  "claims c v = (contains c v \<or> sp_inventory c \<and> overlaps c v)"

lemma detect_claims:
  assumes "inventory_ok s" "v \<in> set (inventorySpans s str)"
  shows "\<exists>c \<in> set (detect log2 s str). claims c v"
proof -
  let ?ks = "sort_key order_key (kept_spans s str)"
  have t: "\<forall>c \<in> set ?ks. in_text str c" using kept_spans_in_text[OF assms(1)] by simp
  have v: "in_text str v" "v \<in> set ?ks" using inventorySpans_in_text[OF assms(2,1)] assms(2) by (simp_all add: kept_spans_def Let_def)
  obtain c where c: "c \<in> set (choose_spans ?ks (-1))" "c = v \<or> sp_start c \<le> sp_start v \<and> sp_start v < sp_end c"
    using choose_spans_claims[OF v(2) sorted_order_key t, of "-1"] by auto
  have "c \<in> set (kept_spans s str)" using c(1) choose_spans_subset[of ?ks "-1"] by auto
  then consider "sp_inventory c" | "\<not> (overlaps c v \<and> \<not> contains c v)"
    using assms(2) inventorySpans_in_text[OF _ assms(1), of c str] by (auto simp: kept_spans_def Let_def list_ex_iff)
  then have "claims c v" using c(2) v(1) by cases (auto simp: claims_def contains_def overlaps_def in_text_def)
  moreover have "c \<in> set (detect log2 s str)" using detect_chosen[OF assms(1), of str log2] c(1) by (auto simp: keeps_def)
  ultimately show ?thesis by blast
qed

end
