(* ===== verification/Sanitize_State.thy ===== *)
theory Sanitize_State
  imports Sanitize_Facts
begin

text \<open>
  The state of a sanitiser over a whole directory: what no operation changes, and the pool of
  stand-in addresses.
\<close>

section \<open>What every operation keeps\<close>

lemma san_bind_state: "snd (san_bind m f s) = (case m s of (Inl e, s) \<Rightarrow> s | (Inr a, s) \<Rightarrow> snd (f a s))"
  by (simp add: san_bind_def split: prod.splits sum.splits)

text \<open>An invariant of counting and of the pool is one of every operation.\<close>

locale sanitizer_invariant =
  fixes I :: "Sanitizer \<Rightarrow> bool"
  assumes count: "I s \<Longrightarrow> I (count_one c s)"
    and pool: "I s \<Longrightarrow> I (snd (pooledIP v s))"
begin

lemma ret: "I s \<Longrightarrow> I (snd (san_ret a s))"
  by (simp add: san_ret_def)

lemma bind:
  assumes "I s" "I (snd (m s))" "\<And>a s. I s \<Longrightarrow> I (snd (f a s))"
  shows "I (snd (san_bind m f s))"
  using assms(2,3) by (auto simp: san_bind_state split: prod.splits sum.splits)

lemma replace: "I s \<Longrightarrow> I (snd (replace cat v s))"
  by (simp add: replace_def Let_def count pool)

lemma rewrite: "I s \<Longrightarrow> I (snd (rewrite str p sps s))"
proof (induction sps arbitrary: p s)
  case (Cons sp sps)
  show ?case unfolding rewrite.simps Let_def
    by (intro bind Cons ret) (simp_all add: replace ret Cons.prems)
qed simp

lemma Text: "I s \<Longrightarrow> I (snd (Text log2 str s))"
  by (simp add: Text_def rewrite)

lemma rewrite_part: "I s \<Longrightarrow> I (snd (rewrite_part str p sps s))"
proof (induction sps arbitrary: p s)
  case (Cons sp sps)
  then show ?case by (auto intro!: bind ret replace)
qed simp

lemma Path: "I s \<Longrightarrow> I (snd (Path rel s))"
proof -
  have "I s \<Longrightarrow> I (snd (path_parts ps s))" for ps
  proof (induction ps arbitrary: s)
    case (Cons p ps)
    show ?case unfolding path_parts.simps by (intro bind Cons ret rewrite_part)
  qed simp
  then show "I s \<Longrightarrow> I (snd (Path rel s))" unfolding Path_def by (intro bind ret)
qed

lemma maskEnv: "I s \<Longrightarrow> I (snd (maskEnv v s))"
proof -
  have "I s \<Longrightarrow> I (snd (mask_members kvs s))" for kvs
  proof (induction kvs arbitrary: s)
    case (Cons kv kvs)
    obtain k v where "kv = (k, v)" by (cases kv)
    then show ?case unfolding \<open>kv = (k, v)\<close> mask_members.simps by (intro bind Cons ret) (auto intro!: bind ret replace Cons.prems)
  qed simp
  then show "I s \<Longrightarrow> I (snd (maskEnv v s))" by (cases v) (auto intro!: bind ret replace)
qed

lemma walks:
  "I s \<Longrightarrow> I (snd (walk log2 v key s))"
  "I s \<Longrightarrow> I (snd (walk_members log2 kvs isMetric out s))"
  "I s \<Longrightarrow> I (snd (walkMember log2 k v isMetric s))"
  "I s \<Longrightarrow> I (snd (walk_items log2 vs key s))"
proof (induction log2 v key s and log2 kvs isMetric out s and log2 k v isMetric s and log2 vs key s
    rule: walk_walk_members_walkMember_walk_items.induct)
  case (1 log2 kvs key s)
  then show ?case by (auto intro!: bind ret)
next
  case (2 log2 vs key s)
  then show ?case by (auto intro!: bind ret)
next
  case (3 log2 x key s)
  then show ?case by (auto intro!: bind ret Text)
next
  case (8 log2 k v kvs isMetric out s)
  have "I (snd (if nk \<in> fst ` set out then (Inl (KeysMerge nk), t)
      else san_bind (walkMember log2 k v isMetric) (\<lambda>nv. walk_members log2 kvs isMetric (out @ [(nk, nv)])) t))" if "I t" for nk t
    using 8 that by (auto intro!: bind)
  then show ?case unfolding walk_members.simps using 8(3) by (intro bind) (auto intro: ret Text)
next
  case (9 log2 k v isMetric s)
  then show ?case by (auto intro!: bind ret replace maskEnv split: member_rule.split)
next
  case (11 log2 v vs key s)
  then show ?case unfolding walk_items.simps by (intro bind) (auto intro!: ret bind)
qed simp_all

end

text \<open>The rules: the salt, the inventory and the allowed domains.\<close>

definition same_rules :: "Sanitizer \<Rightarrow> Sanitizer \<Rightarrow> bool" where
  "same_rules s t = (sz_salt t = sz_salt s \<and> sz_hosts t = sz_hosts s \<and> sz_users t = sz_users s \<and> sz_allow t = sz_allow s)"

interpretation rules: sanitizer_invariant "same_rules s" for s
  by unfold_locales (auto simp: same_rules_def count_one_def pooledIP_def Let_def split: option.splits)

lemma detect_same_rules: "same_rules s t \<Longrightarrow> detect log2 t str = detect log2 s str"
proof -
  assume "same_rules s t"
  then have r: "sz_hosts t = sz_hosts s" "sz_users t = sz_users s" "sz_allow t = sz_allow s" by (simp_all add: same_rules_def)
  have "token_spans t = token_spans s" by (intro ext) (simp add: token_spans_def r)
  then have "inventorySpans t str = inventorySpans s str" by (simp add: inventorySpans_def)
  moreover have "pattern_spans t str = pattern_spans s str" unfolding pattern_spans_def registry_spans_def hostname_spans_def r by (rule refl)
  ultimately show ?thesis by (simp add: detect_def kept_spans_def)
qed

section \<open>The pool of stand-ins\<close>

lemma show_nat_no_zero: "1 < length (show_nat n) \<Longrightarrow> hd (show_nat n) \<noteq> CHR ''0''"
proof (induction n rule: show_nat.induct)
  case (1 n)
  show ?case
  proof (cases "n < 10")
    case False
    show ?thesis
    proof (cases "1 < length (show_nat (n div 10))")
      case True
      then show ?thesis using 1(1)[OF False] False by (subst show_nat.simps) (simp add: hd_append show_nat_digits)
    next
      case short: False
      then have "n div 10 < 10" by (metis One_nat_def Suc_lessI length_append_singleton length_greater_0_conv show_nat.simps show_nat_digits(2) zero_less_Suc not_less_eq)
      moreover have "0 < n div 10" using False by (simp add: div_greater_zero_iff)
      ultimately have "digit_val (digit_char (n div 10)) \<noteq> digit_val (CHR ''0'')" by (simp only: digit_val_char) (simp add: digit_val_def is_digit_def)
      then have "digit_char (n div 10) \<noteq> CHR ''0''" by metis
      then show ?thesis using False \<open>n div 10 < 10\<close> by (subst show_nat.simps, subst show_nat.simps) simp
    qed
  qed (use 1(2) in \<open>simp add: show_nat.simps\<close>)
qed

lemma v4_field_show: "n < 256 \<Longrightarrow> v4_field (show_nat n) = Some n"
  using show_nat_no_zero[of n] by (auto simp: v4_field_def plain_digits_def show_nat_digits dval_show_nat)

lemma digits_only: "list_all is_digit s \<Longrightarrow> CHR ''.'' \<notin> set s \<and> CHR '':'' \<notin> set s"
  by (auto simp: list_all_iff is_digit_def)

lemma show_v4_no_colon: "CHR '':'' \<notin> set (show_v4 b)"
proof (induction b)
  case (Cons n b)
  then show ?case using digits_only[OF show_nat_digits(1)[of n]] by (cases b) (auto simp: show_v4_def)
qed (simp add: show_v4_def)

lemma ParseIP_show_v4:
  assumes "w < 256" "x < 256" "y < 256" "z < 256"
  shows "ParseIP (show_v4 [w, x, y, z]) = Some (map_v4 [w, x, y, z])"
proof -
  have "split_on (CHR ''.'') (show_v4 [w, x, y, z]) = map show_nat [w, x, y, z]"
    unfolding show_v4_def by (rule split_on_Join) (use digits_only[OF show_nat_digits(1)] in auto)
  then show ?thesis using assms by (simp add: ParseIP_def parse_v4_def show_v4_no_colon v4_field_show)
qed

definition stand_in_bytes :: "nat \<Rightarrow> nat list" where
  "stand_in_bytes i = take 3 (docV4 ! (i div 254)) @ [i mod 254 + 1]"

lemma below_762: "(i :: nat) < 762 \<Longrightarrow> i div 254 = 0 \<or> i div 254 = 1 \<or> i div 254 = 2"
  by linarith

lemma v4_stand_in_parses: "i < 762 \<Longrightarrow> ParseIP (v4_stand_in i) = Some (map_v4 (stand_in_bytes i))"
  by (frule below_762, elim disjE) (simp_all add: v4_stand_in_def stand_in_bytes_def docV4_def ParseIP_show_v4)

lemma stand_in_bytes_inj: "i < 762 \<Longrightarrow> j < 762 \<Longrightarrow> stand_in_bytes i = stand_in_bytes j \<Longrightarrow> i = j"
proof -
  assume i: "i < 762" "j < 762" and e: "stand_in_bytes i = stand_in_bytes j"
  have "i mod 254 = j mod 254" "take 3 (docV4 ! (i div 254)) = take 3 (docV4 ! (j div 254))" using e by (simp_all add: stand_in_bytes_def)
  moreover from this(2) have "i div 254 = j div 254" using below_762[OF i(1)] below_762[OF i(2)] by (elim disjE) (simp_all add: docV4_def)
  ultimately show "i = j" by (metis div_mult_mod_eq)
qed

lemma v4_stand_in_inj: "i < 762 \<Longrightarrow> j < 762 \<Longrightarrow> v4_stand_in i = v4_stand_in j \<longleftrightarrow> i = j"
  using v4_stand_in_parses stand_in_bytes_inj by (metis append_same_eq map_v4_def option.inject append_eq_append_conv)

lemma take_bits: "take (8 * n) (bits_of b) = bits_of (take n b)"
proof (induction n arbitrary: b)
  case (Suc n)
  then show ?case by (cases b) (simp_all add: bits_of_def)
qed (simp add: bits_of_def)

lemma in_net_prefix: "length b = length base \<Longrightarrow> take n b = take n base \<Longrightarrow> in_net base (8 * n) b"
  by (simp add: in_net_def take_bits)

lemma stand_in_documented: "i < 762 \<Longrightarrow> inAny (stand_in_bytes i) (map (\<lambda>n. (n, 24)) docV4)"
proof -
  assume i: "i < 762"
  have "in_net (docV4 ! (i div 254)) (8 * 3) (stand_in_bytes i)"
    by (rule in_net_prefix) (use below_762[OF i] in \<open>auto simp: stand_in_bytes_def docV4_def\<close>)
  moreover have "docV4 ! (i div 254) \<in> set docV4" using below_762[OF i] by (auto simp: docV4_def)
  ultimately show ?thesis by (auto simp: inAny_def list_ex_iff)
qed

lemma stand_in_bytes_ends: "i < 762 \<Longrightarrow> length (stand_in_bytes i) = 4 \<and> hd (stand_in_bytes i) \<in> {192, 198, 203}"
  by (drule below_762) (auto simp: stand_in_bytes_def docV4_def)

lemma To4_map [simp]: "To4 (map_v4 b) = Some b"
  by (simp add: To4_def map_v4_def v4_prefix_def)

lemma v4_stand_in_public:
  assumes "i < 762"
  shows "classifyIP (v4_stand_in i) = None"
proof -
  have "\<not> IsLoopback (map_v4 (stand_in_bytes i))" "CHR '':'' \<notin> set (v4_stand_in i)"
    using stand_in_bytes_ends[OF assms] by (auto simp: IsLoopback_def v4_stand_in_def show_v4_no_colon)
  then show ?thesis using stand_in_documented[OF assms] by (simp add: classifyIP_def v4_stand_in_parses[OF assms])
qed

lemma hex_vals: "hex_val (CHR ''0'') = Some 0" "hex_val (CHR ''1'') = Some 1" "hex_val (CHR ''2'') = Some 2" "hex_val (CHR ''3'') = Some 3"
  "hex_val (CHR ''4'') = Some 4" "hex_val (CHR ''5'') = Some 5" "hex_val (CHR ''6'') = Some 6" "hex_val (CHR ''7'') = Some 7"
  "hex_val (CHR ''8'') = Some 8" "hex_val (CHR ''9'') = Some 9" "hex_val (CHR ''a'') = Some 10" "hex_val (CHR ''b'') = Some 11"
  "hex_val (CHR ''c'') = Some 12" "hex_val (CHR ''d'') = Some 13" "hex_val (CHR ''e'') = Some 14" "hex_val (CHR ''f'') = Some 15"
  by (simp_all add: hex_val_def Let_def lower_ascii_def)

lemma below_16: "(d :: nat) < 16 \<Longrightarrow> d = 0 \<or> d = 1 \<or> d = 2 \<or> d = 3 \<or> d = 4 \<or> d = 5 \<or> d = 6 \<or> d = 7 \<or> d = 8 \<or> d = 9 \<or> d = 10 \<or> d = 11 \<or> d = 12 \<or> d = 13 \<or> d = 14 \<or> d = 15"
  by arith

lemma hex_digit: "d < 16 \<Longrightarrow> hex_val (''0123456789abcdef'' ! d) = Some d \<and> ''0123456789abcdef'' ! d \<notin> {CHR '':'', CHR ''.''}"
  by (drule below_16, elim disjE) (simp_all add: hex_vals)

lemma hex_num_append: "hex_num acc (a @ b) = (case hex_num acc a of None \<Rightarrow> None | Some n \<Rightarrow> hex_num n b)"
  by (induction a arbitrary: acc) (simp_all split: option.splits)

lemma hex_num_show: "hex_num 0 (show_hex n) = Some n"
proof (induction n rule: show_hex.induct)
  case (1 n)
  then show ?case by (subst show_hex.simps) (auto simp: hex_num_append hex_digit)
qed

lemma show_hex_plain: "show_hex n \<noteq> [] \<and> CHR '':'' \<notin> set (show_hex n) \<and> CHR ''.'' \<notin> set (show_hex n)"
proof (induction n rule: show_hex.induct)
  case (1 n)
  then show ?case using hex_digit[of n] hex_digit[of "n mod 16"] by (subst (1 2 3) show_hex.simps) auto
qed

lemma v6_stand_in_inj: "v6_stand_in i = v6_stand_in j \<longleftrightarrow> i = j"
  using hex_num_show by (auto simp: v6_stand_in_def) (metis option.inject)

lemma stand_in_left: "v6_groups (split_on (CHR '':'') ''2001:db8'') = Some [32, 1, 13, 184]"
  by (simp add: v6_group_def hex_val_def lower_ascii_def)

lemma v6_stand_in_parses:
  "ParseIP (v6_stand_in i) = (case v6_side (show_hex i) of None \<Rightarrow> None
     | Some b \<Rightarrow> if length b \<le> 10 then Some ([32, 1, 13, 184] @ replicate (12 - length b) 0 @ b) else None)"
proof -
  have "cut_double (v6_stand_in i) = Some (''2001:db8'', show_hex i)" by (simp add: v6_stand_in_def)
  moreover have "CHR '':'' \<in> set (v6_stand_in i)" by (simp add: v6_stand_in_def)
  ultimately show ?thesis using stand_in_left by (simp add: ParseIP_def parse_v6_def del: split_on.simps split: option.split)
qed

lemma v6_stand_in_public: "classifyIP (v6_stand_in i) = None"
proof (cases "v6_group (show_hex i)")
  case None
  have "v6_side (show_hex i) = None" using None show_hex_plain[of i] by (simp add: v6_side_def split_on_plain)
  then show ?thesis by (simp add: classifyIP_def v6_stand_in_parses)
next
  case (Some b)
  then have b: "length b = 2" "v6_side (show_hex i) = Some b" using show_hex_plain[of i]
    by (auto simp: v6_side_def split_on_plain v6_group_def split: if_splits)
  have "ParseIP (v6_stand_in i) = Some ([32, 1, 13, 184] @ replicate 10 0 @ b)"
    using b by (simp add: v6_stand_in_parses)
  moreover have "in_net docV6 (8 * 4) ([32, 1, 13, 184] @ replicate 10 0 @ b)"
    by (rule in_net_prefix) (use b in \<open>auto simp: docV6_def\<close>)
  moreover have "CHR '':'' \<in> set (v6_stand_in i)" by (simp add: v6_stand_in_def)
  ultimately show ?thesis by (simp add: classifyIP_def)
qed

text \<open>The pool: one stand-in per address, none twice, all handed out by the two counters.\<close>

definition handed_out :: "Sanitizer \<Rightarrow> string \<Rightarrow> bool" where
  "handed_out s out = ((\<exists>i < sz_next_v4 s. out = v4_stand_in i) \<or> (\<exists>i \<le> sz_next_v6 s. out = v6_stand_in i))"

definition pool_ok :: "Sanitizer \<Rightarrow> bool" where
  "pool_ok s = (sz_next_v4 s \<le> 762 \<and> distinct (map fst (sz_ip_map s)) \<and> distinct (map snd (sz_ip_map s)) \<and>
     (\<forall>out \<in> set (map snd (sz_ip_map s)). handed_out s out))"

lemma v4_not_v6: "v4_stand_in i \<noteq> v6_stand_in j"
proof
  assume "v4_stand_in i = v6_stand_in j"
  moreover have "CHR '':'' \<in> set (v6_stand_in j)" by (simp add: v6_stand_in_def)
  ultimately show False using show_v4_no_colon by (metis v4_stand_in_def)
qed

lemma next_v4_fresh:
  assumes "sz_next_v4 s < 762"
  shows "\<not> handed_out s (v4_stand_in (sz_next_v4 s))"
proof -
  have "v4_stand_in (sz_next_v4 s) \<noteq> v4_stand_in i" if "i < sz_next_v4 s" for i
    using v4_stand_in_inj[of "sz_next_v4 s" i] assms that by simp
  then show ?thesis by (simp add: handed_out_def v4_not_v6)
qed

lemma next_v6_fresh: "\<not> handed_out s (v6_stand_in (Suc (sz_next_v6 s)))"
  by (auto simp: handed_out_def v4_not_v6[symmetric] v6_stand_in_inj)

lemma handed_out_mono:
  assumes "handed_out s out" "sz_next_v4 s \<le> sz_next_v4 t" "sz_next_v6 s \<le> sz_next_v6 t"
  shows "handed_out t out"
  using assms(1) unfolding handed_out_def
proof (elim disjE exE conjE)
  fix i assume "i < sz_next_v4 s" "out = v4_stand_in i"
  then show "(\<exists>i < sz_next_v4 t. out = v4_stand_in i) \<or> (\<exists>i \<le> sz_next_v6 t. out = v6_stand_in i)"
    by (intro disjI1 exI[of _ i]) (use assms(2) in simp)
next
  fix i assume "i \<le> sz_next_v6 s" "out = v6_stand_in i"
  then show "(\<exists>i < sz_next_v4 t. out = v4_stand_in i) \<or> (\<exists>i \<le> sz_next_v6 t. out = v6_stand_in i)"
    by (intro disjI2 exI[of _ i]) (use assms(3) in simp)
qed

lemma pool_ok_add:
  assumes "pool_ok s" "ip \<notin> fst ` set (sz_ip_map s)" "\<not> handed_out s out" "handed_out t out" "sz_next_v4 t \<le> 762"
    "sz_next_v4 s \<le> sz_next_v4 t" "sz_next_v6 s \<le> sz_next_v6 t" "sz_ip_map t = (ip, out) # sz_ip_map s"
  shows "pool_ok t"
  using assms handed_out_mono[OF _ assms(6,7)] by (auto simp: pool_ok_def)

lemma pool_ok_pooledIP: "pool_ok s \<Longrightarrow> pool_ok (snd (pooledIP lit s))"
proof -
  assume s: "pool_ok s"
  define ip where "ip = (case ParseIP lit of Some a \<Rightarrow> a | None \<Rightarrow> [])"
  show ?thesis
  proof (cases "map_of (sz_ip_map s) ip")
    case (Some got)
    then show ?thesis using s by (simp add: pooledIP_def ip_def[symmetric])
  next
    case None
    then have ip: "ip \<notin> fst ` set (sz_ip_map s)" by (simp add: map_of_eq_None_iff)
    have v4: "sz_next_v4 s < 762 \<Longrightarrow> pool_ok (s\<lparr>sz_next_v4 := sz_next_v4 s + 1, sz_ip_map := (ip, v4_stand_in (sz_next_v4 s)) # sz_ip_map s\<rparr>)"
      by (rule pool_ok_add[OF s ip next_v4_fresh]) (auto simp: handed_out_def)
    have v6: "pool_ok (s\<lparr>sz_next_v6 := sz_next_v6 s + 1, sz_ip_map := (ip, v6_stand_in (sz_next_v6 s + 1)) # sz_ip_map s\<rparr>)"
      by (rule pool_ok_add[OF s ip next_v6_fresh]) (use s in \<open>auto simp: handed_out_def pool_ok_def\<close>)
    show ?thesis using None s v4 v6 by (simp add: pooledIP_def ip_def[symmetric] Let_def)
  qed
qed

interpretation pool: sanitizer_invariant pool_ok
proof unfold_locales
  show "pool_ok s \<Longrightarrow> pool_ok (count_one c s)" for s c by (simp add: pool_ok_def handed_out_def count_one_def)
qed (rule pool_ok_pooledIP)

end
