(* ===== verification/Seal.thy ===== *)
theory Seal
  imports Go_Conv Go_Sha256
begin

text \<open>
  \<^verbatim>\<open>cmd/burnin/seal.go\<close>: the seal over a results directory. A directory is a tree whose entries come
  in the order of their names, as \<^verbatim>\<open>WalkDir\<close> visits them; an entry that is neither a directory nor a
  regular file is \<open>Special\<close>. Reads and writes of the file system succeed.
\<close>

section \<open>Directories\<close>

datatype entry = Regular string | Special string | Folder "(string \<times> entry) list"

definition sumsFile :: string where "sumsFile = ''SHA256SUMS''"

definition seal_temp :: "string \<Rightarrow> bool" where
  "seal_temp rel = HasPrefix rel ''.SHA256SUMS-''"

definition join_path :: "string \<Rightarrow> string \<Rightarrow> string" where
  "join_path d n = (if d = [] then n else d @ ''/'' @ n)"

text \<open>The walk: the files it came to before an entry that stops it, and that entry.\<close>

fun walk_dir :: "string \<Rightarrow> entry \<Rightarrow> string list \<times> (string \<times> string) option"
  and walk_entries :: "string \<Rightarrow> (string \<times> entry) list \<Rightarrow> string list \<times> (string \<times> string) option" where
  "walk_dir rel (Regular _) = (if rel = sumsFile \<or> seal_temp rel then [] else [rel], None)"
| "walk_dir rel (Special kind) = ([], Some (rel, kind))"
| "walk_dir rel (Folder es) = walk_entries rel es"
| "walk_entries rel [] = ([], None)"
| "walk_entries rel ((n, e) # es) = (case walk_dir (join_path rel n) e of
     (out, Some stop) \<Rightarrow> (out, Some stop)
   | (out, None) \<Rightarrow> (case walk_entries rel es of (out', stop) \<Rightarrow> (out @ out', stop)))"

text \<open>\<^verbatim>\<open>listRegular\<close> gives what it collected, sorted, beside the error.\<close>

definition listRegular :: "(string \<times> entry) list \<Rightarrow> string list \<times> (string \<times> string) option" where
  "listRegular dir = (case walk_entries [] dir of (out, stop) \<Rightarrow> (sort_strings out, stop))"

fun lookup_parts :: "string list \<Rightarrow> (string \<times> entry) list \<Rightarrow> entry option" where
  "lookup_parts [] dir = Some (Folder dir)"
| "lookup_parts (p # ps) dir = (case map_of dir p of
     Some (Folder es) \<Rightarrow> lookup_parts ps es
   | Some e \<Rightarrow> if ps = [] then Some e else None
   | None \<Rightarrow> None)"

definition hashFile :: "string \<Rightarrow> string" where
  "hashFile content = EncodeToString (Sum256 content)"

definition file_at :: "(string \<times> entry) list \<Rightarrow> string \<Rightarrow> string option" where
  "file_at dir rel = (case lookup_parts (split_on (CHR ''/'') rel) dir of Some (Regular c) \<Rightarrow> Some c | _ \<Rightarrow> None)"

section \<open>Sealing\<close>

definition sums_line :: "(string \<times> entry) list \<Rightarrow> string \<Rightarrow> string" where
  "sums_line dir rel = (case file_at dir rel of Some c \<Rightarrow> hashFile c | None \<Rightarrow> []) @ ''  '' @ rel @ [byte 10]"

text \<open>A file written at the top of the directory, in its place among the names.\<close>

fun put_entry :: "string \<Rightarrow> entry \<Rightarrow> (string \<times> entry) list \<Rightarrow> (string \<times> entry) list" where
  "put_entry n e [] = [(n, e)]"
| "put_entry n e ((m, f) # es) = (if m = n then (n, e) # es
     else if map of_char n < map (of_char :: char \<Rightarrow> nat) m then (n, e) # (m, f) # es else (m, f) # put_entry n e es)"

datatype seal_error = NotRegular string string | CannotReplace

definition sealDir :: "(string \<times> entry) list \<Rightarrow> seal_error + (string \<times> entry) list" where
  "sealDir dir = (case listRegular dir of
     (_, Some (rel, kind)) \<Rightarrow> Inl (NotRegular rel kind)
   | (files, None) \<Rightarrow>
       if (case map_of dir sumsFile of Some (Folder _) \<Rightarrow> True | _ \<Rightarrow> False) then Inl CannotReplace
       else Inr (put_entry sumsFile (Regular (concat (map (sums_line dir) files))) dir))"

section \<open>Verifying\<close>

text \<open>\<^verbatim>\<open>path.Clean\<close>.\<close>

fun clean_parts :: "bool \<Rightarrow> string list \<Rightarrow> string list \<Rightarrow> string list" where
  "clean_parts rooted [] out = rev out"
| "clean_parts rooted (p # ps) out =
     (if p = [] \<or> p = ''.'' then clean_parts rooted ps out
      else if p = ''..'' then
        (case out of
           q # qs \<Rightarrow> if q = ''..'' then clean_parts rooted ps (p # out) else clean_parts rooted ps qs
         | [] \<Rightarrow> clean_parts rooted ps (if rooted then [] else [p]))
      else clean_parts rooted ps (p # out))"

definition IsAbs :: "string \<Rightarrow> bool" where
  "IsAbs p = HasPrefix p ''/''"

definition Clean :: "string \<Rightarrow> string" where
  "Clean p = (let rooted = IsAbs p; body = Join (clean_parts rooted (split_on (CHR ''/'') p) []) ''/'' in
     if rooted then CHR ''/'' # body else if body = [] then ''.'' else body)"

text \<open>The lines of \<^verbatim>\<open>bufio.Scanner\<close>: it stops at a line that does not fit its buffer of 64 KiB.\<close>

definition drop_cr :: "string \<Rightarrow> string" where
  "drop_cr l = (if l \<noteq> [] \<and> last l = byte 13 then butlast l else l)"

fun scan_lines :: "string list \<Rightarrow> string list" where
  "scan_lines [] = []"
| "scan_lines [l] = (if l = [] \<or> length l \<ge> 65536 then [] else [drop_cr l])"
| "scan_lines (l # m # ls) = (if length l \<ge> 65536 then [] else drop_cr l # scan_lines (m # ls))"

definition sums_lines :: "string \<Rightarrow> string list" where
  "sums_lines text = scan_lines (split_on (byte 10) text)"

datatype seal_problem =
    NotSealed
  | Malformed nat
  | OutsideDirectory string
  | Missing string
  | NotARegularFile string
  | ThroughNonDirectory string string
  | Changed string
  | StoppedAt string string
  | NotWrittenByTheRun string

text \<open>\<^verbatim>\<open>checkOrdinaryPath\<close>, component by component.\<close>

fun ordinary :: "string \<Rightarrow> string list \<Rightarrow> (string \<times> entry) list \<Rightarrow> seal_problem option" where
  "ordinary rel [] dir = None"
| "ordinary rel [p] dir = (case map_of dir p of None \<Rightarrow> Some (Missing rel) | Some (Regular _) \<Rightarrow> None | Some _ \<Rightarrow> Some (NotARegularFile rel))"
| "ordinary rel (p # q # ps) dir = (case map_of dir p of None \<Rightarrow> Some (Missing rel)
     | Some (Folder es) \<Rightarrow> ordinary rel (q # ps) es | Some _ \<Rightarrow> Some (ThroughNonDirectory rel p))"

definition checkOrdinaryPath :: "(string \<times> entry) list \<Rightarrow> string \<Rightarrow> seal_problem option" where
  "checkOrdinaryPath dir rel = ordinary rel (split_on (CHR ''/'') rel) dir"

text \<open>\<^verbatim>\<open>strings.Cut\<close> at two blanks.\<close>

fun cut_blanks :: "string \<Rightarrow> (string \<times> string) option" where
  "cut_blanks (a # b # s) = (if a = CHR '' '' \<and> b = CHR '' '' then Some ([], s) else map_option (\<lambda>(x, y). (a # x, y)) (cut_blanks (b # s)))"
| "cut_blanks _ = None"

definition outside :: "string \<Rightarrow> bool" where
  "outside rel = (Clean rel \<noteq> rel \<or> IsAbs rel \<or> rel = ''..'' \<or> HasPrefix rel ''../'')"

text \<open>What a line says: a problem, and the file it lists if it lists one.\<close>

definition check_line :: "(string \<times> entry) list \<Rightarrow> nat \<Rightarrow> string \<Rightarrow> seal_problem list \<times> string list" where
  "check_line dir n line = (case cut_blanks line of
     None \<Rightarrow> ([Malformed n], [])
   | Some (digest, rel) \<Rightarrow>
       if length digest \<noteq> 64 then ([Malformed n], [])
       else if outside rel then ([OutsideDirectory rel], [])
       else (case checkOrdinaryPath dir rel of
           Some p \<Rightarrow> ([p], [rel])
         | None \<Rightarrow> (if map_option hashFile (file_at dir rel) = Some digest then [] else [Changed rel], [rel])))"

fun check_lines :: "(string \<times> entry) list \<Rightarrow> nat \<Rightarrow> string list \<Rightarrow> seal_problem list \<times> string list" where
  "check_lines dir n [] = ([], [])"
| "check_lines dir n (l # ls) = (case (check_line dir n l, check_lines dir (Suc n) ls) of
     ((ps, rs), (ps', rs')) \<Rightarrow> (ps @ ps', rs @ rs'))"

text \<open>
  Reading the list: a link is followed, to what \<open>follow\<close> gives, and a directory cannot be read.
\<close>

datatype read_result = NoFile | ReadError | Contents string

definition read_sums :: "(string \<Rightarrow> string option) \<Rightarrow> (string \<times> entry) list \<Rightarrow> read_result" where
  "read_sums follow dir = (case map_of dir sumsFile of
     None \<Rightarrow> NoFile
   | Some (Regular text) \<Rightarrow> Contents text
   | Some (Folder _) \<Rightarrow> ReadError
   | Some (Special kind) \<Rightarrow> (case follow kind of None \<Rightarrow> ReadError | Some text \<Rightarrow> Contents text))"

text \<open>\<open>None\<close> is the error of a list that cannot be read.\<close>

definition verify_listed :: "(string \<times> entry) list \<Rightarrow> string \<Rightarrow> seal_problem list" where
  "verify_listed dir text = (case (check_lines dir 1 (sums_lines text), listRegular dir) of
       ((problems, listed), (present, stop)) \<Rightarrow>
         problems @ (case stop of None \<Rightarrow> [] | Some (rel, kind) \<Rightarrow> [StoppedAt rel kind]) @
         map NotWrittenByTheRun (filter (\<lambda>rel. rel \<notin> set listed) present))"

definition verifyDir :: "(string \<Rightarrow> string option) \<Rightarrow> (string \<times> entry) list \<Rightarrow> seal_problem list option" where
  "verifyDir follow dir = (case read_sums follow dir of
     NoFile \<Rightarrow> Some [NotSealed]
   | ReadError \<Rightarrow> None
   | Contents text \<Rightarrow> Some (verify_listed dir text))"

end
