(* ===== verification/Sanitize_Dir.thy ===== *)
theory Sanitize_Dir
  imports Sanitize_State Seal Artifact_Store
begin

text \<open>
  \<^verbatim>\<open>cmd/burnin/sanitize.go\<close>: the copy of a sealed directory. The JSON package is a parameter: \<open>decode\<close>
  reads the first value of a text, \<open>unmarshal\<close> a whole text, \<open>encode\<close> writes a value. \<open>marker_text\<close> is the
  text of the marker, which holds the counts. Reading and writing files succeeds.
\<close>

record json_lib =
  jl_decode :: "string \<Rightarrow> json option"
  jl_unmarshal :: "string \<Rightarrow> json option"
  jl_encode :: "json \<Rightarrow> string"
  jl_marker :: "int gomap \<Rightarrow> string"
  jl_log2 :: "float64 \<Rightarrow> float64"

definition sanitizedMarker :: string where "sanitizedMarker = ''SANITIZED.json''"

definition isSanitized :: "(string \<times> entry) list \<Rightarrow> bool" where
  "isSanitized dir = (map_of dir sanitizedMarker \<noteq> None)"

section \<open>The names a result records\<close>

fun member :: "json \<Rightarrow> string \<Rightarrow> json option" where
  "member (JObj kvs) k = map_of kvs k"
| "member _ k = None"

fun items :: "json \<Rightarrow> json list" where
  "items (JArr vs) = vs"
| "items _ = []"

fun name_in :: "json option \<Rightarrow> string list" where
  "name_in (Some (JStr x)) = (if x = [] then [] else [x])"
| "name_in _ = []"

fun object_keys :: "json \<Rightarrow> string list" where
  "object_keys (JObj kvs) = map fst kvs"
| "object_keys _ = []"

fun is_obj :: "json \<Rightarrow> bool" where
  "is_obj (JObj _) = True"
| "is_obj _ = False"

definition or_null :: "json option \<Rightarrow> json" where
  "or_null v = (case v of None \<Rightarrow> JNull | Some x \<Rightarrow> x)"

definition result_names :: "json \<Rightarrow> string list" where
  "result_names r = (if is_obj r then concat (map (\<lambda>n. name_in (Some n)) (items (or_null (member r ''nodes'')))) @ name_in (member r ''node'') else [])"

definition document_names :: "json \<Rightarrow> string list" where
  "document_names m =
     name_in (member m ''node'') @ name_in (member m ''peerNode'') @
     (case member m ''run'' of Some run \<Rightarrow> if member run ''namespace'' = Some (JStr ''local'') then name_in (member run ''name'') else [] | None \<Rightarrow> []) @
     (case member m ''cluster'' of Some c \<Rightarrow> name_in (member c ''name'') | None \<Rightarrow> []) @
     object_keys (or_null (member m ''fingerprint'')) @
     concat (map result_names (items (or_null (member m ''results''))))"

definition inventory :: "json_lib \<Rightarrow> (string \<times> string) list \<Rightarrow> string list" where
  "inventory L files = sort_strings (remdups (concat (map (\<lambda>(rel, data).
     if HasSuffix rel ''.json'' then (case jl_unmarshal L data of Some m \<Rightarrow> if is_obj m then document_names m else [] | None \<Rightarrow> []) else []) files)))"

section \<open>The copy\<close>

datatype copy_error =
    AlreadySanitized
  | Unreadable
  | NotSealedUnchanged "seal_problem list"
  | OutputExists
  | ListFailed string string
  | SanitizeFailed string sanitize_error
  | NotJSON string
  | NotText string
  | SameName string string
  | StillIdentifying string "(Category \<times> string) list"
  | CannotWrite string
  | SealFailed seal_error

record out_file =
  of_rel :: string
  of_name :: string
  of_data :: string

text \<open>A file's clean text and what the second look still finds in it.\<close>

definition clean_file :: "json_lib \<Rightarrow> string \<Rightarrow> string \<Rightarrow> Sanitizer \<Rightarrow> copy_error + string \<times> (Category \<times> string) list \<times> Sanitizer" where
  "clean_file L rel data s =
     (if HasSuffix rel ''.json'' then (case jl_decode L data of
          None \<Rightarrow> Inl (NotJSON rel)
        | Some v \<Rightarrow> (case walk (jl_log2 L) v [] s of
            (Inl e, _) \<Rightarrow> Inl (SanitizeFailed rel e)
          | (Inr v', s') \<Rightarrow> (let clean = jl_encode L v' in case jl_decode L clean of
              None \<Rightarrow> Inl (NotJSON rel)
            | Some w \<Rightarrow> Inr (clean, ResidualJSON (jl_log2 L) s' w [], s'))))
      else if ValidString data then (case Text (jl_log2 L) data s of
          (Inl e, _) \<Rightarrow> Inl (SanitizeFailed rel e)
        | (Inr clean, s') \<Rightarrow> Inr (clean, Residual (jl_log2 L) s' clean, s'))
      else Inl (NotText rel))"

fun sanitize_files :: "json_lib \<Rightarrow> (string \<times> string) list \<Rightarrow> (string \<times> string) list \<Rightarrow> Sanitizer \<Rightarrow> copy_error + out_file list \<times> Sanitizer" where
  "sanitize_files L [] seen s = Inr ([], s)"
| "sanitize_files L ((rel, data) # files) seen s =
     (case Path rel s of
        (Inl e, _) \<Rightarrow> Inl (SanitizeFailed rel e)
      | (Inr nrel, s1) \<Rightarrow>
          (case map_of seen nrel of
             Some prev \<Rightarrow> Inl (SameName prev rel)
           | None \<Rightarrow> (case clean_file L rel data s1 of
               Inl e \<Rightarrow> Inl e
             | Inr (clean, findings, s2) \<Rightarrow>
                 if findings \<noteq> [] then Inl (StillIdentifying nrel findings)
                 else (case sanitize_files L files ((nrel, rel) # seen) s2 of
                     Inl e \<Rightarrow> Inl e
                   | Inr (outs, s3) \<Rightarrow> Inr (\<lparr>of_rel = rel, of_name = nrel, of_data = clean\<rparr> # outs, s3)))))"

text \<open>Writing a file into the staging directory, with the directories on its way.\<close>

fun write_parts :: "string list \<Rightarrow> string \<Rightarrow> (string \<times> entry) list \<Rightarrow> (string \<times> entry) list option" where
  "write_parts [] c dir = None"
| "write_parts [n] c dir = (case map_of dir n of Some (Folder _) \<Rightarrow> None | _ \<Rightarrow> Some (put_entry n (Regular c) dir))"
| "write_parts (n # m # ps) c dir = (case (case map_of dir n of None \<Rightarrow> Some [] | Some (Folder es) \<Rightarrow> Some es | Some _ \<Rightarrow> None) of
     None \<Rightarrow> None
   | Some es \<Rightarrow> (case write_parts (m # ps) c es of None \<Rightarrow> None | Some es' \<Rightarrow> Some (put_entry n (Folder es') dir)))"

fun write_outs :: "out_file list \<Rightarrow> (string \<times> entry) list \<Rightarrow> copy_error + (string \<times> entry) list" where
  "write_outs [] dir = Inr dir"
| "write_outs (f # fs) dir = (case write_parts (split_on (CHR ''/'') (of_name f)) (of_data f) dir of
     None \<Rightarrow> Inl (CannotWrite (of_name f))
   | Some dir' \<Rightarrow> write_outs fs dir')"

definition file_contents :: "(string \<times> entry) list \<Rightarrow> string list \<Rightarrow> (string \<times> string) list" where
  "file_contents dir files = map (\<lambda>rel. (rel, case file_at dir rel of Some c \<Rightarrow> c | None \<Rightarrow> [])) files"

text \<open>The sanitiser of a directory: fresh salt, the names the result records and those given.\<close>

definition sanitizer_for :: "json_lib \<Rightarrow> string \<Rightarrow> (string \<times> string) list \<Rightarrow> string list \<Rightarrow> string list \<Rightarrow> Sanitizer" where
  "sanitizer_for L fresh files hosts users = fold AddHost (inventory L files @ hosts) (New fresh None None [] users)"

definition write_copy :: "json_lib \<Rightarrow> out_file list \<Rightarrow> Sanitizer \<Rightarrow> copy_error + out_file list \<times> (string \<times> entry) list" where
  "write_copy L outs s = (case write_outs outs [] of
     Inl e \<Rightarrow> Inl e
   | Inr staging \<Rightarrow> (case sealDir (put_entry sanitizedMarker (Regular (jl_marker L (Counts s))) staging) of
       Inl e \<Rightarrow> Inl (SealFailed e)
     | Inr sealed \<Rightarrow> Inr (outs, sealed)))"

definition sanitizeDir :: "json_lib \<Rightarrow> (string \<Rightarrow> string option) \<Rightarrow> string \<Rightarrow> (string \<times> entry) list \<Rightarrow> bool \<Rightarrow> string list \<Rightarrow> string list \<Rightarrow>
    copy_error + out_file list \<times> (string \<times> entry) list" where
  "sanitizeDir L follow fresh dir out_exists hosts users =
     (if isSanitized dir then Inl AlreadySanitized
      else (case verifyDir follow dir of
        None \<Rightarrow> Inl Unreadable
      | Some problems \<Rightarrow>
          if problems \<noteq> [] then Inl (NotSealedUnchanged problems)
          else if out_exists then Inl OutputExists
          else (case listRegular dir of
            (_, Some (rel, kind)) \<Rightarrow> Inl (ListFailed rel kind)
          | (names, None) \<Rightarrow>
              (let files = file_contents dir names in
               case sanitize_files L files [] (sanitizer_for L fresh files hosts users) of
                 Inl e \<Rightarrow> Inl e
               | Inr (outs, s) \<Rightarrow> write_copy L outs s))))"

end
