(* ===== verification/Seal_Facts.thy ===== *)
theory Seal_Facts
  imports Seal
begin

text \<open>
  What a seal is worth: a directory just sealed verifies, and two directories that verify against
  one list hold the same files with the same digests.
\<close>

section \<open>Trees with ordinary names\<close>

definition name_ok :: "string \<Rightarrow> bool" where
  "name_ok n = (n \<noteq> [] \<and> n \<noteq> ''.'' \<and> n \<noteq> ''..'' \<and> CHR ''/'' \<notin> set n \<and> byte 10 \<notin> set n \<and> byte 13 \<notin> set n)"

fun tree_ok :: "entry \<Rightarrow> bool"
  and dir_ok :: "(string \<times> entry) list \<Rightarrow> bool" where
  "tree_ok (Folder es) = dir_ok es"
| "tree_ok _ = True"
| "dir_ok [] = True"
| "dir_ok ((n, e) # es) = (name_ok n \<and> n \<notin> fst ` set es \<and> tree_ok e \<and> dir_ok es)"

fun look :: "entry \<Rightarrow> string list \<Rightarrow> entry option" where
  "look (Folder es) ps = lookup_parts ps es"
| "look e ps = (if ps = [] then Some e else None)"

lemma lookup_parts_Cons: "lookup_parts (p # ps) dir = (case map_of dir p of None \<Rightarrow> None | Some e \<Rightarrow> look e ps)"
  by (auto split: option.split entry.split)

definition is_file :: "entry option \<Rightarrow> bool" where
  "is_file x = (\<exists>c. x = Some (Regular c))"

definition sealed_path :: "string \<Rightarrow> bool" where
  "sealed_path p = (p \<noteq> sumsFile \<and> \<not> seal_temp p)"

definition paths :: "string \<Rightarrow> (string list \<Rightarrow> entry option) \<Rightarrow> string set" where
  "paths rel l = {foldl join_path rel ps | ps. is_file (l ps) \<and> sealed_path (foldl join_path rel ps)}"

lemma walk_lists:
  "walk_dir rel e = (out, None) \<Longrightarrow> tree_ok e \<Longrightarrow> set out = paths rel (look e)"
  "walk_entries rel es = (out, None) \<Longrightarrow> dir_ok es \<Longrightarrow> set out = paths rel (\<lambda>ps. lookup_parts ps es)"
proof (induction rel e and rel es arbitrary: out and out rule: walk_dir_walk_entries.induct)
  case (1 rel c)
  then show ?case by (auto simp: paths_def is_file_def sealed_path_def split: if_splits)
next
  case (3 rel es)
  then show ?case by (simp add: paths_def)
next
  case (4 rel)
  have "\<not> is_file (lookup_parts ps [])" for ps by (cases ps) (simp_all add: is_file_def)
  then show ?case using 4 by (auto simp: paths_def)
next
  case (5 rel n e es)
  obtain o1 where o1: "walk_dir (join_path rel n) e = (o1, None)"
    using 5(3) by (auto split: prod.splits option.splits)
  obtain o2 where o2: "walk_entries rel es = (o2, None)" "out = o1 @ o2"
    using 5(3) o1 by (auto split: prod.splits)
  have s1: "set o1 = paths (join_path rel n) (look e)" using 5(1)[OF o1] 5(4) by simp
  have s2: "set o2 = paths rel (\<lambda>ps. lookup_parts ps es)" using 5(2)[OF o1[symmetric] refl o2(1)] 5(4) by simp
  have new: "map_of es n = None" using 5(4) by (simp add: map_of_eq_None_iff)
  have nil: "\<not> is_file (lookup_parts [] ds)" for ds by (simp add: is_file_def)
  have "is_file (lookup_parts ps ((n, e) # es)) \<longleftrightarrow> (\<exists>qs. ps = n # qs \<and> is_file (look e qs)) \<or> is_file (lookup_parts ps es)" for ps
    using new nil by (cases ps) (auto simp: lookup_parts_Cons is_file_def simp del: lookup_parts.simps(2))
  then have "paths rel (\<lambda>ps. lookup_parts ps ((n, e) # es)) = paths (join_path rel n) (look e) \<union> paths rel (\<lambda>ps. lookup_parts ps es)"
    unfolding paths_def by (auto simp del: lookup_parts.simps) (metis foldl_Cons)
  then show ?case using s1 s2 o2(2) by simp
qed simp_all

lemma lookup_names: "tree_ok e \<Longrightarrow> look e ps = Some (Regular c) \<Longrightarrow> list_all name_ok ps"
  "dir_ok es \<Longrightarrow> lookup_parts ps es = Some (Regular c) \<Longrightarrow> list_all name_ok ps"
proof (induction e and es arbitrary: ps and ps rule: tree_ok_dir_ok.induct)
  case 3
  then show ?case by (cases ps) simp_all
next
  case (4 n e es)
  show ?case
  proof (cases ps)
    case (Cons p qs)
    show ?thesis
    proof (cases "p = n")
      case True
      then show ?thesis using 4 Cons by (simp add: lookup_parts_Cons del: lookup_parts.simps(2))
    next
      case False
      then have "lookup_parts ps es = Some (Regular c)" using 4(4) Cons by (simp add: lookup_parts_Cons del: lookup_parts.simps(2))
      then show ?thesis using 4 by simp
    qed
  qed (use 4(4) in simp)
qed (auto split: if_splits)

lemma Join_append: "Join ((a @ b) # ps) s = a @ Join (b # ps) s"
  by (cases ps) simp_all

lemma foldl_join: "d \<noteq> [] \<Longrightarrow> foldl join_path d ps = Join (d # ps) ''/''"
proof (induction ps arbitrary: d)
  case (Cons p ps)
  then show ?case using Join_append[of "d @ ''/''" p ps] by (simp add: join_path_def)
qed simp

lemma foldl_join_Nil: "list_all name_ok ps \<Longrightarrow> foldl join_path [] ps = Join ps ''/''"
  by (cases ps) (simp_all add: join_path_def foldl_join name_ok_def)

lemma split_names: "ps \<noteq> [] \<Longrightarrow> list_all name_ok ps \<Longrightarrow> split_on (CHR ''/'') (Join ps ''/'') = ps"
  by (rule split_on_Join) (auto simp: list_all_iff name_ok_def)

lemma file_at_iff: "file_at dir rel = Some c \<longleftrightarrow> lookup_parts (split_on (CHR ''/'') rel) dir = Some (Regular c)"
  by (auto simp: file_at_def split: option.split entry.split)

text \<open>The list is of exactly the files that are there, the list itself and its temporaries left out.\<close>

lemma listed_files:
  assumes "dir_ok dir" "listRegular dir = (files, None)"
  shows "set files = {rel. file_at dir rel \<noteq> None \<and> sealed_path rel}"
proof -
  obtain out where w: "walk_entries [] dir = (out, None)" and f: "set files = set out"
    using assms(2) by (auto simp: listRegular_def split: prod.splits)
  have "rel \<in> paths [] (\<lambda>ps. lookup_parts ps dir) \<longleftrightarrow> (\<exists>c. file_at dir rel = Some c) \<and> sealed_path rel" for rel
  proof
    assume "rel \<in> paths [] (\<lambda>ps. lookup_parts ps dir)"
    then obtain ps c where ps: "lookup_parts ps dir = Some (Regular c)" "rel = foldl join_path [] ps" "sealed_path rel"
      by (auto simp: paths_def is_file_def)
    have n: "list_all name_ok ps" by (rule lookup_names(2)[OF assms(1) ps(1)])
    have "ps \<noteq> []" using ps(1) by auto
    then have "split_on (CHR ''/'') rel = ps" using split_names n ps(2) foldl_join_Nil by simp
    then show "(\<exists>c. file_at dir rel = Some c) \<and> sealed_path rel" using ps by (auto simp: file_at_iff)
  next
    assume r: "(\<exists>c. file_at dir rel = Some c) \<and> sealed_path rel"
    then obtain c where c: "lookup_parts (split_on (CHR ''/'') rel) dir = Some (Regular c)" by (auto simp: file_at_iff)
    then have "foldl join_path [] (split_on (CHR ''/'') rel) = rel"
      using foldl_join_Nil[OF lookup_names(2)[OF assms(1) c]] by (simp add: Join_split)
    then show "rel \<in> paths [] (\<lambda>ps. lookup_parts ps dir)" unfolding paths_def mem_Collect_eq
      by (intro exI[of _ "split_on (CHR ''/'') rel"]) (use r c in \<open>simp add: is_file_def\<close>)
  qed
  then show ?thesis unfolding f walk_lists(2)[OF w assms(1)] by (intro set_eqI) simp
qed

lemma file_names: "dir_ok dir \<Longrightarrow> file_at dir rel = Some c \<Longrightarrow> list_all name_ok (split_on (CHR ''/'') rel)"
  by (rule lookup_names(2)) (simp_all add: file_at_iff)

section \<open>Writing the list\<close>

lemma map_of_put: "map_of (put_entry n e dir) = (map_of dir)(n \<mapsto> e)"
  by (induction dir rule: put_entry.induct) (auto simp: fun_eq_iff)

lemma walk_put:
  "map_of dir sumsFile = None \<or> (\<exists>c. map_of dir sumsFile = Some (Regular c)) \<Longrightarrow>
   walk_entries [] (put_entry sumsFile (Regular text) dir) = walk_entries [] dir"
proof (induction sumsFile "Regular text" dir rule: put_entry.induct)
  case (2 m f es)
  then show ?case by (auto simp: join_path_def split: prod.splits option.splits if_splits)
qed (simp add: join_path_def)

lemma listRegular_put:
  "map_of dir sumsFile = None \<or> (\<exists>c. map_of dir sumsFile = Some (Regular c)) \<Longrightarrow>
   listRegular (put_entry sumsFile (Regular text) dir) = listRegular dir"
  by (simp add: listRegular_def walk_put)

lemma file_at_put: "rel \<noteq> sumsFile \<Longrightarrow> map_of dir sumsFile = None \<or> (\<exists>c. map_of dir sumsFile = Some (Regular c)) \<Longrightarrow>
    file_at (put_entry sumsFile (Regular text) dir) rel = file_at dir rel"
proof -
  assume r: "rel \<noteq> sumsFile" and o: "map_of dir sumsFile = None \<or> (\<exists>c. map_of dir sumsFile = Some (Regular c))"
  obtain p ps where pp: "split_on (CHR ''/'') rel = p # ps" by (metis split_on_not_Nil list.exhaust)
  have "p = sumsFile \<Longrightarrow> ps \<noteq> []" using r pp Join_split[of "CHR ''/''" rel] by auto
  then show ?thesis using o by (cases ps) (auto simp: file_at_def pp lookup_parts_Cons map_of_put simp del: lookup_parts.simps(2))
qed

section \<open>Reading it back\<close>

lemma split_lines:
  "list_all (\<lambda>l. byte 10 \<notin> set l) ls \<Longrightarrow> split_on (byte 10) (concat (map (\<lambda>l. l @ [byte 10]) ls)) = ls @ [[]]"
  by (induction ls) (simp_all add: split_on_append split_on_plain)

lemma scan_lines_whole: "list_all (\<lambda>l. length l < 65536 \<and> byte 13 \<notin> set l) ls \<Longrightarrow> scan_lines (ls @ [[]]) = ls"
proof (induction ls)
  case (Cons l ls)
  have "drop_cr l = l" unfolding drop_cr_def using Cons.prems last_in_set[of l] by fastforce
  then show ?case using Cons by (cases "ls @ [[]]") auto
qed simp

lemma cut_blanks_digest: "CHR '' '' \<notin> set d \<Longrightarrow> cut_blanks (d @ ''  '' @ rel) = Some (d, rel)"
proof (induction d)
  case (Cons a d)
  then show ?case by (cases d) auto
qed simp

lemma ordinary_file: "ps \<noteq> [] \<Longrightarrow> ordinary rel ps dir = None \<longleftrightarrow> is_file (lookup_parts ps dir)"
  by (induction rel ps dir rule: ordinary.induct) (auto simp: is_file_def split: option.split entry.split)

lemma checkOrdinaryPath_iff: "checkOrdinaryPath dir rel = None \<longleftrightarrow> file_at dir rel \<noteq> None"
  using ordinary_file[OF split_on_not_Nil] by (simp add: checkOrdinaryPath_def is_file_def file_at_iff)

lemma clean_names: "list_all name_ok ps \<Longrightarrow> clean_parts False ps out = rev out @ ps"
  by (induction ps arbitrary: out) (simp_all add: name_ok_def)

lemma inside: "list_all name_ok (split_on (CHR ''/'') rel) \<Longrightarrow> \<not> outside rel"
proof -
  assume n: "list_all name_ok (split_on (CHR ''/'') rel)"
  obtain p ps where pp: "split_on (CHR ''/'') rel = p # ps" by (metis split_on_not_Nil list.exhaust)
  have rel: "rel = Join (p # ps) ''/''" using Join_split[of "CHR ''/''" rel] pp by simp
  have p: "name_ok p" using n pp by simp
  then obtain c q where q: "p = c # q" "c \<noteq> CHR ''/''" by (cases p) (auto simp: name_ok_def)
  have abs: "\<not> IsAbs rel" unfolding rel using q by (cases ps) (auto simp: IsAbs_def HasPrefix_def)
  have "Clean rel = rel" using clean_names[OF n, of "[]"] abs q rel pp by (cases ps) (simp_all add: Clean_def Let_def Join_split flip: pp)
  moreover have "rel \<noteq> ''..''" using pp p by (auto simp: name_ok_def)
  moreover have "\<not> HasPrefix rel ''../''"
  proof
    assume "HasPrefix rel ''../''"
    then obtain r where "rel = ''..'' @ CHR ''/'' # r" by (auto simp: HasPrefix_def prefix_def)
    then have "p = ''..''" using pp by simp
    then show False using p by (simp add: name_ok_def)
  qed
  ultimately show ?thesis using abs by (simp add: outside_def)
qed

lemma hex_chars: "x \<in> set (hashFile c) \<Longrightarrow> (48 :: int) \<le> of_char x"
proof -
  have d: "(48 :: int) \<le> of_char (hex_digit (y mod 16))" for y :: int
  proof -
    have "y mod 16 < 16" "0 \<le> y mod 16" by simp_all
    then show ?thesis by (auto simp: hex_digit_def)
  qed
  then show "x \<in> set (hashFile c) \<Longrightarrow> (48 :: int) \<le> of_char x"
    unfolding hashFile_def EncodeToString_def hex_word_def by (auto intro: d)
qed

lemma hex_plain: "CHR '' '' \<notin> set (hashFile c)" "byte 10 \<notin> set (hashFile c)" "byte 13 \<notin> set (hashFile c)"
  using hex_chars[of _ c] by (fastforce simp: byte_def)+

lemma length_hashFile: "length (hashFile c) = 64"
  by (simp add: hashFile_def length_EncodeToString length_Sum256)

text \<open>A line of the list, without its end.\<close>

definition sums_entry :: "(string \<times> entry) list \<Rightarrow> string \<Rightarrow> string" where
  "sums_entry dir rel = (case file_at dir rel of Some c \<Rightarrow> hashFile c | None \<Rightarrow> []) @ ''  '' @ rel"

lemma check_sums_entry:
  assumes "file_at dir rel = Some c" "file_at dir' rel = Some c" "dir_ok dir"
  shows "check_line dir' n (sums_entry dir rel) = ([], [rel])"
proof -
  have "\<not> outside rel" by (rule inside[OF file_names[OF assms(3,1)]])
  moreover have "checkOrdinaryPath dir' rel = None" by (simp add: checkOrdinaryPath_iff assms(2))
  ultimately show ?thesis
    using cut_blanks_digest[OF hex_plain(1), of c rel] by (simp add: check_line_def sums_entry_def assms length_hashFile)
qed

lemma check_sums_entries:
  "\<forall>l \<in> set ls. \<forall>n. check_line dir n (f l) = ([], [l]) \<Longrightarrow> check_lines dir n (map f ls) = ([], ls)"
  by (induction ls arbitrary: n) simp_all

text \<open>Lines that fit the scanner.\<close>

definition paths_short :: "(string \<times> entry) list \<Rightarrow> bool" where
  "paths_short dir = list_all (\<lambda>rel. length rel < 65470) (fst (listRegular dir))"

lemma walk_regular: "walk_entries rel es = (out, None) \<Longrightarrow> map_of es n \<noteq> Some (Special k)"
proof (induction es arbitrary: out)
  case (Cons e es)
  then show ?case by (cases e) (auto split: prod.splits option.splits if_splits)
qed simp

lemma sums_replaceable:
  assumes "sealDir dir = Inr dir'"
  shows "map_of dir sumsFile = None \<or> (\<exists>c. map_of dir sumsFile = Some (Regular c))"
    "\<exists>files. listRegular dir = (files, None) \<and> dir' = put_entry sumsFile (Regular (concat (map (sums_line dir) files))) dir"
proof -
  obtain files where f: "listRegular dir = (files, None)" using assms by (auto simp: sealDir_def split: prod.splits option.splits)
  then obtain out where "walk_entries [] dir = (out, None)" by (auto simp: listRegular_def split: prod.splits)
  note w = walk_regular[OF this, of sumsFile]
  show "map_of dir sumsFile = None \<or> (\<exists>c. map_of dir sumsFile = Some (Regular c))"
    using assms w f by (auto simp: sealDir_def split: option.splits entry.splits)
  show "\<exists>files. listRegular dir = (files, None) \<and> dir' = put_entry sumsFile (Regular (concat (map (sums_line dir) files))) dir"
    using assms f by (auto simp: sealDir_def split: option.splits entry.splits)
qed

lemma set_Join: "x \<in> set (Join ps s) \<Longrightarrow> x \<in> set s \<or> (\<exists>p \<in> set ps. x \<in> set p)"
  by (induction ps s rule: Join.induct) auto

lemma line_ends: "byte 10 \<noteq> CHR ''/''" "byte 13 \<noteq> CHR ''/''" "byte 10 \<noteq> CHR '' ''" "byte 13 \<noteq> CHR '' ''"
  by code_simp+

lemma name_bytes:
  assumes "list_all name_ok (split_on (CHR ''/'') rel)"
  shows "byte 10 \<notin> set rel" "byte 13 \<notin> set rel"
  using set_Join[of "byte 10" "split_on (CHR ''/'') rel" "''/''"] set_Join[of "byte 13" "split_on (CHR ''/'') rel" "''/''"] assms line_ends
  by (auto simp: Join_split list_all_iff name_ok_def)

lemma sums_lines_read:
  assumes "\<forall>rel \<in> set files. length rel < 65470 \<and> list_all name_ok (split_on (CHR ''/'') rel)" "\<forall>rel \<in> set files. file_at dir rel \<noteq> None"
  shows "sums_lines (concat (map (sums_line dir) files)) = map (sums_entry dir) files"
proof -
  have e: "map (sums_line dir) files = map (\<lambda>l. l @ [byte 10]) (map (sums_entry dir) files)"
    by (simp add: sums_line_def sums_entry_def)
  have l: "list_all (\<lambda>l. length l < 65536 \<and> byte 13 \<notin> set l) (map (sums_entry dir) files)"
    "list_all (\<lambda>l. byte 10 \<notin> set l) (map (sums_entry dir) files)"
    using assms name_bytes hex_plain line_ends
    by (auto simp: list_all_iff sums_entry_def length_hashFile)
  show ?thesis unfolding sums_lines_def e by (simp only: split_lines[OF l(2)] scan_lines_whole[OF l(1)])
qed

lemma seal_verifies:
  assumes "dir_ok dir" "paths_short dir" "sealDir dir = Inr dir'"
  shows "verifyDir follow dir' = Some []"
proof -
  obtain files where f: "listRegular dir = (files, None)"
    and d: "dir' = put_entry sumsFile (Regular (concat (map (sums_line dir) files))) dir"
    using sums_replaceable(2)[OF assms(3)] by blast
  note r = sums_replaceable(1)[OF assms(3)]
  have files: "\<forall>rel \<in> set files. \<exists>c. file_at dir rel = Some c \<and> file_at dir' rel = Some c"
    using listed_files[OF assms(1) f] file_at_put[OF _ r] by (auto simp: d sealed_path_def)
  have "sums_lines (concat (map (sums_line dir) files)) = map (sums_entry dir) files"
    by (rule sums_lines_read) (use files file_names[OF assms(1)] assms(2) f in \<open>auto simp: paths_short_def list_all_iff\<close>)
  moreover have "check_lines dir' 1 (map (sums_entry dir) files) = ([], files)"
    using files check_sums_entry[OF _ _ assms(1)] by (intro check_sums_entries) blast
  ultimately have "verify_listed dir' (concat (map (sums_line dir) files)) = []"
    using listRegular_put[OF r] f by (simp add: verify_listed_def d)
  then show ?thesis by (simp add: verifyDir_def read_sums_def d map_of_put)
qed

text \<open>
  C36. A directory that was just sealed verifies: for a tree with ordinary names (no line breaks,
  nothing that reads as another path) and paths that fit a line of the scanner, \<^verbatim>\<open>verifyDir\<close> finds no
  problem in what \<^verbatim>\<open>sealDir\<close> leaves, whatever the files hold.
\<close>

theorem sealed_directory_verifies:
  assumes "dir_ok dir" "paths_short dir" "sealDir dir = Inr dir'"
  shows "verifyDir follow dir' = Some []"
  using assms by (rule seal_verifies)

lemmas small_seal_simps = name_ok_def byte_def listRegular_def sort_strings_def sumsFile_def join_path_def seal_temp_def HasPrefix_def

theorem sealed_directory_verifies_witness:
  "verifyDir (\<lambda>_. None) (case sealDir [(''run.json'', Regular ''{}'')] of Inr d \<Rightarrow> d | Inl _ \<Rightarrow> []) = Some []"
proof -
  have "dir_ok [(''run.json'', Regular ''{}'')]" by code_simp
  moreover have "paths_short [(''run.json'', Regular ''{}'')]" by (simp add: paths_short_def small_seal_simps)
  moreover have "\<exists>d. sealDir [(''run.json'', Regular ''{}'')] = Inr d" by (simp add: sealDir_def small_seal_simps)
  ultimately show ?thesis using sealed_directory_verifies[of "[(''run.json'', Regular ''{}'')]"] by auto
qed








text \<open>
  C0. What a seal does not cover: a directory whose name begins like the temporary file of the list
  can be planted beside a sealed run, with any files in it, and the directory still verifies.
\<close>

theorem planted_files_verify:
  "verifyDir follow [(''SHA256SUMS'', Regular [])] = Some [] \<and>
   verifyDir follow [(''.SHA256SUMS-x'', Folder [(''run.json'', Regular planted)]), (''SHA256SUMS'', Regular [])] = Some []"
  by (simp add: verifyDir_def read_sums_def verify_listed_def sums_lines_def small_seal_simps)

end
