(* ===== verification/Sanitize_Props.thy ===== *)
theory Sanitize_Props
  imports Sanitize_Dir Seal_Facts
begin

text \<open>
  The promises of the sanitiser, over everything it publishes: no recorded name is left
  unclaimed, stand-in addresses never collide and are never taken for real ones, measurements
  are kept as written. And where it keeps less than it says.
\<close>

section \<open>What leaves the site\<close>














definition no_json :: json_lib where
  "no_json = \<lparr>jl_decode = \<lambda>_. None, jl_unmarshal = \<lambda>_. None, jl_encode = \<lambda>_. [], jl_marker = \<lambda>_. ''{}'', jl_log2 = \<lambda>x. x\<rparr>"

abbreviation note_file :: "(string \<times> string) list" where
  "note_file \<equiv> [(''a'', ''k8s.io/y'')]"

definition notes_sanitizer :: Sanitizer where
  "notes_sanitizer = sanitizer_for no_json ''salt'' note_file [''io''] []"

abbreviation kept_ref :: span where
  "kept_ref \<equiv> \<lparr>sp_start = 0, sp_end = 8, sp_cat = CatKeep, sp_inventory = False\<rparr>"

text \<open>What the examples compute to.\<close>

lemma notes_computed:
  "choose_spans (sort_key order_key (kept_spans notes_sanitizer ''k8s.io/y'')) (-1) = [kept_ref] \<and>
   FindAll reEntropyRun ''k8s.io/y'' = [] \<and> ValidString ''k8s.io/y'' \<and> inventorySpans notes_sanitizer ''a'' = [] \<and>
   inventorySpans notes_sanitizer ''k8s.io/y'' = [\<lparr>sp_start = 4, sp_end = 6, sp_cat = CatHostname, sp_inventory = True\<rparr>] \<and>
   \<not> MatchString keyEnv ''metrics'' \<and> \<not> MatchString keySecret ''metrics'' \<and> \<not> MatchString keySerial ''metrics'' \<and>
   \<not> MatchString keyUsername ''metrics'' \<and> \<not> MatchString keySSID ''metrics'' \<and> MatchString keyEnv ''env''"
  by code_simp













section \<open>Stand-in addresses\<close>











section \<open>Measurements\<close>







section \<open>What gets through\<close>

lemma env_key: "member_rule allow ''env'' (JArr vs) False = MEnv"
  by (simp add: member_rule_def key_rule_def notes_computed)

definition two_hosts :: Sanitizer where
  "two_hosts = New ''salt'' None None [''hostb'', ''hosta''] []"

lemma two_hosts_spans: "inventorySpans two_hosts ''hosta-hostb'' =
    [\<lparr>sp_start = 6, sp_end = 11, sp_cat = CatHostname, sp_inventory = True\<rparr>, \<lparr>sp_start = 0, sp_end = 5, sp_cat = CatHostname, sp_inventory = True\<rparr>]"
  by code_simp

text \<open>
  Where the sanitiser keeps more than it says. An environment given as a list of variables is
  kept as it is, values included. And a name that comes later in the tables than another one in the
  same part of a path, but before it in the path, is left in the path.
\<close>

theorem sanitiser_lets_through:
  "walkMember log2 ''env'' (JArr [JStr ''PASSWORD=hunter2'']) False s = (Inr (JArr [JStr ''PASSWORD=hunter2'']), s) \<and>
   (\<exists>rest. fst (Path ''hosta-hostb'' two_hosts) = Inr (''hosta-'' @ rest))"
proof
  show "walkMember log2 ''env'' (JArr [JStr ''PASSWORD=hunter2'']) False s = (Inr (JArr [JStr ''PASSWORD=hunter2'']), s)"
    by (simp add: env_key)
  show "\<exists>rest. fst (Path ''hosta-hostb'' two_hosts) = Inr (''hosta-'' @ rest)"
    by (simp add: Path_def two_hosts_spans san_bind_def san_ret_def replace_def substr_def Let_def)
qed

end
