(* ===== verification/Stats.thy ===== *)
theory Stats
  imports Go_Arith
begin

text \<open>
  \<^verbatim>\<open>pkg/stats/stats.go\<close>, operation by operation on doubles, each rounded by itself. The
  transcendental functions of package \<^verbatim>\<open>math\<close> and the random source are the parameters \<open>math_lib\<close> and
  \<open>draw\<close>; an index out of range is \<open>None\<close>.
\<close>

record math_lib =
  ma_sqrt :: "float64 \<Rightarrow> float64"
  ma_exp :: "float64 \<Rightarrow> float64"
  ma_log :: "float64 \<Rightarrow> float64"
  ma_lgamma :: "float64 \<Rightarrow> float64"

datatype stats_error = ErrNonFinite | NeedsSamples | NeedsReplicates | BadQuantile | IndexOutOfRange

definition checkFinite :: "float64 list \<Rightarrow> bool" where
  "checkFinite x = list_all is_finite x"

definition fsum :: "float64 list \<Rightarrow> float64" where
  "fsum x = foldl fadd (Fin 0) x"

definition Mean :: "float64 list \<Rightarrow> float64" where
  "Mean x = (if x = [] then NaN else fdiv (fsum x) (of_count (length x)))"

definition SampleSD :: "math_lib \<Rightarrow> float64 list \<Rightarrow> float64 option" where
  "SampleSD M x = (if length x < 2 then None
     else (let m = Mean x; ss = foldl (\<lambda>ss v. fadd ss (fmul (fsub v m) (fsub v m))) (Fin 0) x in
       Some (ma_sqrt M (fdiv ss (of_count (length x - 1))))))"

definition CV :: "math_lib \<Rightarrow> float64 list \<Rightarrow> float64 option" where
  "CV M x = (case SampleSD M x of None \<Rightarrow> None
     | Some sd \<Rightarrow> if feq (Mean x) (Fin 0) then None else Some (fdiv sd (fabs (Mean x))))"

text \<open>\<^verbatim>\<open>sort.Float64s\<close>: a NaN comes before every number.\<close>

definition float_before :: "float64 \<Rightarrow> float64 \<Rightarrow> bool" where
  "float_before x y = (flt x y \<or> (IsNaN x \<and> \<not> IsNaN y))"

fun insert_float :: "float64 \<Rightarrow> float64 list \<Rightarrow> float64 list" where
  "insert_float x [] = [x]"
| "insert_float x (y # ys) = (if float_before y x then y # insert_float x ys else x # y # ys)"

definition Float64s :: "float64 list \<Rightarrow> float64 list" where
  "Float64s x = foldr insert_float x []"

text \<open>\<^verbatim>\<open>int(math.Floor(h))\<close> of a finite double.\<close>

definition floor_int :: "float64 \<Rightarrow> int" where
  "floor_int h = \<lfloor>fval h\<rfloor>"

definition Quantile7 :: "float64 list \<Rightarrow> float64 \<Rightarrow> float64 option" where
  "Quantile7 xs p = (let n = length xs in
     if n = 0 then Some NaN
     else (let h = fmul p (of_count (n - 1)); lo = floor_int h in
       if lo \<ge> int n - 1 then Some (last xs)
       else if lo < 0 then None
       else (let a = xs ! nat lo; b = xs ! (nat lo + 1) in
         Some (fadd a (fmul (fsub h (round_f64 (of_int lo))) (fsub b a))))))"

definition Median :: "float64 list \<Rightarrow> float64 option" where
  "Median x = Quantile7 (Float64s x) (Fin (1 / 2))"

definition TrimmedMean :: "float64 list \<Rightarrow> float64 \<Rightarrow> float64 option" where
  "TrimmedMean x trim = (let s = Float64s x; k = floor_int (fmul trim (of_count (length s))) in
     if 2 * k \<ge> int (length s) then Median s
     else if k < 0 then None
     else Some (Mean (take (length s - 2 * nat k) (drop (nat k) s))))"

text \<open>\<open>draw i n\<close> is the \<open>i\<close>th number below \<open>n\<close> the random source gives. \<open>i\<close> counts the calls.\<close>

definition draw_mean :: "(nat \<Rightarrow> nat \<Rightarrow> nat) \<Rightarrow> nat \<Rightarrow> float64 list \<Rightarrow> float64" where
  "draw_mean draw i v = fdiv (fsum (map (\<lambda>j. v ! draw (i + j) (length v)) [0..<length v])) (of_count (length v))"

definition BootstrapDiffCI :: "(nat \<Rightarrow> nat \<Rightarrow> nat) \<Rightarrow> float64 list \<Rightarrow> float64 list \<Rightarrow> nat \<Rightarrow> float64 \<Rightarrow>
    stats_error + float64 \<times> float64 \<times> bool" where
  "BootstrapDiffCI draw x y resamples level =
     (if x = [] \<or> y = [] then Inl NeedsSamples
      else if \<not> checkFinite x \<or> \<not> checkFinite y then Inl ErrNonFinite
      else (let per = length x + length y;
                stats = Float64s (map (\<lambda>i. fsub (draw_mean draw (i * per) x) (draw_mean draw (i * per + length x) y)) [0..<resamples])
            in case (Quantile7 stats (fdiv (fsub (Fin 1) level) (Fin 2)), Quantile7 stats (fdiv (fadd (Fin 1) level) (Fin 2))) of
                 (Some lo, Some hi) \<Rightarrow> Inr (lo, hi, flt (Fin 0) lo \<or> flt hi (Fin 0))
               | _ \<Rightarrow> Inl IndexOutOfRange))"

section \<open>Student's t\<close>

definition lit :: "rat \<Rightarrow> float64" where "lit q = round_f64 q"

definition at_least_tiny :: "float64 \<Rightarrow> float64" where
  "at_least_tiny d = (let tiny = lit (1 / 10 ^ 300) in if flt (fabs d) tiny then tiny else d)"

text \<open>One round of the continued fraction; the flag says whether it has converged.\<close>

definition beta_round :: "float64 \<Rightarrow> float64 \<Rightarrow> float64 \<Rightarrow> nat \<Rightarrow> float64 \<times> float64 \<times> float64 \<Rightarrow> (float64 \<times> float64 \<times> float64) \<times> bool" where
  "beta_round a b x m cdh = (case cdh of (c, d, h) \<Rightarrow>
     (let fm = of_count m; a2m = fadd a (fmul (Fin 2) fm);
          num = fdiv (fmul (fmul fm (fsub b fm)) x) (fmul (fsub a2m (Fin 1)) a2m);
          d = at_least_tiny (fadd (Fin 1) (fmul num d));
          c = at_least_tiny (fadd (Fin 1) (fdiv num c));
          d = fdiv (Fin 1) d;
          h = fmul h (fmul d c);
          num = fdiv (fmul (fmul (fneg (fadd a fm)) (fadd (fadd a b) fm)) x) (fmul a2m (fadd a2m (Fin 1)));
          d = at_least_tiny (fadd (Fin 1) (fmul num d));
          c = at_least_tiny (fadd (Fin 1) (fdiv num c));
          d = fdiv (Fin 1) d;
          del = fmul d c;
          h = fmul h del
      in ((c, d, h), flt (fabs (fsub del (Fin 1))) (lit (1 / 10 ^ 14)))))"

fun beta_rounds :: "float64 \<Rightarrow> float64 \<Rightarrow> float64 \<Rightarrow> nat list \<Rightarrow> float64 \<times> float64 \<times> float64 \<Rightarrow> float64" where
  "beta_rounds a b x [] cdh = snd (snd cdh)"
| "beta_rounds a b x (m # ms) cdh = (case beta_round a b x m cdh of (cdh', fin) \<Rightarrow>
     if fin then snd (snd cdh') else beta_rounds a b x ms cdh')"

definition betaCF :: "float64 \<Rightarrow> float64 \<Rightarrow> float64 \<Rightarrow> float64" where
  "betaCF a b x = (let d = fdiv (Fin 1) (at_least_tiny (fsub (Fin 1) (fdiv (fmul (fadd a b) x) (fadd a (Fin 1))))) in
     beta_rounds a b x [1..<301] (Fin 1, d, d))"

definition regIncBeta :: "math_lib \<Rightarrow> float64 \<Rightarrow> float64 \<Rightarrow> float64 \<Rightarrow> float64" where
  "regIncBeta M a b x =
     (if fle x (Fin 0) then Fin 0
      else if fle (Fin 1) x then Fin 1
      else (let front = ma_exp M (fadd (fadd (fsub (fsub (ma_lgamma M (fadd a b)) (ma_lgamma M a)) (ma_lgamma M b)) (fmul a (ma_log M x)))
                 (fmul b (ma_log M (fsub (Fin 1) x))))
        in if flt x (fdiv (fadd a (Fin 1)) (fadd (fadd a b) (Fin 2))) then fdiv (fmul front (betaCF a b x)) a
           else fsub (Fin 1) (fdiv (fmul front (betaCF b a (fsub (Fin 1) x))) b)))"

definition studentTCDF :: "math_lib \<Rightarrow> float64 \<Rightarrow> float64 \<Rightarrow> float64" where
  "studentTCDF M t df = (let x = fdiv df (fadd df (fmul t t));
       tail = fmul (Fin (1 / 2)) (regIncBeta M (fdiv df (Fin 2)) (Fin (1 / 2)) x) in
     if fle (Fin 0) t then fsub (Fin 1) tail else tail)"

text \<open>The bisection, at most 200 rounds.\<close>

fun bisect_t :: "math_lib \<Rightarrow> nat \<Rightarrow> float64 \<Rightarrow> float64 \<Rightarrow> float64 \<Rightarrow> float64 \<Rightarrow> float64 \<times> float64" where
  "bisect_t M 0 p df lo hi = (lo, hi)"
| "bisect_t M (Suc n) p df lo hi = (let mid = fdiv (fadd lo hi) (Fin 2);
       (lo, hi) = (if flt (studentTCDF M mid df) p then (mid, hi) else (lo, mid)) in
     if flt (fsub hi lo) (lit (1 / 10 ^ 13)) then (lo, hi) else bisect_t M n p df lo hi)"

definition StudentTQuantile :: "math_lib \<Rightarrow> float64 \<Rightarrow> float64 \<Rightarrow> stats_error + float64" where
  "StudentTQuantile M p df =
     (if \<not> (flt (Fin 0) p \<and> flt p (Fin 1)) \<or> \<not> flt (Fin 0) df then Inl BadQuantile
      else (case bisect_t M 200 p df (Fin (-10000)) (Fin 10000) of (lo, hi) \<Rightarrow> Inr (fdiv (fadd lo hi) (Fin 2))))"

definition PredictionInterval :: "math_lib \<Rightarrow> float64 \<Rightarrow> float64 \<Rightarrow> nat \<Rightarrow> float64 \<Rightarrow> stats_error + float64 \<times> float64" where
  "PredictionInterval M mean sd n alpha =
     (if n < 2 then Inl NeedsReplicates
      else (case StudentTQuantile M (fsub (Fin 1) (fdiv alpha (Fin 2))) (of_count (n - 1)) of
          Inl e \<Rightarrow> Inl e
        | Inr t \<Rightarrow> (let w = fmul (fmul t sd) (ma_sqrt M (fadd (Fin 1) (fdiv (Fin 1) (of_count n)))) in
            Inr (fsub mean w, fadd mean w))))"

text \<open>\<^verbatim>\<open>math.Max\<close>.\<close>

definition fmax :: "float64 \<Rightarrow> float64 \<Rightarrow> float64" where
  "fmax x y = (if x = PosInf \<or> y = PosInf then PosInf else if IsNaN x \<or> IsNaN y then NaN
     else if fval x = 0 \<and> fval y = 0 \<and> \<not> IsInf x \<and> \<not> IsInf y then (if signbit x then y else x)
     else if flt y x then x else y)"

definition SplitHalfRelDelta :: "float64 list \<Rightarrow> float64 option" where
  "SplitHalfRelDelta x = (let k = length x in
     if k < 4 then None
     else (let m1 = Mean (take (k div 2) x); m2 = Mean (drop (k - k div 2) x);
               den = fmax (fmax (fabs m1) (fabs m2)) (lit (1 / 10 ^ 9))
           in Some (fdiv (fabs (fsub m2 m1)) den)))"

end
