(* ===== verification/Compare.thy ===== *)
theory Compare
  imports Stats Envelope Go_Regexp
begin

text \<open>
  \<^verbatim>\<open>pkg/compare\<close>: replicate runs into a baseline, and a later run or another node held against it.
  The functions of package \<^verbatim>\<open>math\<close> and the random source are parameters, as in \<^verbatim>\<open>Stats\<close>.
\<close>

datatype Comparison_Outcome =
    Match | Improvement | Regression | NoSignificantDifference | NotComparable
  | InsufficientPrecision | UnusableInput | MissingMetric

datatype Direction = Neutral | HigherIsBetter | LowerIsBetter

definition DirectionOf :: "string \<Rightarrow> Direction" where
  "DirectionOf name = (case Lookup name of
     None \<Rightarrow> Neutral
   | Some m \<Rightarrow> (case metric_aggregation m of AggMin \<Rightarrow> HigherIsBetter | AggMax \<Rightarrow> LowerIsBetter | AggSum \<Rightarrow> LowerIsBetter | _ \<Rightarrow> Neutral))"

definition Key :: "EnvTestResult \<Rightarrow> string \<Rightarrow> string" where
  "Key r name = (let k = er_name r @ ''/'' @ name in
     if er_variant_axes r = [] then k
     else k @ ''['' @ Join (sort_strings (map (\<lambda>(a, v). a @ ''='' @ v) (er_variant_axes r))) '','' @ '']'')"

section \<open>Collecting the runs of a node\<close>

record Observation =
  ob_kind :: string
  ob_values :: "float64 list"
  ob_unusable :: string

record Side =
  sd_node :: string
  sd_fingerprint :: string
  sd_runs :: "string list"
  sd_run_fingerprints :: "string list"
  sd_metrics :: "Observation gomap"
  sd_identity :: "string gomap"

datatype compare_error =
    MoreThanOneNode string string
  | NoFinishedRuns
  | NotOneRun nat
  | FingerprintsDiffer "string list"
  | NothingToPromote
  | StatsFailed stats_error
  | OutOfRange

definition identityMetrics :: "string list" where
  "identityMetrics = [''nvmeSerialDigests'']"

definition terminal_phase :: "string \<Rightarrow> bool" where
  "terminal_phase phase = (phase \<in> set [''Passed'', ''Failed'', ''Error'', ''Cancelled'', ''Skipped''])"

definition finished :: "Envelope \<Rightarrow> bool" where
  "finished e = (ev_reason e = ReasonPhaseChanged \<and> terminal_phase (ev_phase e))"

text \<open>A value as a quantity: a finite number.\<close>

definition quantity :: "string \<Rightarrow> float64 option" where
  "quantity raw = (case ParseFloat (TrimSpace raw) of None \<Rightarrow> None | Some v \<Rightarrow> if IsNaN v \<or> IsInf v then None else Some v)"

definition unclean :: "EnvTestResult \<Rightarrow> bool" where
  "unclean r = (er_phase r = ''Error'' \<or> er_phase r = ''Skipped'')"

definition note_value :: "EnvTestResult \<Rightarrow> float64 \<Rightarrow> Observation option \<Rightarrow> Observation" where
  "note_value r v ob = (let ob = (case ob of Some x \<Rightarrow> x | None \<Rightarrow> \<lparr>ob_kind = er_kind r, ob_values = [], ob_unusable = []\<rparr>) in
     if unclean r then ob\<lparr>ob_unusable := ''the test ended '' @ er_phase r\<rparr>
     else ob\<lparr>ob_unusable := [], ob_values := ob_values ob @ [v]\<rparr>)"

definition collect_metric :: "EnvTestResult \<Rightarrow> string \<times> string \<Rightarrow> Side \<Rightarrow> Side" where
  "collect_metric r mr s = (case mr of (name, raw) \<Rightarrow>
     if name \<in> set identityMetrics
     then (let v = TrimSpace raw in if v = [] then s else s\<lparr>sd_identity := mput name v (sd_identity s)\<rparr>)
     else (case quantity raw of
         None \<Rightarrow> s
       | Some v \<Rightarrow> (let k = Key r name in
           s\<lparr>sd_metrics := mput k (note_value r v (mget (sd_metrics s) k)) (sd_metrics s)\<rparr>)))"

definition collect_result :: "EnvTestResult \<Rightarrow> Side \<Rightarrow> Side" where
  "collect_result r s = fold (collect_metric r) (er_metrics r) s"

fun collect_fingerprints :: "(string \<times> string) list \<Rightarrow> Side \<Rightarrow> compare_error + Side" where
  "collect_fingerprints [] s = Inr s"
| "collect_fingerprints ((node, fp) # fps) s =
     (if sd_node s \<noteq> [] \<and> node \<noteq> sd_node s then Inl (MoreThanOneNode (sd_node s) node)
      else (let s = (if sd_node s = [] then s\<lparr>sd_node := node, sd_fingerprint := fp\<rparr> else s) in
        collect_fingerprints fps (s\<lparr>sd_run_fingerprints := sd_run_fingerprints s @ [fp]\<rparr>)))"

fun collect_envs :: "Envelope list \<Rightarrow> Side \<Rightarrow> compare_error + Side" where
  "collect_envs [] s = Inr s"
| "collect_envs (e # es) s =
     (if \<not> finished e then collect_envs es s
      else (case collect_fingerprints (ev_fingerprint e) s of
          Inl err \<Rightarrow> Inl err
        | Inr s' \<Rightarrow> collect_envs es (fold collect_result (ev_results e) (s'\<lparr>sd_runs := sd_runs s' @ [rr_uid (ev_run e)]\<rparr>))))"

definition empty_side :: Side where
  "empty_side = \<lparr>sd_node = [], sd_fingerprint = [], sd_runs = [], sd_run_fingerprints = [], sd_metrics = [], sd_identity = []\<rparr>"

definition Collect_runs :: "Envelope list \<Rightarrow> compare_error + Side" where
  "Collect_runs envs = (case collect_envs envs empty_side of
     Inl err \<Rightarrow> Inl err
   | Inr s \<Rightarrow> if sd_runs s = [] then Inl NoFinishedRuns else Inr s)"

text \<open>The values two sides have in common of what identifies hardware.\<close>

definition sharedIdentity :: "Side \<Rightarrow> Side \<Rightarrow> string list" where
  "sharedIdentity a b = sort_strings (concat (map (\<lambda>name.
     let of_side = (\<lambda>s. case mget (sd_identity s) name of Some v \<Rightarrow> v | None \<Rightarrow> []); av = of_side a; bv = of_side b in
     if av = [] \<or> bv = [] then []
     else (let seen = map TrimSpace (split_on (CHR '','') av) in
       map (\<lambda>y. name @ '' '' @ y) (filter (\<lambda>y. y \<noteq> [] \<and> y \<in> set seen) (map TrimSpace (split_on (CHR '','') bv))))) identityMetrics))"

section \<open>Fingerprints\<close>

definition fpKey :: re where
  "fpKey = Seqs [Alt TextStart (Cls is_re_space),
     Grp (Seq (Cls is_letter) (Star (Cls (\<lambda>c. is_word_char c \<or> c \<in> set ''./-'')))), Cls (\<lambda>c. c = CHR ''='')]"

fun fields_of :: "string \<Rightarrow> match_span list \<Rightarrow> string gomap \<Rightarrow> string gomap" where
  "fields_of fp [] out = out"
| "fields_of fp (m # ms) out = (case ms_group m of
     None \<Rightarrow> fields_of fp ms out
   | Some (a, b) \<Rightarrow>
       (let stop = (case ms of [] \<Rightarrow> length fp | m' # _ \<Rightarrow> ms_start m') in
        fields_of fp ms (mput (take (b - a) (drop a fp)) (TrimSpace (take (stop - ms_end m) (drop (ms_end m) fp))) out)))"

definition FingerprintFields :: "string \<Rightarrow> string gomap" where
  "FingerprintFields fp = fields_of fp (FindAll fpKey fp) []"

definition differing :: "string gomap \<Rightarrow> string gomap \<Rightarrow> string list" where
  "differing fa fb = sort_strings (
     map fst (filter (\<lambda>(k, v). (case mget fb k of Some w \<Rightarrow> w | None \<Rightarrow> []) \<noteq> v) fa) @
     filter (\<lambda>k. \<not> mhas fa k) (mkeys fb))"

definition DifferingFields :: "string \<Rightarrow> string \<Rightarrow> string list" where
  "DifferingFields a b = differing (FingerprintFields a) (FingerprintFields b)"

section \<open>Baselines\<close>

definition BaselineSchema :: string where "BaselineSchema = ''burnin.glimmer.ai/baseline/v1''"
definition MinReplicates :: nat where "MinReplicates = 5"

record BaselineMetric =
  bm_test :: string
  bm_kind :: string
  bm_metric :: string
  bm_values :: "float64 list"
  bm_n :: nat
  bm_mean :: float64
  bm_sd :: "float64 option"
  bm_cv :: "float64 option"
  bm_enforceable :: bool
  bm_partial :: bool

record Baseline =
  bl_schema :: string
  bl_name :: string
  bl_promoted_at :: timestamp
  bl_producer :: "Producer option"
  bl_node :: string
  bl_fingerprint :: string
  bl_source_runs :: "string list"
  bl_replicates :: nat
  bl_metrics :: "BaselineMetric gomap"

text \<open>The metric of a key: after the test, before the axes.\<close>

definition metricOf :: "string \<Rightarrow> string" where
  "metricOf key = (let m = (case cut_at (CHR ''/'') key of Some (_, b) \<Rightarrow> b | None \<Rightarrow> key) in
     case cut_at (CHR ''['') m of Some (a, _) \<Rightarrow> a | None \<Rightarrow> m)"

definition test_of :: "string \<Rightarrow> string" where
  "test_of key = (case cut_at (CHR ''/'') key of Some (a, _) \<Rightarrow> a | None \<Rightarrow> key)"

definition promote_metric :: "math_lib \<Rightarrow> nat \<Rightarrow> string \<Rightarrow> Observation \<Rightarrow> BaselineMetric" where
  "promote_metric M nruns k ob = (let vs = ob_values ob; n = length vs; cv = CV M vs in
     \<lparr>bm_test = test_of k, bm_kind = ob_kind ob, bm_metric = metricOf k, bm_values = vs, bm_n = n, bm_mean = Mean vs,
      bm_sd = SampleSD M vs, bm_cv = cv, bm_enforceable = (n \<ge> 2 \<and> n \<ge> MinReplicates \<and> cv \<noteq> None), bm_partial = (n < nruns)\<rparr>)"

definition promoted :: "math_lib \<Rightarrow> Side \<Rightarrow> BaselineMetric gomap" where
  "promoted M s = concat (map (\<lambda>k. case mget (sd_metrics s) k of
       Some ob \<Rightarrow> if ob_values ob = [] then [] else [(k, promote_metric M (length (sd_runs s)) k ob)]
     | None \<Rightarrow> []) (sort_strings (mkeys (sd_metrics s))))"

definition Promote :: "math_lib \<Rightarrow> string \<Rightarrow> Side \<Rightarrow> Producer option \<Rightarrow> timestamp \<Rightarrow> compare_error + Baseline" where
  "Promote M name s producer now =
     (case filter (\<lambda>d. d \<noteq> []) (map (DifferingFields (sd_fingerprint s)) (sd_run_fingerprints s)) of
        d # _ \<Rightarrow> Inl (FingerprintsDiffer d)
      | [] \<Rightarrow> (let ms = promoted M s in
          if ms = [] then Inl NothingToPromote
          else Inr \<lparr>bl_schema = BaselineSchema, bl_name = name, bl_promoted_at = now, bl_producer = producer, bl_node = sd_node s,
                   bl_fingerprint = sd_fingerprint s, bl_source_runs = sd_runs s, bl_replicates = length (sd_runs s), bl_metrics = ms\<rparr>))"

section \<open>Comparing\<close>

record Comparison_Result =
  cr_key :: string
  cr_outcome :: Comparison_Outcome
  cr_cause :: string
  cr_current :: "float64 option"
  cr_reference :: "float64 option"
  cr_rel_delta :: "float64 option"
  cr_method :: string
  cr_interval :: "(float64 \<times> float64) option"
  cr_enforced :: bool

record CompareOptions =
  co_tolerance :: "float64 gomap"
  co_default_tolerance :: float64
  co_alpha :: float64
  co_enforce :: bool

definition tolFor :: "CompareOptions \<Rightarrow> string \<Rightarrow> float64" where
  "tolFor opt key = (case mget (co_tolerance opt) (metricOf key) of Some t \<Rightarrow> t | None \<Rightarrow> co_default_tolerance opt)"

definition decide_outcome :: "float64 \<Rightarrow> float64 \<Rightarrow> float64 \<Rightarrow> Direction \<Rightarrow> bool \<Rightarrow> Comparison_Outcome" where
  "decide_outcome x ref tol dir conclusive =
     (let d = fsub x ref; rel = fdiv d (fabs ref) in
      if fle (fabs rel) tol then Match
      else if dir = Neutral \<or> feq d (Fin 0) \<or> \<not> conclusive then NoSignificantDifference
      else if flt d (Fin 0) = (dir = HigherIsBetter) then Regression
      else Improvement)"

definition decide :: "Comparison_Result \<Rightarrow> float64 \<Rightarrow> float64 \<Rightarrow> float64 \<Rightarrow> Direction \<Rightarrow> bool \<Rightarrow> Comparison_Result" where
  "decide r x ref tol dir conclusive =
     r\<lparr>cr_rel_delta := Some (fdiv (fsub x ref) (fabs ref)), cr_outcome := decide_outcome x ref tol dir conclusive\<rparr>"

definition sortResults :: "Comparison_Result list \<Rightarrow> Comparison_Result list" where
  "sortResults rs = sort_key cr_key rs"

definition plain_result :: "string \<Rightarrow> Comparison_Outcome \<Rightarrow> string \<Rightarrow> Comparison_Result" where
  "plain_result key outcome cause = \<lparr>cr_key = key, cr_outcome = outcome, cr_cause = cause, cr_current = None, cr_reference = None,
     cr_rel_delta = None, cr_method = [], cr_interval = None, cr_enforced = False\<rparr>"

definition fp_cause :: "string list \<Rightarrow> string" where
  "fp_cause diff = ''fingerprint differs: '' @ Join diff '', ''"

text \<open>The value of an observation that is read; \<open>None\<close> is an index out of range.\<close>

definition latest :: "Observation \<Rightarrow> float64 option" where
  "latest ob = (if ob_values ob = [] then None else Some (last (ob_values ob)))"

definition absent :: "Observation option \<Rightarrow> bool" where
  "absent ob = (case ob of None \<Rightarrow> True | Some x \<Rightarrow> ob_values x = [] \<and> ob_unusable x = [])"

definition against_one :: "math_lib \<Rightarrow> Side \<Rightarrow> string list \<Rightarrow> CompareOptions \<Rightarrow> string \<times> BaselineMetric \<Rightarrow> compare_error + Comparison_Result" where
  "against_one M cur diff opt kb = (case kb of (key, bm) \<Rightarrow>
     (let r = (plain_result key MissingMetric [])\<lparr>cr_reference := Some (bm_mean bm), cr_method := ''prediction_interval''\<rparr> in
      case mget (sd_metrics cur) key of
        None \<Rightarrow> Inr (r\<lparr>cr_cause := ''present only in the baseline''\<rparr>)
      | Some c \<Rightarrow>
          if absent (Some c) then Inr (r\<lparr>cr_cause := ''present only in the baseline''\<rparr>)
          else if diff \<noteq> [] then Inr (r\<lparr>cr_outcome := NotComparable, cr_cause := fp_cause diff\<rparr>)
          else if ob_unusable c \<noteq> [] then Inr (r\<lparr>cr_outcome := UnusableInput, cr_cause := ob_unusable c\<rparr>)
          else (case latest c of
              None \<Rightarrow> Inl OutOfRange
            | Some x \<Rightarrow>
                (let r = r\<lparr>cr_current := Some x\<rparr> in
                 if feq (bm_mean bm) (Fin 0)
                 then Inr (r\<lparr>cr_outcome := NotComparable, cr_cause := ''zero reference: a relative change from 0 is undefined''\<rparr>)
                 else (case (if bm_n bm < 2 then None else bm_sd bm) of
                     None \<Rightarrow> Inr (r\<lparr>cr_outcome := InsufficientPrecision, cr_cause := ''baseline has '' @ Itoa (int (bm_n bm)) @ '' replicate(s)''\<rparr>)
                   | Some sd \<Rightarrow> (case PredictionInterval M (bm_mean bm) sd (bm_n bm) (co_alpha opt) of
                       Inl err \<Rightarrow> Inl (StatsFailed err)
                     | Inr (lo, hi) \<Rightarrow>
                         (let r = decide (r\<lparr>cr_interval := Some (lo, hi)\<rparr>) x (bm_mean bm) (tolFor opt key) (DirectionOf (bm_metric bm))
                                    (flt x lo \<or> flt hi x)
                          in Inr (r\<lparr>cr_enforced := (cr_outcome r = Regression \<and> bm_enforceable bm \<and> co_enforce opt)\<rparr>))))))))"

fun against_all :: "math_lib \<Rightarrow> Side \<Rightarrow> string list \<Rightarrow> CompareOptions \<Rightarrow> (string \<times> BaselineMetric) list \<Rightarrow> compare_error + Comparison_Result list" where
  "against_all M cur diff opt [] = Inr []"
| "against_all M cur diff opt (kb # kbs) = (case against_one M cur diff opt kb of
     Inl err \<Rightarrow> Inl err
   | Inr r \<Rightarrow> (case against_all M cur diff opt kbs of Inl err \<Rightarrow> Inl err | Inr rs \<Rightarrow> Inr (r # rs)))"

definition fingerprint_diff :: "string \<Rightarrow> string \<Rightarrow> string list" where
  "fingerprint_diff a b = (if a = [] \<or> b = [] then [''(fingerprint absent)''] else DifferingFields a b)"

definition only_here :: "Side \<Rightarrow> Baseline \<Rightarrow> Comparison_Result list" where
  "only_here cur b = concat (map (\<lambda>(key, c). if \<not> mhas (bl_metrics b) key \<and> ob_values c \<noteq> []
     then [(plain_result key MissingMetric ''present only in this run'')\<lparr>cr_current := latest c\<rparr>] else []) (sd_metrics cur))"

definition AgainstBaseline :: "math_lib \<Rightarrow> Side \<Rightarrow> Baseline \<Rightarrow> CompareOptions \<Rightarrow> compare_error + Comparison_Result list" where
  "AgainstBaseline M cur b opt =
     (if length (sd_runs cur) \<noteq> 1 then Inl (NotOneRun (length (sd_runs cur)))
      else (case against_all M cur (fingerprint_diff (sd_fingerprint cur) (bl_fingerprint b)) opt (bl_metrics b) of
          Inl err \<Rightarrow> Inl err
        | Inr rs \<Rightarrow> Inr (sortResults (rs @ only_here cur b))))"

definition symmetry_one :: "(nat \<Rightarrow> nat \<Rightarrow> nat) \<Rightarrow> Side \<Rightarrow> Side \<Rightarrow> CompareOptions \<Rightarrow> string \<Rightarrow> Comparison_Result" where
  "symmetry_one draw left right opt key =
     (let diff = DifferingFields (sd_fingerprint left) (sd_fingerprint right) in
      case (mget (sd_metrics left) key, mget (sd_metrics right) key) of
        (Some l, Some r) \<Rightarrow>
          if absent (Some l) \<or> absent (Some r) then plain_result key MissingMetric ''present on one node only''
          else if diff \<noteq> [] then plain_result key NotComparable (fp_cause diff)
          else if ob_unusable l \<noteq> [] \<or> ob_unusable r \<noteq> []
          then plain_result key UnusableInput (TrimSpace (ob_unusable l @ '' '' @ ob_unusable r))
          else (let x = Mean (ob_values l); ref = Mean (ob_values r);
                    res = (plain_result key NotComparable [])\<lparr>cr_current := Some x, cr_reference := Some ref\<rparr> in
            if feq ref (Fin 0) then res\<lparr>cr_cause := ''zero reference''\<rparr>
            else (let boot = (if length (ob_values l) \<ge> 2 \<and> length (ob_values r) \<ge> 2
                        then BootstrapDiffCI draw (ob_values l) (ob_values r) 10000 (fsub (Fin 1) (co_alpha opt)) else Inl NeedsSamples);
                      (res, conclusive) = (case boot of
                          Inl _ \<Rightarrow> (res\<lparr>cr_method := ''point_only''\<rparr>, True)
                        | Inr (lo, hi, c) \<Rightarrow> (res\<lparr>cr_method := ''bootstrap_diff'', cr_interval := Some (lo, hi)\<rparr>, c))
                  in decide res x ref (tolFor opt key) (DirectionOf (metricOf key)) conclusive))
      | _ \<Rightarrow> plain_result key MissingMetric ''present on one node only'')"

definition identity_result :: "Side \<Rightarrow> Side \<Rightarrow> Comparison_Result list" where
  "identity_result left right = (let shared = sharedIdentity left right in
     if shared \<noteq> [] \<and> sd_node left \<noteq> sd_node right
     then [plain_result ''identity'' NotComparable (''the same hardware appears on both nodes ('' @ Join shared ''; '' @
       ''): a cloned image, or one machine reached under two names'')]
     else [])"

definition Symmetry :: "(nat \<Rightarrow> nat \<Rightarrow> nat) \<Rightarrow> Side \<Rightarrow> Side \<Rightarrow> CompareOptions \<Rightarrow> Comparison_Result list" where
  "Symmetry draw left right opt = sortResults (
     map (symmetry_one draw left right opt) (remdups (mkeys (sd_metrics left) @ mkeys (sd_metrics right))) @ identity_result left right)"

end
