(* ===== verification/Stats_Facts.thy ===== *)
theory Stats_Facts
  imports Stats
begin

text \<open>The bisection for Student's quantile ends and stays in its bracket, whatever the functions it calls return.\<close>

lemma f64_exp_mono: "0 < q \<Longrightarrow> q \<le> r \<Longrightarrow> f64_exp q \<le> f64_exp r"
  using ilog_mono_exp[of r "ilog 2 q"] ilog_bounds(1)[of q 2] by (auto simp: f64_exp_def)

lemma round_mag_le:
  assumes "is_f64 r" "0 < q" "q \<le> r"
  shows "round_mag q \<le> r"
proof -
  have pos: "0 < r" using assms by simp
  then obtain m e where me: "r = of_nat m * 2 powi e" "m < 2 ^ 53" "- 1074 \<le> e" using assms(1) unfolding is_f64_def by auto
  define k where "k = f64_exp q"
  have "k \<le> e" using f64_exp_mono[OF assms(2,3)] f64_exp_le[OF me(1) pos me(2,3)] by (simp add: k_def)
  then have r: "r / 2 powi k = of_int (int m * 2 ^ nat (e - k))" using grid_int[of k e m] me(1) by simp
  have p: "(0::rat) < 2 powi k" by simp
  have "q / 2 powi k \<le> of_int (int m * 2 ^ nat (e - k))" unfolding r[symmetric] using assms(3) p by (intro divide_right_mono) auto
  then have "round_even (q / 2 powi k) \<le> int m * 2 ^ nat (e - k)" by (rule round_even_le)
  then have "of_int (round_even (q / 2 powi k)) * 2 powi k \<le> r / 2 powi k * 2 powi k"
    unfolding r using p by (intro mult_right_mono) (simp_all only: of_int_le_iff less_imp_le)
  then show ?thesis unfolding round_mag_def k_def[symmetric] using p by simp
qed

text \<open>Finite and sized a bound.\<close>

definition sized :: "rat \<Rightarrow> float64 \<Rightarrow> bool" where
  "sized b x = (is_finite x \<and> \<bar>fval x\<bar> \<le> b)"

lemma round_sized:
  assumes "is_f64 b" "\<bar>q\<bar> \<le> b"
  shows "sized b (round_f64 q)"
proof (cases "q = 0")
  case True
  then show ?thesis using assms(2) by (simp add: sized_def round_f64_def is_finite_def)
next
  case False
  then have "round_mag \<bar>q\<bar> \<le> b" using round_mag_le[OF assms(1) _ assms(2)] by simp
  moreover have "0 \<le> round_mag \<bar>q\<bar>" unfolding round_mag_def by (intro mult_nonneg_nonneg) (simp_all add: round_even_nonneg)
  moreover have "b < 2 ^ 1024" using is_f64_bound[OF assms(1)] by simp
  ultimately show ?thesis using False by (auto simp: sized_def round_f64_def Let_def is_finite_def)
qed

lemma sized_cases: "sized b x \<Longrightarrow> x = NegZero \<or> (\<exists>q. x = Fin q \<and> \<bar>q\<bar> \<le> b)"
  by (cases x) (auto simp: sized_def is_finite_def)

lemma fadd_sized:
  assumes "is_f64 b" "is_f64 (2 * b)" "sized b x" "sized b y"
  shows "sized (2 * b) (fadd x y)"
proof -
  have b: "0 \<le> b" using assms(3) by (auto simp: sized_def)
  have "sized (2 * b) (round_f64 (p + q))" if "\<bar>p\<bar> \<le> b" "\<bar>q\<bar> \<le> b" for p q
    by (rule round_sized[OF assms(2)]) (use that in linarith)
  then show ?thesis using sized_cases[OF assms(3)] sized_cases[OF assms(4)] b
    by (auto simp: sized_def is_finite_def)
qed

lemma half_sized:
  assumes "is_f64 b" "sized (2 * b) x"
  shows "sized b (fdiv x (Fin 2))"
proof -
  have "sized b (round_f64 (fval x / 2))" by (rule round_sized[OF assms(1)]) (use assms(2) in \<open>auto simp: sized_def\<close>)
  moreover have "\<not> IsNaN x" "\<not> IsInf x" using assms(2) by (auto simp: sized_def is_finite_def)
  moreover have "0 \<le> b" using assms(2) by (auto simp: sized_def)
  ultimately show ?thesis by (auto simp: fdiv_def Let_def zero_of_def sized_def is_finite_def)
qed

lemma mid_sized: "is_f64 b \<Longrightarrow> is_f64 (2 * b) \<Longrightarrow> sized b lo \<Longrightarrow> sized b hi \<Longrightarrow> sized b (fdiv (fadd lo hi) (Fin 2))"
  by (intro half_sized fadd_sized)

lemma bisect_sized:
  assumes "is_f64 b" "is_f64 (2 * b)"
  shows "sized b lo \<Longrightarrow> sized b hi \<Longrightarrow> bisect_t M n p df lo hi = (l, h) \<Longrightarrow> sized b l \<and> sized b h"
proof (induction n arbitrary: lo hi)
  case (Suc n)
  have m: "sized b (fdiv (fadd lo hi) (Fin 2))" by (rule mid_sized[OF assms Suc.prems(1,2)])
  show ?case
  proof (cases "flt (studentTCDF M (fdiv (fadd lo hi) (Fin 2)) df) p")
    case True
    then show ?thesis using Suc.prems Suc.IH[OF m Suc.prems(2)] m by (auto simp: Let_def split: if_splits)
  next
    case False
    then show ?thesis using Suc.prems Suc.IH[OF Suc.prems(1) m] m by (auto simp: Let_def split: if_splits)
  qed
qed simp

text \<open>
  The quantile is always found and bounded: for a probability strictly between 0 and 1 and positive
  degrees of freedom the search returns a finite number of at most ten thousand in size, whatever the
  library's gamma, exponential and logarithm return; otherwise it is an error.
\<close>

lemma quantile_is_bounded:
  "(\<exists>t. StudentTQuantile M p df = Inr t \<and> sized 10000 t) \<or>
   StudentTQuantile M p df = Inl BadQuantile \<and> \<not> (flt (Fin 0) p \<and> flt p (Fin 1) \<and> flt (Fin 0) df)"
proof (cases "flt (Fin 0) p \<and> flt p (Fin 1) \<and> flt (Fin 0) df")
  case True
  obtain l h where b: "bisect_t M 200 p df (Fin (-10000)) (Fin 10000) = (l, h)" by fastforce
  have f: "is_f64 (10000 :: rat)" "is_f64 (2 * 10000 :: rat)" by (simp_all add: is_f64_numeral)
  have "sized 10000 l \<and> sized 10000 h"
    by (rule bisect_sized[OF f _ _ b]) (simp_all add: sized_def is_finite_def)
  then have "sized 10000 (fdiv (fadd l h) (Fin 2))" using mid_sized[OF f] by blast
  then show ?thesis using True b by (simp add: StudentTQuantile_def)
qed (simp add: StudentTQuantile_def)

lemma fmul_zero: "is_finite x \<Longrightarrow> fmul x (Fin 0) = zero_of (signbit x)"
  by (cases x) (auto simp: fmul_def is_finite_def Let_def)

text \<open>A spread of zero gives an interval that is a point.\<close>

lemma flat_interval:
  assumes "ma_sqrt M = (\<lambda>_. Fin 0)" "2 \<le> n" "flt (Fin 0) (fsub (Fin 1) (fdiv alpha (Fin 2)))"
    "flt (fsub (Fin 1) (fdiv alpha (Fin 2))) (Fin 1)" "flt (Fin 0) (of_count (n - 1))" "round_f64 q = Fin q"
  shows "PredictionInterval M (Fin q) (Fin 0) n alpha = Inr (Fin q, Fin q)"
proof -
  obtain t where t: "StudentTQuantile M (fsub (Fin 1) (fdiv alpha (Fin 2))) (of_count (n - 1)) = Inr t" "sized 10000 t"
    using quantile_is_bounded[of M "fsub (Fin 1) (fdiv alpha (Fin 2))" "of_count (n - 1)"] assms(3-5) by auto
  have "is_finite (zero_of (signbit t))" by (simp add: zero_of_def is_finite_def)
  then have "fmul (fmul t (Fin 0)) (Fin 0) = zero_of (signbit t)"
    using t(2) by (simp add: fmul_zero sized_def) (simp add: zero_of_def)
  moreover have "fsub (Fin q) (zero_of b) = Fin q" "fadd (Fin q) (zero_of b) = Fin q" for b
    using assms(6) by (simp_all add: fsub_def zero_of_def)
  ultimately show ?thesis using t(1) assms(1,2) by (simp add: PredictionInterval_def Let_def)
qed

text \<open>Rounding a given fraction.\<close>

lemma round_even_near: "\<bar>q - of_int m\<bar> < 1 / 2 \<Longrightarrow> round_even q = m"
proof -
  assume a: "\<bar>q - of_int m\<bar> < 1 / 2"
  consider "\<lfloor>q\<rfloor> = m" | "\<lfloor>q\<rfloor> = m - 1" using a by (cases "of_int m \<le> q") (auto simp: floor_eq_iff abs_if split: if_splits)
  then show ?thesis
  proof cases
    case 2
    then have "1 / 2 < q - of_int \<lfloor>q\<rfloor>" using a by (auto simp: abs_if split: if_splits)
    then show ?thesis using 2 by (simp add: round_even_def Let_def)
  qed (use a in \<open>auto simp: round_even_def Let_def\<close>)
qed

lemma round_f64_eval:
  assumes "0 < q" "2 powi l \<le> q" "q < 2 powi (l + 1)" "- 1022 \<le> l" "\<bar>q / 2 powi (l - 52) - of_int m\<bar> < 1 / 2" "0 < m"
    "of_int m * 2 powi (l - 52) < (2 :: rat) ^ 1024"
  shows "round_f64 q = Fin (of_int m * 2 powi (l - 52))"
proof -
  have "f64_exp q = l - 52" using ilog_unique[of q 2 l] assms(1-4) by (simp add: f64_exp_def)
  then have "round_mag q = of_int m * 2 powi (l - 52)" using round_even_near[OF assms(5)] by (simp add: round_mag_def)
  then show ?thesis using assms by (simp add: round_f64_def Let_def)
qed

lemma half_alpha: "flt (Fin 0) (fsub (Fin 1) (fdiv (lit (1 / 20)) (Fin 2)))" "flt (fsub (Fin 1) (fdiv (lit (1 / 20)) (Fin 2))) (Fin 1)"
proof -
  have p: "(2 :: rat) powi (- 57) = 1 / 2 ^ 57" "(2 :: rat) powi (- 58) = 1 / 2 ^ 58" "(2 :: rat) powi (- 53) = 1 / 2 ^ 53" by (simp_all add: power_int_minus field_simps)
  have a: "lit (1 / 20) = Fin (7205759403792794 / 2 ^ 57)"
    unfolding lit_def using round_f64_eval[of "1 / 20" "- 5" 7205759403792794] by (simp add: p power_int_minus)
  have b: "fdiv (lit (1 / 20)) (Fin 2) = Fin (7205759403792794 / 2 ^ 58)"
    unfolding a using round_f64_eval[of "7205759403792794 / 2 ^ 58" "- 6" 7205759403792794] by (simp add: fdiv_def p power_int_minus)
  have c: "fsub (Fin 1) (fdiv (lit (1 / 20)) (Fin 2)) = Fin (8782019273372467 / 2 ^ 53)"
    unfolding b using round_f64_eval[of "1 - 7205759403792794 / 2 ^ 58" "- 1" 8782019273372467] by (simp add: fsub_def p power_int_minus)
  show "flt (Fin 0) (fsub (Fin 1) (fdiv (lit (1 / 20)) (Fin 2)))" "flt (fsub (Fin 1) (fdiv (lit (1 / 20)) (Fin 2))) (Fin 1)"
    unfolding c by simp_all
qed

end
