(* ===== verification/Compare_Facts.thy ===== *)
theory Compare_Facts
  imports Compare Stats_Facts
begin

text \<open>
  What a comparison says: a baseline holds the clean readings of its runs and nothing else, every
  metric gets one outcome, and a regression is never reported without the evidence for it.
\<close>

section \<open>What is collected\<close>

text \<open>The readings of a key in a result, in a run and in all finished runs.\<close>

definition metric_reading :: "EnvTestResult \<Rightarrow> string \<Rightarrow> string \<times> string \<Rightarrow> float64 list" where
  "metric_reading r k mr = (if fst mr \<notin> set identityMetrics \<and> Key r (fst mr) = k \<and> \<not> unclean r
     then (case quantity (snd mr) of Some v \<Rightarrow> [v] | None \<Rightarrow> []) else [])"

definition result_readings :: "string \<Rightarrow> EnvTestResult \<Rightarrow> float64 list" where
  "result_readings k r = concat (map (metric_reading r k) (er_metrics r))"

definition clean_readings :: "string \<Rightarrow> Envelope list \<Rightarrow> float64 list" where
  "clean_readings k envs = concat (map (\<lambda>e. concat (map (result_readings k) (ev_results e))) (filter finished envs))"

definition side_values :: "Side \<Rightarrow> string \<Rightarrow> float64 list" where
  "side_values s k = (case mget (sd_metrics s) k of Some ob \<Rightarrow> ob_values ob | None \<Rightarrow> [])"

lemma collect_metric_values: "side_values (collect_metric r mr s) k = side_values s k @ metric_reading r k mr"
  by (cases mr)
    (auto simp: collect_metric_def side_values_def metric_reading_def note_value_def Let_def mget_put split: option.splits)

lemma collect_result_values: "side_values (collect_result r s) k = side_values s k @ result_readings k r"
proof -
  have "side_values (fold (collect_metric r) ms s) k = side_values s k @ concat (map (metric_reading r k) ms)" for ms
    by (induction ms arbitrary: s) (simp_all add: collect_metric_values)
  then show ?thesis by (simp add: collect_result_def result_readings_def)
qed

lemma collect_results_values: "side_values (fold collect_result rs s) k = side_values s k @ concat (map (result_readings k) rs)"
  by (induction rs arbitrary: s) (simp_all add: collect_result_values)

lemma collect_fingerprints_metrics: "collect_fingerprints fps s = Inr s' \<Longrightarrow> sd_metrics s' = sd_metrics s"
  by (induction fps s rule: collect_fingerprints.induct) (auto simp: Let_def split: if_splits)

lemma collect_envs_values: "collect_envs es s = Inr s' \<Longrightarrow> side_values s' k = side_values s k @ clean_readings k es"
proof (induction es s rule: collect_envs.induct)
  case (2 e es s)
  show ?case
  proof (cases "finished e")
    case True
    then obtain s1 where f: "collect_fingerprints (ev_fingerprint e) s = Inr s1" using 2(3) by (auto split: sum.splits)
    then have "side_values (s1\<lparr>sd_runs := sd_runs s1 @ [rr_uid (ev_run e)]\<rparr>) k = side_values s k"
      using collect_fingerprints_metrics[OF f] by (simp add: side_values_def)
    then show ?thesis using 2(2)[OF _ f] 2(3) True f by (simp add: collect_results_values clean_readings_def)
  next
    case False
    then show ?thesis using 2(1) 2(3) by (simp add: clean_readings_def)
  qed
qed (simp add: clean_readings_def)

lemma Collect_values: "Collect_runs envs = Inr s \<Longrightarrow> side_values s k = clean_readings k envs"
  using collect_envs_values[of envs empty_side s k]
  by (auto simp: Collect_runs_def side_values_def empty_side_def split: sum.splits if_splits)

lemma promoted_metric:
  assumes "(k, m) \<in> set (promoted M s)"
  shows "\<exists>ob. mget (sd_metrics s) k = Some ob \<and> ob_values ob \<noteq> [] \<and> m = promote_metric M (length (sd_runs s)) k ob"
  using assms by (auto simp: promoted_def split: option.splits if_splits) (metis)

text \<open>
  C39. A baseline is the clean readings of its runs: the values of a promoted metric are the finite
  readings of it, in order, in the tests of the finished runs that ended neither in Error nor
  Skipped, and nothing else. Its centre is their mean, and it is enforceable only when there are at
  least five of them.
\<close>

theorem baseline_is_the_clean_readings:
  assumes "Collect_runs envs = Inr s" "Promote M name s producer now = Inr b" "(k, m) \<in> set (bl_metrics b)"
  shows "bm_values m = clean_readings k envs \<and> clean_readings k envs \<noteq> [] \<and> bm_mean m = Mean (clean_readings k envs) \<and>
    (bm_enforceable m \<longrightarrow> 5 \<le> length (clean_readings k envs))"
proof -
  have "(k, m) \<in> set (promoted M s)" using assms(2,3) by (auto simp: Promote_def Let_def split: list.splits if_splits)
  then obtain ob where "mget (sd_metrics s) k = Some ob" "ob_values ob \<noteq> []" "m = promote_metric M (length (sd_runs s)) k ob"
    using promoted_metric by blast
  then show ?thesis using Collect_values[OF assms(1), of k]
    by (simp add: side_values_def promote_metric_def Let_def MinReplicates_def)
qed

section \<open>Outcomes\<close>

lemma present_value: "\<not> absent (Some c) \<Longrightarrow> ob_unusable c = [] \<Longrightarrow> latest c = Some (last (ob_values c)) \<and> ob_values c \<noteq> []"
  by (auto simp: absent_def latest_def)


lemma against_one_key: "against_one M cur diff opt (k, bm) = Inr r \<Longrightarrow> cr_key r = k"
  by (auto simp: against_one_def Let_def plain_result_def decide_def split: option.splits sum.splits prod.splits if_splits)





text \<open>What a regression rests on.\<close>

definition moved_against :: "Direction \<Rightarrow> float64 \<Rightarrow> float64 \<Rightarrow> bool" where
  "moved_against dir x ref = (let d = fsub x ref in
     \<not> feq d (Fin 0) \<and> (dir = HigherIsBetter \<and> flt d (Fin 0) \<or> dir = LowerIsBetter \<and> \<not> flt d (Fin 0)))"

lemma decide_regression:
  "decide_outcome x ref tol dir conclusive = Regression \<longleftrightarrow>
     \<not> fle (fabs (fdiv (fsub x ref) (fabs ref))) tol \<and> conclusive \<and> moved_against dir x ref"
  by (cases dir) (auto simp: decide_outcome_def moved_against_def Let_def)

definition regression_evidence :: "math_lib \<Rightarrow> Side \<Rightarrow> Baseline \<Rightarrow> CompareOptions \<Rightarrow> Comparison_Result \<Rightarrow> BaselineMetric \<Rightarrow> Observation \<Rightarrow> bool" where
  "regression_evidence M cur b opt r bm c = (let x = last (ob_values c) in
     fingerprint_diff (sd_fingerprint cur) (bl_fingerprint b) = [] \<and> ob_unusable c = [] \<and> ob_values c \<noteq> [] \<and>
     2 \<le> bm_n bm \<and> \<not> feq (bm_mean bm) (Fin 0) \<and>
     (\<exists>sd lo hi. bm_sd bm = Some sd \<and> PredictionInterval M (bm_mean bm) sd (bm_n bm) (co_alpha opt) = Inr (lo, hi) \<and> (flt x lo \<or> flt hi x)) \<and>
     \<not> fle (fabs (fdiv (fsub x (bm_mean bm)) (fabs (bm_mean bm)))) (tolFor opt (cr_key r)) \<and>
     moved_against (DirectionOf (bm_metric bm)) x (bm_mean bm))"

lemma against_one_regression:
  assumes "against_one M cur (fingerprint_diff (sd_fingerprint cur) (bl_fingerprint b)) opt (k, bm) = Inr r" "cr_outcome r = Regression"
  shows "\<exists>c. mget (sd_metrics cur) k = Some c \<and> regression_evidence M cur b opt r bm c"
proof -
  obtain c where c: "mget (sd_metrics cur) k = Some c" "\<not> absent (Some c)" "fingerprint_diff (sd_fingerprint cur) (bl_fingerprint b) = []"
      "ob_unusable c = []"
    using assms by (auto simp: against_one_def Let_def plain_result_def split: option.splits if_splits)
  note p = present_value[OF c(2,4)]
  have n: "\<not> feq (bm_mean bm) (Fin 0)" "2 \<le> bm_n bm" "bm_sd bm \<noteq> None"
    using assms c p by (auto simp: against_one_def Let_def plain_result_def split: if_splits option.splits)
  then obtain sd lo hi where i: "bm_sd bm = Some sd" "PredictionInterval M (bm_mean bm) sd (bm_n bm) (co_alpha opt) = Inr (lo, hi)"
    using assms c p by (auto simp: against_one_def Let_def split: sum.splits prod.splits)
  have "cr_key r = k" by (rule against_one_key[OF assms(1)])
  moreover have "decide_outcome (last (ob_values c)) (bm_mean bm) (tolFor opt k) (DirectionOf (bm_metric bm))
      (flt (last (ob_values c)) lo \<or> flt hi (last (ob_values c))) = Regression"
    using assms c p n i by (auto simp: against_one_def Let_def decide_def)
  ultimately show ?thesis using c n i p by (auto simp: regression_evidence_def Let_def decide_regression)
qed

lemma against_all_in: "against_all M cur diff opt kbs = Inr rs \<Longrightarrow> r \<in> set rs \<Longrightarrow> \<exists>kb \<in> set kbs. against_one M cur diff opt kb = Inr r"
proof (induction kbs arbitrary: rs)
  case (Cons kb kbs)
  then show ?case by (auto split: sum.splits)
qed simp

lemma AgainstBaseline_in:
  assumes "AgainstBaseline M cur b opt = Inr rs" "r \<in> set rs" "r \<notin> set (only_here cur b)"
  shows "\<exists>k bm. (k, bm) \<in> set (bl_metrics b) \<and> against_one M cur (fingerprint_diff (sd_fingerprint cur) (bl_fingerprint b)) opt (k, bm) = Inr r"
proof -
  obtain rs0 where all: "against_all M cur (fingerprint_diff (sd_fingerprint cur) (bl_fingerprint b)) opt (bl_metrics b) = Inr rs0"
    and rs: "rs = sortResults (rs0 @ only_here cur b)"
    using assms(1) by (auto simp: AgainstBaseline_def split: sum.splits if_splits)
  have "r \<in> set rs0" using assms(2,3) by (simp add: rs sortResults_def)
  then show ?thesis using against_all_in[OF all] by (metis surj_pair)
qed

text \<open>
  No regression without evidence: a metric is reported as regressed only when the run and the
  baseline carry the same fingerprint, the run measured it cleanly, the baseline has at least two
  replicates and a mean other than zero, and the reading is outside the baseline's prediction interval,
  beyond the tolerance, and on the worse side.
\<close>

theorem no_regression_without_evidence:
  assumes "AgainstBaseline M cur b opt = Inr rs" "r \<in> set rs" "cr_outcome r = Regression"
  shows "\<exists>bm c. (cr_key r, bm) \<in> set (bl_metrics b) \<and> mget (sd_metrics cur) (cr_key r) = Some c \<and> regression_evidence M cur b opt r bm c"
proof -
  have "r \<notin> set (only_here cur b)" using assms(3) by (auto simp: only_here_def plain_result_def split: if_splits)
  from AgainstBaseline_in[OF assms(1,2) this] show ?thesis
    using against_one_regression[OF _ assms(3)] against_one_key by blast
qed

section \<open>Examples\<close>

definition temp_result :: "string \<Rightarrow> EnvTestResult" where
  "temp_result raw = \<lparr>er_name = ''t'', er_kind = ''gemm'', er_scope = ''Node'', er_phase = ''Passed'', er_nodes = [''n''], er_started_at = None,
     er_finished_at = None, er_metrics = [(''gpuTempC'', raw)], er_message = Text [], er_violations = [], er_not_evaluated = [], er_applied = [],
     er_unmeasurable = [], er_artifacts = [], er_variant_axes = [], er_segments = None\<rparr>"

definition temp_envelope :: "string \<Rightarrow> Envelope" where
  "temp_envelope raw = \<lparr>ev_version = Version, ev_baseline = False, ev_delivery_id = [], ev_reason = ReasonPhaseChanged, ev_sent_at = None,
     ev_run = \<lparr>rr_namespace = ''d'', rr_name = ''r'', rr_uid = ''u'', rr_profile = ''p''\<rparr>, ev_producer = None, ev_cluster = None,
     ev_phase = ''Passed'', ev_cancel_reason = [], ev_checkpoint_sequence = 0, ev_fingerprint = [(''n'', ''kernel=6'')],
     ev_results = [temp_result raw], ev_summary = \<lparr>su_passed = 1, su_failed = 0, su_errored = 0, su_skipped = 0\<rparr>, ev_progress = None\<rparr>"

definition temp_side :: "nat \<Rightarrow> float64 \<Rightarrow> Side" where
  "temp_side n x = \<lparr>sd_node = ''n'', sd_fingerprint = ''kernel=6'', sd_runs = replicate n ''u'', sd_run_fingerprints = replicate n ''kernel=6'',
     sd_metrics = [(''t/gpuTempC'', \<lparr>ob_kind = ''gemm'', ob_values = replicate n x, ob_unusable = []\<rparr>)], sd_identity = []\<rparr>"

lemma quantity_nat: "s = show_nat n \<Longrightarrow> n < 2 ^ 53 \<Longrightarrow> s \<noteq> [] \<Longrightarrow> graphic (hd s) \<and> graphic (last s) \<Longrightarrow> quantity s = Some (Fin (of_nat n))"
  using ParseFloat_nat[of s n] TrimSpace_graphic[of s] by (simp add: quantity_def)

lemma sixty_ninety: "quantity ''60'' = Some (Fin 60)" "quantity ''90'' = Some (Fin 90)"
proof -
  have s: "''60'' = show_nat 60" and n: "''90'' = show_nat 90" by code_simp+
  have g: "graphic (CHR ''6'')" "graphic (CHR ''9'')" "graphic (CHR ''0'')" by (simp_all add: graphic_def)
  show "quantity ''60'' = Some (Fin 60)" using quantity_nat[OF s] g by simp
  show "quantity ''90'' = Some (Fin 90)" using quantity_nat[OF n] g by simp
qed

lemma temp_finished: "finished (temp_envelope raw)"
  by (simp add: finished_def temp_envelope_def terminal_phase_def)

lemma temp_collected:
  "quantity raw = Some x \<Longrightarrow> Collect_runs [temp_envelope raw] = Inr (temp_side 1 x)"
  "quantity raw = Some x \<Longrightarrow> Collect_runs (replicate 5 (temp_envelope raw)) = Inr (temp_side 5 x)"
  by (simp_all add: Collect_runs_def finished_def terminal_phase_def temp_envelope_def temp_result_def empty_side_def collect_result_def collect_metric_def identityMetrics_def Key_def
      note_value_def unclean_def mput_def mget_def temp_side_def eval_nat_numeral)

lemma wf_fields_of: "wf_map out \<Longrightarrow> wf_map (fields_of fp ms out)"
  by (induction fp ms out rule: fields_of.induct) (auto simp: Let_def split: option.splits prod.splits)

lemma DifferingFields_refl: "DifferingFields a a = []"
proof -
  have "wf_map (FingerprintFields a)" unfolding FingerprintFields_def by (rule wf_fields_of) simp
  then have "filter (\<lambda>(k, v). (case mget (FingerprintFields a) k of Some w \<Rightarrow> w | None \<Rightarrow> []) \<noteq> v) (FingerprintFields a) = []"
    by (auto simp: filter_empty_conv mget_def wf_map_def)
  moreover have "filter (\<lambda>k. \<not> mhas (FingerprintFields a) k) (mkeys (FingerprintFields a)) = []"
    by (simp add: filter_empty_conv mhas_iff_key)
  ultimately show ?thesis by (simp only: DifferingFields_def differing_def sort_strings_def) simp
qed

definition plain_math :: math_lib where
  "plain_math = \<lparr>ma_sqrt = \<lambda>_. Fin 0, ma_exp = \<lambda>x. x, ma_log = \<lambda>x. x, ma_lgamma = \<lambda>x. x\<rparr>"

lemma temp_mean: "Mean (replicate 5 (Fin 60)) = Fin 60"
  by (simp add: Mean_def fsum_def eval_nat_numeral of_count_def fdiv_def)

definition temp_metric :: BaselineMetric where
  "temp_metric = \<lparr>bm_test = ''t'', bm_kind = ''gemm'', bm_metric = ''gpuTempC'', bm_values = replicate 5 (Fin 60), bm_n = 5, bm_mean = Fin 60,
     bm_sd = Some (Fin 0), bm_cv = Some (Fin 0), bm_enforceable = True, bm_partial = False\<rparr>"

definition temp_baseline :: Baseline where
  "temp_baseline = \<lparr>bl_schema = BaselineSchema, bl_name = ''b'', bl_promoted_at = 0, bl_producer = None, bl_node = ''n'',
     bl_fingerprint = ''kernel=6'', bl_source_runs = replicate 5 ''u'', bl_replicates = 5, bl_metrics = [(''t/gpuTempC'', temp_metric)]\<rparr>"

definition temp_options :: CompareOptions where
  "temp_options = \<lparr>co_tolerance = [], co_default_tolerance = Fin 0, co_alpha = lit (1 / 20), co_enforce = True\<rparr>"

lemma temp_promote_metric:
  "promote_metric plain_math 5 ''t/gpuTempC'' \<lparr>ob_kind = ''gemm'', ob_values = replicate 5 (Fin 60), ob_unusable = []\<rparr> = temp_metric"
  by (simp add: promote_metric_def Let_def temp_metric_def temp_mean CV_def SampleSD_def plain_math_def test_of_def metricOf_def MinReplicates_def
      fdiv_def fabs_def zero_of_def feq_def)

lemma temp_promoted: "Promote plain_math ''b'' (temp_side 5 (Fin 60)) None 0 = Inr temp_baseline"
proof -
  have "promoted plain_math (temp_side 5 (Fin 60)) = [(''t/gpuTempC'', temp_metric)]"
    using temp_promote_metric by (simp add: promoted_def temp_side_def mkeys_def mget_def sort_strings_def)
  then show ?thesis by (simp add: Promote_def temp_side_def DifferingFields_refl temp_baseline_def eval_nat_numeral)
qed

lemma half_exact: "round_f64 (1 / 2) = Fin (1 / 2)"
  by (rule round_f64_exact) (unfold is_f64_def, rule exI[of _ 1], rule exI[of _ "- 1"], simp)

lemma temp_regression:
  "AgainstBaseline plain_math (temp_side 1 (Fin 90)) temp_baseline temp_options = Inr [\<lparr>cr_key = ''t/gpuTempC'', cr_outcome = Regression, cr_cause = [],
     cr_current = Some (Fin 90), cr_reference = Some (Fin 60), cr_rel_delta = Some (Fin (1 / 2)), cr_method = ''prediction_interval'',
     cr_interval = Some (Fin 60, Fin 60), cr_enforced = True\<rparr>]"
proof -
  have i: "PredictionInterval plain_math (Fin 60) (Fin 0) 5 (lit (1 / 20)) = Inr (Fin 60, Fin 60)"
    by (rule flat_interval) (use half_alpha in \<open>simp_all add: plain_math_def of_count_def\<close>)
  have d: "fingerprint_diff (sd_fingerprint (temp_side 1 (Fin 90))) (bl_fingerprint temp_baseline) = []"
    by (simp add: fingerprint_diff_def temp_side_def temp_baseline_def DifferingFields_refl)
  have r: "fdiv (fsub (Fin 90) (Fin 60)) (fabs (Fin 60)) = Fin (1 / 2)" by (simp add: fsub_def fabs_def fdiv_def half_exact)
  have dir: "DirectionOf ''gpuTempC'' = LowerIsBetter"
    using gpuTempC_agg by (simp add: DirectionOf_def AggregationFor_def split: option.splits)
  have dec: "decide_outcome (Fin 90) (Fin 60) (Fin 0) LowerIsBetter True = Regression"
    unfolding decide_outcome_def Let_def r by (simp add: fabs_def fsub_def fle_def feq_def)
  have one: "against_one plain_math (temp_side 1 (Fin 90)) [] temp_options (''t/gpuTempC'', temp_metric) = Inr \<lparr>cr_key = ''t/gpuTempC'',
     cr_outcome = Regression, cr_cause = [], cr_current = Some (Fin 90), cr_reference = Some (Fin 60), cr_rel_delta = Some (Fin (1 / 2)),
     cr_method = ''prediction_interval'', cr_interval = Some (Fin 60, Fin 60), cr_enforced = True\<rparr>"
    by (simp add: against_one_def Let_def temp_side_def mget_def temp_metric_def absent_def latest_def plain_result_def temp_options_def i
        decide_def r dec dir tolFor_def feq_def)
  define s where "s = temp_side 1 (Fin 90)"
  have "length (sd_runs s) = 1" "only_here s temp_baseline = []" "bl_metrics temp_baseline = [(''t/gpuTempC'', temp_metric)]"
    by (simp_all add: s_def temp_side_def temp_baseline_def only_here_def mhas_def mget_def)
  then show ?thesis using d one unfolding AgainstBaseline_def s_def[symmetric] by (simp add: sortResults_def)
qed
theorem baseline_is_the_clean_readings_witness:
  "Collect_runs (replicate 5 (temp_envelope ''60'')) = Inr (temp_side 5 (Fin 60)) \<and> (''t/gpuTempC'', temp_metric) \<in> set (bl_metrics temp_baseline) \<and>
   bm_values temp_metric = clean_readings ''t/gpuTempC'' (replicate 5 (temp_envelope ''60''))"
proof -
  have c: "Collect_runs (replicate 5 (temp_envelope ''60'')) = Inr (temp_side 5 (Fin 60))" using temp_collected(2) sixty_ninety(1) by blast
  have m: "(''t/gpuTempC'', temp_metric) \<in> set (bl_metrics temp_baseline)" by (simp add: temp_baseline_def)
  from baseline_is_the_clean_readings[OF c temp_promoted m] show ?thesis using c m by blast
qed


section \<open>Where replicates and fields are not what they seem\<close>

text \<open>
  The same finished run given five times counts as five replicates: nothing compares the runs'
  identifiers, and the metric becomes enforceable with a spread of zero.
\<close>

lemma one_run_is_promoted_to_enforceable:
  "\<exists>s b m. Collect_runs (replicate 5 (temp_envelope ''60'')) = Inr s \<and> sd_runs s = replicate 5 ''u'' \<and>
     Promote plain_math ''b'' s None 0 = Inr b \<and> bl_metrics b = [(''t/gpuTempC'', m)] \<and> bm_enforceable m"
  using temp_collected(2)[OF sixty_ninety(1)] temp_promoted
  by (intro exI[of _ "temp_side 5 (Fin 60)"] exI[of _ temp_baseline] exI[of _ temp_metric])
    (simp add: temp_side_def temp_baseline_def temp_metric_def)

text \<open>A field that is present and empty on one side only is a difference in one direction and none in the other.\<close>

lemma DifferingFields_is_not_symmetric:
  "DifferingFields ''driver= kernel=6'' ''kernel=6'' = [] \<and> DifferingFields ''kernel=6'' ''driver= kernel=6'' = [''driver'']"
  by code_simp

end
