(* ===== verification/Compare_Command.thy ===== *)
theory Compare_Command
  imports Compare_Facts Sanitize_Dir
begin

text \<open>
  \<^verbatim>\<open>cmd/burnin/compare.go\<close>: \<^verbatim>\<open>burnin baseline promote\<close> and \<^verbatim>\<open>burnin compare\<close>. The flags come parsed. The
  decoders of the JSON package are parameters, as are the text a link that is read leads to and whether it
  leads to a directory.
\<close>

section \<open>Exit codes\<close>

definition exitPass :: nat where "exitPass = 0"
definition exitFail :: nat where "exitFail = 1"
definition exitNothingJudged :: nat where "exitNothingJudged = 2"
definition exitError :: nat where "exitError = 3"

section \<open>Reading the runs of a side\<close>

record file_lib =
  fl_envelope :: "string \<Rightarrow> Envelope option"
  fl_baseline :: "string \<Rightarrow> Baseline option"
  fl_follow :: "string \<Rightarrow> string option"
  fl_to_dir :: "string \<Rightarrow> bool"

text \<open>A results directory that exists, with its entries and those of the directory above it.\<close>

record results_dir =
  rd_entries :: "(string \<times> entry) list"
  rd_above :: "(string \<times> entry) list"

datatype load_error =
    SanitisedResult
  | UnreadableFile string
  | NotAnEnvelope string
  | CollectFailed compare_error

fun read_envelopes :: "file_lib \<Rightarrow> string \<Rightarrow> entry \<Rightarrow> load_error + Envelope list"
  and read_all :: "file_lib \<Rightarrow> (string \<times> entry) list \<Rightarrow> load_error + Envelope list" where
  "read_envelopes F n (Folder es) = read_all F es"
| "read_envelopes F n (Regular c) = (if \<not> HasSuffix n ''.json'' then Inr []
     else (case fl_envelope F c of None \<Rightarrow> Inl (NotAnEnvelope n) | Some e \<Rightarrow> Inr [e]))"
| "read_envelopes F n (Special kind) = (if \<not> HasSuffix n ''.json'' then Inr []
     else (case fl_follow F kind of
         None \<Rightarrow> Inl (UnreadableFile n)
       | Some c \<Rightarrow> (case fl_envelope F c of None \<Rightarrow> Inl (NotAnEnvelope n) | Some e \<Rightarrow> Inr [e])))"
| "read_all F [] = Inr []"
| "read_all F ((n, e) # es) = (case read_envelopes F n e of
     Inl err \<Rightarrow> Inl err
   | Inr envs \<Rightarrow> (case read_all F es of Inl err \<Rightarrow> Inl err | Inr rest \<Rightarrow> Inr (envs @ rest)))"

text \<open>The walk does not enter a link that it starts at.\<close>

definition envelope_root :: "file_lib \<Rightarrow> (string \<times> entry) list \<Rightarrow> (string \<times> entry) list" where
  "envelope_root F dir = (case map_of dir ''envelopes'' of
     Some (Folder es) \<Rightarrow> es
   | Some (Special kind) \<Rightarrow> if fl_to_dir F kind then [] else dir
   | _ \<Rightarrow> dir)"

fun load_envelopes :: "file_lib \<Rightarrow> results_dir list \<Rightarrow> load_error + Envelope list" where
  "load_envelopes F [] = Inr []"
| "load_envelopes F (d # ds) =
     (if isSanitized (rd_entries d) \<or> isSanitized (rd_above d) then Inl SanitisedResult
      else (case read_all F (envelope_root F (rd_entries d)) of
          Inl err \<Rightarrow> Inl err
        | Inr envs \<Rightarrow> (case load_envelopes F ds of Inl err \<Rightarrow> Inl err | Inr rest \<Rightarrow> Inr (envs @ rest))))"

definition loadSide :: "file_lib \<Rightarrow> results_dir list \<Rightarrow> load_error + Side" where
  "loadSide F dirs = (case load_envelopes F dirs of
     Inl err \<Rightarrow> Inl err
   | Inr envs \<Rightarrow> (case Collect_runs envs of Inl err \<Rightarrow> Inl (CollectFailed err) | Inr s \<Rightarrow> Inr s))"

section \<open>The commands\<close>

record promote_args =
  pa_dirs :: "results_dir list"
  pa_name :: string
  pa_out :: string

text \<open>The exit code and the baseline file that is written, if one is. \<open>out_exists\<close> and \<open>write_ok\<close> are what the file system says of \<^verbatim>\<open>--out\<close>.\<close>

definition runBaseline :: "math_lib \<Rightarrow> file_lib \<Rightarrow> Producer option \<Rightarrow> timestamp \<Rightarrow> bool \<Rightarrow> bool \<Rightarrow> promote_args \<Rightarrow> nat \<times> Baseline option" where
  "runBaseline M F producer now out_exists write_ok a =
     (if pa_dirs a = [] \<or> pa_name a = [] \<or> pa_out a = [] then (exitError, None)
      else (case loadSide F (pa_dirs a) of
          Inl _ \<Rightarrow> (exitError, None)
        | Inr side \<Rightarrow> (case Promote M (pa_name a) side producer now of
            Inl _ \<Rightarrow> (exitError, None)
          | Inr b \<Rightarrow> if out_exists \<or> \<not> write_ok then (exitError, None) else (exitPass, Some b))))"

record compare_args =
  ca_dirs :: "results_dir list"
  ca_peers :: "results_dir list"
  ca_baseline_file :: string
  ca_tolerance :: float64
  ca_tolerance_for :: "string list"
  ca_enforce :: bool

fun tolerances :: "string list \<Rightarrow> float64 gomap \<Rightarrow> float64 gomap option" where
  "tolerances [] m = Some m"
| "tolerances (kv # kvs) m = (case cut_at (CHR ''='') kv of
     None \<Rightarrow> None
   | Some (k, v) \<Rightarrow> (case ParseFloat v of
       None \<Rightarrow> None
     | Some f \<Rightarrow> if flt f (Fin 0) then None else tolerances kvs (mput k f m)))"

definition compare_options :: "compare_args \<Rightarrow> float64 gomap \<Rightarrow> CompareOptions" where
  "compare_options a tol = \<lparr>co_tolerance = tol, co_default_tolerance = ca_tolerance a, co_alpha = lit (1 / 20), co_enforce = ca_enforce a\<rparr>"

text \<open>The baseline file: what it holds, or \<open>None\<close> when it cannot be read.\<close>

definition compare_results :: "math_lib \<Rightarrow> (nat \<Rightarrow> nat \<Rightarrow> nat) \<Rightarrow> file_lib \<Rightarrow> string option \<Rightarrow> compare_args \<Rightarrow> float64 gomap \<Rightarrow>
    Comparison_Result list option" where
  "compare_results M draw F baseline_text a tol = (case loadSide F (ca_dirs a) of
     Inl _ \<Rightarrow> None
   | Inr cur \<Rightarrow>
       if ca_baseline_file a \<noteq> [] then
         (case baseline_text of None \<Rightarrow> None | Some src \<Rightarrow> (case fl_baseline F src of
            None \<Rightarrow> None
          | Some b \<Rightarrow> if bl_schema b \<noteq> BaselineSchema then None
              else (case AgainstBaseline M cur b (compare_options a tol) of Inl _ \<Rightarrow> None | Inr rs \<Rightarrow> Some rs)))
       else (case loadSide F (ca_peers a) of
           Inl _ \<Rightarrow> None
         | Inr peer \<Rightarrow> Some (Symmetry draw cur peer (compare_options a tol))))"

definition runCompare :: "math_lib \<Rightarrow> (nat \<Rightarrow> nat \<Rightarrow> nat) \<Rightarrow> file_lib \<Rightarrow> string option \<Rightarrow> compare_args \<Rightarrow> nat \<times> Comparison_Result list" where
  "runCompare M draw F baseline_text a =
     (if ca_dirs a = [] \<or> (ca_baseline_file a = []) = (ca_peers a = []) then (exitError, [])
      else (case tolerances (ca_tolerance_for a) [] of
          None \<Rightarrow> (exitError, [])
        | Some tol \<Rightarrow> (case compare_results M draw F baseline_text a tol of
            None \<Rightarrow> (exitError, [])
          | Some rs \<Rightarrow> (if list_ex cr_enforced rs then exitFail else exitPass, rs))))"

section \<open>What the exit code says\<close>

lemma decide_enforced: "cr_enforced (decide r x ref tol dir c) = cr_enforced r"
  by (simp add: decide_def)

lemma symmetry_one_enforced: "\<not> cr_enforced (symmetry_one draw l r opt k)"
  by (auto simp: symmetry_one_def plain_result_def Let_def decide_enforced split: option.splits sum.splits prod.splits)

lemma Symmetry_enforces_nothing: "\<not> list_ex cr_enforced (Symmetry draw l r opt)"
  by (auto simp: Symmetry_def sortResults_def list_ex_iff symmetry_one_enforced identity_result_def plain_result_def Let_def split: if_splits)

lemma against_one_enforced:
  "against_one M cur diff opt (k, bm) = Inr r \<Longrightarrow> cr_enforced r \<Longrightarrow> cr_outcome r = Regression \<and> bm_enforceable bm \<and> co_enforce opt"
  by (auto simp: against_one_def Let_def plain_result_def decide_enforced split: option.splits if_splits sum.splits prod.splits)

lemma AgainstBaseline_enforced:
  assumes "AgainstBaseline M cur b opt = Inr rs" "r \<in> set rs" "cr_enforced r"
  shows "\<exists>k bm c. (k, bm) \<in> set (bl_metrics b) \<and> bm_enforceable bm \<and> co_enforce opt \<and> mget (sd_metrics cur) k = Some c \<and>
    regression_evidence M cur b opt r bm c"
proof -
  have "r \<notin> set (only_here cur b)" using assms(3) by (auto simp: only_here_def plain_result_def split: if_splits)
  from AgainstBaseline_in[OF assms(1,2) this] show ?thesis
    using against_one_enforced[OF _ assms(3)] against_one_regression by blast
qed

lemma sanitised_is_not_loaded:
  "d \<in> set dirs \<Longrightarrow> isSanitized (rd_entries d) \<or> isSanitized (rd_above d) \<Longrightarrow> \<exists>err. load_envelopes F dirs = Inl err"
proof (induction F dirs rule: load_envelopes.induct)
  case (2 F d' ds)
  then show ?case by (auto split: sum.splits) (metis Inr_not_Inl)+
qed simp

text \<open>
  C38. The exit code of a comparison is a claim about evidence: 1 only when the run was held against a
  promoted baseline with \<^verbatim>\<open>--enforce\<close> and an enforceable metric of it regressed, with the evidence for
  it; two nodes compared with each other never give it, and a side that holds a sanitised directory
  always gives 3.
\<close>

theorem failing_exit_rests_on_evidence:
  "(fst (runCompare M draw F baseline_text a) = exitFail \<longrightarrow>
     ca_enforce a \<and> ca_peers a = [] \<and>
     (\<exists>cur src b tol r bm c k. loadSide F (ca_dirs a) = Inr cur \<and> baseline_text = Some src \<and> fl_baseline F src = Some b \<and>
        tolerances (ca_tolerance_for a) [] = Some tol \<and> r \<in> set (snd (runCompare M draw F baseline_text a)) \<and>
        (k, bm) \<in> set (bl_metrics b) \<and> bm_enforceable bm \<and> mget (sd_metrics cur) k = Some c \<and>
        regression_evidence M cur b (compare_options a tol) r bm c)) \<and>
   ((\<exists>d \<in> set (ca_dirs a) \<union> set (ca_peers a). isSanitized (rd_entries d) \<or> isSanitized (rd_above d)) \<longrightarrow>
      fst (runCompare M draw F baseline_text a) = exitError)"
proof (intro conjI impI)
  assume f: "fst (runCompare M draw F baseline_text a) = exitFail"
  then have g: "\<not> (ca_dirs a = [] \<or> (ca_baseline_file a = []) = (ca_peers a = []))"
    by (auto simp: runCompare_def exitFail_def exitError_def split: if_splits)
  then obtain tol rs where t: "tolerances (ca_tolerance_for a) [] = Some tol" and rs: "compare_results M draw F baseline_text a tol = Some rs"
    and e: "list_ex cr_enforced rs"
    using f by (auto simp: runCompare_def exitFail_def exitError_def exitPass_def split: option.splits if_splits)
  obtain cur where cur: "loadSide F (ca_dirs a) = Inr cur" using rs by (auto simp: compare_results_def split: sum.splits)
  have "ca_baseline_file a \<noteq> []" using rs e cur Symmetry_enforces_nothing by (auto simp: compare_results_def split: sum.splits if_splits)
  then obtain src b where b: "baseline_text = Some src" "fl_baseline F src = Some b" "AgainstBaseline M cur b (compare_options a tol) = Inr rs"
    using rs cur by (auto simp: compare_results_def split: option.splits sum.splits if_splits)
  have s: "snd (runCompare M draw F baseline_text a) = rs" using g t rs by (simp add: runCompare_def)
  obtain r where r: "r \<in> set rs" "cr_enforced r" using e by (auto simp: list_ex_iff)
  from AgainstBaseline_enforced[OF b(3) r] obtain k bm c where k: "(k, bm) \<in> set (bl_metrics b)" "bm_enforceable bm"
      "co_enforce (compare_options a tol)" "mget (sd_metrics cur) k = Some c" "regression_evidence M cur b (compare_options a tol) r bm c"
    by blast
  show "ca_enforce a" using k(3) by (simp add: compare_options_def)
  show "ca_peers a = []" using g \<open>ca_baseline_file a \<noteq> []\<close> by simp
  show "\<exists>cur src b tol r bm c k. loadSide F (ca_dirs a) = Inr cur \<and> baseline_text = Some src \<and> fl_baseline F src = Some b \<and>
        tolerances (ca_tolerance_for a) [] = Some tol \<and> r \<in> set (snd (runCompare M draw F baseline_text a)) \<and>
        (k, bm) \<in> set (bl_metrics b) \<and> bm_enforceable bm \<and> mget (sd_metrics cur) k = Some c \<and>
        regression_evidence M cur b (compare_options a tol) r bm c"
    unfolding s using cur b t r k by blast
next
  assume "\<exists>d \<in> set (ca_dirs a) \<union> set (ca_peers a). isSanitized (rd_entries d) \<or> isSanitized (rd_above d)"
  then have "(\<exists>err. loadSide F (ca_dirs a) = Inl err) \<or> ca_peers a \<noteq> [] \<and> (\<exists>err. loadSide F (ca_peers a) = Inl err)"
    using sanitised_is_not_loaded[of _ "ca_dirs a" F] sanitised_is_not_loaded[of _ "ca_peers a" F]
    by (fastforce simp: loadSide_def)
  then show "fst (runCompare M draw F baseline_text a) = exitError"
    by (auto simp: runCompare_def compare_results_def split: option.splits sum.splits)
qed

section \<open>An example\<close>

definition temp_lib :: file_lib where
  "temp_lib = \<lparr>fl_envelope = \<lambda>_. Some (temp_envelope ''90''), fl_baseline = \<lambda>_. Some temp_baseline, fl_follow = \<lambda>_. None, fl_to_dir = \<lambda>_. False\<rparr>"

definition temp_args :: "(string \<times> entry) list \<Rightarrow> compare_args" where
  "temp_args extra = \<lparr>ca_dirs = [\<lparr>rd_entries = (''001.json'', Regular []) # extra, rd_above = []\<rparr>], ca_peers = [], ca_baseline_file = ''b.json'',
     ca_tolerance = Fin 0, ca_tolerance_for = [], ca_enforce = True\<rparr>"

lemma temp_compared: "fst (runCompare plain_math draw temp_lib (Some []) (temp_args [])) = exitFail"
proof -
  have "loadSide temp_lib (ca_dirs (temp_args [])) = Inr (temp_side 1 (Fin 90))"
    using temp_collected(1)[OF sixty_ninety(2)] by (simp add: loadSide_def temp_args_def temp_lib_def isSanitized_def sanitizedMarker_def envelope_root_def HasSuffix_def suffix_def)
  moreover have "compare_options (temp_args []) [] = temp_options" by (simp add: compare_options_def temp_args_def temp_options_def)
  moreover have "fl_baseline temp_lib [] = Some temp_baseline" "bl_schema temp_baseline = BaselineSchema"
    by (simp_all add: temp_lib_def temp_baseline_def)
  ultimately have "compare_results plain_math draw temp_lib (Some []) (temp_args []) [] = Some [\<lparr>cr_key = ''t/gpuTempC'', cr_outcome = Regression,
      cr_cause = [], cr_current = Some (Fin 90), cr_reference = Some (Fin 60), cr_rel_delta = Some (Fin (1 / 2)), cr_method = ''prediction_interval'',
      cr_interval = Some (Fin 60, Fin 60), cr_enforced = True\<rparr>]"
    using temp_regression by (simp add: compare_results_def temp_args_def)
  then show ?thesis by (simp add: runCompare_def) (simp add: temp_args_def)
qed

theorem failing_exit_rests_on_evidence_witness:
  "fst (runCompare plain_math (\<lambda>_ _. 0) temp_lib (Some []) (temp_args [])) = exitFail \<and>
   (\<exists>cur b bm. (\<exists>c k tol r. loadSide temp_lib (ca_dirs (temp_args [])) = Inr cur \<and> (k, bm) \<in> set (bl_metrics b) \<and> bm_enforceable bm \<and>
      regression_evidence plain_math cur b (compare_options (temp_args []) tol) r bm c)) \<and>
   fst (runCompare plain_math (\<lambda>_ _. 0) temp_lib (Some []) (temp_args [(''SANITIZED.json'', Regular [])])) = exitError"
proof -
  let ?m = "(''SANITIZED.json'', Regular [])"
  have "\<exists>d \<in> set (ca_dirs (temp_args [?m])) \<union> set (ca_peers (temp_args [?m])). isSanitized (rd_entries d) \<or> isSanitized (rd_above d)"
    by (simp add: temp_args_def isSanitized_def sanitizedMarker_def)
  then have "fst (runCompare plain_math (\<lambda>_ _. 0) temp_lib (Some []) (temp_args [?m])) = exitError"
    using failing_exit_rests_on_evidence by blast
  moreover note f = temp_compared[of "\<lambda>_ _. 0"]
  moreover have "\<exists>cur b bm. (\<exists>c k tol r. loadSide temp_lib (ca_dirs (temp_args [])) = Inr cur \<and> (k, bm) \<in> set (bl_metrics b) \<and> bm_enforceable bm \<and>
      regression_evidence plain_math cur b (compare_options (temp_args []) tol) r bm c)"
    using failing_exit_rests_on_evidence[of plain_math "\<lambda>_ _. 0" temp_lib "Some []" "temp_args []"] f by blast
  ultimately show ?thesis by blast
qed

end
