(* ===== verification/Spec2Isabelle.thy ===== *)
theory Spec2Isabelle
  imports Run_Results Group_Fold Admission Run_Safety Run_Wedge Schedule Fingerprint_Drift Fingerprint_Order
    Delivery_Facts Plan_Pin Sanitize_Props Compare_Command
begin

text \<open>
  \<^bold>\<open>Verification of glimmer-burnin.\<close>

  The operator accepts or refuses GPU hardware. A \<^verbatim>\<open>BurnInRun\<close> names a profile and a set of
  nodes; the controller admits it when no other run holds those nodes, expands the profile into
  a plan of tests, executes each test as pods, reads what the pods printed, holds the readings
  against the test's thresholds, and settles every test and then the run as Passed, Failed,
  Error, Skipped or Cancelled. What has to be right is the path from the bytes a runner prints
  to that verdict: no pass without evidence, no hardware blamed for what the machinery or
  the author of a profile did, no work left open.

  \<^bold>\<open>Theories and sources.\<close>

  \<^item> \<^verbatim>\<open>Prelude\<close>: Go maps as association lists, the loop locales, sorting of strings, messages as
    terms. \<^verbatim>\<open>Go_Float\<close>, \<^verbatim>\<open>Go_Strings\<close>, \<^verbatim>\<open>Go_Sha256\<close>: what the code uses of the standard library
    (strconv.ParseFloat and FormatFloat on IEEE doubles, package strings, crypto/sha256).
  \<^item> \<^verbatim>\<open>Contract\<close>, \<^verbatim>\<open>Registry\<close>: pkg/contract (verdict words, test kinds, thresholds; the table of
    registered metrics with units, aggregations and combinations; the name grammar).
  \<^item> \<^verbatim>\<open>Verdict\<close>, \<^verbatim>\<open>Lint\<close>: pkg/verdict (Evaluate; ValidateThresholds).
  \<^item> \<^verbatim>\<open>Artifact\<close>, \<^verbatim>\<open>Runner_Parse\<close>: pkg/runner (fenced artifacts; exit codes, skip declarations,
    metric lines, aliases).
  \<^item> \<^verbatim>\<open>Group_Fold\<close>: pkg/group (one verdict and one report for the ranks of a collective).
  \<^item> \<^verbatim>\<open>Api_Types\<close>: api/v1alpha1, the custom resources as records.
  \<^item> \<^verbatim>\<open>Plan_Expand\<close>, \<^verbatim>\<open>Run_Plan\<close>: pkg/plan and internal/controller/plan.go (variants, refusals, the
    plan a run is pinned to).
  \<^item> \<^verbatim>\<open>Soak\<close>: internal/controller/soak.go (segments, aggregation, early abort, history).
  \<^item> \<^verbatim>\<open>Admission\<close>: internal/controller/admission.go (which run may hold a node).
  \<^item> \<^verbatim>\<open>Attempts\<close>, \<^verbatim>\<open>Run_Results\<close>: the part of internal/controller/burninrun\_controller.go that turns
    executions into results and results into the verdict of the run.
  \<^item> \<^verbatim>\<open>Runner_Images\<close>, \<^verbatim>\<open>Pods\<close>, \<^verbatim>\<open>Pod_Names\<close>: pkg/runnerimages and internal/controller/pods.go (the image,
    the pod and the name of an execution, and what is read off a pod).
  \<^item> \<^verbatim>\<open>Harvest\<close>: harvestPod and the combination of a pair and of a group, of
    burninrun\_controller.go, pair.go and group.go.
  \<^item> \<^verbatim>\<open>Kube_Api\<close>, \<^verbatim>\<open>Go_Time\<close>: the calls to the API server and what they may answer; RFC 3339 times.
  \<^item> \<^verbatim>\<open>Cordon\<close>: internal/controller/cordon.go and cordonreaper.go (stamps on nodes, cordons, their release
    and the reaping of orphans).
  \<^item> \<^verbatim>\<open>Artifact_Store\<close>: internal/controller/artifacts.go (the ConfigMap of a run's artifacts).
  \<^item> \<^verbatim>\<open>Advance\<close>, \<^verbatim>\<open>Execute\<close>, \<^verbatim>\<open>Run_Safety\<close>: advance, advancePair and advanceGroup; execute, step, cancel,
    expire, finalize, terminate, reconcileTerminal and reconcileDeleted; what holds of every step.
    \<^verbatim>\<open>Run_Wedge\<close>: two executions in which the concurrency cap and the cleanup of a run go wrong.
  \<^item> \<^verbatim>\<open>Schedule\<close>: internal/controller/burninschedule\_controller.go (due ticks, the concurrency policy,
    the cursor, the history of runs). The cron library, the time zone and the names of the API
    server are parameters.
  \<^item> \<^verbatim>\<open>Plan_Pin\<close>: pinPlan and loadPlan of plan.go (the annotation that holds the plan, base64).
  \<^item> \<^verbatim>\<open>Envelope\<close>, \<^verbatim>\<open>Delivery\<close>, \<^verbatim>\<open>Delivery_Facts\<close>: pkg/contract/envelope.go and producer.go, internal/sink and
    internal/controller/deliver.go (the document about a run, its validation, retries, webhooks and ConfigMaps, the
    fan-out to the sinks). The pass only asks whether the fan-out succeeded (\<open>en_deliver\<close>); the
    last section of this theory puts the two together.
  \<^item> \<^verbatim>\<open>Fingerprint\<close>: internal/controller/nodefingerprint\_controller.go and vendor.go (what a node publishes,
    its digest, drift, the record of a node). \<^verbatim>\<open>Fingerprint_Drift\<close>, \<^verbatim>\<open>Fingerprint_Digest\<close> and
    \<^verbatim>\<open>Fingerprint_Order\<close>: what holds of the record, of the digest, and of the order of maps. \<^verbatim>\<open>Go_Conv\<close>: integers and searches of
    the standard library.
  \<^item> \<^verbatim>\<open>Seal\<close>, \<^verbatim>\<open>Seal_Facts\<close>: cmd/burnin/seal.go (the list of digests over a results directory, as a tree
    of entries, and its verification).
  \<^item> \<^verbatim>\<open>Sanitize\<close>, \<^verbatim>\<open>Sanitize_Facts\<close>, \<^verbatim>\<open>Sanitize_State\<close>: pkg/sanitize (rules, detection of spans, pseudonyms,
    stand-in addresses, the walk over a document, the second look). \<^verbatim>\<open>Sanitize_Dir\<close>, \<^verbatim>\<open>Sanitize_Props\<close>:
    cmd/burnin/sanitize.go and what the two promise together. \<^verbatim>\<open>Go_Regexp\<close>, \<^verbatim>\<open>Go_Net\<close>, \<^verbatim>\<open>Go_Arith\<close>: the patterns,
    addresses and double arithmetic they use; the JSON codec and \<^verbatim>\<open>math.Log2\<close> are parameters.
  \<^item> \<^verbatim>\<open>Stats\<close>, \<^verbatim>\<open>Stats_Facts\<close>: pkg/stats on doubles; the transcendental functions and the random source are
    parameters. \<^verbatim>\<open>Compare\<close>, \<^verbatim>\<open>Compare_Facts\<close>: pkg/compare (collecting runs, promoting a baseline, a run
    against a baseline, two nodes against each other). \<^verbatim>\<open>Compare_Command\<close>: cmd/burnin/compare.go.

  \<^bold>\<open>What is shown.\<close> Evaluate is a refinement of the gate-by-gate meaning of thresholds, fails
  closed and is monotone; the linter rejects exactly the unsatisfiable gates, and buildPlan
  accepts exactly the sound plans, so that an accepted plan never yields a violation that blames
  its author. Parsing keeps its evidence consistent, a fenced artifact cannot change a
  measurement, a skip has to be declared. A group passes only at full turnout and certifies
  every rank; a soak passes on exactly its segments, certifies each, and is aborted only on a
  violation no later segment can retract. Two runs never hold a node together unless one was
  forced (or a manager died in one window, which is exhibited). Every result settles within a
  bound, passes only when its attempts did, and winding a run up leaves nothing open. A step
  ends a run as Passed only on settled work, deletes no pod whose verdict it could not write, and
  lets go of the finalizer only when no pod and no cordon is left. A node that carries no
  stamp is as schedulable as it was found, after any sequence of events. Artifacts stay
  in their budget and match their digests, except when a pod prints one name twice. A schedule
  runs no tick twice, keeps one active run under Forbid and collects only old verdicts. A pod
  that outlived its attempt keeps its slot for ever, and a cap of one can run two nodes. The digest
  of a node separates observations, drift is recorded for good, a node at rest is not written again,
  and the order of a map reaches the digest only where two labels name one fact (which they do on
  nodes labelled by NVIDIA's feature discovery). A pinned plan reads back, up to 4 MiB. A verdict is
  owed until every sink holds it; deliveries of one event share an ID, and a ConfigMap sink loses nothing.
  A sealed directory verifies and its list fixes its files; a sanitised copy names no recorded host or user, keeps every
  measurement and maps addresses one to one into documentation ranges, and two ways around it are exhibited.
  A baseline is the clean readings of its runs, a comparison gives every metric one outcome, and its
  exit code fails only on an enforced regression with the evidence for it; one run given five times
  counts as five, which is exhibited.

  \<^bold>\<open>Conventions.\<close> A Go map is an association list with distinct keys, in the order of
  insertion; where the code ranges over a map the theorems hold for that order and the code
  sorts before it shows anything. Text for people is a \<open>msg\<close> term that records the format and its
  arguments and is not rendered. Integers are \<open>int\<close>; the counters and durations they model are
  far below the width of the Go types, and every division is taken on positive operands. Case
  mapping is ASCII. Cluster objects are maps in the state; the parameter \<open>en_api\<close> says which
  calls fail, so that every theorem about a step covers every pattern of failures. The vendor of a
  node, the logs of a pod and whether the sinks took an envelope are parameters. What the API server
  answers to a label selector is the parameter \<open>matching\<close>. All recursion is structural or has a
  measure, so there is no fuel anywhere.

  \<^bold>\<open>Not modelled.\<close> The JSON text of envelopes and plans, conditions and
  events on the status, caches, the metrics endpoint,
  pkg/report, pkg/localrun, the runner
  programs under runners/ (they drive hardware), the rest of the command line tools, generated deepcopy code.
\<close>

section \<open>From the bytes of a runner to a verdict\<close>



section \<open>From a verdict to its sinks\<close>





end
